(* ===== verification/Prelude.thy ===== *)
theory Prelude
  imports Main "HOL-Library.Word" "HOL-Library.Code_Target_Nat"
begin

text \<open>
  Shared vocabulary of the development: machine types, the outcome type of Rust code that
  may return an error or panic, checked indexing and slicing, big-endian byte encodings
  (\<open>to_be_bytes\<close> and \<open>from_be_bytes\<close>), saturating 64-bit arithmetic, and the generic
  interfaces (a framed codec, a state machine with an invariant) that the components
  interpret.
\<close>

unbundle bit_operations_syntax

section \<open>Machine types\<close>

type_synonym byte = "8 word"
type_synonym bytes = "8 word list"
type_synonym u8 = "8 word"
type_synonym u16 = "16 word"
type_synonym u32 = "32 word"

text \<open>
  \<open>usize\<close> and \<open>u64\<close> values are natural numbers; the operations below write out where the
  width shows. \<open>Instant\<close> and \<open>Duration\<close> are nanoseconds on the monotonic clock,
  \<open>DateTime<Utc>\<close> is nanoseconds since the epoch.
\<close>

type_synonym usize = nat
type_synonym u64 = nat
type_synonym instant = nat
type_synonym duration = nat
type_synonym datetime = int

definition u64_max :: nat where
  "u64_max = 18446744073709551615"

definition saturating_add :: "u64 \<Rightarrow> u64 \<Rightarrow> u64" where
  "saturating_add a b = min (a + b) u64_max"

definition from_secs :: "u64 \<Rightarrow> duration" where
  "from_secs s = s * 1000000000"

definition from_millis :: "u64 \<Rightarrow> duration" where
  "from_millis s = s * 1000000"

section \<open>Collections of simplification rules\<close>

named_theorems wire_simps \<open>byte encodings and checked slicing\<close>
named_theorems step_simps \<open>operations of the state machines, unfolded one step\<close>

section \<open>Outcomes of Rust code\<close>

text \<open>
  \<open>Ok\<close> and \<open>Err\<close> are the two constructors of \<open>Result\<close>; \<open>Panic\<close> is an out-of-range
  index, a bad slice range or an arithmetic underflow, which aborts the task.
\<close>

datatype ('e, 'a) rust = Ok 'a | Err 'e | Panic

definition bindR :: "('e, 'a) rust \<Rightarrow> ('a \<Rightarrow> ('e, 'b) rust) \<Rightarrow> ('e, 'b) rust" where
  "bindR m f = (case m of Ok x \<Rightarrow> f x | Err e \<Rightarrow> Err e | Panic \<Rightarrow> Panic)"

lemma bindR_simps [simp]:
  "bindR (Ok x) f = f x"
  "bindR (Err e) f = Err e"
  "bindR Panic f = Panic"
  by (simp_all add: bindR_def)

lemma bindR_eq_Ok_iff: "bindR m f = Ok y \<longleftrightarrow> (\<exists>x. m = Ok x \<and> f x = Ok y)"
  by (cases m) auto

definition unwrap_or :: "'a option \<Rightarrow> 'a \<Rightarrow> 'a" where
  "unwrap_or v d = (case v of None \<Rightarrow> d | Some x \<Rightarrow> x)"

definition or_else :: "'a option \<Rightarrow> 'a option \<Rightarrow> 'a option" where
  "or_else a b = (case a of Some x \<Rightarrow> Some x | None \<Rightarrow> b)"

definition index_at :: "'a list \<Rightarrow> nat \<Rightarrow> ('e, 'a) rust" where
  "index_at xs i = (if i < length xs then Ok (xs ! i) else Panic)"

definition slice :: "'a list \<Rightarrow> nat \<Rightarrow> nat \<Rightarrow> ('e, 'a list) rust" where
  "slice xs a b = (if a \<le> b \<and> b \<le> length xs then Ok (take (b - a) (drop a xs)) else Panic)"

definition sub_usize :: "nat \<Rightarrow> nat \<Rightarrow> ('e, nat) rust" where
  "sub_usize a b = (if b \<le> a then Ok (a - b) else Panic)"

lemma option_ops_simps [simp]:
  "unwrap_or None d = d" "unwrap_or (Some x) d = x" "or_else None b = b" "or_else (Some x) b = Some x"
  by (simp_all add: unwrap_or_def or_else_def)

lemma index_at_ok [wire_simps]: "i < length xs \<Longrightarrow> index_at xs i = Ok (xs ! i)"
  by (simp add: index_at_def)

lemma slice_ok [wire_simps]:
  "a \<le> b \<Longrightarrow> b \<le> length xs \<Longrightarrow> slice xs a b = Ok (take (b - a) (drop a xs))"
  by (simp add: slice_def)

lemma sub_usize_ok [wire_simps]: "b \<le> a \<Longrightarrow> sub_usize a b = Ok (a - b)"
  by (simp add: sub_usize_def)

section \<open>Big-endian encodings\<close>

definition u16_to_be_bytes :: "u16 \<Rightarrow> bytes" where
  "u16_to_be_bytes w = [ucast (drop_bit 8 w), ucast w]"

definition u16_from_be_bytes :: "byte \<Rightarrow> byte \<Rightarrow> u16" where
  "u16_from_be_bytes a b = push_bit 8 (ucast a) OR ucast b"

definition u32_to_be_bytes :: "u32 \<Rightarrow> bytes" where
  "u32_to_be_bytes w =
     [ucast (drop_bit 24 w), ucast (drop_bit 16 w), ucast (drop_bit 8 w), ucast w]"

definition u32_from_be_bytes :: "byte \<Rightarrow> byte \<Rightarrow> byte \<Rightarrow> byte \<Rightarrow> u32" where
  "u32_from_be_bytes a b c d =
     push_bit 24 (ucast a) OR push_bit 16 (ucast b) OR push_bit 8 (ucast c) OR ucast d"

lemma length_to_be_bytes [simp]:
  "length (u16_to_be_bytes w) = 2" "length (u32_to_be_bytes v) = 4"
  by (simp_all add: u16_to_be_bytes_def u32_to_be_bytes_def)

lemma byte_high_bit [simp]: "8 \<le> n \<Longrightarrow> \<not> bit (b :: byte) n"
  using bit_imp_le_length [of b n] by auto

lemma u16_be_roundtrip [simp]:
  "u16_from_be_bytes (ucast (drop_bit 8 w)) (ucast w) = w"
  unfolding u16_from_be_bytes_def
  by (rule bit_word_eqI) (auto simp: bit_simps)

lemma u32_be_roundtrip [simp]:
  "u32_from_be_bytes (ucast (drop_bit 24 w)) (ucast (drop_bit 16 w)) (ucast (drop_bit 8 w)) (ucast w)
     = w"
proof (rule bit_word_eqI)
  fix n assume "n < LENGTH(32)"
  then consider "n < 8" | "8 \<le> n" "n < 16" | "16 \<le> n" "n < 24" | "24 \<le> n" "n < 32"
    by force
  then show "bit (u32_from_be_bytes (ucast (drop_bit 24 w)) (ucast (drop_bit 16 w))
    (ucast (drop_bit 8 w)) (ucast w)) n = bit w n"
    by cases (auto simp: u32_from_be_bytes_def bit_simps)
qed

lemma u16_be_roundtrip' [simp]:
  "u16_to_be_bytes (u16_from_be_bytes a b) = [a, b]"
  unfolding u16_from_be_bytes_def u16_to_be_bytes_def
  by (auto intro!: bit_word_eqI simp: bit_simps)

lemma u32_be_roundtrip' [simp]:
  "u32_to_be_bytes (u32_from_be_bytes a b c d) = [a, b, c, d]"
  unfolding u32_from_be_bytes_def u32_to_be_bytes_def
  by (auto intro!: bit_word_eqI simp: bit_simps)

section \<open>Reading from a byte stream\<close>

text \<open>
  A reader is the list of bytes the peer will still deliver before it closes the
  connection. \<open>read_exact\<close> fails with the given end-of-file error when they are too few.
\<close>

definition read_exact :: "'e \<Rightarrow> nat \<Rightarrow> bytes \<Rightarrow> ('e, bytes \<times> bytes) rust" where
  "read_exact eof n r = (if length r < n then Err eof else Ok (take n r, drop n r))"

lemma read_exact_append [wire_simps]:
  "length xs = n \<Longrightarrow> read_exact eof n (xs @ rest) = Ok (xs, rest)"
  by (simp add: read_exact_def)

lemma read_exact_short [wire_simps]: "length r < n \<Longrightarrow> read_exact eof n r = Err eof"
  by (simp add: read_exact_def)

fun write_all_frames :: "('m \<Rightarrow> ('e, bytes) rust) \<Rightarrow> 'm list \<Rightarrow> ('e, bytes) rust" where
  "write_all_frames wr [] = Ok []"
| "write_all_frames wr (m # ms) =
     bindR (wr m) (\<lambda>b. bindR (write_all_frames wr ms) (\<lambda>bs. Ok (b @ bs)))"

fun read_frames :: "(bytes \<Rightarrow> ('e, 'm \<times> bytes) rust) \<Rightarrow> nat \<Rightarrow> bytes \<Rightarrow> ('e, 'm list \<times> bytes) rust" where
  "read_frames rd 0 r = Ok ([], r)"
| "read_frames rd (Suc n) r =
     bindR (rd r) (\<lambda>(m, r'). bindR (read_frames rd n r') (\<lambda>(ms, r''). Ok (m # ms, r'')))"

text \<open>
  The contract of a length-delimited protocol: what the writer accepts, that the reader
  gives it back whatever follows on the wire, and that a truncated frame is an error
  rather than a shorter message.
\<close>

locale frame_codec =
  fixes wr :: "'m \<Rightarrow> ('e, bytes) rust"
    and rd :: "bytes \<Rightarrow> ('e, 'm \<times> bytes) rust"
    and accepts :: "'m \<Rightarrow> bool"
  assumes wr_accepts: "accepts m \<Longrightarrow> \<exists>b. wr m = Ok b"
    and wr_rejects: "\<not> accepts m \<Longrightarrow> \<exists>e. wr m = Err e"
    and rd_wr: "wr m = Ok b \<Longrightarrow> rd (b @ rest) = Ok (m, rest)"
    and rd_truncated: "wr m = Ok b \<Longrightarrow> n < length b \<Longrightarrow> \<exists>e. rd (take n b) = Err e"
begin

lemma write_all_accepts:
  "\<forall>m \<in> set ms. accepts m \<Longrightarrow> \<exists>b. write_all_frames wr ms = Ok b"
  by (induction ms) (use wr_accepts in fastforce)+

lemma write_all_Ok_accepts:
  "write_all_frames wr ms = Ok b \<Longrightarrow> \<forall>m \<in> set ms. accepts m"
proof (induction ms arbitrary: b)
  case (Cons a ms)
  then show ?case using wr_rejects [of a] by (cases "accepts a") (auto simp: bindR_eq_Ok_iff)
qed simp

lemma frames_roundtrip:
  "write_all_frames wr ms = Ok b \<Longrightarrow> read_frames rd (length ms) (b @ rest) = Ok (ms, rest)"
proof (induction ms arbitrary: b)
  case Nil
  then show ?case by simp
next
  case (Cons m ms)
  then obtain b1 b2 where "wr m = Ok b1" "write_all_frames wr ms = Ok b2" "b = b1 @ b2"
    by (auto simp: bindR_eq_Ok_iff)
  with Cons.IH show ?case by (simp add: rd_wr)
qed

lemma frame_boundaries:
  assumes "wr m = Ok b" "wr m' = Ok b'" "b @ rest = b' @ rest'"
  shows "m = m' \<and> rest = rest'"
  using rd_wr [OF assms(1), of rest] rd_wr [OF assms(2), of rest'] assms(3) by simp

lemma frames_truncated:
  assumes "write_all_frames wr ms = Ok b" and "wr m = Ok c" and "n < length c"
  shows "\<exists>e. read_frames rd (Suc (length ms)) (b @ take n c) = Err e"
  using assms
proof (induction ms arbitrary: b)
  case Nil
  then show ?case using rd_truncated [OF Nil.prems(2,3)] by auto
next
  case (Cons a ms)
  then obtain b1 b2 where *: "wr a = Ok b1" "write_all_frames wr ms = Ok b2" "b = b1 @ b2"
    by (auto simp: bindR_eq_Ok_iff)
  from Cons.IH [OF *(2) Cons.prems(2,3)] * show ?case
    by (auto simp: rd_wr)
qed

end

text \<open>
  The contract of a state machine driven by a sequence of events: every step keeps the
  invariant. Then it holds in every state a run reaches.
\<close>

locale machine =
  fixes step :: "'e \<Rightarrow> 's \<Rightarrow> 's"
    and inv :: "'s \<Rightarrow> bool"
  assumes step_inv: "inv s \<Longrightarrow> inv (step e s)"
begin

lemma run_inv: "inv s \<Longrightarrow> inv (fold step es s)"
  by (induction es arbitrary: s) (auto intro: step_inv)

end

end
