(* ===== verification/Proto.thy ===== *)
theory Proto
  imports Prelude
begin

text \<open>
  The wire formats between the agent and the server. \<^verbatim>\<open>src/proto.rs\<close>: the 16-byte header
  protocol (\<open>Msg\<close>, \<open>write_msg\<close>, \<open>read_msg\<close>, the GAP payload). \<^verbatim>\<open>src/agent_uplink.rs\<close>: the
  6-byte header TLS records (\<open>Record\<close>, \<open>write_record\<close>, \<open>read_record\<close>) and the RTP and GAP
  payloads they carry. Both are interpretations of the framed codec interface.
\<close>

section \<open>The 16-byte header protocol\<close>

definition MAGIC :: u32 where "MAGIC = 0x534E5450"
definition VERSION :: u16 where "VERSION = 1"
definition MAX_LEN :: usize where "MAX_LEN = 256 * 1024"
definition HELLO :: u16 where "HELLO = 1"
definition RTP :: u16 where "RTP = 2"
definition GAP :: u16 where "GAP = 3"
definition MOTION :: u16 where "MOTION = 4"
definition PING :: u16 where "PING = 5"
definition PONG :: u16 where "PONG = 6"

record Msg =
  msg_type :: u16
  msg_stream_id :: u32
  msg_payload :: bytes

datatype proto_error =
    UnexpectedEof
  | PayloadTooLarge usize
  | BadMagic u32
  | BadVersion u16
  | GapPayloadLen

definition write_msg :: "Msg \<Rightarrow> (proto_error, bytes) rust" where
  "write_msg msg =
     (if length (msg_payload msg) > MAX_LEN then Err (PayloadTooLarge (length (msg_payload msg)))
      else
        let header = u32_to_be_bytes MAGIC @ u16_to_be_bytes VERSION
              @ u16_to_be_bytes (msg_type msg) @ u32_to_be_bytes (msg_stream_id msg)
              @ u32_to_be_bytes (of_nat (length (msg_payload msg)))
        in Ok (header @ (if msg_payload msg \<noteq> [] then msg_payload msg else [])))"

definition read_msg :: "bytes \<Rightarrow> (proto_error, Msg \<times> bytes) rust" where
  "read_msg r =
     bindR (read_exact UnexpectedEof 16 r) (\<lambda>(header, r).
       let magic = u32_from_be_bytes (header ! 0) (header ! 1) (header ! 2) (header ! 3) in
       if magic \<noteq> MAGIC then Err (BadMagic magic) else
       let version = u16_from_be_bytes (header ! 4) (header ! 5) in
       if version \<noteq> VERSION then Err (BadVersion version) else
       let mtype = u16_from_be_bytes (header ! 6) (header ! 7);
           sid = u32_from_be_bytes (header ! 8) (header ! 9) (header ! 10) (header ! 11);
           len = unat (u32_from_be_bytes (header ! 12) (header ! 13) (header ! 14) (header ! 15)) in
       if len > MAX_LEN then Err (PayloadTooLarge len) else
       bindR (if len > 0 then read_exact UnexpectedEof len r else Ok ([], r)) (\<lambda>(payload, r).
         Ok (\<lparr>msg_type = mtype, msg_stream_id = sid, msg_payload = payload\<rparr>, r)))"

definition encode_gap :: "u16 \<Rightarrow> u16 \<Rightarrow> bytes" where
  "encode_gap last_seq new_seq = u16_to_be_bytes last_seq @ u16_to_be_bytes new_seq"

definition decode_gap :: "bytes \<Rightarrow> (proto_error, u16 \<times> u16) rust" where
  "decode_gap buf =
     (if length buf \<noteq> 4 then Err GapPayloadLen
      else bindR (index_at buf 0) (\<lambda>b0. bindR (index_at buf 1) (\<lambda>b1.
           bindR (index_at buf 2) (\<lambda>b2. bindR (index_at buf 3) (\<lambda>b3.
             Ok (u16_from_be_bytes b0 b1, u16_from_be_bytes b2 b3))))))"

section \<open>TLS records of the uplink\<close>

definition MAX_PAYLOAD :: usize where "MAX_PAYLOAD = 2 * 1024 * 1024"
definition RECORD_HELLO :: u8 where "RECORD_HELLO = 1"
definition RECORD_RTP :: u8 where "RECORD_RTP = 2"
definition RECORD_EVENT :: u8 where "RECORD_EVENT = 3"
definition RECORD_PING :: u8 where "RECORD_PING = 4"
definition RECORD_CLOSE :: u8 where "RECORD_CLOSE = 5"
definition RECORD_HELLO_OK :: u8 where "RECORD_HELLO_OK = 6"
definition RECORD_ERROR :: u8 where "RECORD_ERROR = 7"
definition RECORD_GAP :: u8 where "RECORD_GAP = 8"

record Record =
  record_type :: u8
  record_flags :: u8
  record_payload :: bytes

datatype record_error = RecordEof | RecordTooLarge usize | RtpTlsTooShort usize

definition write_record :: "u8 \<Rightarrow> u8 \<Rightarrow> bytes \<Rightarrow> (record_error, bytes) rust" where
  "write_record rtype flags payload =
     (if length payload > MAX_PAYLOAD then Err (RecordTooLarge (length payload))
      else
        let header = [rtype, flags] @ u32_to_be_bytes (of_nat (length payload))
        in Ok (header @ (if payload \<noteq> [] then payload else [])))"

definition read_record :: "bytes \<Rightarrow> (record_error, Record \<times> bytes) rust" where
  "read_record r =
     bindR (read_exact RecordEof 6 r) (\<lambda>(header, r).
       let rtype = header ! 0;
           flags = header ! 1;
           len = unat (u32_from_be_bytes (header ! 2) (header ! 3) (header ! 4) (header ! 5)) in
       if len > MAX_PAYLOAD then Err (RecordTooLarge len) else
       bindR (if len > 0 then read_exact RecordEof len r else Ok ([], r)) (\<lambda>(payload, r).
         Ok (\<lparr>record_type = rtype, record_flags = flags, record_payload = payload\<rparr>, r)))"

definition encode_rtp_tls :: "u32 \<Rightarrow> bytes \<Rightarrow> bytes" where
  "encode_rtp_tls sid rtp_bytes = u32_to_be_bytes sid @ rtp_bytes"

definition encode_gap_tls :: "u32 \<Rightarrow> u16 \<Rightarrow> u16 \<Rightarrow> bytes" where
  "encode_gap_tls sid last_seq new_seq =
     u32_to_be_bytes sid @ u16_to_be_bytes last_seq @ u16_to_be_bytes new_seq"

definition decode_rtp_tls :: "bytes \<Rightarrow> (record_error, u32 \<times> bytes) rust" where
  "decode_rtp_tls buf =
     (if length buf < 4 then Err (RtpTlsTooShort (length buf))
      else bindR (index_at buf 0) (\<lambda>b0. bindR (index_at buf 1) (\<lambda>b1.
           bindR (index_at buf 2) (\<lambda>b2. bindR (index_at buf 3) (\<lambda>b3.
           bindR (slice buf 4 (length buf)) (\<lambda>rtp.
             Ok (u32_from_be_bytes b0 b1 b2 b3, rtp)))))))"

section \<open>Both formats are framed codecs\<close>

lemma unat_of_nat_u32: "n < 4294967296 \<Longrightarrow> unat (of_nat n :: u32) = n"
  by (simp add: unat_of_nat)

lemma take_short_header:
  "n < length hdr \<Longrightarrow> length hdr \<le> k \<Longrightarrow> read_exact eof k (take n (hdr @ p)) = Err eof"
  by (simp add: read_exact_def)

lemma read_msg_of_header:
  assumes "length hdr = 16" "hdr = u32_to_be_bytes MAGIC @ u16_to_be_bytes VERSION
      @ u16_to_be_bytes t @ u32_to_be_bytes s @ u32_to_be_bytes (of_nat len)"
    and "len \<le> MAX_LEN"
  shows "read_msg (hdr @ r) =
     bindR (if len > 0 then read_exact UnexpectedEof len r else Ok ([], r)) (\<lambda>(payload, r).
       Ok (\<lparr>msg_type = t, msg_stream_id = s, msg_payload = payload\<rparr>, r))"
proof -
  have "unat (of_nat len :: u32) = len"
    using assms(3) by (intro unat_of_nat_u32) (simp add: MAX_LEN_def)
  with assms show ?thesis
    by (simp add: read_msg_def read_exact_def u32_to_be_bytes_def u16_to_be_bytes_def Let_def)
qed

lemma read_record_of_header:
  assumes "len \<le> MAX_PAYLOAD"
  shows "read_record ([t, f] @ u32_to_be_bytes (of_nat len) @ r) =
     bindR (if len > 0 then read_exact RecordEof len r else Ok ([], r)) (\<lambda>(payload, r).
       Ok (\<lparr>record_type = t, record_flags = f, record_payload = payload\<rparr>, r))"
proof -
  have "unat (of_nat len :: u32) = len"
    using assms by (intro unat_of_nat_u32) (simp add: MAX_PAYLOAD_def)
  with assms show ?thesis
    by (simp add: read_record_def read_exact_def u32_to_be_bytes_def Let_def)
qed

lemma write_msg_OkE:
  assumes "write_msg m = Ok b"
  obtains hdr where "b = hdr @ msg_payload m" "length hdr = 16"
    "hdr = u32_to_be_bytes MAGIC @ u16_to_be_bytes VERSION @ u16_to_be_bytes (msg_type m)
       @ u32_to_be_bytes (msg_stream_id m) @ u32_to_be_bytes (of_nat (length (msg_payload m)))"
    "length (msg_payload m) \<le> MAX_LEN"
  using assms by (simp add: write_msg_def Let_def split: if_splits)

lemma write_record_OkE:
  assumes "write_record t f p = Ok b"
  obtains "b = [t, f] @ u32_to_be_bytes (of_nat (length p)) @ p" "length p \<le> MAX_PAYLOAD"
  using assms by (simp add: write_record_def Let_def split: if_splits)

lemma read_payload_exact:
  "bindR (if length p > 0 then read_exact eof (length p) (p @ rest) else Ok ([], p @ rest)) f
     = f (p, rest)"
  by (simp add: read_exact_def)

lemma read_payload_short:
  assumes "n < length p"
  shows "bindR (if length p > 0 then read_exact eof (length p) (take n p) else Ok ([], take n p)) f
     = Err eof"
  using assms by (cases p) (simp_all add: read_exact_def)

interpretation msg_frames: frame_codec write_msg read_msg "\<lambda>m. length (msg_payload m) \<le> MAX_LEN"
proof unfold_locales
  fix m b rest assume "write_msg m = Ok b"
  then obtain hdr where b: "b = hdr @ msg_payload m" and hdr: "length hdr = 16"
    "hdr = u32_to_be_bytes MAGIC @ u16_to_be_bytes VERSION @ u16_to_be_bytes (msg_type m)
       @ u32_to_be_bytes (msg_stream_id m) @ u32_to_be_bytes (of_nat (length (msg_payload m)))"
    "length (msg_payload m) \<le> MAX_LEN" by (rule write_msg_OkE)
  show "read_msg (b @ rest) = Ok (m, rest)"
    by (simp only: b append_assoc read_msg_of_header [OF hdr] read_payload_exact) simp
next
  fix m b n assume w: "write_msg m = Ok b" and n: "n < length b"
  obtain hdr where b: "b = hdr @ msg_payload m" and hdr: "length hdr = 16"
    "hdr = u32_to_be_bytes MAGIC @ u16_to_be_bytes VERSION @ u16_to_be_bytes (msg_type m)
       @ u32_to_be_bytes (msg_stream_id m) @ u32_to_be_bytes (of_nat (length (msg_payload m)))"
    "length (msg_payload m) \<le> MAX_LEN" using w by (rule write_msg_OkE)
  show "\<exists>e. read_msg (take n b) = Err e"
  proof (cases "n < 16")
    case True
    then show ?thesis by (simp add: read_msg_def read_exact_short min.strict_coboundedI2)
  next
    case False
    then have t: "take n b = hdr @ take (n - 16) (msg_payload m)" using b hdr(1) by simp
    have "n - 16 < length (msg_payload m)" using n b hdr(1) False by simp
    then show ?thesis
      by (simp only: t read_msg_of_header [OF hdr] read_payload_short) simp
  qed
qed (auto simp: write_msg_def Let_def)

definition write_rec :: "Record \<Rightarrow> (record_error, bytes) rust" where
  "write_rec r = write_record (record_type r) (record_flags r) (record_payload r)"

interpretation tls_records: frame_codec write_rec read_record
  "\<lambda>r. length (record_payload r) \<le> MAX_PAYLOAD"
proof unfold_locales
  fix m b rest assume "write_rec m = Ok b"
  then have b: "b = [record_type m, record_flags m]
      @ u32_to_be_bytes (of_nat (length (record_payload m))) @ record_payload m"
    and l: "length (record_payload m) \<le> MAX_PAYLOAD"
    unfolding write_rec_def by (elim write_record_OkE; simp)+
  show "read_record (b @ rest) = Ok (m, rest)"
    by (simp only: b append_assoc read_record_of_header [OF l] read_payload_exact) simp
next
  fix m b n assume w: "write_rec m = Ok b" and n: "n < length b"
  have b: "b = [record_type m, record_flags m]
      @ u32_to_be_bytes (of_nat (length (record_payload m))) @ record_payload m"
    and l: "length (record_payload m) \<le> MAX_PAYLOAD"
    using w unfolding write_rec_def by (elim write_record_OkE; simp)+
  show "\<exists>e. read_record (take n b) = Err e"
  proof (cases "n < 6")
    case True
    then show ?thesis by (simp add: read_record_def read_exact_short min.strict_coboundedI2)
  next
    case False
    then have "n = 6 + (n - 6)" by simp
    then obtain k where k: "n = 6 + k" by blast
    then have t: "take n b = [record_type m, record_flags m]
      @ u32_to_be_bytes (of_nat (length (record_payload m))) @ take k (record_payload m)"
      unfolding b k by (simp del: add_Suc_right add_2_eq_Suc add_2_eq_Suc' add: take_Cons')
    have "k < length (record_payload m)" using n b k by simp
    then show ?thesis
      by (simp only: t read_record_of_header [OF l] read_payload_short) simp
  qed
qed (auto simp: write_rec_def write_record_def Let_def)

section \<open>Properties\<close>

text \<open>
  A batch of messages that \<open>write_msg\<close> accepts is read back by as many calls of
  \<open>read_msg\<close>, unchanged and in order, whatever bytes follow on the connection.
\<close>

theorem msg_stream_roundtrip:
  assumes "\<forall>m \<in> set ms. length (msg_payload m) \<le> MAX_LEN"
  shows "\<exists>b. write_all_frames write_msg ms = Ok b
           \<and> read_frames read_msg (length ms) (b @ rest) = Ok (ms, rest)"
  using msg_frames.write_all_accepts [OF assms] msg_frames.frames_roundtrip by blast

theorem msg_stream_roundtrip_witness:
  "\<exists>b. write_all_frames write_msg
          [\<lparr>msg_type = 2, msg_stream_id = 7, msg_payload = [0x80, 0x60]\<rparr>,
           \<lparr>msg_type = 5, msg_stream_id = 0, msg_payload = []\<rparr>] = Ok b
      \<and> read_frames read_msg 2 (b @ [1, 2, 3])
          = Ok ([\<lparr>msg_type = 2, msg_stream_id = 7, msg_payload = [0x80, 0x60]\<rparr>,
                 \<lparr>msg_type = 5, msg_stream_id = 0, msg_payload = []\<rparr>], [1, 2, 3])"
  using msg_stream_roundtrip [of
     "[\<lparr>msg_type = 2, msg_stream_id = 7, msg_payload = [0x80, 0x60]\<rparr>,
       \<lparr>msg_type = 5, msg_stream_id = 0, msg_payload = []\<rparr>]" "[1, 2, 3]"]
  by (simp add: MAX_LEN_def numeral_2_eq_2)

end
