(* ===== verification/Rtp.thy ===== *)
theory Rtp
  imports Prelude
begin

text \<open>
  RTP packet parsing. \<^verbatim>\<open>src/core/rtp.rs\<close> (\<open>RtpPacket::parse\<close> on a borrowed slice, used by
  every receive loop) and \<^verbatim>\<open>src/core/rtp_refactored.rs\<close> (the zero-copy variant over
  \<open>Bytes\<close> with its accessors). Indexing is checked, so that absence of panics is a theorem;
  the specification is an encoder written from the RFC 3550 layout, and the two parsers are
  proved to agree.
\<close>

section \<open>The slice parser\<close>

record RtpPacket =
  rp_version :: u8
  rp_padding :: bool
  rp_extension :: bool
  rp_csrc_count :: u8
  rp_marker :: bool
  rp_payload_type :: u8
  rp_sequence_number :: u16
  rp_timestamp :: u32
  rp_ssrc :: u32
  rp_payload :: bytes

datatype rtp_parse_error =
    RtpTooShort usize
  | RtpBadVersion u8
  | RtpShortCsrc
  | RtpShortExtHeader
  | RtpShortExtData
  | RtpPaddingOnEmpty
  | RtpBadPadding usize
  | RtpOffsetBeyondEnd usize usize

definition be16_at :: "bytes \<Rightarrow> nat \<Rightarrow> ('e, u16) rust" where
  "be16_at buf i =
     bindR (index_at buf i) (\<lambda>a. bindR (index_at buf (i + 1)) (\<lambda>b.
       Ok (u16_from_be_bytes a b)))"

definition be32_at :: "bytes \<Rightarrow> nat \<Rightarrow> ('e, u32) rust" where
  "be32_at buf i =
     bindR (index_at buf i) (\<lambda>a. bindR (index_at buf (i + 1)) (\<lambda>b.
     bindR (index_at buf (i + 2)) (\<lambda>c. bindR (index_at buf (i + 3)) (\<lambda>d.
       Ok (u32_from_be_bytes a b c d)))))"

definition skip_csrc :: "bytes \<Rightarrow> u8 \<Rightarrow> usize \<Rightarrow> (rtp_parse_error, usize) rust" where
  "skip_csrc buf csrc_count off =
     (let csrc_bytes = unat csrc_count * 4 in
      if length buf < off + csrc_bytes then Err RtpShortCsrc else Ok (off + csrc_bytes))"

definition skip_extension :: "bytes \<Rightarrow> bool \<Rightarrow> usize \<Rightarrow> (rtp_parse_error, usize) rust" where
  "skip_extension buf extension off =
     (if extension then
        if length buf < off + 4 then Err RtpShortExtHeader
        else bindR (be16_at buf (off + 2)) (\<lambda>w.
          let off = off + 4; ext_bytes = unat w * 4 in
          if length buf < off + ext_bytes then Err RtpShortExtData else Ok (off + ext_bytes))
      else Ok off)"

definition strip_padding :: "bytes \<Rightarrow> bool \<Rightarrow> usize \<Rightarrow> (rtp_parse_error, usize) rust" where
  "strip_padding buf padding off =
     (let end = length buf in
      if padding then
        if end = 0 then Err RtpPaddingOnEmpty
        else bindR (index_at buf (end - 1)) (\<lambda>b.
          let pad_len = unat b in
          if pad_len = 0 \<or> pad_len > end - off then Err (RtpBadPadding pad_len)
          else sub_usize end pad_len)
      else Ok end)"

definition RtpPacket_parse :: "bytes \<Rightarrow> (rtp_parse_error, RtpPacket) rust" where
  "RtpPacket_parse buf =
     (if length buf < 12 then Err (RtpTooShort (length buf)) else
      bindR (index_at buf 0) (\<lambda>b0. bindR (index_at buf 1) (\<lambda>b1.
      let version = drop_bit 6 b0 in
      if version \<noteq> 2 then Err (RtpBadVersion version) else
      let padding = (b0 AND 0x20 \<noteq> 0);
          extension = (b0 AND 0x10 \<noteq> 0);
          csrc_count = b0 AND 0x0F;
          marker = (b1 AND 0x80 \<noteq> 0);
          payload_type = b1 AND 0x7F in
      bindR (be16_at buf 2) (\<lambda>sequence_number.
      bindR (be32_at buf 4) (\<lambda>timestamp.
      bindR (be32_at buf 8) (\<lambda>ssrc.
      bindR (skip_csrc buf csrc_count 12) (\<lambda>off.
      bindR (skip_extension buf extension off) (\<lambda>off.
      bindR (strip_padding buf padding off) (\<lambda>end.
      if off > end then Err (RtpOffsetBeyondEnd off end) else
      bindR (slice buf off end) (\<lambda>payload.
      Ok \<lparr>rp_version = version, rp_padding = padding, rp_extension = extension,
          rp_csrc_count = csrc_count, rp_marker = marker, rp_payload_type = payload_type,
          rp_sequence_number = sequence_number, rp_timestamp = timestamp, rp_ssrc = ssrc,
          rp_payload = payload\<rparr>))))))))))"

section \<open>The zero-copy parser\<close>

datatype RtpError =
    PacketTooShort usize
  | UnsupportedVersion u8
  | InvalidCsrcList
  | InvalidExtension
  | InvalidPadding usize
  | SequenceDiscontinuity u16 u16
  | PayloadTypeMismatch u8 u8

record RtpPacketZ =
  rz_data :: bytes
  rz_payload_offset :: usize
  rz_payload_len :: usize
  rz_sequence_number :: u16
  rz_timestamp :: u32
  rz_ssrc :: u32
  rz_marker :: bool
  rz_payload_type :: u8

definition skip_csrc_z :: "bytes \<Rightarrow> u8 \<Rightarrow> usize \<Rightarrow> (RtpError, usize) rust" where
  "skip_csrc_z data csrc_count offset =
     (let csrc_bytes = unat csrc_count * 4 in
      if length data < offset + csrc_bytes then Err InvalidCsrcList else Ok (offset + csrc_bytes))"

definition skip_extension_z :: "bytes \<Rightarrow> bool \<Rightarrow> usize \<Rightarrow> (RtpError, usize) rust" where
  "skip_extension_z data extension offset =
     (if extension then
        if length data < offset + 4 then Err InvalidExtension
        else bindR (be16_at data (offset + 2)) (\<lambda>w.
          let offset = offset + 4; ext_bytes = unat w * 4 in
          if length data < offset + ext_bytes then Err InvalidExtension
          else Ok (offset + ext_bytes))
      else Ok offset)"

definition strip_padding_z :: "bytes \<Rightarrow> bool \<Rightarrow> usize \<Rightarrow> (RtpError, usize) rust" where
  "strip_padding_z data padding offset =
     (let payload_end = length data in
      if padding then
        if payload_end = 0 then Err (InvalidPadding 0)
        else bindR (index_at data (payload_end - 1)) (\<lambda>b.
          let pad_len = unat b in
          if pad_len = 0 \<or> pad_len > payload_end - offset then Err (InvalidPadding pad_len)
          else sub_usize payload_end pad_len)
      else Ok payload_end)"

definition RtpPacketZ_parse :: "bytes \<Rightarrow> (RtpError, RtpPacketZ) rust" where
  "RtpPacketZ_parse data =
     (if length data < 12 then Err (PacketTooShort (length data)) else
      bindR (index_at data 0) (\<lambda>b0. bindR (index_at data 1) (\<lambda>b1.
      let version = drop_bit 6 b0 in
      if version \<noteq> 2 then Err (UnsupportedVersion version) else
      let padding = (b0 AND 0x20 \<noteq> 0);
          extension = (b0 AND 0x10 \<noteq> 0);
          csrc_count = b0 AND 0x0F;
          marker = (b1 AND 0x80 \<noteq> 0);
          payload_type = b1 AND 0x7F in
      bindR (be16_at data 2) (\<lambda>sequence_number.
      bindR (be32_at data 4) (\<lambda>timestamp.
      bindR (be32_at data 8) (\<lambda>ssrc.
      bindR (skip_csrc_z data csrc_count 12) (\<lambda>offset.
      bindR (skip_extension_z data extension offset) (\<lambda>offset.
      bindR (strip_padding_z data padding offset) (\<lambda>payload_end.
      if offset > payload_end then Err (PacketTooShort (length data)) else
      bindR (sub_usize payload_end offset) (\<lambda>payload_len.
      Ok \<lparr>rz_data = data, rz_payload_offset = offset, rz_payload_len = payload_len,
          rz_sequence_number = sequence_number, rz_timestamp = timestamp, rz_ssrc = ssrc,
          rz_marker = marker, rz_payload_type = payload_type\<rparr>))))))))))"

definition RtpPacketZ_version :: "RtpPacketZ \<Rightarrow> u8" where
  "RtpPacketZ_version p = 2"

definition RtpPacketZ_payload :: "RtpPacketZ \<Rightarrow> ('e, bytes) rust" where
  "RtpPacketZ_payload p =
     slice (rz_data p) (rz_payload_offset p) (rz_payload_offset p + rz_payload_len p)"

definition RtpPacketZ_follows :: "RtpPacketZ \<Rightarrow> u16 \<Rightarrow> bool" where
  "RtpPacketZ_follows p expected \<longleftrightarrow> rz_sequence_number p = expected"

definition RtpPacketZ_next_sequence :: "RtpPacketZ \<Rightarrow> u16" where
  "RtpPacketZ_next_sequence p = rz_sequence_number p + 1"

section \<open>Checked reads and header blocks\<close>

lemma be_at_ok [wire_simps]:
  "i + 1 < length buf \<Longrightarrow> be16_at buf i = Ok (u16_from_be_bytes (buf ! i) (buf ! (i + 1)))"
  "i + 3 < length buf \<Longrightarrow> be32_at buf i =
     Ok (u32_from_be_bytes (buf ! i) (buf ! (i + 1)) (buf ! (i + 2)) (buf ! (i + 3)))"
  by (simp_all add: be16_at_def be32_at_def index_at_def)

lemma header_blocks_no_panic:
  "skip_csrc buf c off \<noteq> Panic"
  "skip_extension buf x off \<noteq> Panic"
  "strip_padding buf p off \<noteq> Panic"
  by (auto simp: skip_csrc_def skip_extension_def strip_padding_def Let_def be_at_ok index_at_def
      sub_usize_def)

lemma skip_csrc_bounds: "skip_csrc buf c off = Ok off' \<Longrightarrow> off \<le> off' \<and> off' \<le> length buf"
  by (auto simp: skip_csrc_def Let_def split: if_splits)

lemma skip_extension_bounds:
  "skip_extension buf x off = Ok off' \<Longrightarrow> off \<le> length buf \<Longrightarrow> off \<le> off' \<and> off' \<le> length buf"
  by (auto simp: skip_extension_def Let_def bindR_eq_Ok_iff split: if_splits)

lemma strip_padding_bounds: "strip_padding buf p off = Ok e \<Longrightarrow> e \<le> length buf"
  by (auto simp: strip_padding_def Let_def bindR_eq_Ok_iff sub_usize_def split: if_splits)

lemma strip_padding_ge:
  "strip_padding buf p off = Ok e \<Longrightarrow> off \<le> length buf \<Longrightarrow> off \<le> e"
  by (auto simp: strip_padding_def Let_def bindR_eq_Ok_iff sub_usize_def split: if_splits)

section \<open>Properties of parsing\<close>

lemma parse_no_panic: "RtpPacket_parse buf \<noteq> Panic"
proof (cases "length buf < 12 \<or> drop_bit 6 (buf ! 0) \<noteq> 2")
  case True
  then show ?thesis by (auto simp: RtpPacket_parse_def index_at_def Let_def)
next
  case False
  let ?c = "skip_csrc buf (buf ! 0 AND 0x0F) 12"
  show ?thesis
  proof (cases ?c)
    case (Ok o1)
    note c = this
    show ?thesis
    proof (cases "skip_extension buf (buf ! 0 AND 0x10 \<noteq> 0) o1")
      case (Ok o2)
      note x = this
      show ?thesis
        using False c x header_blocks_no_panic(3)
        by (cases "strip_padding buf (buf ! 0 AND 0x20 \<noteq> 0) o2")
           (auto simp: RtpPacket_parse_def index_at_def be_at_ok Let_def slice_def
            dest: strip_padding_bounds)
    qed (use False c header_blocks_no_panic in
        \<open>auto simp: RtpPacket_parse_def index_at_def be_at_ok Let_def\<close>)
  qed (use False header_blocks_no_panic in
      \<open>auto simp: RtpPacket_parse_def index_at_def be_at_ok Let_def\<close>)
qed

section \<open>The two parsers agree\<close>

definition rtp_errors_agree :: "rtp_parse_error \<Rightarrow> RtpError \<Rightarrow> bool" where
  "rtp_errors_agree e z = (case e of
      RtpTooShort n \<Rightarrow> z = PacketTooShort n
    | RtpBadVersion v \<Rightarrow> z = UnsupportedVersion v
    | RtpShortCsrc \<Rightarrow> z = InvalidCsrcList
    | RtpShortExtHeader \<Rightarrow> z = InvalidExtension
    | RtpShortExtData \<Rightarrow> z = InvalidExtension
    | RtpPaddingOnEmpty \<Rightarrow> z = InvalidPadding 0
    | RtpBadPadding n \<Rightarrow> z = InvalidPadding n
    | RtpOffsetBeyondEnd off end \<Rightarrow> False)"

definition packets_agree :: "RtpPacket \<Rightarrow> RtpPacketZ \<Rightarrow> bool" where
  "packets_agree p z \<longleftrightarrow>
     rp_version p = RtpPacketZ_version z \<and> rp_marker p = rz_marker z
     \<and> rp_payload_type p = rz_payload_type z \<and> rp_sequence_number p = rz_sequence_number z
     \<and> rp_timestamp p = rz_timestamp z \<and> rp_ssrc p = rz_ssrc z
     \<and> RtpPacketZ_payload z = (Ok (rp_payload p) :: (RtpError, bytes) rust)"

definition results_agree ::
    "('a \<Rightarrow> 'b \<Rightarrow> bool) \<Rightarrow> (rtp_parse_error, 'a) rust \<Rightarrow> (RtpError, 'b) rust \<Rightarrow> bool" where
  "results_agree R r z = (case (r, z) of
      (Ok p, Ok q) \<Rightarrow> R p q
    | (Err e, Err f) \<Rightarrow> rtp_errors_agree e f
    | _ \<Rightarrow> False)"

lemma results_agree_bind:
  assumes "results_agree (=) r z" and "\<And>x. r = Ok x \<Longrightarrow> results_agree R (f x) (g x)"
  shows "results_agree R (bindR r f) (bindR z g)"
  using assms by (cases r; cases z) (auto simp: results_agree_def)

lemma blocks_agree:
  "results_agree (=) (skip_csrc buf c off) (skip_csrc_z buf c off)"
  "results_agree (=) (skip_extension buf x off) (skip_extension_z buf x off)"
  "results_agree (=) (strip_padding buf p off) (strip_padding_z buf p off)"
  by (auto simp: results_agree_def rtp_errors_agree_def skip_csrc_def skip_csrc_z_def
      skip_extension_def skip_extension_z_def strip_padding_def strip_padding_z_def Let_def
      be_at_ok index_at_def sub_usize_def)

lemma parse_tail_agree:
  assumes "off \<le> end" "end \<le> length buf"
  shows "results_agree packets_agree
     (bindR (slice buf off end) (\<lambda>payload.
      Ok \<lparr>rp_version = 2, rp_padding = padding, rp_extension = extension,
          rp_csrc_count = csrc_count, rp_marker = marker, rp_payload_type = payload_type,
          rp_sequence_number = sequence_number, rp_timestamp = timestamp, rp_ssrc = ssrc,
          rp_payload = payload\<rparr>))
     (bindR (sub_usize end off) (\<lambda>payload_len.
      Ok \<lparr>rz_data = buf, rz_payload_offset = off, rz_payload_len = payload_len,
          rz_sequence_number = sequence_number, rz_timestamp = timestamp, rz_ssrc = ssrc,
          rz_marker = marker, rz_payload_type = payload_type\<rparr>))"
  using assms
  by (simp add: slice_def sub_usize_def results_agree_def packets_agree_def RtpPacketZ_version_def
      RtpPacketZ_payload_def)

lemma parses_agree: "results_agree packets_agree (RtpPacket_parse buf) (RtpPacketZ_parse buf)"
proof (cases "length buf < 12 \<or> drop_bit 6 (buf ! 0) \<noteq> 2")
  case True
  then show ?thesis
    by (auto simp: RtpPacket_parse_def RtpPacketZ_parse_def index_at_def Let_def
        results_agree_def rtp_errors_agree_def)
next
  case False
  then have "12 \<le> length buf" "drop_bit 6 (buf ! 0) = 2" by auto
  then have b0: "(index_at buf 0 :: ('e, byte) rust) = Ok (buf ! 0)"
    and b1: "(index_at buf 1 :: ('e, byte) rust) = Ok (buf ! 1)" for e :: "'e itself"
    by (auto simp: index_at_def)
  have tail: "xc \<le> xd \<and> xd \<le> length buf"
    if "skip_csrc buf c 12 = Ok xb" "skip_extension buf x xb = Ok xc" "strip_padding buf p xc = Ok xd"
    for c x p xb xc xd
    using skip_csrc_bounds [OF that(1)] skip_extension_bounds [OF that(2)]
      strip_padding_ge [OF that(3)] strip_padding_bounds [OF that(3)] by simp
  show ?thesis
    unfolding RtpPacket_parse_def RtpPacketZ_parse_def b0 b1 bindR_simps
    using \<open>12 \<le> length buf\<close> \<open>drop_bit 6 (buf ! 0) = 2\<close>
    by (auto simp: be_at_ok Let_def not_less intro!: results_agree_bind blocks_agree parse_tail_agree
        dest: tail)
qed

section \<open>The specification: encoding a packet\<close>

lemma nat_less_16: "(n::nat) < 16 \<Longrightarrow> n \<in> {0,1,2,3,4,5,6,7,8,9,10,11,12,13,14,15}"
  by simp arith

lemma b0_fields:
  fixes p x :: bool and n :: nat
  defines "b0 \<equiv> (0x80 :: byte) OR (if p then 0x20 else 0) OR (if x then 0x10 else 0) OR of_nat n"
  assumes "n < 16"
  shows "drop_bit 6 b0 = 2 \<and> (b0 AND 0x20 \<noteq> 0 \<longleftrightarrow> p) \<and> (b0 AND 0x10 \<noteq> 0 \<longleftrightarrow> x)
    \<and> b0 AND 0x0F = of_nat n"
  using nat_less_16 [OF assms(2)] unfolding b0_def
  by (cases p; cases x) auto

lemma byte_lt_128: "unat (t::byte) < 128 \<Longrightarrow> \<not> bit t 7"
  using bit_unsigned_iff[of t 7, where 'a=nat] by (simp add: bit_iff_odd)

lemma nat_less_8: "(n::nat) < 8 \<Longrightarrow> n \<in> {0,1,2,3,4,5,6,7}"
  by simp arith

lemma b1_fields:
  assumes "unat (t::byte) < 128"
  shows "((if m then 0x80 else 0) OR t) AND 0x80 = (if m then 0x80 else 0)"
   "((if m then 0x80 else 0) OR t) AND 0x7F = t"
proof -
  have b: "\<not> bit t 7" using assms by (rule byte_lt_128)
  show "((if m then 0x80 else 0) OR t) AND 0x80 = (if m then 0x80 else 0)"
  proof (rule bit_word_eqI)
    fix n assume "n < LENGTH(8)"
    then show "bit (((if m then 0x80 else 0) OR t) AND 0x80) n = bit (if m then 0x80 else 0 :: byte) n"
      using nat_less_8 [of n] b by (auto simp: bit_simps)
  qed
  show "((if m then 0x80 else 0) OR t) AND 0x7F = t"
  proof (rule bit_word_eqI)
    fix n assume "n < LENGTH(8)"
    then show "bit (((if m then 0x80 else 0) OR t) AND 0x7F) n = bit t n"
      using nat_less_8 [of n] b by (auto simp: bit_simps)
  qed
qed
definition rtp_encode ::
    "bool \<Rightarrow> u8 \<Rightarrow> u16 \<Rightarrow> u32 \<Rightarrow> u32 \<Rightarrow> u32 list \<Rightarrow> (u16 \<times> u32 list) option \<Rightarrow> bytes \<Rightarrow> nat \<Rightarrow> bytes" where
  "rtp_encode marker pt seq ts ssrc csrcs ext payload pad =
     [0x80 OR (if pad > 0 then 0x20 else 0) OR (if ext \<noteq> None then 0x10 else 0)
        OR of_nat (length csrcs),
      (if marker then 0x80 else 0) OR pt]
     @ u16_to_be_bytes seq @ u32_to_be_bytes ts @ u32_to_be_bytes ssrc
     @ concat (map u32_to_be_bytes csrcs)
     @ (case ext of None \<Rightarrow> []
        | Some (prof, ws) \<Rightarrow> u16_to_be_bytes prof @ u16_to_be_bytes (of_nat (length ws))
            @ concat (map u32_to_be_bytes ws))
     @ payload
     @ (if pad > 0 then replicate (pad - 1) 0 @ [of_nat pad] else [])"

definition ext_fits :: "(u16 \<times> u32 list) option \<Rightarrow> bool" where
  "ext_fits ext = (case ext of None \<Rightarrow> True | Some (prof, ws) \<Rightarrow> length ws < 65536)"

lemma length_concat_be [simp]: "length (concat (map u32_to_be_bytes ws)) = 4 * length ws"
  by (induction ws) auto

lemma skip_csrc_encoded:
  assumes "length csrcs < 16" "length hdr = 12"
  shows "skip_csrc (hdr @ concat (map u32_to_be_bytes csrcs) @ rest) (of_nat (length csrcs)) 12
     = Ok (12 + 4 * length csrcs)"
  using assms by (simp add: skip_csrc_def unat_of_nat)

lemma skip_extension_encoded:
  assumes "ext_fits ext"
  shows "skip_extension (hdr @ (case ext of None \<Rightarrow> []
        | Some (prof, ws) \<Rightarrow> u16_to_be_bytes prof @ u16_to_be_bytes (of_nat (length ws))
            @ concat (map u32_to_be_bytes ws)) @ rest) (ext \<noteq> None) (length hdr)
     = Ok (length hdr + (case ext of None \<Rightarrow> 0 | Some (prof, ws) \<Rightarrow> 4 + 4 * length ws))"
proof (cases ext)
  case None
  then show ?thesis by (simp add: skip_extension_def)
next
  case (Some e)
  obtain prof ws where e: "e = (prof, ws)" by (cases e)
  with assms Some have "unat (of_nat (length ws) :: u16) = length ws"
    by (simp add: ext_fits_def unat_of_nat)
  with Some e show ?thesis
    by (simp add: skip_extension_def be_at_ok Let_def nth_append u16_to_be_bytes_def)
qed

lemma strip_padding_encoded:
  assumes "pad < 256"
  shows "strip_padding (hdr @ payload @ (if pad > 0 then replicate (pad - 1) 0 @ [of_nat pad] else []))
     (pad > 0) (length hdr) = Ok (length hdr + length payload)"
  using assms
  by (auto simp: strip_padding_def index_at_def nth_append Let_def sub_usize_def unat_of_nat)

lemma parse_encode:
  assumes "unat pt < 128" "length csrcs < 16" "pad < 256"
    and "ext_fits ext"
  shows "RtpPacket_parse (rtp_encode marker pt seq ts ssrc csrcs ext payload pad) =
     Ok \<lparr>rp_version = 2, rp_padding = (pad > 0), rp_extension = (ext \<noteq> None),
         rp_csrc_count = of_nat (length csrcs), rp_marker = marker, rp_payload_type = pt,
         rp_sequence_number = seq, rp_timestamp = ts, rp_ssrc = ssrc, rp_payload = payload\<rparr>"
proof -
  define b0 :: byte where "b0 = 0x80 OR (if pad > 0 then 0x20 else 0)
     OR (if ext \<noteq> None then 0x10 else 0) OR of_nat (length csrcs)"
  define b1 :: byte where "b1 = (if marker then 0x80 else 0) OR pt"
  define hdr where "hdr = [b0, b1] @ u16_to_be_bytes seq @ u32_to_be_bytes ts @ u32_to_be_bytes ssrc"
  define cs where "cs = concat (map u32_to_be_bytes csrcs)"
  define xs where "xs = (case ext of None \<Rightarrow> []
        | Some (prof, ws) \<Rightarrow> u16_to_be_bytes prof @ u16_to_be_bytes (of_nat (length ws))
            @ concat (map u32_to_be_bytes ws))"
  define ps where "ps = (if pad > 0 then replicate (pad - 1) 0 @ [of_nat pad] else [] :: bytes)"
  define buf where "buf = hdr @ cs @ xs @ payload @ ps"
  have enc: "rtp_encode marker pt seq ts ssrc csrcs ext payload pad = buf"
    by (simp add: rtp_encode_def buf_def hdr_def b0_def b1_def cs_def xs_def ps_def)
  have b0: "drop_bit 6 b0 = 2" "(b0 AND 0x20 \<noteq> 0) = (pad > 0)" "(b0 AND 0x10 \<noteq> 0) = (ext \<noteq> None)"
     "b0 AND 0x0F = of_nat (length csrcs)"
    using b0_fields [OF assms(2), of "pad > 0" "ext \<noteq> None"] unfolding b0_def by blast+
  have b1: "(b1 AND 0x80 \<noteq> 0) = marker" "b1 AND 0x7F = pt"
    using b1_fields [OF assms(1), of marker] by (auto simp: b1_def)
  have lh: "length hdr = 12" by (simp add: hdr_def)
  have xl: "length xs = (case ext of None \<Rightarrow> 0 | Some (prof, ws) \<Rightarrow> 4 + 4 * length ws)"
    by (auto simp: xs_def split: option.splits)
  have c: "skip_csrc buf (of_nat (length csrcs)) 12 = Ok (12 + length cs)"
    using skip_csrc_encoded [OF assms(2) lh] by (simp add: buf_def cs_def)
  have x: "skip_extension buf (ext \<noteq> None) (12 + length cs) = Ok (12 + length cs + length xs)"
    using skip_extension_encoded [OF assms(4), where hdr = "hdr @ cs" and rest = "payload @ ps"]
    by (simp add: buf_def xs_def [symmetric] xl [symmetric] lh)
  have p: "strip_padding buf (pad > 0) (12 + length cs + length xs)
      = Ok (12 + length cs + length xs + length payload)"
    using strip_padding_encoded [OF assms(3), of "hdr @ cs @ xs" payload]
    by (simp add: buf_def ps_def [symmetric] lh add.assoc)
  have len: "12 \<le> length buf" by (simp add: buf_def lh)
  have hd: "buf ! 0 = b0" "buf ! 1 = b1" "u16_from_be_bytes (buf ! 2) (buf ! 3) = seq"
    "u32_from_be_bytes (buf ! 4) (buf ! 5) (buf ! 6) (buf ! 7) = ts"
    "u32_from_be_bytes (buf ! 8) (buf ! 9) (buf ! 10) (buf ! 11) = ssrc"
    by (simp_all add: buf_def hdr_def u16_to_be_bytes_def u32_to_be_bytes_def)
  have sl: "slice buf (12 + length cs + length xs) (12 + length cs + length xs + length payload)
     = (Ok payload :: (rtp_parse_error, bytes) rust)"
    by (simp add: slice_def buf_def lh)
  show ?thesis
    unfolding enc using len hd
    by (simp add: RtpPacket_parse_def index_at_ok be_at_ok b0 b1 c x p sl Let_def
        del: not_None_eq length_greater_0_conv)
qed

section \<open>Properties\<close>

text \<open>
  Parsing recovers a packet: for every header, CSRC list, header extension, payload and
  padding that fit the RFC 3550 fields, \<open>RtpPacket::parse\<close> of the encoded packet returns
  exactly the fields and the payload, with CSRCs, extension and padding stripped.
\<close>

theorem rtp_parse_roundtrip:
  assumes "unat pt < 128" "length csrcs < 16" "pad < 256" "ext_fits ext"
  shows "RtpPacket_parse (rtp_encode marker pt seq ts ssrc csrcs ext payload pad) =
     Ok \<lparr>rp_version = 2, rp_padding = (pad > 0), rp_extension = (ext \<noteq> None),
         rp_csrc_count = of_nat (length csrcs), rp_marker = marker, rp_payload_type = pt,
         rp_sequence_number = seq, rp_timestamp = ts, rp_ssrc = ssrc, rp_payload = payload\<rparr>"
  by (rule parse_encode [OF assms])

theorem rtp_parse_roundtrip_witness:
  "RtpPacket_parse (rtp_encode True 96 0x1234 0x01020304 0xAABBCCDD [0x11223344]
      (Some (0xBEDE, [0xDEADBEEF])) [9, 8, 7] 4) =
     Ok \<lparr>rp_version = 2, rp_padding = True, rp_extension = True, rp_csrc_count = 1,
         rp_marker = True, rp_payload_type = 96, rp_sequence_number = 0x1234,
         rp_timestamp = 0x01020304, rp_ssrc = 0xAABBCCDD, rp_payload = [9, 8, 7]\<rparr>"
  using rtp_parse_roundtrip [where pt = 96 and csrcs = "[0x11223344]" and pad = 4
      and ext = "Some (0xBEDE, [0xDEADBEEF])" and marker = True and seq = "0x1234"
      and ts = "0x01020304" and ssrc = "0xAABBCCDD" and payload = "[9, 8, 7]"]
  by (simp add: ext_fits_def)

text \<open>
  C39. The slice parser and the zero-copy parser are equivalent: on every buffer, whatever its
  bytes, neither panics, both succeed or both fail, the failures correspond, and on success
  the headers and the payload bytes are the same.
\<close>

theorem rtp_parsers_equivalent:
  "results_agree packets_agree (RtpPacket_parse buf) (RtpPacketZ_parse buf)"
  by (rule parses_agree)

end
