(* ===== verification/H264.thy ===== *)
theory H264
  imports Prelude
begin

text \<open>
  H.264 handling shared by every receiver. \<^verbatim>\<open>src/core/video.rs\<close>: Annex-B framing and NAL types.
  \<^verbatim>\<open>src/core/h264_depacketize.rs\<close>: the RFC 6184 depacketizer (single NAL, STAP-A, FU-A).
  \<^verbatim>\<open>src/core/h264_sync.rs\<close>: the gate that withholds NALs until a decodable start.
\<close>

section \<open>Annex-B NAL units (video.rs)\<close>

record VideoNal =
  vn_data :: bytes
  vn_rtp_ts :: u32
  vn_marker :: bool

definition annexb_from_raw_nal :: "bytes \<Rightarrow> bytes" where
  "annexb_from_raw_nal raw = [0, 0, 0, 1] @ raw"

definition nal_type_from_annexb :: "bytes \<Rightarrow> u8 option" where
  "nal_type_from_annexb nal =
     (if length nal < 5 then None
      else if take 4 nal \<noteq> [0, 0, 0, 1] then None
      else Some (nal ! 4 AND 0x1F))"

section \<open>The depacketizer (h264\_depacketize.rs)\<close>

definition ANNEXB_START :: bytes where "ANNEXB_START = [0, 0, 0, 1]"

record H264Depacketizer =
  fu_active :: bool
  fu_buf :: bytes

datatype h264_error =
    UnsupportedNalType u8
  | StapAZeroLength
  | StapAOutOfBounds usize usize
  | StapATrailingBytes usize
  | FuATooShort
  | FuAWithoutStart

definition H264Depacketizer_new :: H264Depacketizer where
  "H264Depacketizer_new = \<lparr>fu_active = False, fu_buf = []\<rparr>"

definition H264Depacketizer_reset :: "H264Depacketizer \<Rightarrow> H264Depacketizer" where
  "H264Depacketizer_reset d = d\<lparr>fu_active := False, fu_buf := []\<rparr>"

function stap_a_loop :: "bytes \<Rightarrow> usize \<Rightarrow> bytes list \<Rightarrow> (h264_error, usize \<times> bytes list) rust" where
  "stap_a_loop payload i out =
     (if i + 2 \<le> length payload then
        bindR (index_at payload i) (\<lambda>a. bindR (index_at payload (i + 1)) (\<lambda>b.
        let nal_len = unat (u16_from_be_bytes a b) in
        if nal_len = 0 then Err StapAZeroLength
        else if i + 2 + nal_len > length payload
          then Err (StapAOutOfBounds nal_len (length payload - (i + 2)))
        else bindR (slice payload (i + 2) (i + 2 + nal_len)) (\<lambda>nal.
          stap_a_loop payload (i + 2 + nal_len) (out @ [ANNEXB_START @ nal]))))
      else Ok (i, out))"
  by pat_completeness auto
termination
  by (relation "measure (\<lambda>(payload, i, out). length payload - i)") auto

declare stap_a_loop.simps [simp del]

definition handle_stap_a :: "bytes \<Rightarrow> (h264_error, bytes list) rust" where
  "handle_stap_a payload =
     bindR (stap_a_loop payload 1 []) (\<lambda>(i, out).
       if i \<noteq> length payload
       then bindR (sub_usize (length payload) i) (\<lambda>n. Err (StapATrailingBytes n))
       else Ok out)"

definition handle_fu_a ::
    "H264Depacketizer \<Rightarrow> bytes \<Rightarrow> (h264_error, bytes list) rust \<times> H264Depacketizer" where
  "handle_fu_a d payload =
     (if length payload < 2 then (Err FuATooShort, d) else
      let fu_indicator = payload ! 0;
          fu_header = payload ! 1;
          start = (fu_header AND 0x80 \<noteq> 0);
          end = (fu_header AND 0x40 \<noteq> 0);
          nal_type = fu_header AND 0x1F;
          forbidden_and_nri = fu_indicator AND 0xE0;
          reconstructed_nal_header = forbidden_and_nri OR nal_type;
          fu_payload = drop 2 payload in
      if start then
        (Ok [], d\<lparr>fu_active := True,
                  fu_buf := ANNEXB_START @ [reconstructed_nal_header] @ fu_payload\<rparr>)
      else if \<not> fu_active d then (Err FuAWithoutStart, d)
      else
        let d = d\<lparr>fu_buf := fu_buf d @ fu_payload\<rparr> in
        if end then (Ok [fu_buf d], d\<lparr>fu_active := False, fu_buf := []\<rparr>)
        else (Ok [], d))"

definition push_rtp_payload ::
    "H264Depacketizer \<Rightarrow> bytes \<Rightarrow> (h264_error, bytes list) rust \<times> H264Depacketizer" where
  "push_rtp_payload d payload =
     (if payload = [] then (Ok [], d) else
      let nal_type = payload ! 0 AND 0x1F in
      if 1 \<le> nal_type \<and> nal_type \<le> 23 then (Ok [ANNEXB_START @ payload], d)
      else if nal_type = 24 then (handle_stap_a payload, d)
      else if nal_type = 28 then handle_fu_a d payload
      else (Err (UnsupportedNalType nal_type), d))"

section \<open>The sync gate (h264\_sync.rs)\<close>

record H264SyncGate =
  require_idr_sync :: bool
  synced :: bool
  last_sps :: "bytes option"
  last_pps :: "bytes option"

definition H264SyncGate_new :: "bool \<Rightarrow> H264SyncGate" where
  "H264SyncGate_new req =
     \<lparr>require_idr_sync = req, synced = (\<not> req), last_sps = None, last_pps = None\<rparr>"

definition H264SyncGate_reset :: "H264SyncGate \<Rightarrow> H264SyncGate" where
  "H264SyncGate_reset g = g\<lparr>synced := \<not> require_idr_sync g\<rparr>"

definition set_sprop_param_sets :: "H264SyncGate \<Rightarrow> bytes \<Rightarrow> bytes \<Rightarrow> H264SyncGate" where
  "set_sprop_param_sets g sps pps = g\<lparr>last_sps := Some sps, last_pps := Some pps\<rparr>"

definition push_nal :: "H264SyncGate \<Rightarrow> bytes \<Rightarrow> bytes list \<times> H264SyncGate" where
  "push_nal g nal =
     (case nal_type_from_annexb nal of
        None \<Rightarrow> ([], g)
      | Some nt \<Rightarrow>
          if nt = 7 then ([], g\<lparr>last_sps := Some nal\<rparr>)
          else if nt = 8 then ([], g\<lparr>last_pps := Some nal\<rparr>)
          else if \<not> synced g then
            (if nt = 5 then
               (case (last_sps g, last_pps g) of
                  (Some sps, Some pps) \<Rightarrow> ([sps, pps, nal], g\<lparr>synced := True\<rparr>)
                | _ \<Rightarrow> ([], g))
             else ([], g))
          else if nt = 5 then
            (case (last_sps g, last_pps g) of
               (Some sps, Some pps) \<Rightarrow> ([sps, pps] @ [nal], g)
             | _ \<Rightarrow> ([nal], g))
          else ([nal], g))"

fun push_nals :: "H264SyncGate \<Rightarrow> bytes list \<Rightarrow> bytes list \<times> H264SyncGate" where
  "push_nals g [] = ([], g)"
| "push_nals g (n # ns) =
     (let (o1, g) = push_nal g n; (o2, g) = push_nals g ns in (o1 @ o2, g))"

section \<open>Depacketizer lemmas\<close>

lemma stap_a_loop_no_panic: "stap_a_loop payload i out \<noteq> Panic"
proof (induction payload i out rule: stap_a_loop.induct)
  case (1 payload i out)
  then show ?case
    by (subst stap_a_loop.simps) (auto simp: index_at_def slice_def Let_def)
qed

lemma stap_a_loop_OkE:
  assumes "stap_a_loop payload i out = Ok r"
  obtains (stop) "\<not> i + 2 \<le> length payload" "r = (i, out)"
    | (unit) l where "l > 0" "i + 2 + l \<le> length payload"
        "stap_a_loop payload (i + 2 + l)
           (out @ [ANNEXB_START @ take l (drop (i + 2) payload)]) = Ok r"
proof (cases "i + 2 \<le> length payload")
  case False
  with assms show ?thesis by (intro stop) (simp_all add: stap_a_loop.simps [of payload i out])
next
  case True
  let ?l = "unat (u16_from_be_bytes (payload ! i) (payload ! (i + 1)))"
  from True assms have "?l > 0" "i + 2 + ?l \<le> length payload"
    and "stap_a_loop payload (i + 2 + ?l)
      (out @ [ANNEXB_START @ take ?l (drop (i + 2) payload)]) = Ok r"
    by (simp_all add: stap_a_loop.simps [of payload i out] index_at_def slice_def Let_def
        split: if_splits)
  then show ?thesis by (rule unit)
qed

lemma stap_a_loop_bound:
  "stap_a_loop payload i out = Ok (j, out') \<Longrightarrow> i \<le> length payload \<Longrightarrow> j \<le> length payload"
proof (induction "length payload - i" arbitrary: i out rule: less_induct)
  case less
  from less.prems(1) show ?case
  proof (cases rule: stap_a_loop_OkE)
    case stop
    with less.prems show ?thesis by simp
  next
    case (unit l)
    show ?thesis by (rule less.hyps [OF _ unit(3)]) (use unit in simp_all)
  qed
qed

lemma handle_stap_a_no_panic:
  assumes "payload \<noteq> []" shows "handle_stap_a payload \<noteq> Panic"
proof (cases "stap_a_loop payload 1 []")
  case (Ok r)
  then show ?thesis
    using assms stap_a_loop_bound [of payload 1 "[]" "fst r" "snd r"]
    by (auto simp: handle_stap_a_def sub_usize_def Suc_le_eq split: prod.splits)
qed (auto simp: handle_stap_a_def stap_a_loop_no_panic)

text \<open>An encoder for STAP-A payloads, from RFC 6184 section 5.7.1.\<close>

definition stap_unit :: "bytes \<Rightarrow> bytes" where
  "stap_unit nal = u16_to_be_bytes (of_nat (length nal)) @ nal"

definition stap_a_encode :: "byte \<Rightarrow> bytes list \<Rightarrow> bytes" where
  "stap_a_encode nri nals = (nri AND 0xE0 OR 24) # concat (map stap_unit nals)"

definition nal_fits :: "bytes \<Rightarrow> bool" where
  "nal_fits nal \<longleftrightarrow> nal \<noteq> [] \<and> length nal < 65536"

lemma length_stap_unit [simp]: "length (stap_unit nal) = 2 + length nal"
  by (simp add: stap_unit_def)

lemma stap_a_loop_step:
  assumes "nal_fits nal"
  shows "stap_a_loop (pre @ stap_unit nal @ rest) (length pre) out
     = stap_a_loop (pre @ stap_unit nal @ rest) (length pre + 2 + length nal)
         (out @ [ANNEXB_START @ nal])"
proof -
  have "unat (of_nat (length nal) :: u16) = length nal"
    using assms by (simp add: nal_fits_def unat_of_nat)
  with assms show ?thesis
    by (subst stap_a_loop.simps)
       (simp add: index_at_def slice_def nth_append stap_unit_def u16_to_be_bytes_def nal_fits_def
        Let_def)
qed

lemma stap_a_loop_encoded:
  assumes "\<forall>nal \<in> set nals. nal_fits nal"
  shows "stap_a_loop (pre @ concat (map stap_unit nals)) (length pre) out
     = Ok (length pre + length (concat (map stap_unit nals)), out @ map ((@) ANNEXB_START) nals)"
  using assms
proof (induction nals arbitrary: pre out)
  case Nil
  then show ?case by (subst stap_a_loop.simps) simp
next
  case (Cons nal nals)
  have fits: "nal_fits nal" using Cons.prems by simp
  show ?case
    using stap_a_loop_step [OF fits, of pre "concat (map stap_unit nals)" out]
      Cons.IH [of "pre @ stap_unit nal" "out @ [ANNEXB_START @ nal]"] Cons.prems
    by (simp add: add.assoc)
qed

lemma byte_and_255 [simp]: "(x :: byte) AND 255 = x"
proof -
  have "(255 :: byte) = - 1" by simp
  then show ?thesis by (simp only: and.right_neutral)
qed

lemma fu_indicator_bits:
  "((x :: byte) AND 0xE0 OR 24) AND 0x1F = 24"
  "((x :: byte) AND 0xE0 OR 28) AND 0x1F = 28"
  "((x :: byte) AND 0xE0 OR 28) AND 0xE0 = x AND 0xE0"
  "((x :: byte) AND 0xE0) OR (x AND 0x1F) = x"
  by (simp_all add: bit.conj_disj_distrib2 and.assoc flip: bit.conj_disj_distrib)

lemma push_stap_a:
  assumes "\<forall>nal \<in> set nals. nal_fits nal"
  shows "push_rtp_payload d (stap_a_encode nri nals) = (Ok (map annexb_from_raw_nal nals), d)"
proof -
  have "stap_a_loop (stap_a_encode nri nals) 1 []
     = Ok (length (stap_a_encode nri nals), map ((@) ANNEXB_START) nals)"
    using stap_a_loop_encoded [OF assms, of "[nri AND 0xE0 OR 24]" "[]"]
    by (simp add: stap_a_encode_def)
  then have "handle_stap_a (stap_a_encode nri nals) = Ok (map annexb_from_raw_nal nals)"
    by (simp add: handle_stap_a_def ANNEXB_START_def annexb_from_raw_nal_def)
  then show ?thesis
    by (simp add: push_rtp_payload_def stap_a_encode_def fu_indicator_bits)
qed

section \<open>FU-A reassembly\<close>

definition fu_header :: "byte \<Rightarrow> bool \<Rightarrow> bool \<Rightarrow> byte" where
  "fu_header h s e = (if s then 0x80 else 0) OR (if e then 0x40 else 0) OR (h AND 0x1F)"

definition fu_packet :: "byte \<Rightarrow> bool \<Rightarrow> bool \<Rightarrow> bytes \<Rightarrow> bytes" where
  "fu_packet h s e chunk =
     [h AND 0xE0 OR 28, fu_header h s e] @ chunk"

fun fu_tail :: "byte \<Rightarrow> bytes list \<Rightarrow> bytes list" where
  "fu_tail h [] = []"
| "fu_tail h [c] = [fu_packet h False True c]"
| "fu_tail h (c # cs) = fu_packet h False False c # fu_tail h cs"

definition fu_a_encode :: "byte \<Rightarrow> bytes \<Rightarrow> bytes list \<Rightarrow> bytes list" where
  "fu_a_encode h c cs = fu_packet h True False c # fu_tail h cs"

fun push_payloads :: "H264Depacketizer \<Rightarrow> bytes list
    \<Rightarrow> (h264_error, bytes list) rust list \<times> H264Depacketizer" where
  "push_payloads d [] = ([], d)"
| "push_payloads d (p # ps) =
     (let (r, d) = push_rtp_payload d p; (rs, d) = push_payloads d ps in (r # rs, d))"

lemma fu_header_bits:
  "(fu_header h s e AND 0x80 = 0) = (\<not> s)" "(fu_header h s e AND 0x40 = 0) = (\<not> e)"
  "fu_header h s e AND 0x1F = h AND 0x1F"
  unfolding fu_header_def
  by (cases s; cases e; simp add: bit.conj_disj_distrib2 and.assoc)+

lemma push_fu_packet:
  "push_rtp_payload d (fu_packet h s e chunk) =
     (if s then (Ok [], d\<lparr>fu_active := True, fu_buf := annexb_from_raw_nal (h # chunk)\<rparr>)
      else if \<not> fu_active d then (Err FuAWithoutStart, d)
      else if e then (Ok [fu_buf d @ chunk], d\<lparr>fu_active := False, fu_buf := []\<rparr>)
      else (Ok [], d\<lparr>fu_buf := fu_buf d @ chunk\<rparr>))"
  unfolding push_rtp_payload_def
  by (simp add: fu_packet_def fu_indicator_bits handle_fu_a_def fu_header_bits
      annexb_from_raw_nal_def ANNEXB_START_def Let_def)

lemma push_fu_tail:
  assumes "cs \<noteq> []" "fu_active d"
  shows "push_payloads d (fu_tail h cs) =
     (replicate (length cs - 1) (Ok []) @ [Ok [fu_buf d @ concat cs]], H264Depacketizer_reset d)"
  using assms
proof (induction h cs arbitrary: d rule: fu_tail.induct)
  case (3 h c c' cs)
  then show ?case by (simp add: push_fu_packet H264Depacketizer_reset_def)
qed (simp_all add: push_fu_packet H264Depacketizer_reset_def)

lemma push_fu_a:
  assumes "cs \<noteq> []"
  shows "push_payloads d (fu_a_encode h c cs) =
     (replicate (length cs) (Ok []) @ [Ok [annexb_from_raw_nal (h # c @ concat cs)]],
      H264Depacketizer_reset d)"
  using assms
  by (cases cs)
     (simp_all add: fu_a_encode_def push_fu_packet push_fu_tail H264Depacketizer_reset_def
       annexb_from_raw_nal_def)

section \<open>What a depacketizer promises its clients\<close>

definition is_annexb :: "bytes \<Rightarrow> bool" where
  "is_annexb nal \<longleftrightarrow> take 4 nal = [0, 0, 0, 1] \<and> length nal > 4"

definition dep_inv :: "H264Depacketizer \<Rightarrow> bool" where
  "dep_inv d \<longleftrightarrow> (if fu_active d then is_annexb (fu_buf d) else fu_buf d = [])"

lemma stap_a_loop_annexb:
  "stap_a_loop payload i out = Ok (j, out') \<Longrightarrow> \<forall>n \<in> set out. is_annexb n
     \<Longrightarrow> \<forall>n \<in> set out'. is_annexb n"
proof (induction "length payload - i" arbitrary: i out rule: less_induct)
  case less
  from less.prems(1) show ?case
  proof (cases rule: stap_a_loop_OkE)
    case stop
    with less.prems show ?thesis by simp
  next
    case (unit l)
    show ?thesis
      by (rule less.hyps [OF _ unit(3)])
         (use unit less.prems in \<open>auto simp: is_annexb_def ANNEXB_START_def\<close>)
  qed
qed

lemma push_rtp_payload_annexb:
  assumes "dep_inv d" "push_rtp_payload d p = (r, d')"
  shows "dep_inv d' \<and> r \<noteq> Panic \<and> (\<forall>ns. r = Ok ns \<longrightarrow> (\<forall>n \<in> set ns. is_annexb n))"
proof -
  have stap: "handle_stap_a p = Ok ns \<Longrightarrow> n \<in> set ns \<Longrightarrow> is_annexb n" for ns n
    using stap_a_loop_annexb [of p 1 "[]"]
    by (force simp: handle_stap_a_def bindR_eq_Ok_iff split: if_splits)
  show ?thesis
    using assms stap handle_stap_a_no_panic [of p]
    by (cases p) (auto simp: push_rtp_payload_def handle_fu_a_def dep_inv_def is_annexb_def
        ANNEXB_START_def Let_def split: if_splits)
qed

locale depacketizer =
  fixes fresh :: 'd
    and reset :: "'d \<Rightarrow> 'd"
    and push :: "'d \<Rightarrow> bytes \<Rightarrow> ('e, bytes list) rust \<times> 'd"
    and inv :: "'d \<Rightarrow> bool"
  assumes fresh_inv: "inv fresh"
    and reset_inv: "inv d \<Longrightarrow> inv (reset d)"
    and push_inv: "inv d \<Longrightarrow> push d p = (r, d') \<Longrightarrow> inv d'"
    and push_no_panic: "inv d \<Longrightarrow> push d p = (r, d') \<Longrightarrow> r \<noteq> Panic"
    and push_annexb: "inv d \<Longrightarrow> push d p = (Ok ns, d') \<Longrightarrow> \<forall>n \<in> set ns. is_annexb n"
begin

lemma push_cases:
  assumes "inv d"
  obtains (nals) ns d' where "push d p = (Ok ns, d')" "inv d'" "\<forall>n \<in> set ns. is_annexb n"
    | (failed) e d' where "push d p = (Err e, d')" "inv d'"
proof (cases "push d p")
  case (Pair r d')
  note laws = push_inv [OF assms Pair] push_no_panic [OF assms Pair]
  show ?thesis
  proof (cases r)
    case (Ok ns)
    with Pair laws push_annexb [OF assms] show ?thesis by (intro nals) auto
  next
    case (Err e)
    with Pair laws show ?thesis by (intro failed) auto
  qed (use laws in simp)
qed

end

interpretation h264: depacketizer H264Depacketizer_new H264Depacketizer_reset push_rtp_payload dep_inv
proof unfold_locales
  fix d p r d' assume "dep_inv d" "push_rtp_payload d p = (r, d')"
  from push_rtp_payload_annexb [OF this] show "dep_inv d'" "r \<noteq> Panic" by simp_all
next
  fix d p ns d' assume "dep_inv d" "push_rtp_payload d p = (Ok ns, d')"
  from push_rtp_payload_annexb [OF this] show "\<forall>n \<in> set ns. is_annexb n" by simp
qed (simp_all add: dep_inv_def H264Depacketizer_new_def H264Depacketizer_reset_def)

section \<open>What the gate promises\<close>

text \<open>
  The specification of a stream a decoder can start on: every coded slice comes after a
  parameter set pair, and every IDR slice directly follows one. The flag says whether a
  start has been seen.
\<close>

fun gop_ok :: "bool \<Rightarrow> bytes list \<Rightarrow> bool" where
  "gop_ok s [] = True"
| "gop_ok s (a # r) =
     (if nal_type_from_annexb a = Some 7 then
        (case r of
           b # c # r' \<Rightarrow> nal_type_from_annexb b = Some 8 \<and> nal_type_from_annexb c = Some 5
             \<and> gop_ok True r'
         | _ \<Rightarrow> False)
      else s \<and> nal_type_from_annexb a \<notin> {None, Some 8, Some 5} \<and> gop_ok s r)"

definition gate_inv :: "H264SyncGate \<Rightarrow> bool" where
  "gate_inv g \<longleftrightarrow>
     require_idr_sync g
     \<and> (\<forall>s. last_sps g = Some s \<longrightarrow> nal_type_from_annexb s = Some 7)
     \<and> (\<forall>p. last_pps g = Some p \<longrightarrow> nal_type_from_annexb p = Some 8)
     \<and> (synced g \<longrightarrow> last_sps g \<noteq> None \<and> last_pps g \<noteq> None)"

definition param_set :: "bytes \<Rightarrow> bool" where
  "param_set n \<longleftrightarrow> nal_type_from_annexb n \<in> {Some 7, Some 8}"

lemma gop_ok_append:
  "gop_ok s xs \<Longrightarrow> gop_ok (s \<or> xs \<noteq> []) ys \<Longrightarrow> gop_ok s (xs @ ys)"
proof (induction s xs rule: gop_ok.induct)
  case (2 s a r)
  then show ?case
    by (cases r; cases "tl r") (auto split: if_splits)
qed simp

lemma gate_inv_new: "gate_inv (H264SyncGate_new True)"
  by (simp add: gate_inv_def H264SyncGate_new_def)

lemma gate_inv_reset: "gate_inv g \<Longrightarrow> gate_inv (H264SyncGate_reset g) \<and> \<not> synced (H264SyncGate_reset g)"
  by (auto simp: gate_inv_def H264SyncGate_reset_def)

lemma gate_inv_sprop:
  "gate_inv g \<Longrightarrow> nal_type_from_annexb s = Some 7 \<Longrightarrow> nal_type_from_annexb p = Some 8
     \<Longrightarrow> gate_inv (set_sprop_param_sets g s p)"
  by (auto simp: gate_inv_def set_sprop_param_sets_def)

lemma push_nal_gate:
  assumes "gate_inv g" "push_nal g n = (out, g')"
  shows "gate_inv g' \<and> gop_ok (synced g) out \<and> synced g' = (synced g \<or> out \<noteq> [])"
  using assms
  by (auto simp: push_nal_def gate_inv_def split: option.splits if_splits)

lemma push_nals_gate:
  assumes "gate_inv g" "push_nals g ns = (out, g')"
  shows "gate_inv g' \<and> gop_ok (synced g) out \<and> synced g' = (synced g \<or> out \<noteq> [])"
  using assms
proof (induction ns arbitrary: g out g')
  case (Cons n ns)
  obtain o1 g1 where 1: "push_nal g n = (o1, g1)" by fastforce
  obtain o2 g2 where 2: "push_nals g1 ns = (o2, g2)" by fastforce
  show ?case
    using push_nal_gate [OF Cons.prems(1) 1] Cons.IH [OF _ 2] Cons.prems(2) 1 2
    by (auto intro: gop_ok_append)
qed simp

lemma push_nal_synced:
  assumes "gate_inv g" "synced g" "push_nal g n = (out, g')"
  shows "filter (\<lambda>x. \<not> param_set x) out
    = (if nal_type_from_annexb n = None \<or> param_set n then [] else [n])"
  using assms
  by (auto simp: push_nal_def gate_inv_def param_set_def split: option.splits if_splits)

lemma push_nals_synced:
  assumes "gate_inv g" "synced g" "push_nals g ns = (out, g')"
  shows "filter (\<lambda>x. \<not> param_set x) out
    = filter (\<lambda>n. nal_type_from_annexb n \<noteq> None \<and> \<not> param_set n) ns"
  using assms
proof (induction ns arbitrary: g out g')
  case (Cons n ns)
  obtain o1 g1 where 1: "push_nal g n = (o1, g1)" by fastforce
  obtain o2 g2 where 2: "push_nals g1 ns = (o2, g2)" by fastforce
  show ?case
    using push_nal_gate [OF Cons.prems(1) 1] push_nal_synced [OF Cons.prems(1,2) 1]
      Cons.IH [OF _ _ 2] Cons.prems(2,3) 1 2
    by auto
qed simp

text \<open>
  A use of the gate: NALs are pushed, the parameter sets of the SDP are installed, and the
  receive loop resets it at every discontinuity. The output falls into segments, one
  between each two resets.
\<close>

datatype gate_op = PushNal bytes | ResetGate | SetSprop bytes bytes

fun gate_segments :: "H264SyncGate \<Rightarrow> bytes list \<Rightarrow> gate_op list \<Rightarrow> bytes list list" where
  "gate_segments g cur [] = [cur]"
| "gate_segments g cur (PushNal n # ops) =
     (let (out, g) = push_nal g n in gate_segments g (cur @ out) ops)"
| "gate_segments g cur (ResetGate # ops) = cur # gate_segments (H264SyncGate_reset g) [] ops"
| "gate_segments g cur (SetSprop s p # ops) = gate_segments (set_sprop_param_sets g s p) cur ops"

fun sprop_typed :: "gate_op \<Rightarrow> bool" where
  "sprop_typed (SetSprop s p) \<longleftrightarrow>
     nal_type_from_annexb s = Some 7 \<and> nal_type_from_annexb p = Some 8"
| "sprop_typed _ = True"

lemma gate_segments_ok:
  assumes "gate_inv g" "gop_ok False cur" "synced g = (cur \<noteq> [])" "\<forall>o1 \<in> set ops. sprop_typed o1"
  shows "\<forall>seg \<in> set (gate_segments g cur ops). gop_ok False seg"
  using assms
proof (induction g cur ops rule: gate_segments.induct)
  case (2 g cur n ops)
  obtain out g' where p: "push_nal g n = (out, g')" by (cases "push_nal g n")
  note q = push_nal_gate [OF 2(2) p]
  have cur: "gop_ok (synced g) out" "synced g = (cur \<noteq> [])" "gop_ok False cur"
    using q 2(3,4) by blast+
  have "gop_ok False (cur @ out)"
    by (rule gop_ok_append [OF cur(3)]) (use cur in simp)
  moreover have "synced g' = (cur @ out \<noteq> [])" using q cur(2) by simp
  moreover have "\<forall>o1 \<in> set ops. sprop_typed o1" using 2(5) by simp
  ultimately have "\<forall>seg \<in> set (gate_segments g' (cur @ out) ops). gop_ok False seg"
    using 2(1) [OF p [symmetric] refl] q by blast
  then show ?case by (simp only: gate_segments.simps p Let_def prod.case)
next
  case (3 g cur ops)
  then show ?case using gate_inv_reset [of g] by simp
next
  case (4 g cur s p ops)
  then show ?case using gate_inv_sprop [of g s p] by (simp add: set_sprop_param_sets_def)
qed simp

section \<open>Properties\<close>

text \<open>
  STAP-A: the depacketizer takes an aggregation packet apart into exactly the NAL units
  it was built from, in order, each with an Annex-B start code, and keeps its state.
\<close>

theorem depacketize_stap_a:
  assumes "\<forall>nal \<in> set nals. nal_fits nal"
  shows "push_rtp_payload d (stap_a_encode nri nals) = (Ok (map annexb_from_raw_nal nals), d)"
  by (rule push_stap_a [OF assms])

theorem depacketize_stap_a_witness:
  "push_rtp_payload H264Depacketizer_new (stap_a_encode 0x60 [[0x67, 0x11, 0x22], [0x68, 0x33]])
     = (Ok [[0, 0, 0, 1, 0x67, 0x11, 0x22], [0, 0, 0, 1, 0x68, 0x33]], H264Depacketizer_new)"
  using depacketize_stap_a [where nals = "[[0x67, 0x11, 0x22], [0x68, 0x33]]" and nri = "0x60"
      and d = H264Depacketizer_new]
  by (simp add: nal_fits_def annexb_from_raw_nal_def)

text \<open>
  C30. FU-A: a NAL unit cut into two or more fragments is put together again. Every fragment
  but the last yields nothing, the last yields the Annex-B form of the original unit, header
  byte included, and the buffer is empty afterwards; whatever was pending before is dropped.
\<close>

theorem depacketize_fu_a:
  assumes "cs \<noteq> []"
  shows "push_payloads d (fu_a_encode h c cs) =
     (replicate (length cs) (Ok []) @ [Ok [annexb_from_raw_nal (h # c @ concat cs)]],
      H264Depacketizer_reset d)"
  by (rule push_fu_a [OF assms])

theorem depacketize_fu_a_witness:
  "push_payloads H264Depacketizer_new (fu_a_encode 0x65 [0xAA, 0xBB] [[0xCC]]) =
     ([Ok [], Ok [[0, 0, 0, 1, 0x65, 0xAA, 0xBB, 0xCC]]], H264Depacketizer_new)"
  using depacketize_fu_a [where cs = "[[0xCC]]" and d = H264Depacketizer_new and h = "0x65"
      and c = "[0xAA, 0xBB]"]
  by (simp add: annexb_from_raw_nal_def H264Depacketizer_reset_def H264Depacketizer_new_def)

text \<open>
  C13. Decodable start: with \<open>require_idr_sync\<close>, whatever NALs arrive and whenever the loop
  resets the gate, the output after the start and after every reset begins with an SPS, a
  PPS and an IDR slice, and every IDR slice it lets through directly follows an SPS and a
  PPS, provided the parameter sets taken from the SDP have the right NAL types.
\<close>

theorem gate_segments_decodable:
  assumes "\<forall>o1 \<in> set ops. sprop_typed o1"
  shows "\<forall>seg \<in> set (gate_segments (H264SyncGate_new True) [] ops). gop_ok False seg"
  by (rule gate_segments_ok [OF gate_inv_new _ _ assms]) (simp_all add: H264SyncGate_new_def)

theorem gate_segments_decodable_witness:
  "list_all (gop_ok False) (gate_segments (H264SyncGate_new True) []
     [PushNal [0, 0, 0, 1, 1], SetSprop [0, 0, 0, 1, 7] [0, 0, 0, 1, 8],
      PushNal [0, 0, 0, 1, 5], ResetGate, PushNal [0, 0, 0, 1, 1]])"
  unfolding list_all_iff by (rule gate_segments_decodable) (simp add: nal_type_from_annexb_def)

text \<open>
  Once synchronised the gate loses nothing: of the NALs pushed, those that are valid
  and are not parameter sets come out in order, each exactly once; only parameter sets are
  held back and inserted.
\<close>

theorem gate_synced_lossless:
  assumes "gate_inv g" "synced g" "push_nals g ns = (out, g')"
  shows "filter (\<lambda>x. \<not> param_set x) out
    = filter (\<lambda>n. nal_type_from_annexb n \<noteq> None \<and> \<not> param_set n) ns"
  by (rule push_nals_synced [OF assms])

theorem gate_synced_lossless_witness:
  "filter (\<lambda>x. \<not> param_set x)
      (fst (push_nals \<lparr>require_idr_sync = True, synced = True, last_sps = Some [0, 0, 0, 1, 7],
              last_pps = Some [0, 0, 0, 1, 8]\<rparr> [[0, 0, 0, 1, 5], [0, 0, 0, 1, 7], [0, 0, 0, 1, 1]]))
    = [[0, 0, 0, 1, 5], [0, 0, 0, 1, 1]]"
proof -
  let ?g = "\<lparr>require_idr_sync = True, synced = True, last_sps = Some [0, 0, 0, 1, 7],
              last_pps = Some [0, 0, 0, 1, 8]\<rparr> :: H264SyncGate"
  let ?ns = "[[0, 0, 0, 1, 5], [0, 0, 0, 1, 7], [0, 0, 0, 1, 1]] :: bytes list"
  have "gate_inv ?g" by (simp add: gate_inv_def nal_type_from_annexb_def)
  from gate_synced_lossless [OF this, of ?ns "fst (push_nals ?g ?ns)" "snd (push_nals ?g ?ns)"]
  show ?thesis by (simp add: param_set_def nal_type_from_annexb_def)
qed

end
