(* ===== verification/Sdp.thy ===== *)
theory Sdp
  imports Text
begin

text \<open>
  The SDP parser of \<^verbatim>\<open>src/core/sdp.rs\<close>, which picks payload type, clock rate, codec, control
  URL and H.264 parameter sets of the video track. Base64 decoding is the \<open>base64\<close> crate, a
  parameter of the model.
\<close>

record SdpVideoTrack =
  sv_payload_type :: nat
  sv_clock_rate :: nat
  sv_codec_name :: "string option"
  sv_control :: string
  sv_sprop_sps :: "bytes option"
  sv_sprop_pps :: "bytes option"

datatype sdp_error = BadVideoLine | ParseIntError string | NoVideoPt | NoControl

text \<open>The local variables of \<open>parse_sdp_video_track\<close>.\<close>

record sdp_vars =
  v_in_video :: bool
  v_pt :: "nat option"
  v_clock :: "nat option"
  v_codec_name :: "string option"
  v_control :: "string option"
  v_sprop_sps :: "bytes option"
  v_sprop_pps :: "bytes option"

definition sdp_vars_init :: sdp_vars where
  "sdp_vars_init = \<lparr>v_in_video = False, v_pt = None, v_clock = None, v_codec_name = None,
     v_control = None, v_sprop_sps = None, v_sprop_pps = None\<rparr>"

definition u8_max :: nat where "u8_max = 255"
definition u16_max :: nat where "u16_max = 65535"
definition u32_max :: nat where "u32_max = 4294967295"

definition sdp_media_line :: "string \<Rightarrow> sdp_vars \<Rightarrow> (sdp_error, sdp_vars) rust" where
  "sdp_media_line line v =
     (if starts_with line ''m=video '' then
        let parts = split_whitespace line in
        if length parts < 4 then Err BadVideoLine
        else bindR (index_at parts 3) (\<lambda>w.
          case parse_uint u8_max w of
            None \<Rightarrow> Err (ParseIntError w)
          | Some n \<Rightarrow> Ok (v\<lparr>v_in_video := True, v_pt := Some n\<rparr>))
      else if starts_with line ''m='' then Ok (v\<lparr>v_in_video := False\<rparr>)
      else Ok v)"

definition sdp_rtpmap_line :: "nat \<Rightarrow> string \<Rightarrow> sdp_vars \<Rightarrow> (sdp_error, sdp_vars) rust" where
  "sdp_rtpmap_line p line v =
     (if starts_with line (''a=rtpmap:'' @ show_nat p) then
        (case split_once (CHR '' '') line of
           None \<Rightarrow> Ok v
         | Some (_, rhs) \<Rightarrow>
             (case split_once (CHR ''/'') rhs of
                None \<Rightarrow> Ok v
              | Some (codec, rate) \<Rightarrow>
                  let v = v\<lparr>v_codec_name := Some (trim codec)\<rparr> in
                  (case parse_uint u32_max rate of
                     None \<Rightarrow> Err (ParseIntError rate)
                   | Some n \<Rightarrow> Ok (v\<lparr>v_clock := Some n\<rparr>))))
      else Ok v)"

definition sprop_part :: "(string \<Rightarrow> bytes option) \<Rightarrow> string \<Rightarrow> sdp_vars \<Rightarrow> sdp_vars" where
  "sprop_part b64 part v =
     (case strip_prefix part ''sprop-parameter-sets='' of
        None \<Rightarrow> v
      | Some w \<Rightarrow>
          let it = split_on (CHR '','') w;
              sps_b64 = (case it of a # _ \<Rightarrow> a | [] \<Rightarrow> []);
              pps_b64 = (case it of _ # b # _ \<Rightarrow> b | _ \<Rightarrow> []) in
          if sps_b64 \<noteq> [] \<and> pps_b64 \<noteq> []
          then v\<lparr>v_sprop_sps := b64 sps_b64, v_sprop_pps := b64 pps_b64\<rparr>
          else v)"

definition sdp_fmtp_line :: "(string \<Rightarrow> bytes option) \<Rightarrow> nat \<Rightarrow> string \<Rightarrow> sdp_vars \<Rightarrow> sdp_vars" where
  "sdp_fmtp_line b64 p line v =
     (if starts_with line (''a=fmtp:'' @ show_nat p) then
        (case split_once (CHR '' '') line of
           None \<Rightarrow> v
         | Some (_, rhs) \<Rightarrow>
             fold (\<lambda>part. sprop_part b64 (trim part)) (split_on (CHR '';'') rhs) v)
      else v)"

definition sdp_control_line :: "string \<Rightarrow> sdp_vars \<Rightarrow> sdp_vars" where
  "sdp_control_line line v =
     (if starts_with line ''a=control:'' then v\<lparr>v_control := Some (drop 10 line)\<rparr> else v)"

definition sdp_line ::
    "(string \<Rightarrow> bytes option) \<Rightarrow> string \<Rightarrow> sdp_vars \<Rightarrow> (sdp_error, sdp_vars) rust" where
  "sdp_line b64 line v =
     bindR (sdp_media_line line v) (\<lambda>v.
       if \<not> v_in_video v then Ok v
       else (case v_pt v of
               None \<Rightarrow> Ok v
             | Some p \<Rightarrow>
                 bindR (sdp_rtpmap_line p line v) (\<lambda>v.
                   Ok (sdp_control_line line (sdp_fmtp_line b64 p line v)))))"

fun sdp_lines ::
    "(string \<Rightarrow> bytes option) \<Rightarrow> string list \<Rightarrow> sdp_vars \<Rightarrow> (sdp_error, sdp_vars) rust" where
  "sdp_lines b64 [] v = Ok v"
| "sdp_lines b64 (l # ls) v = bindR (sdp_line b64 (trim l) v) (sdp_lines b64 ls)"

definition parse_sdp_video_track ::
    "(string \<Rightarrow> bytes option) \<Rightarrow> string \<Rightarrow> (sdp_error, SdpVideoTrack) rust" where
  "parse_sdp_video_track b64 sdp =
     bindR (sdp_lines b64 (str_lines sdp) sdp_vars_init) (\<lambda>v.
       case v_pt v of
         None \<Rightarrow> Err NoVideoPt
       | Some p \<Rightarrow>
           (case v_control v of
              None \<Rightarrow> Err NoControl
            | Some ctl \<Rightarrow>
                Ok \<lparr>sv_payload_type = p,
                    sv_clock_rate = (case v_clock v of None \<Rightarrow> 90000 | Some c \<Rightarrow> c),
                    sv_codec_name = v_codec_name v, sv_control = ctl,
                    sv_sprop_sps = v_sprop_sps v, sv_sprop_pps = v_sprop_pps v\<rparr>))"

end
