(* ===== verification/Rtsp.thy ===== *)
theory Rtsp
  imports Sdp
begin

text \<open>
  The RTSP control connection. \<^verbatim>\<open>src/rtsp/rtsp.rs\<close>: requests, responses, buffered reads.
  \<^verbatim>\<open>src/rtsp/interleaved.rs\<close>: RTP frames interleaved on the control connection.

  The TCP stream is modelled by the chunks its future \<open>read\<close> calls deliver (at most 4096
  bytes each; the end of the list is the peer closing) and by what has been written to it.
\<close>

section \<open>Requests and responses (rtsp.rs)\<close>

record RtspResponse =
  rs_status :: nat
  rs_headers :: "(string \<times> string) list"
  rs_body :: bytes

datatype rtsp_error =
    ConnectionClosed
  | ClosedInBody
  | HeadersTooLarge
  | MissingStatusLine
  | WriteFailed
  | NotInterleaved byte
  | BadStatus string nat
  | SdpFailed sdp_error
  | MissingTransport
  | MissingInterleaved string
  | BindFailed
  | StartupTimeout
  | RecvFailed

definition header_get :: "(string \<times> string) list \<Rightarrow> string \<Rightarrow> string option" where
  "header_get headers key =
     map_option snd (find (\<lambda>(k, _). eq_ignore_ascii_case k key) headers)"

record RtspClient =
  rc_in :: "bytes list"
  rc_out :: bytes
  rc_broken :: bool
  rc_cseq :: u32
  rc_session :: "string option"
  rc_leftover :: bytes

definition RtspClient_connect :: "bytes list \<Rightarrow> bool \<Rightarrow> RtspClient" where
  "RtspClient_connect chunks broken =
     \<lparr>rc_in = chunks, rc_out = [], rc_broken = broken, rc_cseq = 1, rc_session = None,
      rc_leftover = []\<rparr>"

definition crlf :: string where "crlf = [CHR 0x0D, CHR 0x0A]"

definition request_text ::
    "string \<Rightarrow> string \<Rightarrow> u32 \<Rightarrow> string option \<Rightarrow> (string \<times> string) list \<Rightarrow> bytes option \<Rightarrow> string" where
  "request_text method url cseq session extra_headers body =
     method @ '' '' @ url @ '' RTSP/1.0'' @ crlf
     @ ''CSeq: '' @ show_nat (unat cseq) @ crlf
     @ (case session of None \<Rightarrow> [] | Some sess \<Rightarrow> ''Session: '' @ sess @ crlf)
     @ concat (map (\<lambda>(k, v). k @ '': '' @ v @ crlf) extra_headers)
     @ (case body of None \<Rightarrow> [] | Some b \<Rightarrow> ''Content-Length: '' @ show_nat (length b) @ crlf)
     @ crlf"

fun find_head_end :: "bytes \<Rightarrow> nat option" where
  "find_head_end (a # b # c # d # r) =
     (if a = 13 \<and> b = 10 \<and> c = 13 \<and> d = 10 then Some 0
      else map_option Suc (find_head_end (b # c # d # r)))"
| "find_head_end _ = None"

fun read_head :: "bytes \<Rightarrow> bytes list \<Rightarrow> (rtsp_error, bytes \<times> bytes list) rust" where
  "read_head head [] = Err ConnectionClosed"
| "read_head head (buf # chunks) =
     (if buf = [] then Err ConnectionClosed
      else let head = head @ buf in
        if find_head_end head \<noteq> None then Ok (head, chunks)
        else if length head > 64 * 1024 then Err HeadersTooLarge
        else read_head head chunks)"

fun read_body :: "nat \<Rightarrow> bytes \<Rightarrow> bytes list \<Rightarrow> (rtsp_error, bytes \<times> bytes list) rust" where
  "read_body content_len body [] =
     (if length body < content_len then Err ClosedInBody else Ok (body, []))"
| "read_body content_len body (buf # chunks) =
     (if length body < content_len then
        if buf = [] then Err ClosedInBody else read_body content_len (body @ buf) chunks
      else Ok (body, buf # chunks))"

definition parse_header_line :: "string \<Rightarrow> (string \<times> string) option" where
  "parse_header_line line =
     map_option (\<lambda>(k, v). (trim k, trim v)) (split_once (CHR '':'') line)"

definition status_of_line :: "string \<Rightarrow> nat" where
  "status_of_line status_line =
     (let parts = split_whitespace status_line;
          word = (case parts of _ # w # _ \<Rightarrow> w | _ \<Rightarrow> ''0'') in
      case parse_uint u16_max word of None \<Rightarrow> 0 | Some n \<Rightarrow> n)"

definition content_length :: "(string \<times> string) list \<Rightarrow> nat" where
  "content_length headers =
     (case header_get headers ''Content-Length'' of
        None \<Rightarrow> 0
      | Some v \<Rightarrow> (case parse_uint u64_max v of None \<Rightarrow> 0 | Some n \<Rightarrow> n))"

definition read_response :: "RtspClient \<Rightarrow> (rtsp_error, RtspResponse \<times> RtspClient) rust" where
  "read_response c =
     bindR (read_head [] (rc_in c)) (\<lambda>(head, chunks).
       case find_head_end head of
         None \<Rightarrow> Panic
       | Some split \<Rightarrow>
           let head_bytes = take (split + 4) head;
               rest = drop (split + 4) head;
               lines = filter (\<lambda>l. l \<noteq> []) (split_crlf (from_utf8_lossy head_bytes)) in
           (case lines of
              [] \<Rightarrow> Err MissingStatusLine
            | status_line # lines \<Rightarrow>
                let headers = List.map_filter parse_header_line lines;
                    content_len = content_length headers in
                bindR (if content_len > 0 then
                         bindR (read_body content_len rest chunks) (\<lambda>(body, chunks).
                           Ok (take content_len body, chunks))
                       else Ok ([], chunks)) (\<lambda>(body, chunks).
                  Ok (\<lparr>rs_status = status_of_line status_line, rs_headers = headers,
                       rs_body = body\<rparr>,
                      c\<lparr>rc_in := chunks\<rparr>))))"

definition request ::
    "RtspClient \<Rightarrow> string \<Rightarrow> string \<Rightarrow> (string \<times> string) list \<Rightarrow> bytes option
       \<Rightarrow> (rtsp_error, RtspResponse \<times> RtspClient) rust" where
  "request c method url extra_headers body =
     (let req = request_text method url (rc_cseq c) (rc_session c) extra_headers body;
          c = c\<lparr>rc_cseq := rc_cseq c + 1\<rparr> in
      if rc_broken c then Err WriteFailed
      else
        let c = c\<lparr>rc_out := rc_out c @ as_bytes req @ (case body of None \<Rightarrow> [] | Some b \<Rightarrow> b)\<rparr>
        in read_response c)"

fun read_exact_chunks :: "nat \<Rightarrow> bytes list \<Rightarrow> (rtsp_error, bytes \<times> bytes list) rust" where
  "read_exact_chunks 0 chunks = Ok ([], chunks)"
| "read_exact_chunks (Suc n) [] = Err ConnectionClosed"
| "read_exact_chunks (Suc n) (buf # chunks) =
     (if length buf \<le> Suc n then
        bindR (read_exact_chunks (Suc n - length buf) chunks) (\<lambda>(out, chunks). Ok (buf @ out, chunks))
      else Ok (take (Suc n) buf, drop (Suc n) buf # chunks))"

text \<open>The loop over \<open>leftover\<close> runs at most once: it takes what is there, up to \<open>n\<close> bytes.\<close>

definition read_exact_bytes :: "RtspClient \<Rightarrow> nat \<Rightarrow> (rtsp_error, bytes \<times> RtspClient) rust" where
  "read_exact_bytes c n =
     (let out = take n (rc_leftover c);
          c = c\<lparr>rc_leftover := drop n (rc_leftover c)\<rparr> in
      if length out < n then
        bindR (read_exact_chunks (n - length out) (rc_in c)) (\<lambda>(buf, chunks).
          Ok (out @ buf, c\<lparr>rc_in := chunks\<rparr>))
      else Ok (out, c))"

definition set_session_from :: "RtspClient \<Rightarrow> RtspResponse \<Rightarrow> RtspClient" where
  "set_session_from c resp =
     (case header_get (rs_headers resp) ''Session'' of
        None \<Rightarrow> c
      | Some sess \<Rightarrow> c\<lparr>rc_session := Some (hd (split_on (CHR '';'') sess))\<rparr>)"

section \<open>Interleaved frames (interleaved.rs)\<close>

datatype InterleavedFrame = Rtp bytes | Rtcp bytes | Unknown byte bytes

definition read_interleaved_frame ::
    "RtspClient \<Rightarrow> byte \<Rightarrow> byte \<Rightarrow> (rtsp_error, InterleavedFrame \<times> RtspClient) rust" where
  "read_interleaved_frame c rtp_channel rtcp_channel =
     bindR (read_exact_bytes c 1) (\<lambda>(b, c).
       bindR (index_at b 0) (\<lambda>b0.
       if b0 \<noteq> 0x24 then Err (NotInterleaved b0)
       else bindR (read_exact_bytes c 3) (\<lambda>(hdr, c).
         bindR (index_at hdr 0) (\<lambda>channel.
         bindR (index_at hdr 1) (\<lambda>h1. bindR (index_at hdr 2) (\<lambda>h2.
         let len = unat (u16_from_be_bytes h1 h2) in
         bindR (read_exact_bytes c len) (\<lambda>(payload, c).
           Ok (if channel = rtp_channel then Rtp payload
               else if channel = rtcp_channel then Rtcp payload
               else Unknown channel payload, c))))))))"

section \<open>Reading from the connection\<close>

text \<open>What the client will still see of the connection.\<close>

definition pending :: "RtspClient \<Rightarrow> bytes" where
  "pending c = rc_leftover c @ concat (rc_in c)"

lemma read_exact_chunks_short:
  "length (concat chunks) < n \<Longrightarrow> read_exact_chunks n chunks = Err ConnectionClosed"
  by (induction n chunks rule: read_exact_chunks.induct) auto

lemma read_exact_chunks_full:
  "n \<le> length (concat chunks) \<Longrightarrow>
     \<exists>chunks'. read_exact_chunks n chunks = Ok (take n (concat chunks), chunks')
       \<and> concat chunks' = drop n (concat chunks)"
proof (induction n chunks rule: read_exact_chunks.induct)
  case (3 n buf chunks)
  show ?case
  proof (cases "length buf \<le> Suc n")
    case True
    have "Suc n - length buf \<le> length (concat chunks)" using "3.prems" by simp
    with "3.IH" [OF True] obtain chunks' where
      "read_exact_chunks (Suc n - length buf) chunks
         = Ok (take (Suc n - length buf) (concat chunks), chunks')"
      "concat chunks' = drop (Suc n - length buf) (concat chunks)"
      by blast
    with True show ?thesis by simp
  qed simp
qed simp_all

lemma read_exact_chunks_cases:
  obtains (short) "length (concat chunks) < n" "read_exact_chunks n chunks = Err ConnectionClosed"
    | (full) chunks' where "n \<le> length (concat chunks)"
        "read_exact_chunks n chunks = Ok (take n (concat chunks), chunks')"
        "concat chunks' = drop n (concat chunks)"
proof (cases "length (concat chunks) < n")
  case True
  then show ?thesis by (intro short read_exact_chunks_short)
next
  case False
  then show ?thesis using read_exact_chunks_full [of n chunks] by (auto intro: full)
qed

lemma read_exact_bytes_full:
  assumes "n \<le> length (pending c)"
  shows "\<exists>c'. read_exact_bytes c n = Ok (take n (pending c), c') \<and> pending c' = drop n (pending c)"
proof (cases "length (rc_leftover c) < n")
  case True
  show ?thesis
  proof (cases rule: read_exact_chunks_cases [of "rc_in c" "n - length (rc_leftover c)"])
    case short
    with assms True show ?thesis by (simp add: pending_def)
  next
    case (full chunks')
    with True show ?thesis by (simp add: read_exact_bytes_def pending_def Let_def)
  qed
next
  case False
  then show ?thesis by (simp add: read_exact_bytes_def pending_def Let_def)
qed

lemma read_exact_bytes_short:
  assumes "length (pending c) < n"
  shows "read_exact_bytes c n = Err ConnectionClosed"
proof (cases rule: read_exact_chunks_cases [of "rc_in c" "n - length (rc_leftover c)"])
  case short
  with assms show ?thesis by (simp add: read_exact_bytes_def pending_def Let_def)
next
  case (full chunks')
  with assms show ?thesis by (simp add: pending_def)
qed

section \<open>Interleaved frames, whatever the segmentation\<close>

definition interleaved_encode :: "byte \<Rightarrow> bytes \<Rightarrow> bytes" where
  "interleaved_encode channel payload =
     [0x24, channel] @ u16_to_be_bytes (of_nat (length payload)) @ payload"

definition classify_frame :: "byte \<Rightarrow> byte \<Rightarrow> byte \<Rightarrow> bytes \<Rightarrow> InterleavedFrame" where
  "classify_frame rtp rtcp channel payload =
     (if channel = rtp then Rtp payload else if channel = rtcp then Rtcp payload
      else Unknown channel payload)"

lemma read_exact_bytes_prefix:
  assumes "pending c = xs @ rest" "length xs = n"
  obtains c' where "read_exact_bytes c n = Ok (xs, c')" "pending c' = rest"
  using read_exact_bytes_full [of n c] assms by auto

lemma read_interleaved_frame_encoded:
  assumes "pending c = interleaved_encode channel payload @ rest" "length payload < 65536"
  shows "\<exists>c'. read_interleaved_frame c rtp rtcp = Ok (classify_frame rtp rtcp channel payload, c')
     \<and> pending c' = rest"
proof -
  define l :: u16 where "l = of_nat (length payload)"
  have l: "unat l = length payload" using assms(2) by (simp add: l_def unat_of_nat)
  obtain c1 where c1: "read_exact_bytes c 1 = Ok ([0x24], c1)"
    "pending c1 = [channel] @ u16_to_be_bytes l @ payload @ rest"
    by (rule read_exact_bytes_prefix [of c "[0x24]"])
       (use assms(1) in \<open>simp_all add: interleaved_encode_def l_def\<close>)
  obtain c2 where c2: "read_exact_bytes c1 3
      = Ok ([channel, ucast (drop_bit 8 l), ucast l], c2)" "pending c2 = payload @ rest"
    by (rule read_exact_bytes_prefix [of c1 "[channel, ucast (drop_bit 8 l), ucast l]" _ 3])
       (use c1(2) in \<open>simp_all add: u16_to_be_bytes_def\<close>)
  obtain c3 where c3: "read_exact_bytes c2 (length payload) = Ok (payload, c3)" "pending c3 = rest"
    by (rule read_exact_bytes_prefix [OF c2(2) refl])
  show ?thesis
    using c1 c2 c3 l
    by (simp add: read_interleaved_frame_def index_at_def classify_frame_def Let_def)
qed

fun read_interleaved_frames ::
    "RtspClient \<Rightarrow> byte \<Rightarrow> byte \<Rightarrow> nat \<Rightarrow> (rtsp_error, InterleavedFrame list \<times> RtspClient) rust" where
  "read_interleaved_frames c rtp rtcp 0 = Ok ([], c)"
| "read_interleaved_frames c rtp rtcp (Suc n) =
     bindR (read_interleaved_frame c rtp rtcp) (\<lambda>(f, c).
       bindR (read_interleaved_frames c rtp rtcp n) (\<lambda>(fs, c). Ok (f # fs, c)))"

lemma read_interleaved_frames_encoded:
  assumes "pending c = concat (map (\<lambda>(ch, p). interleaved_encode ch p) fs) @ rest"
    and "\<forall>(ch, p) \<in> set fs. length p < 65536"
  shows "\<exists>c'. read_interleaved_frames c rtp rtcp (length fs)
      = Ok (map (\<lambda>(ch, p). classify_frame rtp rtcp ch p) fs, c') \<and> pending c' = rest"
  using assms
proof (induction fs arbitrary: c)
  case (Cons f fs)
  obtain ch p where f: "f = (ch, p)" by (cases f)
  obtain c1 where c1: "read_interleaved_frame c rtp rtcp = Ok (classify_frame rtp rtcp ch p, c1)"
    "pending c1 = concat (map (\<lambda>(ch, p). interleaved_encode ch p) fs) @ rest"
    using read_interleaved_frame_encoded [of c ch p] Cons.prems f by fastforce
  from Cons.IH [OF c1(2)] Cons.prems(2) c1(1) f show ?case by auto
qed simp

section \<open>What a response consumes\<close>

lemma read_head_drop:
  "read_head h chunks = Ok (h', chunks') \<Longrightarrow> \<exists>k. k \<ge> 1 \<and> chunks' = drop k chunks \<and> h' = h @ concat (take k chunks)"
proof (induction h chunks arbitrary: h' chunks' rule: read_head.induct)
  case (2 head buf chunks)
  show ?case
  proof (cases "find_head_end (head @ buf) = None")
    case True
    with "2.prems" have "read_head (head @ buf) chunks = Ok (h', chunks')"
      by (auto simp: Let_def split: if_splits)
    with True "2.prems" obtain k where
      "k \<ge> 1" "chunks' = drop k chunks" "h' = (head @ buf) @ concat (take k chunks)"
      using "2.IH" [of "head @ buf"] by (auto simp: Let_def split: if_splits)
    then show ?thesis by (intro exI [of _ "Suc k"]) simp
  next
    case False
    with "2.prems" show ?thesis
      by (intro exI [of _ 1]) (auto simp: Let_def split: if_splits)
  qed
qed simp

lemma read_body_drop:
  "read_body n b chunks = Ok (b', chunks') \<Longrightarrow> \<exists>k. chunks' = drop k chunks"
proof (induction n b chunks arbitrary: b' chunks' rule: read_body.induct)
  case (2 content_len body buf chunks)
  then show ?case by (auto split: if_splits intro: exI [of _ "Suc _"] exI [of _ 0])
qed (auto split: if_splits)

lemma read_response_chunks:
  assumes "read_response c = Ok (r, c')"
  shows "\<exists>k \<ge> 1. c' = c\<lparr>rc_in := drop k (rc_in c)\<rparr>"
proof -
  obtain head chunks where h: "read_head [] (rc_in c) = Ok (head, chunks)"
    using assms by (auto simp: read_response_def bindR_eq_Ok_iff)
  then obtain k where k: "k \<ge> 1" "chunks = drop k (rc_in c)" using read_head_drop by blast
  from assms h obtain chunks' j where "c' = c\<lparr>rc_in := chunks'\<rparr>" "chunks' = drop j chunks"
    by (auto simp: read_response_def bindR_eq_Ok_iff Let_def split: option.splits list.splits
        if_splits dest!: read_body_drop intro: that [of _ 0])
  with k show ?thesis by (intro exI [of _ "j + k"]) simp
qed

section \<open>Properties\<close>

text \<open>
  Interleaved frames are recovered whatever the TCP segmentation: if what is still to
  come on the connection is a sequence of framed packets, however it is cut into chunks and
  split between \<open>leftover\<close> and the socket, reading them gives the packets in order, each
  sorted to its channel, and leaves the connection right after the last one.
\<close>

theorem interleaved_frames_roundtrip:
  assumes "pending c = concat (map (\<lambda>(ch, p). interleaved_encode ch p) fs) @ rest"
    and "\<forall>(ch, p) \<in> set fs. length p < 65536"
  shows "\<exists>c'. read_interleaved_frames c rtp rtcp (length fs)
      = Ok (map (\<lambda>(ch, p). classify_frame rtp rtcp ch p) fs, c') \<and> pending c' = rest"
  by (rule read_interleaved_frames_encoded [OF assms])

theorem interleaved_frames_roundtrip_witness:
  "\<exists>c'. read_interleaved_frames
      \<lparr>rc_in = [[0, 2], [0xAA, 0xBB, 0x24, 1, 0], [1, 0xCC], [7]], rc_out = [], rc_broken = False,
       rc_cseq = 5, rc_session = None, rc_leftover = [0x24, 0]\<rparr> 0 1 2
      = Ok ([Rtp [0xAA, 0xBB], Rtcp [0xCC]], c') \<and> pending c' = [7]"
  using interleaved_frames_roundtrip [where fs = "[(0, [0xAA, 0xBB]), (1, [0xCC])]" and rest = "[7]"
      and rtp = 0 and rtcp = 1 and
      c = "\<lparr>rc_in = [[0, 2], [0xAA, 0xBB, 0x24, 1, 0], [1, 0xCC], [7]], rc_out = [],
        rc_broken = False, rc_cseq = 5, rc_session = None, rc_leftover = [0x24, 0]\<rparr>"]
  by (simp add: pending_def interleaved_encode_def u16_to_be_bytes_def classify_frame_def
      numeral_2_eq_2 [symmetric] del: read_interleaved_frames.simps)

text \<open>
  A response is read in whole chunks and nothing of them is kept: after
  \<open>read_response\<close> the client is the one before with some chunks removed and the same
  \<open>leftover\<close>, so bytes that arrived in the same read after the end of the response are
  lost. The witness is a PLAY response with the first interleaved frame behind it in one
  segment: the frame can no longer be read.
\<close>

theorem read_response_drops_surplus:
  assumes "read_response c = Ok (r, c')"
  shows "\<exists>k \<ge> 1. c' = c\<lparr>rc_in := drop k (rc_in c)\<rparr>"
  by (rule read_response_chunks [OF assms])

theorem read_response_drops_surplus_witness:
  "\<exists>r c'. read_response (RtspClient_connect
       [as_bytes (''RTSP/1.0 200 OK'' @ crlf @ crlf) @ interleaved_encode 0 [0xAA, 0xBB]] False)
       = Ok (r, c')
     \<and> rs_status r = 200 \<and> pending c' = []
     \<and> read_interleaved_frame c' 0 1 = Err ConnectionClosed"
proof -
  let ?seg = "as_bytes (''RTSP/1.0 200 OK'' @ crlf @ crlf) @ interleaved_encode 0 [0xAA, 0xBB]"
  let ?c = "RtspClient_connect [?seg] False"
  let ?r = "\<lparr>rs_status = 200, rs_headers = [], rs_body = []\<rparr>"
  let ?c1 = "\<lparr>rc_in = [], rc_out = [], rc_broken = False, rc_cseq = 1, rc_session = None,
    rc_leftover = []\<rparr>"
  have r: "read_response ?c = Ok (?r, ?c1)"
    by code_simp
  obtain k where k: "k \<ge> 1" "?c1 = ?c\<lparr>rc_in := drop k (rc_in ?c)\<rparr>"
    using read_response_drops_surplus [OF r] by blast
  from k(1) have "pending (?c\<lparr>rc_in := drop k (rc_in ?c)\<rparr>) = []"
    by (simp add: pending_def RtspClient_connect_def)
  with k(2) have p: "pending ?c1 = []" by (simp only:)
  then have "read_interleaved_frame ?c1 0 1 = Err ConnectionClosed"
    by (simp add: read_interleaved_frame_def read_exact_bytes_short)
  with r p show ?thesis by (intro exI [of _ ?r] exI [of _ ?c1]) simp
qed

end
