(* ===== verification/Receivers.thy ===== *)
theory Receivers
  imports Rtsp H264 Rtp
begin

text \<open>
  The two RTSP receivers. \<^verbatim>\<open>src/rtsp/rtsp_receiver_tcp.rs\<close>: RTP interleaved on the control
  connection. \<^verbatim>\<open>src/rtsp/rtsp_receiver_udp.rs\<close>: RTP over UDP with source validation, a startup
  watchdog and cancellation. Both negotiate with OPTIONS, DESCRIBE, SETUP and PLAY, then feed
  each RTP packet through sequence check, depacketizer and sync gate.

  Parameters: base64 (the \<open>base64\<close> crate), the runtime variables (\<open>AgentConfig::runtime_var\<close>),
  address parsing and name resolution. The output is the sequence of NALs offered to the
  channel with \<open>try_send\<close>; a full channel may drop any of them.
\<close>

section \<open>The packet path both loops share\<close>

record receiver =
  rx_dep :: H264Depacketizer
  rx_gate :: H264SyncGate
  rx_expected_seq :: "u16 option"

definition receiver_new :: "bool \<Rightarrow> SdpVideoTrack \<Rightarrow> receiver" where
  "receiver_new req track =
     \<lparr>rx_dep = H264Depacketizer_new,
      rx_gate =
        (let gate = H264SyncGate_new req in
         case (sv_sprop_sps track, sv_sprop_pps track) of
           (Some sps, Some pps) \<Rightarrow>
             set_sprop_param_sets gate (annexb_from_raw_nal sps) (annexb_from_raw_nal pps)
         | _ \<Rightarrow> gate),
      rx_expected_seq = None\<rparr>"

definition receiver_resync :: "receiver \<Rightarrow> u16 option \<Rightarrow> receiver" where
  "receiver_resync rx exp =
     rx\<lparr>rx_dep := H264Depacketizer_reset (rx_dep rx), rx_gate := H264SyncGate_reset (rx_gate rx),
        rx_expected_seq := exp\<rparr>"

definition receive_packet :: "receiver \<Rightarrow> RtpPacket \<Rightarrow> (rtsp_error, bytes list \<times> receiver) rust" where
  "receive_packet rx pkt =
     (let seq = rp_sequence_number pkt in
      if rx_expected_seq rx \<noteq> None \<and> rx_expected_seq rx \<noteq> Some seq
      then Ok ([], receiver_resync rx (Some (seq + 1)))
      else
        let rx = rx\<lparr>rx_expected_seq := Some (seq + 1)\<rparr>;
            (r, dep) = push_rtp_payload (rx_dep rx) (rp_payload pkt);
            rx = rx\<lparr>rx_dep := dep\<rparr> in
        (case r of
           Ok nals \<Rightarrow>
             let (out, gate) = push_nals (rx_gate rx) nals in Ok (out, rx\<lparr>rx_gate := gate\<rparr>)
         | Err _ \<Rightarrow> Ok ([], receiver_resync rx None)
         | Panic \<Rightarrow> Panic))"

definition basic_auth_value :: "(bytes \<Rightarrow> string) \<Rightarrow> string \<Rightarrow> string \<Rightarrow> string" where
  "basic_auth_value b64enc user pass = ''Basic '' @ b64enc (as_bytes (user @ '':'' @ pass))"

definition expect_200 ::
    "string \<Rightarrow> (rtsp_error, RtspResponse \<times> RtspClient) rust
       \<Rightarrow> (rtsp_error, RtspResponse \<times> RtspClient) rust" where
  "expect_200 method m =
     bindR m (\<lambda>(r, c). if rs_status r \<noteq> 200 then Err (BadStatus method (rs_status r)) else Ok (r, c))"

definition parse_track ::
    "(string \<Rightarrow> bytes option) \<Rightarrow> RtspResponse \<Rightarrow> (rtsp_error, SdpVideoTrack) rust" where
  "parse_track b64 r =
     (case parse_sdp_video_track b64 (from_utf8_lossy (rs_body r)) of
        Ok t \<Rightarrow> Ok t | Err e \<Rightarrow> Err (SdpFailed e) | Panic \<Rightarrow> Panic)"

definition setup_url :: "string \<Rightarrow> string \<Rightarrow> string" where
  "setup_url rtsp_url control =
     (if starts_with control ''rtsp://'' then control
      else trim_end_matches (CHR ''/'') rtsp_url @ ''/'' @ trim_start_matches (CHR ''/'') control)"

section \<open>The TCP interleaved receiver (rtsp\_receiver\_tcp.rs)\<close>

record TcpInterleavedReceiverConfig =
  tc_rtsp_url :: string
  tc_host :: string
  tc_port :: nat
  tc_user :: string
  tc_pass :: string
  tc_play_range :: string
  tc_interleaved_request :: string
  tc_require_idr_sync :: bool

datatype config_error = MissingVar string

definition require_var :: "(string \<Rightarrow> string option) \<Rightarrow> string \<Rightarrow> (config_error, string) rust" where
  "require_var var k = (case var k of None \<Rightarrow> Err (MissingVar k) | Some v \<Rightarrow> Ok v)"

definition port_var :: "string option \<Rightarrow> nat \<Rightarrow> nat" where
  "port_var v d = (case Option.bind v (parse_uint u16_max) of None \<Rightarrow> d | Some p \<Rightarrow> p)"

definition tcp_from_env_defaults ::
    "(string \<Rightarrow> string option) \<Rightarrow> (config_error, TcpInterleavedReceiverConfig) rust" where
  "tcp_from_env_defaults var =
     bindR (require_var var ''RTSP_URL'') (\<lambda>rtsp_url.
     bindR (require_var var ''RTSP_HOST'') (\<lambda>host.
     let port = port_var (var ''RTSP_PORT'') 554 in
     bindR (require_var var ''RTSP_USER'') (\<lambda>user.
     bindR (require_var var ''RTSP_PASS'') (\<lambda>pass.
     Ok \<lparr>tc_rtsp_url = rtsp_url, tc_host = host, tc_port = port, tc_user = user, tc_pass = pass,
         tc_play_range = ''npt=0.000-'',
         tc_interleaved_request = ''RTP/AVP/TCP;unicast;interleaved=0-1;mode=play'',
         tc_require_idr_sync = True\<rparr>))))"

fun interleaved_parts :: "string list \<Rightarrow> (byte \<times> byte) option" where
  "interleaved_parts [] = None"
| "interleaved_parts (part # parts) =
     (case strip_prefix (trim part) ''interleaved='' of
        None \<Rightarrow> interleaved_parts parts
      | Some v \<Rightarrow>
          Option.bind (split_once (CHR ''-'') v) (\<lambda>(a, b).
          Option.bind (parse_uint u8_max a) (\<lambda>rtp.
          Option.bind (parse_uint u8_max b) (\<lambda>rtcp. Some (of_nat rtp, of_nat rtcp)))))"

definition parse_interleaved_channels :: "string \<Rightarrow> (byte \<times> byte) option" where
  "parse_interleaved_channels transport = interleaved_parts (split_on (CHR '';'') transport)"

definition tcp_handshake ::
    "(bytes \<Rightarrow> string) \<Rightarrow> (string \<Rightarrow> bytes option) \<Rightarrow> TcpInterleavedReceiverConfig \<Rightarrow> RtspClient
       \<Rightarrow> (rtsp_error, RtspClient \<times> SdpVideoTrack \<times> byte \<times> byte) rust" where
  "tcp_handshake b64enc b64dec cfg c =
     (let authz = basic_auth_value b64enc (tc_user cfg) (tc_pass cfg) in
      bindR (expect_200 ''OPTIONS''
        (request c ''OPTIONS'' (tc_rtsp_url cfg) [(''Authorization'', authz)] None)) (\<lambda>(r, c).
      bindR (expect_200 ''DESCRIBE''
        (request c ''DESCRIBE'' (tc_rtsp_url cfg)
          [(''Accept'', ''application/sdp''), (''Authorization'', authz)] None)) (\<lambda>(r, c).
      bindR (parse_track b64dec r) (\<lambda>track.
      bindR (expect_200 ''SETUP''
        (request c ''SETUP'' (setup_url (tc_rtsp_url cfg) (sv_control track))
          [(''Transport'', tc_interleaved_request cfg), (''Authorization'', authz)] None)) (\<lambda>(r, c).
      let c = set_session_from c r in
      (case header_get (rs_headers r) ''Transport'' of
         None \<Rightarrow> Err MissingTransport
       | Some transport_resp \<Rightarrow>
           (case parse_interleaved_channels transport_resp of
              None \<Rightarrow> Err (MissingInterleaved transport_resp)
            | Some (rtp_chan, rtcp_chan) \<Rightarrow>
                bindR (expect_200 ''PLAY''
                  (request c ''PLAY'' (tc_rtsp_url cfg)
                    [(''Range'', tc_play_range cfg), (''Authorization'', authz)] None)) (\<lambda>(r, c).
                Ok (c, track, rtp_chan, rtcp_chan)))))))))"

definition tcp_on_frame ::
    "receiver \<Rightarrow> InterleavedFrame \<Rightarrow> (rtsp_error, bytes list \<times> receiver) rust" where
  "tcp_on_frame rx f =
     (case f of
        Rtp b \<Rightarrow>
          (case RtpPacket_parse b of
             Ok pkt \<Rightarrow> receive_packet rx pkt
           | Err _ \<Rightarrow> Ok ([], receiver_resync rx None)
           | Panic \<Rightarrow> Panic)
      | Rtcp _ \<Rightarrow> Ok ([], rx)
      | Unknown _ _ \<Rightarrow> Ok ([], rx))"

lemma read_exact_bytes_Ok:
  "read_exact_bytes c n = Ok (b, c') \<Longrightarrow> pending c = b @ pending c' \<and> length b = n"
  using read_exact_bytes_full [of n c] read_exact_bytes_short [of c n]
  by (cases "n \<le> length (pending c)") auto

lemma read_interleaved_frame_shrinks:
  "read_interleaved_frame c r q = Ok (f, c') \<Longrightarrow> length (pending c') < length (pending c)"
  by (auto simp: read_interleaved_frame_def bindR_eq_Ok_iff Let_def split: if_splits
      dest!: read_exact_bytes_Ok)

text \<open>
  The receive loop. It has no exit of its own: it ends with the error of the first frame
  that cannot be read. The result is that error and all NALs offered until then.
\<close>

function tcp_loop ::
    "RtspClient \<Rightarrow> byte \<Rightarrow> byte \<Rightarrow> receiver \<Rightarrow> bytes list \<Rightarrow> (rtsp_error, unit) rust \<times> bytes list" where
  "tcp_loop c rtp_chan rtcp_chan rx sent =
     (case read_interleaved_frame c rtp_chan rtcp_chan of
        Ok (f, c') \<Rightarrow>
          (case tcp_on_frame rx f of
             Ok (out, rx') \<Rightarrow> tcp_loop c' rtp_chan rtcp_chan rx' (sent @ out)
           | Err e \<Rightarrow> (Err e, sent)
           | Panic \<Rightarrow> (Panic, sent))
      | Err e \<Rightarrow> (Err e, sent)
      | Panic \<Rightarrow> (Panic, sent))"
  by pat_completeness auto
termination
  by (relation "measure (\<lambda>(c, _). length (pending c))") (auto intro: read_interleaved_frame_shrinks)

declare tcp_loop.simps [simp del]

definition run_tcp_interleaved_receiver ::
    "(bytes \<Rightarrow> string) \<Rightarrow> (string \<Rightarrow> bytes option) \<Rightarrow> TcpInterleavedReceiverConfig \<Rightarrow> RtspClient
       \<Rightarrow> (rtsp_error, unit) rust \<times> bytes list" where
  "run_tcp_interleaved_receiver b64enc b64dec cfg c =
     (case tcp_handshake b64enc b64dec cfg c of
        Ok (c, track, rtp_chan, rtcp_chan) \<Rightarrow>
          tcp_loop c rtp_chan rtcp_chan (receiver_new (tc_require_idr_sync cfg) track) []
      | Err e \<Rightarrow> (Err e, [])
      | Panic \<Rightarrow> (Panic, []))"

section \<open>The UDP receiver (rtsp\_receiver\_udp.rs)\<close>

record UdpReceiverConfig =
  uc_host :: string
  uc_port :: nat
  uc_path :: string
  uc_rtp_port :: nat
  uc_rtcp_port :: nat
  uc_user :: string
  uc_pass :: string

definition unquote :: "string \<Rightarrow> string" where
  "unquote s =
     (if length s \<ge> 2 then
        let first = s ! 0; last = s ! (length s - 1) in
        if first = CHR 0x22 \<and> last = CHR 0x22 \<or> first = CHR 0x27 \<and> last = CHR 0x27
        then take (length s - 2) (drop 1 s) else s
      else s)"

definition var_or :: "(string \<Rightarrow> string option) \<Rightarrow> string \<Rightarrow> string \<Rightarrow> string option" where
  "var_or var a b = or_else (var a) (var b)"

definition udp_from_env :: "(string \<Rightarrow> string option) \<Rightarrow> UdpReceiverConfig" where
  "udp_from_env var =
     \<lparr>uc_host = unquote (unwrap_or (var_or var ''UDP_RTSP_HOST'' ''RTSP_HOST'') ''192.168.1.187''),
      uc_port = port_var (var_or var ''UDP_RTSP_PORT'' ''RTSP_PORT'') 554,
      uc_path = unquote (unwrap_or (var_or var ''UDP_RTSP_PATH'' ''RTSP_PATH'') ''/stream2''),
      uc_rtp_port = port_var (var ''UDP_RTP_PORT'') 5004,
      uc_rtcp_port = port_var (var ''UDP_RTCP_PORT'') 5005,
      uc_user = unquote (unwrap_or (var_or var ''UDP_RTSP_USER'' ''RTSP_USER'') []),
      uc_pass = unquote (unwrap_or (var_or var ''UDP_RTSP_PASS'' ''RTSP_PASS'') [])\<rparr>"

definition udp_rtsp_url :: "UdpReceiverConfig \<Rightarrow> string" where
  "udp_rtsp_url cfg =
     (let path = (if starts_with (uc_path cfg) ''/'' then uc_path cfg else ''/'' @ uc_path cfg) in
      ''rtsp://'' @ uc_host cfg @ '':'' @ show_nat (uc_port cfg) @ path)"

definition has_auth :: "UdpReceiverConfig \<Rightarrow> bool" where
  "has_auth cfg \<longleftrightarrow> uc_user cfg \<noteq> []"

datatype IpAddr = V4 u32 | V6 "128 word"

record SocketAddr =
  sa_ip :: IpAddr
  sa_port :: nat

record ExpectedRtpSource =
  ex_ip :: IpAddr
  ex_port :: "nat option"

datatype SourceRejectReason = UnexpectedIp | UnexpectedPort

datatype SourceValidation = Accept | Reject SourceRejectReason

record SourceValidator =
  va_expected :: "ExpectedRtpSource option"
  va_pinned_ip :: "IpAddr option"

definition SourceValidator_new :: "ExpectedRtpSource option \<Rightarrow> SourceValidator" where
  "SourceValidator_new expected = \<lparr>va_expected = expected, va_pinned_ip = None\<rparr>"

definition validate :: "SourceValidator \<Rightarrow> SocketAddr \<Rightarrow> SourceValidation \<times> SourceValidator" where
  "validate v sender =
     (case va_expected v of
        Some expected \<Rightarrow>
          if sa_ip sender \<noteq> ex_ip expected then (Reject UnexpectedIp, v)
          else (case ex_port expected of
                  Some expected_port \<Rightarrow>
                    if sa_port sender \<noteq> expected_port then (Reject UnexpectedPort, v)
                    else (Accept, v)
                | None \<Rightarrow> (Accept, v))
      | None \<Rightarrow>
          (case va_pinned_ip v of
             Some pinned_ip \<Rightarrow>
               if sa_ip sender \<noteq> pinned_ip then (Reject UnexpectedIp, v) else (Accept, v)
           | None \<Rightarrow> (Accept, v\<lparr>va_pinned_ip := Some (sa_ip sender)\<rparr>)))"

definition should_log_rate_limited :: "u64 \<Rightarrow> bool" where
  "should_log_rate_limited count \<longleftrightarrow> count \<le> 3 \<or> count mod 100 = 0"

fun server_port_parts :: "string list \<Rightarrow> nat option" where
  "server_port_parts [] = None"
| "server_port_parts (part # parts) =
     (case strip_prefix (trim part) ''server_port='' of
        None \<Rightarrow> server_port_parts parts
      | Some v \<Rightarrow>
          Option.bind (split_once (CHR ''-'') v) (\<lambda>(rtp_port, _). parse_uint u16_max rtp_port))"

definition parse_server_rtp_port :: "string \<Rightarrow> nat option" where
  "parse_server_rtp_port transport = server_port_parts (split_on (CHR '';'') transport)"

definition resolve_rtsp_host_ip ::
    "(string \<Rightarrow> IpAddr option) \<Rightarrow> (string \<Rightarrow> nat \<Rightarrow> IpAddr list option) \<Rightarrow> string \<Rightarrow> nat
       \<Rightarrow> IpAddr option" where
  "resolve_rtsp_host_ip parse_ip lookup_host host port =
     (case parse_ip host of
        Some ip \<Rightarrow> Some ip
      | None \<Rightarrow> Option.bind (lookup_host host port) (\<lambda>as. case as of [] \<Rightarrow> None | a # _ \<Rightarrow> Some a))"

definition udp_common_headers :: "(bytes \<Rightarrow> string) \<Rightarrow> UdpReceiverConfig \<Rightarrow> (string \<times> string) list" where
  "udp_common_headers b64enc cfg =
     (if has_auth cfg
      then [(''Authorization'', basic_auth_value b64enc (uc_user cfg) (uc_pass cfg))] else [])"

definition udp_handshake ::
    "(bytes \<Rightarrow> string) \<Rightarrow> (string \<Rightarrow> bytes option) \<Rightarrow> UdpReceiverConfig \<Rightarrow> RtspClient
       \<Rightarrow> (rtsp_error, RtspClient \<times> SdpVideoTrack \<times> nat option) rust" where
  "udp_handshake b64enc b64dec cfg c =
     (let rtsp_url = udp_rtsp_url cfg;
          common_headers = udp_common_headers b64enc cfg in
      bindR (expect_200 ''OPTIONS'' (request c ''OPTIONS'' rtsp_url common_headers None)) (\<lambda>(r, c).
      bindR (expect_200 ''DESCRIBE''
        (request c ''DESCRIBE'' rtsp_url (common_headers @ [(''Accept'', ''application/sdp'')]) None))
        (\<lambda>(r, c).
      bindR (parse_track b64dec r) (\<lambda>track.
      let transport = ''RTP/AVP;unicast;client_port='' @ show_nat (uc_rtp_port cfg) @ ''-''
            @ show_nat (uc_rtcp_port cfg) @ '';mode=play'' in
      bindR (expect_200 ''SETUP''
        (request c ''SETUP'' (setup_url rtsp_url (sv_control track))
          (common_headers @ [(''Transport'', transport)]) None)) (\<lambda>(r, c).
      let negotiated_server_rtp_port =
            parse_server_rtp_port (unwrap_or (header_get (rs_headers r) ''Transport'') []);
          c = set_session_from c r in
      bindR (expect_200 ''PLAY''
        (request c ''PLAY'' rtsp_url (common_headers @ [(''Range'', ''npt=0.000-'')]) None)) (\<lambda>(r, c).
      Ok (c, track, negotiated_server_rtp_port)))))))"

text \<open>
  The UDP loop is driven by what its \<open>select!\<close> sees: cancellation, a datagram, a receive
  error or time passing, each at an instant. One iteration handles one event, so the loop's
  next wait starts at the instant of the previous event.
\<close>

datatype udp_event =
    Cancelled instant
  | Datagram instant bytes SocketAddr
  | RecvError instant
  | TimePasses instant

record udp_state =
  us_rx :: receiver
  us_validator :: SourceValidator
  us_mismatch :: u64
  us_first_valid :: bool
  us_deadline :: instant
  us_now :: instant
  us_client :: RtspClient
  us_sent :: "VideoNal list"

datatype udp_outcome =
    Running udp_state
  | Finished "(rtsp_error, unit) rust" udp_state

definition udp_init :: "RtspClient \<Rightarrow> SdpVideoTrack \<Rightarrow> ExpectedRtpSource option \<Rightarrow> instant \<Rightarrow> udp_state" where
  "udp_init c track expected now =
     \<lparr>us_rx = receiver_new True track, us_validator = SourceValidator_new expected,
      us_mismatch = 0, us_first_valid = False, us_deadline = now + from_secs 10, us_now = now,
      us_client = c, us_sent = []\<rparr>"

definition watchdog_expired :: "udp_state \<Rightarrow> instant \<Rightarrow> bool" where
  "watchdog_expired s t \<longleftrightarrow>
     \<not> us_first_valid s
     \<and> (let remaining = us_deadline s - us_now s in remaining = 0 \<or> t > us_now s + remaining)"

definition udp_accept :: "udp_state \<Rightarrow> SocketAddr \<Rightarrow> bool \<times> udp_state" where
  "udp_accept s src =
     (let (verdict, v) = validate (us_validator s) src; s = s\<lparr>us_validator := v\<rparr> in
      case verdict of
        Accept \<Rightarrow> (True, s\<lparr>us_first_valid := True\<rparr>)
      | Reject _ \<Rightarrow> (False, s\<lparr>us_mismatch := us_mismatch s + 1\<rparr>))"

definition udp_on_datagram :: "udp_state \<Rightarrow> bytes \<Rightarrow> SocketAddr \<Rightarrow> udp_outcome" where
  "udp_on_datagram s d src =
     (case RtpPacket_parse (take 8192 d) of
        Panic \<Rightarrow> Finished Panic s
      | Err _ \<Rightarrow> Running (s\<lparr>us_rx := receiver_resync (us_rx s) None\<rparr>)
      | Ok pkt \<Rightarrow>
          let (ok, s) = udp_accept s src in
          if \<not> ok then Running s
          else (case receive_packet (us_rx s) pkt of
                  Panic \<Rightarrow> Finished Panic s
                | Err e \<Rightarrow> Finished (Err e) s
                | Ok (out, rx) \<Rightarrow>
                    Running (s\<lparr>us_rx := rx,
                      us_sent := us_sent s
                        @ map (\<lambda>n. \<lparr>vn_data = n, vn_rtp_ts = rp_timestamp pkt,
                                   vn_marker = rp_marker pkt\<rparr>) out\<rparr>)))"

definition udp_step ::
    "(bytes \<Rightarrow> string) \<Rightarrow> UdpReceiverConfig \<Rightarrow> udp_state \<Rightarrow> udp_event \<Rightarrow> udp_outcome" where
  "udp_step b64enc cfg s ev =
     (case ev of
        Cancelled t \<Rightarrow>
          let c = (case request (us_client s) ''TEARDOWN'' (udp_rtsp_url cfg)
                          (udp_common_headers b64enc cfg) None of
                     Ok (_, c) \<Rightarrow> c | _ \<Rightarrow> us_client s) in
          Finished (Ok ()) (s\<lparr>us_client := c, us_now := t\<rparr>)
      | Datagram t d src \<Rightarrow>
          if watchdog_expired s t then Finished (Err StartupTimeout) s
          else udp_on_datagram (s\<lparr>us_now := t\<rparr>) d src
      | RecvError t \<Rightarrow>
          if watchdog_expired s t then Finished (Err StartupTimeout) s
          else Finished (Err RecvFailed) (s\<lparr>us_now := t\<rparr>)
      | TimePasses t \<Rightarrow>
          if watchdog_expired s t then Finished (Err StartupTimeout) s
          else Running s)"

fun udp_loop ::
    "(bytes \<Rightarrow> string) \<Rightarrow> UdpReceiverConfig \<Rightarrow> udp_state \<Rightarrow> udp_event list \<Rightarrow> udp_outcome" where
  "udp_loop b64enc cfg s [] = Running s"
| "udp_loop b64enc cfg s (ev # evs) =
     (case udp_step b64enc cfg s ev of
        Running s \<Rightarrow> udp_loop b64enc cfg s evs
      | Finished r s \<Rightarrow> Finished r s)"

definition run_udp_receiver ::
    "(bytes \<Rightarrow> string) \<Rightarrow> (string \<Rightarrow> bytes option) \<Rightarrow> (string \<Rightarrow> IpAddr option)
       \<Rightarrow> (string \<Rightarrow> nat \<Rightarrow> IpAddr list option) \<Rightarrow> UdpReceiverConfig \<Rightarrow> RtspClient \<Rightarrow> bool \<Rightarrow> instant
       \<Rightarrow> udp_event list \<Rightarrow> (rtsp_error, udp_outcome) rust" where
  "run_udp_receiver b64enc b64dec parse_ip lookup_host cfg c bind_ok now evs =
     bindR (udp_handshake b64enc b64dec cfg c) (\<lambda>(c, track, negotiated_server_rtp_port).
       if \<not> bind_ok then Err BindFailed
       else
         let expected =
               map_option (\<lambda>ip. \<lparr>ex_ip = ip, ex_port = negotiated_server_rtp_port\<rparr>)
                 (resolve_rtsp_host_ip parse_ip lookup_host (uc_host cfg) (uc_port cfg)) in
         Ok (udp_loop b64enc cfg (udp_init c track expected now) evs))"

section \<open>The packet path keeps a decodable stream\<close>

definition rx_inv :: "receiver \<Rightarrow> bool" where
  "rx_inv rx \<longleftrightarrow> dep_inv (rx_dep rx) \<and> gate_inv (rx_gate rx)"

definition sprop_ok :: "SdpVideoTrack \<Rightarrow> bool" where
  "sprop_ok track \<longleftrightarrow>
     (case (sv_sprop_sps track, sv_sprop_pps track) of
        (Some s, Some p) \<Rightarrow>
          nal_type_from_annexb (annexb_from_raw_nal s) = Some 7
          \<and> nal_type_from_annexb (annexb_from_raw_nal p) = Some 8
      | _ \<Rightarrow> True)"

lemma rx_inv_new: "sprop_ok track \<Longrightarrow> rx_inv (receiver_new True track)"
  by (auto simp: rx_inv_def receiver_new_def sprop_ok_def h264.fresh_inv Let_def
      intro: gate_inv_new gate_inv_sprop split: option.splits)

lemma rx_new_unsynced [simp]: "\<not> synced (rx_gate (receiver_new True track))"
  by (auto simp: receiver_new_def H264SyncGate_new_def set_sprop_param_sets_def Let_def
      split: option.splits)

lemma rx_inv_resync:
  "rx_inv rx \<Longrightarrow> rx_inv (receiver_resync rx e) \<and> \<not> synced (rx_gate (receiver_resync rx e))"
  using gate_inv_reset [of "rx_gate rx"] h264.reset_inv [of "rx_dep rx"]
  by (simp add: rx_inv_def receiver_resync_def)

text \<open>
  One frame of work seen from outside: the invariant is kept, the output continues a
  decodable stream, and the gate is open only if it was open or something came out.
\<close>

definition step_ok :: "receiver \<Rightarrow> (rtsp_error, bytes list \<times> receiver) rust \<Rightarrow> bool" where
  "step_ok rx r \<longleftrightarrow>
     (case r of
        Ok (out, rx') \<Rightarrow> rx_inv rx' \<and> gop_ok (synced (rx_gate rx)) out
          \<and> (synced (rx_gate rx') \<longrightarrow> synced (rx_gate rx) \<or> out \<noteq> [])
      | _ \<Rightarrow> False)"

lemma step_ok_E:
  assumes "step_ok rx r"
  obtains out rx' where "r = Ok (out, rx')" "rx_inv rx'" "gop_ok (synced (rx_gate rx)) out"
    "synced (rx_gate rx') \<longrightarrow> synced (rx_gate rx) \<or> out \<noteq> []"
  using assms by (auto simp: step_ok_def split: rust.splits)

lemma step_ok_resync: "rx_inv rx \<Longrightarrow> step_ok rx (Ok ([], receiver_resync rx e))"
  using rx_inv_resync by (simp add: step_ok_def)

lemma receive_packet_ok:
  assumes "rx_inv rx"
  shows "step_ok rx (receive_packet rx pkt)"
proof -
  have d: "dep_inv (rx_dep rx)" and g: "gate_inv (rx_gate rx)" using assms by (simp_all add: rx_inv_def)
  show ?thesis
  proof (cases rule: h264.push_cases [OF d, of "rp_payload pkt"])
    case nals: (1 ns d')
    obtain out g' where p: "push_nals (rx_gate rx) ns = (out, g')" by fastforce
    show ?thesis
      using nals p push_nals_gate [OF g p] assms step_ok_resync [OF assms]
      by (simp add: receive_packet_def Let_def step_ok_def rx_inv_def)
  next
    case failed: (2 e d')
    let ?rx = "rx\<lparr>rx_expected_seq := Some (rp_sequence_number pkt + 1), rx_dep := d'\<rparr>"
    have "rx_inv ?rx" using failed g by (simp add: rx_inv_def)
    from rx_inv_resync [OF this] failed step_ok_resync [OF assms] show ?thesis
      by (auto simp: receive_packet_def Let_def step_ok_def)
  qed
qed

lemma tcp_on_frame_ok:
  assumes "rx_inv rx" shows "step_ok rx (tcp_on_frame rx f)"
proof (cases f)
  case (Rtp b)
  then show ?thesis
    using receive_packet_ok [OF assms] step_ok_resync [OF assms] parse_no_panic [of b]
    by (cases "RtpPacket_parse b") (simp_all add: tcp_on_frame_def)
qed (use assms in \<open>simp_all add: tcp_on_frame_def step_ok_def\<close>)

lemma gop_ok_extend:
  assumes "gop_ok False sent" "s \<longrightarrow> sent \<noteq> []" "gop_ok s out"
  shows "gop_ok False (sent @ out)"
proof (rule gop_ok_append [OF assms(1)])
  have mono: "gop_ok False xs \<Longrightarrow> gop_ok True xs" for xs by (cases xs) (auto split: if_splits)
  show "gop_ok (False \<or> sent \<noteq> []) out"
    using assms(2,3) mono [of out] by (cases s; cases "sent = []") auto
qed

lemma read_interleaved_no_panic: "read_interleaved_frame c r q \<noteq> Panic"
proof -
  have np: "read_exact_bytes c n \<noteq> Panic" for c n
    using read_exact_bytes_full [of n c] read_exact_bytes_short [of c n]
    by (cases "n \<le> length (pending c)") auto
  have l: "read_exact_bytes c n = Ok (b, c') \<Longrightarrow> length b = n" for c n b c'
    using read_exact_bytes_Ok by blast
  have b: "bindR m f = Panic \<longleftrightarrow> m = Panic \<or> (\<exists>x. m = Ok x \<and> f x = Panic)"
    for m :: "('e, 'a) rust" and f :: "'a \<Rightarrow> ('e, 'b) rust"
    by (cases m) auto
  show ?thesis
    using np by (auto simp: read_interleaved_frame_def b Let_def index_at_def dest!: l split: if_splits)
qed

lemma tcp_loop_ok:
  assumes "rx_inv rx" "gop_ok False sent" "synced (rx_gate rx) \<longrightarrow> sent \<noteq> []"
  shows "\<exists>e out. tcp_loop c r q rx sent = (Err e, out) \<and> gop_ok False out"
  using assms
proof (induction c r q rx sent rule: tcp_loop.induct)
  case (1 c r q rx sent)
  show ?case
  proof (cases "read_interleaved_frame c r q")
    case (Ok fc)
    obtain f c' where fc: "fc = (f, c')" by (cases fc)
    obtain out rx' where o: "tcp_on_frame rx f = Ok (out, rx')" "rx_inv rx'"
      "gop_ok (synced (rx_gate rx)) out" "synced (rx_gate rx') \<longrightarrow> synced (rx_gate rx) \<or> out \<noteq> []"
      using tcp_on_frame_ok [OF "1.prems"(1)] by (rule step_ok_E)
    have "gop_ok False (sent @ out)" by (rule gop_ok_extend [OF "1.prems"(2,3) o(3)])
    moreover have "synced (rx_gate rx') \<longrightarrow> sent @ out \<noteq> []" using o(4) "1.prems"(3) by auto
    ultimately show ?thesis
      using "1.IH" [OF Ok fc [symmetric] o(1) refl o(2)] Ok fc o(1)
      by (subst tcp_loop.simps) simp
  next
    case (Err e)
    with "1.prems" show ?thesis by (subst tcp_loop.simps) simp
  next
    case Panic
    with read_interleaved_no_panic show ?thesis by blast
  qed
qed

section \<open>Delivery over the interleaved connection\<close>

text \<open>A run of RTP packets with consecutive sequence numbers, as a camera sends them.\<close>

fun rtp_run :: "u16 \<Rightarrow> u8 \<Rightarrow> u32 \<Rightarrow> (bool \<times> u32 \<times> bytes) list \<Rightarrow> bytes list" where
  "rtp_run seq pt ssrc [] = []"
| "rtp_run seq pt ssrc ((m, ts, p) # ps) =
     rtp_encode m pt seq ts ssrc [] None p 0 # rtp_run (seq + 1) pt ssrc ps"

lemma length_rtp_encode_plain: "length (rtp_encode m pt seq ts ssrc [] None p 0) = 12 + length p"
  by (simp add: rtp_encode_def)

lemma receive_packet_in_order:
  assumes "rx_expected_seq rx \<in> {None, Some (rp_sequence_number pkt)}"
    and "push_rtp_payload (rx_dep rx) (rp_payload pkt) = (Ok ns, d)"
    and "push_nals (rx_gate rx) ns = (out, g)"
  shows "receive_packet rx pkt =
    Ok (out, \<lparr>rx_dep = d, rx_gate = g, rx_expected_seq = Some (rp_sequence_number pkt + 1)\<rparr>)"
  using assms by (auto simp: receive_packet_def Let_def)

lemma push_nals_append:
  "push_nals g (xs @ ys) =
     (let (o1, g1) = push_nals g xs; (o2, g2) = push_nals g1 ys in (o1 @ o2, g2))"
  by (induction xs arbitrary: g) (simp_all add: Let_def split: prod.splits)

lemma tcp_loop_delivers:
  assumes "pending c = concat (map (interleaved_encode ch) (rtp_run seq pt ssrc ps))"
    and "unat pt < 128" "\<forall>(m, ts, p) \<in> set ps. length p < 65524"
    and "rx_expected_seq rx \<in> {None, Some seq}"
    and "push_payloads (rx_dep rx) (map (snd \<circ> snd) ps) = (map Ok nalss, d)"
  shows "tcp_loop c ch q rx sent
     = (Err ConnectionClosed, sent @ fst (push_nals (rx_gate rx) (concat nalss)))"
  using assms
proof (induction ps arbitrary: c seq rx nalss sent)
  case Nil
  then have "read_interleaved_frame c ch q = Err ConnectionClosed"
    by (simp add: read_interleaved_frame_def read_exact_bytes_short)
  with Nil show ?case by (subst tcp_loop.simps) simp
next
  case (Cons x ps)
  obtain m ts p where x: "x = (m, ts, p)" by (cases x)
  obtain ns nalss' d1 where n: "nalss = ns # nalss'" "push_rtp_payload (rx_dep rx) p = (Ok ns, d1)"
    "push_payloads d1 (map (snd \<circ> snd) ps) = (map Ok nalss', d)"
    using Cons.prems(5) x by (cases nalss) (auto simp: Let_def comp_def split: prod.splits)
  let ?pkt = "rtp_encode m pt seq ts ssrc [] None p 0"
  obtain c' where c': "read_interleaved_frame c ch q = Ok (Rtp ?pkt, c')"
    "pending c' = concat (map (interleaved_encode ch) (rtp_run (seq + 1) pt ssrc ps))"
    using read_interleaved_frame_encoded [of c ch ?pkt _ ch q] Cons.prems(1,3) x
    by (auto simp: length_rtp_encode_plain classify_frame_def)
  obtain out g where g: "push_nals (rx_gate rx) ns = (out, g)" by fastforce
  let ?rx = "\<lparr>rx_dep = d1, rx_gate = g, rx_expected_seq = Some (seq + 1)\<rparr>"
  have "tcp_on_frame rx (Rtp ?pkt) = Ok (out, ?rx)"
    using receive_packet_in_order [OF _ _ g, of _ d1] Cons.prems(2,4) n(2)
    by (simp add: tcp_on_frame_def parse_encode ext_fits_def)
  moreover have "tcp_loop c' ch q ?rx (sent @ out)
     = (Err ConnectionClosed, (sent @ out) @ fst (push_nals g (concat nalss')))"
    using Cons.IH [OF c'(2) Cons.prems(2), of ?rx nalss' "sent @ out"] Cons.prems(3) n(3)
    by (simp add: comp_def)
  ultimately show ?case
    using c'(1) g n(1)
    by (subst tcp_loop.simps) (simp add: push_nals_append Let_def split: prod.splits)
qed

section \<open>The UDP loop\<close>

definition udp_inv :: "udp_state \<Rightarrow> bool" where
  "udp_inv s \<longleftrightarrow> rx_inv (us_rx s) \<and> gop_ok False (map vn_data (us_sent s))
     \<and> (synced (rx_gate (us_rx s)) \<longrightarrow> us_sent s \<noteq> [])"

fun outcome_ok :: "udp_outcome \<Rightarrow> bool" where
  "outcome_ok (Running s) \<longleftrightarrow> udp_inv s"
| "outcome_ok (Finished r s) \<longleftrightarrow> udp_inv s \<and> r \<noteq> Panic"

lemma udp_accept_cases:
  obtains (accept) v where "validate (us_validator s) src = (Accept, v)"
      "udp_accept s src = (True, s\<lparr>us_validator := v, us_first_valid := True\<rparr>)"
    | (reject) r where "validate (us_validator s) src = (Reject r, us_validator s)"
      "udp_accept s src = (False, s\<lparr>us_mismatch := us_mismatch s + 1\<rparr>)"
proof (cases "validate (us_validator s) src")
  case (Pair verdict v)
  show ?thesis
  proof (cases verdict)
    case Accept
    with Pair show ?thesis by (intro accept) (simp_all add: udp_accept_def)
  next
    case (Reject r)
    with Pair have "v = us_validator s" by (auto simp: validate_def split: option.splits if_splits)
    with Pair Reject show ?thesis by (intro reject) (simp_all add: udp_accept_def)
  qed
qed

lemma udp_on_datagram_ok:
  assumes "udp_inv s" shows "outcome_ok (udp_on_datagram s d src)"
proof (cases "RtpPacket_parse (take 8192 d)")
  case (Ok pkt)
  obtain ok s1 where a: "udp_accept s src = (ok, s1)" by fastforce
  have s1: "us_rx s1 = us_rx s \<and> us_sent s1 = us_sent s"
    using a by (cases rule: udp_accept_cases [of s src]) auto
  have inv: "rx_inv (us_rx s1)" "gop_ok False (map vn_data (us_sent s1))"
    "synced (rx_gate (us_rx s1)) \<longrightarrow> map vn_data (us_sent s1) \<noteq> []"
    using assms s1 by (simp_all add: udp_inv_def)
  obtain out rx' where o: "receive_packet (us_rx s1) pkt = Ok (out, rx')" "rx_inv rx'"
      "gop_ok (synced (rx_gate (us_rx s1))) out"
      "synced (rx_gate rx') \<longrightarrow> synced (rx_gate (us_rx s1)) \<or> out \<noteq> []"
    using receive_packet_ok [OF inv(1)] by (rule step_ok_E)
  show ?thesis
    using o inv gop_ok_extend [OF inv(2,3) o(3)] Ok a
    by (auto simp: udp_on_datagram_def Let_def udp_inv_def comp_def)
next
  case (Err e)
  then show ?thesis
    using rx_inv_resync [of "us_rx s"] assms
    by (simp add: udp_on_datagram_def udp_inv_def)
qed (simp add: parse_no_panic)

lemma udp_step_ok:
  assumes "udp_inv s" shows "outcome_ok (udp_step b64enc cfg s ev)"
proof -
  have t: "udp_inv (s\<lparr>us_now := t\<rparr>)" "udp_inv (s\<lparr>us_client := c, us_now := t\<rparr>)" for t c
    using assms by (simp_all add: udp_inv_def)
  show ?thesis
    using assms t udp_on_datagram_ok [OF t(1)]
    by (cases ev) (simp_all add: udp_step_def Let_def)
qed

lemma udp_loop_ok: "udp_inv s \<Longrightarrow> outcome_ok (udp_loop b64enc cfg s evs)"
proof (induction evs arbitrary: s)
  case (Cons ev evs)
  from udp_step_ok [OF Cons.prems, of b64enc cfg ev] Cons.IH show ?case
    by (cases "udp_step b64enc cfg s ev") simp_all
qed simp

lemma udp_inv_init: "sprop_ok track \<Longrightarrow> udp_inv (udp_init c track expected now)"
  by (simp add: udp_inv_def udp_init_def rx_inv_new)

text \<open>Where the NALs of a run come from: a datagram that parses and has their stamp.\<close>

definition stamped_by :: "udp_event list \<Rightarrow> IpAddr \<Rightarrow> VideoNal \<Rightarrow> bool" where
  "stamped_by evs ip n \<longleftrightarrow>
     (\<exists>t d src pkt. Datagram t d src \<in> set evs \<and> sa_ip src = ip
        \<and> RtpPacket_parse (take 8192 d) = Ok pkt
        \<and> vn_rtp_ts n = rp_timestamp pkt \<and> vn_marker n = rp_marker pkt)"

definition only_source :: "SourceValidator \<Rightarrow> IpAddr option" where
  "only_source v = (case va_expected v of Some e \<Rightarrow> Some (ex_ip e) | None \<Rightarrow> va_pinned_ip v)"

fun outcome_state :: "udp_outcome \<Rightarrow> udp_state" where
  "outcome_state (Running s) = s"
| "outcome_state (Finished r s) = s"

definition sourced :: "udp_event list \<Rightarrow> udp_state \<Rightarrow> bool" where
  "sourced evs s \<longleftrightarrow>
     (\<forall>n \<in> set (us_sent s). \<exists>ip. only_source (us_validator s) = Some ip \<and> stamped_by evs ip n)"

lemma validate_accept:
  "validate v src = (Accept, v') \<Longrightarrow> only_source v' = Some (sa_ip src)
     \<and> va_expected v' = va_expected v \<and> (\<forall>ip. only_source v = Some ip \<longrightarrow> only_source v' = Some ip)"
  by (auto simp: validate_def only_source_def split: option.splits if_splits)

lemma udp_step_sourced:
  assumes "sourced evs s" "ev \<in> set evs"
  shows "sourced evs (outcome_state (udp_step b64enc cfg s ev))
    \<and> va_expected (us_validator (outcome_state (udp_step b64enc cfg s ev)))
        = va_expected (us_validator s)"
proof (cases "\<exists>t d src pkt. ev = Datagram t d src \<and> \<not> watchdog_expired s t
    \<and> RtpPacket_parse (take 8192 d) = Ok pkt")
  case False
  with assms show ?thesis
    by (cases ev)
       (auto simp: udp_step_def udp_on_datagram_def sourced_def Let_def split: rust.splits)
next
  case True
  then obtain t d src pkt where e: "ev = Datagram t d src" "\<not> watchdog_expired s t"
    "RtpPacket_parse (take 8192 d) = Ok pkt" by blast
  let ?s = "s\<lparr>us_now := t\<rparr>"
  show ?thesis
  proof (cases rule: udp_accept_cases [of ?s src])
    case (accept v)
    have v: "only_source v = Some (sa_ip src)" "va_expected v = va_expected (us_validator s)"
      "\<forall>ip. only_source (us_validator s) = Some ip \<longrightarrow> only_source v = Some ip"
      using validate_accept [OF accept(1)] by auto
    have "stamped_by evs (sa_ip src) \<lparr>vn_data = n, vn_rtp_ts = rp_timestamp pkt,
        vn_marker = rp_marker pkt\<rparr>" for n
      unfolding stamped_by_def using assms(2) e by (intro exI [of _ t] exI [of _ d]) auto
    moreover have "\<forall>n \<in> set (us_sent s). stamped_by evs (sa_ip src) n"
      using assms(1) v by (auto simp: sourced_def)
    ultimately show ?thesis
      using e accept(2) v
      by (auto simp: udp_step_def udp_on_datagram_def sourced_def Let_def split: rust.splits)
  next
    case (reject r)
    with e assms(1) show ?thesis
      by (simp add: udp_step_def udp_on_datagram_def sourced_def Let_def)
  qed
qed

lemma udp_loop_sourced:
  assumes "sourced evs s" "set es \<subseteq> set evs"
  shows "sourced evs (outcome_state (udp_loop b64enc cfg s es))
    \<and> va_expected (us_validator (outcome_state (udp_loop b64enc cfg s es)))
        = va_expected (us_validator s)"
  using assms
proof (induction es arbitrary: s)
  case (Cons e es)
  then have e: "e \<in> set evs" by simp
  from udp_step_sourced [OF Cons.prems(1) e, of b64enc cfg] Cons.IH Cons.prems(2) show ?case
    by (cases "udp_step b64enc cfg s e") simp_all
qed simp

text \<open>The loop only ever appends to what it has sent.\<close>

definition prepend_sent :: "VideoNal list \<Rightarrow> udp_state \<Rightarrow> udp_state" where
  "prepend_sent pre s = s\<lparr>us_sent := pre @ us_sent s\<rparr>"

fun map_outcome :: "(udp_state \<Rightarrow> udp_state) \<Rightarrow> udp_outcome \<Rightarrow> udp_outcome" where
  "map_outcome f (Running s) = Running (f s)"
| "map_outcome f (Finished r s) = Finished r (f s)"

lemma udp_on_datagram_prefix:
  "udp_on_datagram (prepend_sent pre s) d src = map_outcome (prepend_sent pre) (udp_on_datagram s d src)"
  by (auto simp: udp_on_datagram_def udp_accept_def prepend_sent_def Let_def
      split: rust.splits prod.splits SourceValidation.splits)

lemma prepend_sent_simps [simp]:
  "(prepend_sent pre s)\<lparr>us_now := t\<rparr> = prepend_sent pre (s\<lparr>us_now := t\<rparr>)"
  "(prepend_sent pre s)\<lparr>us_client := c\<rparr> = prepend_sent pre (s\<lparr>us_client := c\<rparr>)"
  "us_client (prepend_sent pre s) = us_client s"
  "watchdog_expired (prepend_sent pre s) t = watchdog_expired s t"
  by (simp_all add: prepend_sent_def watchdog_expired_def)

lemma udp_step_prefix:
  "udp_step b64enc cfg (prepend_sent pre s) ev
     = map_outcome (prepend_sent pre) (udp_step b64enc cfg s ev)"
  by (cases ev) (auto simp: udp_step_def udp_on_datagram_prefix Let_def split: rust.splits)

lemma udp_loop_prefix:
  "udp_loop b64enc cfg (prepend_sent pre s) evs
     = map_outcome (prepend_sent pre) (udp_loop b64enc cfg s evs)"
proof (induction evs arbitrary: s)
  case (Cons ev evs)
  then show ?case by (cases "udp_step b64enc cfg s ev") (simp_all add: udp_step_prefix)
qed simp

lemma udp_loop_restart:
  assumes "rx_inv (us_rx s)" "\<not> synced (rx_gate (us_rx s))"
  shows "\<exists>more. us_sent (outcome_state (udp_loop b64enc cfg s evs)) = us_sent s @ more
    \<and> gop_ok False (map vn_data more)"
proof -
  let ?s = "s\<lparr>us_sent := []\<rparr>"
  have "udp_inv ?s" using assms by (simp add: udp_inv_def)
  from udp_loop_ok [OF this, of b64enc cfg evs]
  have "gop_ok False (map vn_data (us_sent (outcome_state (udp_loop b64enc cfg ?s evs))))"
    by (cases "udp_loop b64enc cfg ?s evs") (simp_all add: udp_inv_def)
  moreover have "s = prepend_sent (us_sent s) ?s" by (simp add: prepend_sent_def)
  then have "us_sent (outcome_state (udp_loop b64enc cfg s evs))
      = us_sent s @ us_sent (outcome_state (udp_loop b64enc cfg ?s evs))"
    using udp_loop_prefix [of b64enc cfg "us_sent s" ?s evs]
    by (cases "udp_loop b64enc cfg ?s evs") (simp_all add: prepend_sent_def)
  ultimately show ?thesis by blast
qed

text \<open>Events that cannot count as a first valid packet.\<close>

fun useless :: "ExpectedRtpSource \<Rightarrow> udp_event \<Rightarrow> bool" where
  "useless e (Datagram t d src) \<longleftrightarrow>
     (\<forall>pkt. RtpPacket_parse (take 8192 d) \<noteq> Ok pkt) \<or> sa_ip src \<noteq> ex_ip e
     \<or> (\<exists>p. ex_port e = Some p \<and> sa_port src \<noteq> p)"
| "useless e (TimePasses t) = True"
| "useless e _ = False"

lemma udp_on_datagram_useless:
  assumes "useless e (Datagram t d src)" "va_expected (us_validator s) = Some e"
  shows "\<exists>s'. udp_on_datagram s d src = Running s' \<and> us_validator s' = us_validator s
    \<and> us_first_valid s' = us_first_valid s \<and> us_deadline s' = us_deadline s"
  using assms parse_no_panic [of "take 8192 d"]
  by (cases "RtpPacket_parse (take 8192 d)")
     (auto simp: udp_on_datagram_def udp_accept_def validate_def Let_def)

lemma udp_step_useless:
  assumes "useless e ev" "va_expected (us_validator s) = Some e" "\<not> us_first_valid s"
  obtains (timeout) s' where "udp_step b64enc cfg s ev = Finished (Err StartupTimeout) s'"
    | (wait) s' where "udp_step b64enc cfg s ev = Running s'"
        "va_expected (us_validator s') = Some e" "\<not> us_first_valid s'"
        "us_deadline s' = us_deadline s"
proof (cases ev)
  case (Datagram t d src)
  obtain s' where "udp_on_datagram (s\<lparr>us_now := t\<rparr>) d src = Running s'"
    "us_validator s' = us_validator s" "us_first_valid s' = us_first_valid s"
    "us_deadline s' = us_deadline s"
    using udp_on_datagram_useless [of e t d src "s\<lparr>us_now := t\<rparr>"] assms Datagram by auto
  with Datagram assms show ?thesis
    by (cases "watchdog_expired s t") (auto simp: udp_step_def intro: timeout wait)
next
  case (TimePasses t)
  with assms show ?thesis
    by (cases "watchdog_expired s t") (auto simp: udp_step_def intro: timeout wait)
qed (use assms in simp_all)

lemma udp_loop_watchdog:
  assumes "\<forall>ev \<in> set es. useless e ev" "va_expected (us_validator s) = Some e"
    "\<not> us_first_valid s" "us_deadline s < t"
  shows "\<exists>s'. udp_loop b64enc cfg s (es @ [TimePasses t]) = Finished (Err StartupTimeout) s'"
  using assms
proof (induction es arbitrary: s)
  case Nil
  then have "watchdog_expired s t" by (auto simp: watchdog_expired_def Let_def)
  then show ?case by (simp add: udp_step_def)
next
  case (Cons ev es)
  have "useless e ev" using Cons.prems(1) by simp
  show ?case
  proof (cases rule: udp_step_useless [OF \<open>useless e ev\<close> Cons.prems(2,3), of b64enc cfg])
    case wait: (2 s')
    then show ?thesis using Cons.IH [OF _ wait(2,3)] Cons.prems(1,4) by simp
  qed simp
qed

section \<open>Nothing in the handshake panics\<close>

lemma bindR_eq_Panic_iff: "bindR m f = Panic \<longleftrightarrow> m = Panic \<or> (\<exists>x. m = Ok x \<and> f x = Panic)"
  by (cases m) auto

lemma read_head_no_panic:
  "read_head h chunks \<noteq> Panic \<and> (\<forall>h' c'. read_head h chunks = Ok (h', c') \<longrightarrow> find_head_end h' \<noteq> None)"
  by (induction h chunks rule: read_head.induct) (auto simp: Let_def)

lemma read_body_no_panic: "read_body n b chunks \<noteq> Panic"
  by (induction n b chunks rule: read_body.induct) auto

lemma read_response_no_panic: "read_response c \<noteq> Panic"
proof (cases "read_head [] (rc_in c)")
  case (Ok hc)
  with read_head_no_panic [of "[]" "rc_in c"] obtain n where "find_head_end (fst hc) = Some n"
    by (cases hc) auto
  with Ok show ?thesis
    by (cases hc) (auto simp: read_response_def bindR_eq_Panic_iff Let_def read_body_no_panic
        split: list.splits if_splits)
qed (use read_head_no_panic [of "[]" "rc_in c"] in \<open>simp_all add: read_response_def\<close>)

lemma request_no_panic: "expect_200 m (request c m' u h b) \<noteq> Panic"
  by (auto simp: expect_200_def bindR_eq_Panic_iff request_def Let_def read_response_no_panic
      split: if_splits)

lemma sdp_line_no_panic: "sdp_line b64 l v \<noteq> Panic"
  by (auto simp: sdp_line_def bindR_eq_Panic_iff sdp_media_line_def sdp_rtpmap_line_def index_at_def
      Let_def split: option.splits if_splits)

lemma parse_track_no_panic: "parse_track b64 r \<noteq> Panic"
proof -
  have "sdp_lines b64 ls v \<noteq> Panic" for ls v
    by (induction ls arbitrary: v) (auto simp: bindR_eq_Panic_iff sdp_line_no_panic)
  then have "parse_sdp_video_track b64 s \<noteq> Panic" for s
    by (auto simp: parse_sdp_video_track_def bindR_eq_Panic_iff split: option.splits)
  then show ?thesis by (auto simp: parse_track_def split: rust.splits)
qed

lemma tcp_handshake_no_panic: "tcp_handshake b64enc b64dec cfg c \<noteq> Panic"
  by (auto simp: tcp_handshake_def bindR_eq_Panic_iff Let_def request_no_panic parse_track_no_panic
      split: option.splits)

section \<open>A sample camera\<close>

text \<open>A camera that answers the four requests, for the witnesses.\<close>

definition sample_sdp :: string where
  "sample_sdp = ''m=video 0 RTP/AVP 96'' @ crlf @ ''a=control:t'' @ crlf"

definition sample_camera :: "bytes list \<Rightarrow> RtspClient" where
  "sample_camera frames =
     (let ok = ''RTSP/1.0 200 OK'' @ crlf in
      RtspClient_connect
        ([as_bytes (ok @ crlf),
          as_bytes (ok @ ''Content-Length: '' @ show_nat (length sample_sdp) @ crlf @ crlf @ sample_sdp),
          as_bytes (ok @ ''Transport: interleaved=0-1'' @ crlf @ crlf),
          as_bytes (ok @ crlf)] @ frames) False)"

definition sample_tcp_config :: TcpInterleavedReceiverConfig where
  "sample_tcp_config = \<lparr>tc_rtsp_url = ''rtsp://c/s'', tc_host = ''c'', tc_port = 554,
     tc_user = ''u'', tc_pass = ''p'', tc_play_range = ''npt=0.000-'',
     tc_interleaved_request = ''RTP/AVP/TCP;unicast;interleaved=0-1;mode=play'',
     tc_require_idr_sync = True\<rparr>"

definition sample_track :: SdpVideoTrack where
  "sample_track = \<lparr>sv_payload_type = 96, sv_clock_rate = 90000, sv_codec_name = None,
     sv_control = ''t'', sv_sprop_sps = Some [0x67, 1], sv_sprop_pps = Some [0x68, 2]\<rparr>"

definition sample_udp_config :: UdpReceiverConfig where
  "sample_udp_config = \<lparr>uc_host = ''c'', uc_port = 554, uc_path = ''/s'', uc_rtp_port = 5004,
     uc_rtcp_port = 5005, uc_user = [], uc_pass = []\<rparr>"

definition sample_source :: SocketAddr where
  "sample_source = \<lparr>sa_ip = V4 0x0A000001, sa_port = 6000\<rparr>"

definition sample_udp_start :: udp_state where
  "sample_udp_start = udp_init (RtspClient_connect [] False) sample_track
     (Some \<lparr>ex_ip = V4 0x0A000001, ex_port = Some 6000\<rparr>) 0"

lemma sample_sprop_ok [simp]: "sprop_ok sample_track"
  by (simp add: sprop_ok_def sample_track_def nal_type_from_annexb_def annexb_from_raw_nal_def)

section \<open>Properties\<close>

text \<open>
  End to end over TCP: a camera that sends a run of RTP packets with consecutive sequence
  numbers (wrapping at \<open>2^16\<close>) on the RTP channel, whatever the TCP segmentation, has exactly
  the NAL units of its payloads offered to the channel, in order and filtered only by the
  sync gate; then the loop ends with the error of the closed connection.
\<close>

theorem tcp_receiver_delivers:
  assumes "pending c = concat (map (interleaved_encode ch) (rtp_run seq pt ssrc ps))"
    and "unat pt < 128" "\<forall>(m, ts, p) \<in> set ps. length p < 65524"
    and "push_payloads H264Depacketizer_new (map (snd \<circ> snd) ps) = (map Ok nalss, d)"
  shows "tcp_loop c ch q (receiver_new req track) []
     = (Err ConnectionClosed, fst (push_nals (rx_gate (receiver_new req track)) (concat nalss)))"
  using tcp_loop_delivers [OF assms(1-3), of "receiver_new req track" nalss d q "[]"] assms(4)
  by (simp add: receiver_new_def)

theorem tcp_receiver_delivers_witness:
  "tcp_loop (RtspClient_connect
      (map (interleaved_encode 2)
        (rtp_run 0xFFFF 96 7 [(False, 90, [0x67, 1]), (False, 90, [0x68, 2]), (True, 90, [0x65, 3])]))
      False) 2 3
      (receiver_new True \<lparr>sv_payload_type = 96, sv_clock_rate = 90000, sv_codec_name = None,
         sv_control = [], sv_sprop_sps = None, sv_sprop_pps = None\<rparr>) []
    = (Err ConnectionClosed,
       [[0, 0, 0, 1, 0x67, 1], [0, 0, 0, 1, 0x68, 2], [0, 0, 0, 1, 0x65, 3]])"
  (is "tcp_loop ?c 2 3 (receiver_new True ?track) [] = _")
proof -
  let ?ps = "[(False, 90, [0x67, 1]), (False, 90, [0x68, 2]), (True, 90, [0x65, 3])]
    :: (bool \<times> u32 \<times> bytes) list"
  have p: "pending ?c = concat (map (interleaved_encode 2) (rtp_run 0xFFFF 96 7 ?ps))"
    by (simp add: pending_def RtspClient_connect_def)
  have "push_payloads H264Depacketizer_new (map (snd \<circ> snd) ?ps)
    = (map Ok [[[0, 0, 0, 1, 0x67, 1]], [[0, 0, 0, 1, 0x68, 2]], [[0, 0, 0, 1, 0x65, 3]]],
       H264Depacketizer_new)"
    by (simp add: push_rtp_payload_def ANNEXB_START_def)
  from tcp_receiver_delivers [OF p _ _ this, of 3 True ?track] show ?thesis
    by (simp add: receiver_new_def H264SyncGate_new_def push_nal_def nal_type_from_annexb_def)
qed





text \<open>
  Source validation: all NALs of a session carry the timestamp and marker of well-formed
  datagrams from one single IP address, which is the one resolved from the RTSP host when it
  could be resolved.
\<close>

theorem udp_single_source:
  "\<exists>ip. (\<forall>e. expected = Some e \<longrightarrow> ip = ex_ip e)
     \<and> (\<forall>n \<in> set (us_sent (outcome_state (udp_loop b64enc cfg (udp_init c track expected now) evs))).
          stamped_by evs ip n)"
proof -
  let ?s = "outcome_state (udp_loop b64enc cfg (udp_init c track expected now) evs)"
  have "sourced evs (udp_init c track expected now)" by (simp add: sourced_def udp_init_def)
  from udp_loop_sourced [OF this, of evs b64enc cfg]
  have s: "sourced evs ?s" "va_expected (us_validator ?s) = expected"
    by (simp_all add: udp_init_def SourceValidator_new_def)
  show ?thesis
  proof (cases "only_source (us_validator ?s)")
    case None
    with s(1) have "us_sent ?s = []" by (cases "us_sent ?s") (auto simp: sourced_def)
    then show ?thesis by (cases expected) auto
  next
    case (Some ip)
    with s show ?thesis
      by (intro exI [of _ ip]) (auto simp: sourced_def only_source_def split: option.splits)
  qed
qed

theorem udp_single_source_witness:
  "list_all (stamped_by [Datagram 5 (rtp_encode True 96 1 90 7 [] None [0x65, 3] 0) sample_source]
       (V4 0x0A000001))
     (us_sent (outcome_state (udp_loop (\<lambda>_. []) sample_udp_config sample_udp_start
       [Datagram 5 (rtp_encode True 96 1 90 7 [] None [0x65, 3] 0) sample_source])))"
  using udp_single_source [of "Some \<lparr>ex_ip = V4 0x0A000001, ex_port = Some 6000\<rparr>" "\<lambda>_. []"
      sample_udp_config "RtspClient_connect [] False" sample_track 0
      "[Datagram 5 (rtp_encode True 96 1 90 7 [] None [0x65, 3] 0) sample_source]"]
  unfolding sample_udp_start_def list_all_iff by simp

text \<open>
  Loss detection: when an accepted packet does not carry the expected sequence number,
  nothing of it is offered, the partial NAL is dropped, the next number is expected, and all
  that is offered afterwards starts again with SPS, PPS and IDR.
\<close>

theorem udp_gap_resyncs:
  assumes "udp_inv s" "\<not> watchdog_expired s t"
    and "RtpPacket_parse (take 8192 d) = Ok pkt"
    and "validate (us_validator s) src = (Accept, v)"
    and "rx_expected_seq (us_rx s) = Some e" "rp_sequence_number pkt \<noteq> e"
  shows "\<exists>s'. udp_step b64enc cfg s (Datagram t d src) = Running s'
     \<and> us_sent s' = us_sent s \<and> \<not> fu_active (rx_dep (us_rx s'))
     \<and> rx_expected_seq (us_rx s') = Some (rp_sequence_number pkt + 1)
     \<and> (\<forall>evs. \<exists>more. us_sent (outcome_state (udp_loop b64enc cfg s' evs)) = us_sent s @ more
          \<and> gop_ok False (map vn_data more))"
proof -
  let ?rx = "receiver_resync (us_rx s) (Some (rp_sequence_number pkt + 1))"
  let ?s = "s\<lparr>us_now := t, us_validator := v, us_first_valid := True, us_rx := ?rx\<rparr>"
  have "udp_step b64enc cfg s (Datagram t d src) = Running ?s"
    using assms by (simp add: udp_step_def udp_on_datagram_def udp_accept_def receive_packet_def Let_def)
  moreover have "rx_inv ?rx" "\<not> synced (rx_gate ?rx)"
    using rx_inv_resync [of "us_rx s"] assms(1) by (simp_all add: udp_inv_def)
  ultimately show ?thesis
    using udp_loop_restart [of ?s b64enc cfg]
    by (intro exI [of _ ?s]) (simp add: receiver_resync_def H264Depacketizer_reset_def)
qed

theorem udp_gap_resyncs_witness:
  "\<exists>s'. udp_step (\<lambda>_. []) sample_udp_config
        (sample_udp_start\<lparr>us_rx := (us_rx sample_udp_start)\<lparr>rx_expected_seq := Some 4\<rparr>\<rparr>)
        (Datagram 5 (rtp_encode True 96 6 90 7 [] None [0x65, 3] 0) sample_source) = Running s'
     \<and> us_sent s' = [] \<and> rx_expected_seq (us_rx s') = Some 7"
proof -
  let ?s = "sample_udp_start\<lparr>us_rx := (us_rx sample_udp_start)\<lparr>rx_expected_seq := Some 4\<rparr>\<rparr>"
  let ?d = "rtp_encode True 96 6 90 7 [] None [0x65, 3] 0"
  have "udp_inv ?s"
    using udp_inv_init [OF sample_sprop_ok]
    by (simp add: sample_udp_start_def udp_inv_def rx_inv_def udp_init_def)
  moreover have "\<not> watchdog_expired ?s 5"
    by (simp add: watchdog_expired_def sample_udp_start_def udp_init_def from_secs_def)
  moreover have "RtpPacket_parse (take 8192 ?d) = Ok \<lparr>rp_version = 2, rp_padding = False,
      rp_extension = False, rp_csrc_count = 0, rp_marker = True, rp_payload_type = 96,
      rp_sequence_number = 6, rp_timestamp = 90, rp_ssrc = 7, rp_payload = [0x65, 3]\<rparr>"
    by (simp add: parse_encode ext_fits_def length_rtp_encode_plain)
  moreover have "validate (us_validator ?s) sample_source = (Accept, us_validator ?s)"
    by (simp add: validate_def sample_udp_start_def udp_init_def SourceValidator_new_def
        sample_source_def)
  ultimately show ?thesis
    using udp_gap_resyncs [of ?s 5 ?d _ sample_source _ 4 "\<lambda>_. []" sample_udp_config]
    by (fastforce simp: sample_udp_start_def udp_init_def)
qed

text \<open>
  Startup watchdog: when the RTSP host was resolved and only malformed datagrams or
  datagrams from elsewhere arrive, the receiver gives up with the startup error once ten
  seconds have passed; none of them extends the deadline.
\<close>

theorem udp_watchdog_fires:
  assumes "\<forall>ev \<in> set es. useless e ev" "now + from_secs 10 < t"
  shows "\<exists>s. udp_loop b64enc cfg (udp_init c track (Some e) now) (es @ [TimePasses t])
     = Finished (Err StartupTimeout) s"
  using udp_loop_watchdog [OF assms(1), of "udp_init c track (Some e) now" t b64enc cfg] assms(2)
  by (simp add: udp_init_def SourceValidator_new_def)

theorem udp_watchdog_fires_witness:
  "\<exists>s. udp_loop (\<lambda>_. []) sample_udp_config sample_udp_start
       ([Datagram 5 [1, 2, 3] sample_source, TimePasses 7] @ [TimePasses 10000000001])
     = Finished (Err StartupTimeout) s"
  unfolding sample_udp_start_def
  by (rule udp_watchdog_fires) (simp_all add: RtpPacket_parse_def from_secs_def)

text \<open>
  A datagram that is not RTP closes the gate and drops the partial NAL before its sender
  is looked at: any host that can reach the port interrupts the stream until the next IDR.
\<close>

theorem udp_junk_resets:
  assumes "udp_inv s" "us_first_valid s" "length d < 12"
  shows "\<exists>s'. udp_step b64enc cfg s (Datagram t d src) = Running s'
     \<and> us_sent s' = us_sent s \<and> \<not> synced (rx_gate (us_rx s')) \<and> \<not> fu_active (rx_dep (us_rx s'))
     \<and> us_validator s' = us_validator s"
proof -
  have "RtpPacket_parse (take 8192 d) = Err (RtpTooShort (length d))"
    using assms(3) by (simp add: RtpPacket_parse_def)
  with assms rx_inv_resync [of "us_rx s" None] show ?thesis
    by (simp add: udp_step_def udp_on_datagram_def watchdog_expired_def udp_inv_def
        receiver_resync_def H264Depacketizer_reset_def)
qed

theorem udp_junk_resets_witness:
  "\<exists>s'. udp_step (\<lambda>_. []) sample_udp_config
        (sample_udp_start\<lparr>us_first_valid := True, us_sent :=
           map (\<lambda>d. \<lparr>vn_data = d, vn_rtp_ts = 1, vn_marker = True\<rparr>)
             [[0, 0, 0, 1, 7], [0, 0, 0, 1, 8], [0, 0, 0, 1, 5]],
           us_rx := (us_rx sample_udp_start)\<lparr>rx_gate :=
             (rx_gate (us_rx sample_udp_start))\<lparr>synced := True\<rparr>\<rparr>\<rparr>)
        (Datagram 5 [0xFF] \<lparr>sa_ip = V4 0xC0000001, sa_port = 1\<rparr>) = Running s'
     \<and> \<not> synced (rx_gate (us_rx s'))"
  (is "\<exists>s'. udp_step _ _ ?s _ = _ \<and> _")
proof -
  have "udp_inv ?s"
    by (simp add: udp_inv_def rx_inv_def sample_udp_start_def udp_init_def receiver_new_def
        sample_track_def set_sprop_param_sets_def H264SyncGate_new_def gate_inv_def h264.fresh_inv
        nal_type_from_annexb_def annexb_from_raw_nal_def)
  from udp_junk_resets [OF this, of "[0xFF]" "\<lambda>_. []" sample_udp_config 5
      "\<lparr>sa_ip = V4 0xC0000001, sa_port = 1\<rparr>"]
  show ?thesis by auto
qed

end
