(* ===== verification/Events.thy ===== *)
theory Events
  imports Text "HOL-Library.AList"
begin

text \<open>
  Motion events on the agent. \<^verbatim>\<open>src/event/event_bus.rs\<close>: the fan-out bus of edge events and the
  watch channel with the current motion state. \<^verbatim>\<open>src/motion_event_latch.rs\<close>: the latch that gives
  one motion period one \<open>event_id\<close>. \<^verbatim>\<open>src/forward_agent.rs\<close>: camera slots, stream maps and the
  hand-over to the uplink.

  A \<open>HashMap\<close> is an association list with distinct keys, changed with \<open>AList.update\<close> and
  \<open>AList.delete\<close>; its order means nothing, and the one place where the code takes "the first"
  entry of a \<open>HashMap\<close> has that choice as a parameter. A \<open>DateTime<Utc>\<close> is printed by a parameter
  (\<open>to_rfc3339\<close> of the \<open>chrono\<close> crate).
\<close>

section \<open>Events and the event bus (event\_bus.rs)\<close>

record MotionEvent =
  me_rule :: string
  me_active :: bool
  me_ts :: datetime
  me_camera_id :: string
  me_event_id :: string

datatype Event = Motion MotionEvent

definition show_bool :: "bool \<Rightarrow> string" where
  "show_bool b = (if b then ''true'' else ''false'')"

definition MotionEvent_fmt :: "(datetime \<Rightarrow> string) \<Rightarrow> MotionEvent \<Rightarrow> string" where
  "MotionEvent_fmt to_rfc3339 e =
     ''camera_id='' @ me_camera_id e @ '' rule='' @ me_rule e @ '' event_id='' @ me_event_id e
     @ '' active='' @ show_bool (me_active e) @ '' ts='' @ to_rfc3339 (me_ts e)"

text \<open>A bounded \<open>mpsc\<close> channel: its queue, and whether the receiver is gone.\<close>

record 'a channel =
  ch_queue :: "'a list"
  ch_closed :: bool

record EventBus =
  eb_inner :: "Event channel list"
  eb_queue :: usize

definition EventBus_new :: "usize \<Rightarrow> EventBus" where
  "EventBus_new queue = \<lparr>eb_inner = [], eb_queue = queue\<rparr>"

definition EventBus_subscribe :: "EventBus \<Rightarrow> EventBus" where
  "EventBus_subscribe bus =
     bus\<lparr>eb_inner := eb_inner bus @ [\<lparr>ch_queue = [], ch_closed = False\<rparr>]\<rparr>"

text \<open>
  \<open>publish\<close> waits in \<open>send\<close> while a live subscriber's queue is full: \<open>None\<close> stands for a call
  that is still waiting.
\<close>

definition EventBus_publish :: "EventBus \<Rightarrow> Event \<Rightarrow> EventBus option" where
  "EventBus_publish bus ev =
     (let subscribers = filter (\<lambda>tx. \<not> ch_closed tx) (eb_inner bus) in
      if \<exists>tx \<in> set subscribers. eb_queue bus \<le> length (ch_queue tx) then None
      else Some (bus\<lparr>eb_inner := map (\<lambda>tx. tx\<lparr>ch_queue := ch_queue tx @ [ev]\<rparr>) subscribers\<rparr>))"

fun EventBus_publish_all :: "EventBus \<Rightarrow> Event list \<Rightarrow> EventBus option" where
  "EventBus_publish_all bus [] = Some bus"
| "EventBus_publish_all bus (ev # evs) =
     Option.bind (EventBus_publish bus ev) (\<lambda>bus. EventBus_publish_all bus evs)"

section \<open>The motion state bus (event\_bus.rs)\<close>

record MotionMetadata =
  mm_camera_id :: string
  mm_event_id :: string

type_synonym MotionState = "(string \<times> MotionMetadata) list"

text \<open>
  \<open>set\<close> and \<open>clear_camera\<close> return whether the watchers are woken, which is the result of the
  closure given to \<open>send_if_modified\<close>.
\<close>

definition MotionStateBus_set ::
    "MotionState \<Rightarrow> string \<Rightarrow> bool \<Rightarrow> MotionMetadata option \<Rightarrow> bool \<times> MotionState" where
  "MotionStateBus_set state rule active metadata =
     (if active then
        (case metadata of
           Some meta \<Rightarrow>
             if (case map_of state rule of Some m \<Rightarrow> mm_event_id m = mm_event_id meta | None \<Rightarrow> False)
             then (False, state)
             else (True, AList.update rule meta state)
         | None \<Rightarrow> (False, state))
      else (map_of state rule \<noteq> None, AList.delete rule state))"

definition MotionStateBus_clear_camera :: "MotionState \<Rightarrow> string \<Rightarrow> bool \<times> MotionState" where
  "MotionStateBus_clear_camera state camera_id =
     (let before = length state;
          state = filter (\<lambda>(_, metadata). mm_camera_id metadata \<noteq> camera_id) state in
      (length state \<noteq> before, state))"

section \<open>The event id latch (motion\_event\_latch.rs)\<close>

record EndedMotion =
  em_event_id :: string
  em_ended_at :: datetime

record MotionEventIdLatch =
  la_active :: "((string \<times> string) \<times> string) list"
  la_ended :: "((string \<times> string) \<times> EndedMotion) list"
  la_grace_window :: int

definition MotionEventIdLatch_new :: MotionEventIdLatch where
  "MotionEventIdLatch_new = \<lparr>la_active = [], la_ended = [], la_grace_window = 0\<rparr>"

definition MotionEventIdLatch_new_with_grace :: "int \<Rightarrow> MotionEventIdLatch" where
  "MotionEventIdLatch_new_with_grace w = \<lparr>la_active = [], la_ended = [], la_grace_window = w\<rparr>"

definition latch_key :: "MotionEvent \<Rightarrow> string \<times> string" where
  "latch_key event = (me_camera_id event, me_rule event)"

definition normalize :: "MotionEventIdLatch \<Rightarrow> MotionEvent \<Rightarrow> MotionEvent \<times> MotionEventIdLatch" where
  "normalize l event =
     (let key = latch_key event in
      if me_active event then
        (case map_of (la_active l) key of
           Some existing \<Rightarrow> (event\<lparr>me_event_id := existing\<rparr>, l)
         | None \<Rightarrow>
             let event =
                   (case map_of (la_ended l) key of
                      Some ended \<Rightarrow>
                        let delta = me_ts event - em_ended_at ended in
                        if delta \<ge> 0 \<and> delta \<le> la_grace_window l
                        then event\<lparr>me_event_id := em_event_id ended\<rparr> else event
                    | None \<Rightarrow> event) in
             (event, l\<lparr>la_ended := AList.delete key (la_ended l),
                       la_active := AList.update key (me_event_id event) (la_active l)\<rparr>))
      else
        let event =
              (case map_of (la_active l) key of
                 Some existing \<Rightarrow> event\<lparr>me_event_id := existing\<rparr>
               | None \<Rightarrow> event) in
        (event, l\<lparr>la_active := AList.delete key (la_active l),
                  la_ended := AList.update key
                    \<lparr>em_event_id = me_event_id event, em_ended_at = me_ts event\<rparr> (la_ended l)\<rparr>))"

fun normalize_all :: "MotionEventIdLatch \<Rightarrow> MotionEvent list \<Rightarrow> MotionEvent list" where
  "normalize_all l [] = []"
| "normalize_all l (e # es) = (let (e', l') = normalize l e in e' # normalize_all l' es)"

section \<open>The forwarding agent (forward\_agent.rs)\<close>

record CamConfig =
  cc_name :: string
  cc_rtsp_url :: string
  cc_rtsp_user :: "string option"
  cc_rtsp_pass :: "string option"
  cc_stream_id :: nat
  cc_transport :: string
  cc_rtp_port :: nat
  cc_rtcp_port :: nat
  cc_camera_id :: string
  cc_agent_id :: string
  cc_agent_token :: string

datatype agent_error = MissingStreamId nat | BadStreamId string | MissingToken nat

definition cam_var :: "(string \<Rightarrow> string option) \<Rightarrow> nat \<Rightarrow> string \<Rightarrow> string option" where
  "cam_var var i k = var (''CAM'' @ show_nat i @ ''_'' @ k)"

text \<open>
  The default \<open>rtp_port + 1\<close> is computed in \<open>u16\<close> whether it is used or not; on 65535 it
  overflows, a panic in a build with overflow checks.
\<close>

definition load_camera ::
    "(string \<Rightarrow> string option) \<Rightarrow> nat \<Rightarrow> (agent_error, CamConfig option) rust" where
  "load_camera var i =
     (case cam_var var i ''RTSP_URL'' of
        None \<Rightarrow> Ok None
      | Some rtsp \<Rightarrow>
          let user = or_else (cam_var var i ''RTSP_USER'') (var ''RTSP_USER'');
              pass = or_else (cam_var var i ''RTSP_PASS'') (var ''RTSP_PASS'') in
          (case cam_var var i ''STREAM_ID'' of
             None \<Rightarrow> Err (MissingStreamId i)
           | Some s \<Rightarrow>
               (case parse_uint 4294967295 s of
                  None \<Rightarrow> Err (BadStreamId s)
                | Some stream_id \<Rightarrow>
                    let transport = unwrap_or (cam_var var i ''TRANSPORT'') ''tcp'';
                        rtp_port = unwrap_or (Option.bind (cam_var var i ''RTP_PORT'')
                          (parse_uint 65535)) (5004 + (i - 1) * 2) in
                    if rtp_port + 1 > 65535 then Panic
                    else
                      let rtcp_port = unwrap_or (Option.bind (cam_var var i ''RTCP_PORT'')
                            (parse_uint 65535)) (rtp_port + 1);
                          camera_id = unwrap_or (or_else (cam_var var i ''CAMERA_ID'')
                            (if i = 1 then var ''CAMERA_ID'' else None)) (''cam-'' @ show_nat i);
                          agent_id = unwrap_or (cam_var var i ''AGENT_ID'') camera_id in
                      (case or_else (cam_var var i ''AGENT_TOKEN'')
                              (or_else (var ''SERVER_BEARER_TOKEN'')
                                (or_else (var ''AGENT_TOKEN'') (var ''SERVER_TOKEN''))) of
                         None \<Rightarrow> Err (MissingToken i)
                       | Some agent_token \<Rightarrow>
                           Ok (Some \<lparr>cc_name = ''cam'' @ show_nat i, cc_rtsp_url = rtsp,
                             cc_rtsp_user = user, cc_rtsp_pass = pass, cc_stream_id = stream_id,
                             cc_transport = to_lowercase transport, cc_rtp_port = rtp_port,
                             cc_rtcp_port = rtcp_port, cc_camera_id = camera_id,
                             cc_agent_id = agent_id, cc_agent_token = agent_token\<rparr>)))))"

fun load_cameras :: "(string \<Rightarrow> string option) \<Rightarrow> nat list \<Rightarrow> (agent_error, CamConfig list) rust" where
  "load_cameras var [] = Ok []"
| "load_cameras var (i # is) =
     bindR (load_camera var i) (\<lambda>c.
       bindR (load_cameras var is) (\<lambda>cs. Ok (case c of None \<Rightarrow> cs | Some c \<Rightarrow> c # cs)))"

definition load_cameras_from_env ::
    "(string \<Rightarrow> string option) \<Rightarrow> (agent_error, CamConfig list) rust" where
  "load_cameras_from_env var = load_cameras var [1, 2, 3, 4]"

definition build_stream_maps ::
    "CamConfig list \<Rightarrow> (nat \<times> string) list \<times> (string \<times> nat) list" where
  "build_stream_maps cams =
     fold (\<lambda>cam (stream_map, camera_to_stream).
       (AList.update (cc_stream_id cam) (cc_name cam) stream_map,
        AList.update (cc_camera_id cam) (cc_stream_id cam) camera_to_stream)) cams ([], [])"

text \<open>\<open>any\<close> stands for \<open>values().next()\<close>, the first value in the order the \<open>HashMap\<close> happens to have.\<close>

definition resolve_stream_id ::
    "((string \<times> nat) list \<Rightarrow> nat option) \<Rightarrow> string \<Rightarrow> (string \<times> nat) list \<Rightarrow> nat" where
  "resolve_stream_id any camera_id cam_map =
     unwrap_or (or_else (map_of cam_map camera_id) (any cam_map)) 1"

record motion_call =
  mc_stream_id :: nat
  mc_rule :: string
  mc_active :: bool
  mc_ts :: string
  mc_camera_id :: string
  mc_event_id :: string

definition forward_motion_event ::
    "((string \<times> nat) list \<Rightarrow> nat option) \<Rightarrow> (datetime \<Rightarrow> string) \<Rightarrow> (string \<times> nat) list \<Rightarrow> MotionEvent
       \<Rightarrow> motion_call" where
  "forward_motion_event any to_rfc3339 cam_map event =
     \<lparr>mc_stream_id = resolve_stream_id any (me_camera_id event) cam_map, mc_rule = me_rule event,
      mc_active = me_active event, mc_ts = to_rfc3339 (me_ts event),
      mc_camera_id = me_camera_id event, mc_event_id = me_event_id event\<rparr>"

text \<open>The forwarding task of the agent: latch, then uplink, event by event.\<close>

definition forward_task ::
    "((string \<times> nat) list \<Rightarrow> nat option) \<Rightarrow> (datetime \<Rightarrow> string) \<Rightarrow> (string \<times> nat) list \<Rightarrow> int
       \<Rightarrow> MotionEvent list \<Rightarrow> motion_call list" where
  "forward_task any to_rfc3339 cam_map grace evs =
     map (forward_motion_event any to_rfc3339 cam_map)
       (normalize_all (MotionEventIdLatch_new_with_grace grace) evs)"

section \<open>The latch refines one small automaton per camera and rule\<close>

datatype motion_phase = Idle | Moving string | Ended string datetime

definition phase_of :: "MotionEventIdLatch \<Rightarrow> string \<times> string \<Rightarrow> motion_phase" where
  "phase_of l k =
     (case map_of (la_active l) k of
        Some i \<Rightarrow> Moving i
      | None \<Rightarrow> (case map_of (la_ended l) k of
                  Some e \<Rightarrow> Ended (em_event_id e) (em_ended_at e) | None \<Rightarrow> Idle))"

text \<open>What the latch promises: the id to use, and the phase afterwards.\<close>

fun chosen_id :: "int \<Rightarrow> motion_phase \<Rightarrow> bool \<Rightarrow> datetime \<Rightarrow> string \<Rightarrow> string" where
  "chosen_id g (Moving i) a ts own = i"
| "chosen_id g (Ended i t) a ts own = (if a \<and> 0 \<le> ts - t \<and> ts - t \<le> g then i else own)"
| "chosen_id g Idle a ts own = own"

definition next_phase :: "bool \<Rightarrow> datetime \<Rightarrow> string \<Rightarrow> motion_phase" where
  "next_phase a ts i = (if a then Moving i else Ended i ts)"

lemma phase_of_new [simp]: "phase_of (MotionEventIdLatch_new_with_grace g) k = Idle"
  by (simp add: phase_of_def MotionEventIdLatch_new_with_grace_def)

lemma normalize_event:
  "fst (normalize l e) = e\<lparr>me_event_id :=
     chosen_id (la_grace_window l) (phase_of l (latch_key e)) (me_active e) (me_ts e) (me_event_id e)\<rparr>"
  by (auto simp: normalize_def phase_of_def Let_def split: option.splits)

lemma normalize_phase:
  "phase_of (snd (normalize l e)) = (phase_of l)(latch_key e :=
     next_phase (me_active e) (me_ts e) (me_event_id (fst (normalize l e))))"
  by (rule ext)
     (auto simp: normalize_def phase_of_def next_phase_def Let_def AList.update_conv'
       AList.delete_conv' split: option.splits)

lemma normalize_grace [simp]: "la_grace_window (snd (normalize l e)) = la_grace_window l"
  by (auto simp: normalize_def Let_def split: option.splits)

lemma normalize_fields [simp]:
  "latch_key (fst (normalize l e)) = latch_key e" "me_active (fst (normalize l e)) = me_active e"
  by (simp_all add: normalize_event latch_key_def)

lemma length_normalize_all [simp]: "length (normalize_all l es) = length es"
  by (induction es arbitrary: l) (simp_all add: Let_def split: prod.splits)

lemma normalize_all_Cons [simp]:
  "normalize_all l (e # es) = fst (normalize l e) # normalize_all (snd (normalize l e)) es"
  by (simp add: Let_def split: prod.splits)

declare normalize_all.simps(2) [simp del]

lemma normalize_all_moving:
  assumes "phase_of l k = Moving i" "j < length es" "latch_key (es ! j) = k"
    and "\<forall>m < j. latch_key (es ! m) = k \<longrightarrow> me_active (es ! m)"
  shows "me_event_id (normalize_all l es ! j) = i"
  using assms
proof (induction es arbitrary: l j)
  case (Cons e es)
  show ?case
  proof (cases j)
    case 0
    with Cons.prems show ?thesis by (simp add: normalize_event)
  next
    case (Suc n)
    have "phase_of (snd (normalize l e)) k = Moving i"
      using Cons.prems(1,4) Suc
      by (auto simp: normalize_phase normalize_event next_phase_def)
    moreover have "\<forall>m < n. latch_key (es ! m) = k \<longrightarrow> me_active (es ! m)"
      using Cons.prems(4) Suc by auto
    ultimately show ?thesis
      using Cons.IH [of "snd (normalize l e)" n] Cons.prems(2,3) Suc
      by simp
  qed
qed simp

lemma normalize_all_period:
  assumes "i < j" "j < length es" "latch_key (es ! i) = latch_key (es ! j)" "me_active (es ! i)"
    and "\<forall>m. i < m \<and> m < j \<and> latch_key (es ! m) = latch_key (es ! j) \<longrightarrow> me_active (es ! m)"
  shows "me_event_id (normalize_all l es ! i) = me_event_id (normalize_all l es ! j)"
  using assms
proof (induction es arbitrary: l i j)
  case (Cons e es)
  obtain n where j: "j = Suc n" using Cons.prems(1) by (cases j) auto
  show ?case
  proof (cases i)
    case 0
    let ?l = "snd (normalize l e)"
    have "phase_of ?l (latch_key (es ! n)) = Moving (me_event_id (fst (normalize l e)))"
      using Cons.prems(3,4) 0 j by (simp add: normalize_phase next_phase_def)
    moreover have "\<forall>m < n. latch_key (es ! m) = latch_key (es ! n) \<longrightarrow> me_active (es ! m)"
      using Cons.prems(5) 0 j by (metis Suc_less_eq nth_Cons_Suc zero_less_Suc)
    ultimately have "me_event_id (normalize_all ?l es ! n) = me_event_id (fst (normalize l e))"
      using normalize_all_moving [of ?l "latch_key (es ! n)" _ n es] Cons.prems(2) j by simp
    with 0 j show ?thesis by simp
  next
    case (Suc i')
    have "\<forall>m. i' < m \<and> m < n \<and> latch_key (es ! m) = latch_key (es ! n) \<longrightarrow> me_active (es ! m)"
      using Cons.prems(5) Suc j by (metis Suc_less_eq nth_Cons_Suc)
    with Cons.IH [of i' n "snd (normalize l e)"] Cons.prems(1-4) Suc j show ?thesis
      by simp
  qed
qed simp

section \<open>Delivery on the buses\<close>

lemma publish_all_fresh:
  assumes "\<forall>tx \<in> set (eb_inner bus). \<not> ch_closed tx \<and> length (ch_queue tx) = m"
  shows "EventBus_publish_all bus evs =
     (if eb_inner bus = [] \<or> evs = [] \<or> m + length evs \<le> eb_queue bus
      then Some (bus\<lparr>eb_inner := map (\<lambda>tx. tx\<lparr>ch_queue := ch_queue tx @ evs\<rparr>) (eb_inner bus)\<rparr>)
      else None)"
  using assms
proof (induction evs arbitrary: bus m)
  case (Cons ev evs)
  have live: "filter (\<lambda>tx. \<not> ch_closed tx) (eb_inner bus) = eb_inner bus"
    using Cons.prems by (simp add: filter_id_conv)
  show ?case
  proof (cases "eb_inner bus = [] \<or> m < eb_queue bus")
    case True
    let ?bus = "bus\<lparr>eb_inner := map (\<lambda>tx. tx\<lparr>ch_queue := ch_queue tx @ [ev]\<rparr>) (eb_inner bus)\<rparr>"
    have "EventBus_publish bus ev = Some ?bus"
      using True Cons.prems by (auto simp: EventBus_publish_def Let_def live)
    moreover have "\<forall>tx \<in> set (eb_inner ?bus). \<not> ch_closed tx \<and> length (ch_queue tx) = Suc m"
      using Cons.prems by auto
    ultimately show ?thesis
      using Cons.IH [of ?bus "Suc m"] True by (auto simp: comp_def)
  next
    case False
    then obtain tx where "tx \<in> set (eb_inner bus)" by (cases "eb_inner bus") auto
    with False Cons.prems show ?thesis
      by (auto simp: EventBus_publish_def Let_def live)
  qed
qed simp

lemma filter_length_change: "(length (filter P xs) \<noteq> length xs) = (filter P xs \<noteq> xs)"
  by (metis filter_id_conv length_filter_less nless_le)

lemma alist_delete_changed: "(map_of al k \<noteq> None) = (AList.delete k al \<noteq> al)"
proof -
  have "AList.delete k al = al \<longleftrightarrow> k \<notin> fst ` set al"
    by (force simp: AList.delete_eq filter_id_conv)
  then show ?thesis by (simp add: map_of_eq_None_iff)
qed

section \<open>Properties\<close>

text \<open>
  One motion period, one id: after the latch, a start event of a camera and rule and every
  later event of the same camera and rule, up to and including the end of that motion, carry
  the same \<open>event_id\<close>, whatever ids the detector gave them and whatever other cameras and rules
  do in between.
\<close>

theorem motion_period_single_id:
  assumes "i < j" "j < length es" "latch_key (es ! i) = latch_key (es ! j)" "me_active (es ! i)"
    and "\<forall>m. i < m \<and> m < j \<and> latch_key (es ! m) = latch_key (es ! j) \<longrightarrow> me_active (es ! m)"
  shows "me_event_id (normalize_all l es ! i) = me_event_id (normalize_all l es ! j)"
  by (rule normalize_all_period [OF assms])

definition sample_motion :: "string \<Rightarrow> bool \<Rightarrow> datetime \<Rightarrow> string \<Rightarrow> MotionEvent" where
  "sample_motion cam a t i =
     \<lparr>me_rule = ''r'', me_active = a, me_ts = t, me_camera_id = cam, me_event_id = i\<rparr>"

theorem motion_period_single_id_witness:
  "me_event_id (normalize_all MotionEventIdLatch_new
      [sample_motion ''a'' True 1 ''x'', sample_motion ''b'' False 2 ''y'',
       sample_motion ''a'' False 3 ''z''] ! 0)
   = me_event_id (normalize_all MotionEventIdLatch_new
      [sample_motion ''a'' True 1 ''x'', sample_motion ''b'' False 2 ''y'',
       sample_motion ''a'' False 3 ''z''] ! 2)"
proof (rule motion_period_single_id)
  let ?es = "[sample_motion ''a'' True 1 ''x'', sample_motion ''b'' False 2 ''y'',
    sample_motion ''a'' False 3 ''z'']"
  show "\<forall>m. 0 < m \<and> m < 2 \<and> latch_key (?es ! m) = latch_key (?es ! 2) \<longrightarrow> me_active (?es ! m)"
    by (auto simp: less_2_cases_iff latch_key_def sample_motion_def)
qed (simp_all add: latch_key_def sample_motion_def)

text \<open>
  C35. The latch is exactly one automaton per camera and rule: it changes nothing of an event but
  its id, chooses the id from the phase of that camera and rule (the latched id while moving,
  the previous id when motion resumes within the grace window, the event's own id otherwise),
  and moves only that phase.
\<close>

theorem latch_refines_phases:
  "fst (normalize l e) = e\<lparr>me_event_id :=
      chosen_id (la_grace_window l) (phase_of l (latch_key e)) (me_active e) (me_ts e) (me_event_id e)\<rparr>
   \<and> phase_of (snd (normalize l e)) = (phase_of l)(latch_key e :=
      next_phase (me_active e) (me_ts e) (me_event_id (fst (normalize l e))))
   \<and> la_grace_window (snd (normalize l e)) = la_grace_window l"
  using normalize_event normalize_phase normalize_grace by blast

text \<open>
  Fan-out: after \<open>n\<close> subscriptions, publishing a sequence of events gives every subscriber
  exactly that sequence, in order, as long as it fits the queue, and waits otherwise: no event
  is dropped or reordered.
\<close>

theorem event_bus_delivers_all:
  "EventBus_publish_all ((EventBus_subscribe ^^ n) (EventBus_new queue)) evs =
     (if n = 0 \<or> evs = [] \<or> length evs \<le> queue
      then Some \<lparr>eb_inner = replicate n \<lparr>ch_queue = evs, ch_closed = False\<rparr>, eb_queue = queue\<rparr>
      else None)"
proof -
  have s: "(EventBus_subscribe ^^ n) (EventBus_new queue)
      = \<lparr>eb_inner = replicate n \<lparr>ch_queue = [], ch_closed = False\<rparr>, eb_queue = queue\<rparr>"
    by (induction n) (simp_all add: EventBus_new_def EventBus_subscribe_def replicate_append_same)
  show ?thesis unfolding s by (subst publish_all_fresh [of _ 0]) auto
qed

text \<open>
  Watchers of the motion state are woken exactly when it changes: \<open>set\<close> and \<open>clear_camera\<close>
  report a modification if and only if the state after is not the state before.
\<close>

theorem motion_state_wakes_iff_changed:
  "fst (MotionStateBus_set st rule active metadata)
     = (snd (MotionStateBus_set st rule active metadata) \<noteq> st)
   \<and> fst (MotionStateBus_clear_camera st camera)
     = (snd (MotionStateBus_clear_camera st camera) \<noteq> st)"
proof -
  have "map_of st rule \<noteq> Some meta \<Longrightarrow> AList.update rule meta st \<noteq> st" for meta
    by (metis AList.update_conv' fun_upd_same)
  then have "map_of st rule = None \<Longrightarrow> AList.update rule meta st \<noteq> st"
    "map_of st rule = Some m \<Longrightarrow> mm_event_id m \<noteq> mm_event_id meta \<Longrightarrow> AList.update rule meta st \<noteq> st"
    for meta m by (simp, metis option.inject)
  then have "fst (MotionStateBus_set st rule active metadata)
      = (snd (MotionStateBus_set st rule active metadata) \<noteq> st)"
    using alist_delete_changed [of st rule]
    by (cases metadata; cases "map_of st rule") (simp_all add: MotionStateBus_set_def)
  then show ?thesis
    by (simp add: MotionStateBus_clear_camera_def Let_def filter_length_change)
qed

text \<open>
  The motion state has one entry per rule name, not per camera and rule: when a second
  camera ends a motion under a rule name the first camera is moving under (the detector uses
  \<open><unknown-rule>\<close> when the camera names none), the first camera's motion disappears.
\<close>

theorem motion_state_forgets_other_camera:
  assumes "map_of st rule = Some m" "mm_camera_id m \<noteq> camera"
  shows "fst (MotionStateBus_set st rule False None)
    \<and> map_of (snd (MotionStateBus_set st rule False None)) rule = None
    \<and> map_of (snd (MotionStateBus_clear_camera st camera)) rule \<noteq> None"
proof -
  have "(rule, m) \<in> set st" using assms(1) by (rule map_of_SomeD)
  with assms(2) have "rule \<in> fst ` set (snd (MotionStateBus_clear_camera st camera))"
    by (force simp: MotionStateBus_clear_camera_def Let_def)
  then have "map_of (snd (MotionStateBus_clear_camera st camera)) rule \<noteq> None"
    by (simp add: map_of_eq_None_iff)
  with assms(1) show ?thesis by (simp add: MotionStateBus_set_def AList.delete_conv')
qed

theorem motion_state_forgets_other_camera_witness:
  "map_of (snd (MotionStateBus_set
      [(''<unknown-rule>'', \<lparr>mm_camera_id = ''cam-1'', mm_event_id = ''e1''\<rparr>)]
      ''<unknown-rule>'' False None)) ''<unknown-rule>'' = None"
  using motion_state_forgets_other_camera
    [of "[(''<unknown-rule>'', \<lparr>mm_camera_id = ''cam-1'', mm_event_id = ''e1''\<rparr>)]"
        "''<unknown-rule>''" "\<lparr>mm_camera_id = ''cam-1'', mm_event_id = ''e1''\<rparr>" "''cam-2''"]
  by simp

end
