(* ===== verification/Storage.thy ===== *)
theory Storage
  imports Text "HOL-Library.AList"
begin

text \<open>
  The file system, the clocks and the failures the recording components run against.

  The world holds the files with their contents and modification times, the two clocks, and a
  schedule of faults: each I/O call takes the next entry, \<open>None\<close> lets it succeed and
  \<open>Some n\<close> makes it fail, a write after \<open>n\<close> of its bytes. An empty schedule means no further
  faults. Code that may fail with \<open>?\<close> is a function from the world to an outcome and a world.
\<close>

record fs_file =
  f_data :: bytes
  f_mtime :: datetime

record world =
  w_files :: "(string \<times> fs_file) list"
  w_faults :: "nat option list"
  w_now :: instant
  w_utc :: datetime

datatype io_error =
    NotFound string
  | IoFailed
  | MissingSps
  | MissingPps
  | TimedOut
  | OtherError string

type_synonym 'a io = "world \<Rightarrow> (io_error, 'a) rust \<times> world"

definition returnIO :: "'a \<Rightarrow> 'a io" where
  "returnIO x w = (Ok x, w)"

definition failIO :: "io_error \<Rightarrow> 'a io" where
  "failIO e w = (Err e, w)"

definition bindIO :: "'a io \<Rightarrow> ('a \<Rightarrow> 'b io) \<Rightarrow> 'b io" where
  "bindIO m f w =
     (let (r, w') = m w in
      case r of Ok x \<Rightarrow> f x w' | Err e \<Rightarrow> (Err e, w') | Panic \<Rightarrow> (Panic, w'))"

text \<open>The result of a call as a value, for \<open>match\<close>, \<open>if let Err\<close> and \<open>let _ =\<close>.\<close>

definition attemptIO :: "'a io \<Rightarrow> (io_error + 'a) io" where
  "attemptIO m w =
     (let (r, w') = m w in
      case r of Ok x \<Rightarrow> (Ok (Inr x), w') | Err e \<Rightarrow> (Ok (Inl e), w') | Panic \<Rightarrow> (Panic, w'))"

definition getW :: "(world \<Rightarrow> 'a) \<Rightarrow> 'a io" where
  "getW f w = (Ok (f w), w)"

lemma io_simps [simp]:
  "returnIO x w = (Ok x, w)" "failIO e w = (Err e, w)" "getW f w = (Ok (f w), w)"
  by (simp_all add: returnIO_def failIO_def getW_def)

lemma bindIO_cases:
  "bindIO m f w = (case m w of (Ok x, w') \<Rightarrow> f x w' | (Err e, w') \<Rightarrow> (Err e, w') | (Panic, w') \<Rightarrow> (Panic, w'))"
  by (simp add: bindIO_def split: prod.splits)

lemma bindIO_Ok: "m w = (Ok x, w') \<Longrightarrow> bindIO m f w = f x w'"
  by (simp add: bindIO_def)

lemma bindIO_Err: "m w = (Err e, w') \<Longrightarrow> bindIO m f w = (Err e, w')"
  by (simp add: bindIO_def)

lemma bindIO_pure [simp]:
  "bindIO (returnIO x) f w = f x w" "bindIO (getW g) f w = f (g w) w"
  "bindIO (failIO e) f w = (Err e, w)"
  by (simp_all add: bindIO_def)

lemma bindIO_eq_Ok_iff:
  "bindIO m f w = (Ok y, w'') \<longleftrightarrow> (\<exists>x w'. m w = (Ok x, w') \<and> f x w' = (Ok y, w''))"
  by (auto simp: bindIO_def Let_def split: prod.splits rust.splits)

section \<open>Paths\<close>

definition join_path :: "string \<Rightarrow> string \<Rightarrow> string" where
  "join_path dir name = dir @ ''/'' @ name"

definition file_name :: "string \<Rightarrow> string" where
  "file_name path = last (split_on (CHR ''/'') path)"

definition parent_dir :: "string \<Rightarrow> string" where
  "parent_dir path = take (length path - length (file_name path) - 1) path"

text \<open>The extension of a file name: what follows its last dot, if something precedes the dot.\<close>

definition extension :: "string \<Rightarrow> string option" where
  "extension path =
     (let parts = split_on (CHR ''.'') (file_name path) in
      if length parts < 2 \<or> (length parts = 2 \<and> hd parts = []) then None else Some (last parts))"

definition with_extension :: "string \<Rightarrow> string \<Rightarrow> string" where
  "with_extension path ext =
     (case extension path of
        None \<Rightarrow> path @ ''.'' @ ext
      | Some e \<Rightarrow> take (length path - length e) path @ ext)"

section \<open>File operations\<close>

definition next_fault :: "(nat option) io" where
  "next_fault w =
     (case w_faults w of [] \<Rightarrow> (Ok None, w) | f # fs \<Rightarrow> (Ok f, w\<lparr>w_faults := fs\<rparr>))"

definition put_file :: "string \<Rightarrow> bytes \<Rightarrow> world \<Rightarrow> world" where
  "put_file path d w =
     w\<lparr>w_files := AList.update path \<lparr>f_data = d, f_mtime = w_utc w\<rparr> (w_files w)\<rparr>"

definition file_data :: "string \<Rightarrow> world \<Rightarrow> bytes option" where
  "file_data path w = map_option f_data (map_of (w_files w) path)"

definition fs_create :: "string \<Rightarrow> unit io" where
  "fs_create path =
     bindIO next_fault (\<lambda>f. case f of
       Some _ \<Rightarrow> failIO IoFailed
     | None \<Rightarrow> (\<lambda>w. (Ok (), put_file path [] w)))"

text \<open>A write to an open file appends; the file may have been unlinked meanwhile.\<close>

definition fs_append :: "string \<Rightarrow> bytes \<Rightarrow> (nat option) io" where
  "fs_append path d =
     bindIO next_fault (\<lambda>f w.
       let n = (case f of Some n \<Rightarrow> min n (length d) | None \<Rightarrow> length d) in
       (Ok f,
        case file_data path w of
          None \<Rightarrow> w
        | Some old \<Rightarrow> put_file path (old @ take n d) w))"

definition fs_write :: "string \<Rightarrow> bytes \<Rightarrow> unit io" where
  "fs_write path d =
     bindIO next_fault (\<lambda>f w.
       case f of
         Some n \<Rightarrow> (Err IoFailed, put_file path (take n d) w)
       | None \<Rightarrow> (Ok (), put_file path d w))"

definition fs_rename :: "string \<Rightarrow> string \<Rightarrow> unit io" where
  "fs_rename src dst =
     bindIO next_fault (\<lambda>f w.
       case f of
         Some _ \<Rightarrow> (Err IoFailed, w)
       | None \<Rightarrow>
           (case map_of (w_files w) src of
              None \<Rightarrow> (Err (NotFound src), w)
            | Some x \<Rightarrow>
                (Ok (), w\<lparr>w_files := AList.update dst x (AList.delete src (w_files w))\<rparr>)))"

definition fs_remove :: "string \<Rightarrow> unit io" where
  "fs_remove path =
     bindIO next_fault (\<lambda>f w.
       case f of
         Some _ \<Rightarrow> (Err IoFailed, w)
       | None \<Rightarrow>
           (case map_of (w_files w) path of
              None \<Rightarrow> (Err (NotFound path), w)
            | Some _ \<Rightarrow> (Ok (), w\<lparr>w_files := AList.delete path (w_files w)\<rparr>)))"

definition fs_metadata :: "string \<Rightarrow> fs_file io" where
  "fs_metadata path =
     bindIO next_fault (\<lambda>f w.
       case f of
         Some _ \<Rightarrow> (Err IoFailed, w)
       | None \<Rightarrow> (case map_of (w_files w) path of
                    None \<Rightarrow> (Err (NotFound path), w) | Some x \<Rightarrow> (Ok x, w)))"

text \<open>Directories are not modelled; creating them can still fail.\<close>

definition fs_create_dir_all :: "string \<Rightarrow> unit io" where
  "fs_create_dir_all dir =
     bindIO next_fault (\<lambda>f. case f of Some _ \<Rightarrow> failIO IoFailed | None \<Rightarrow> returnIO ())"

definition fs_read_dir :: "string \<Rightarrow> (string list) io" where
  "fs_read_dir dir =
     bindIO next_fault (\<lambda>f w.
       case f of
         Some _ \<Rightarrow> (Err IoFailed, w)
       | None \<Rightarrow> (Ok (filter (\<lambda>p. parent_dir p = dir) (map fst (w_files w))), w))"

lemma next_fault_none [simp]: "w_faults w = [] \<Longrightarrow> bindIO next_fault f w = f None w"
  by (simp add: bindIO_def next_fault_def)

lemma put_file_simps [simp]:
  "w_faults (put_file p d w) = w_faults w" "w_utc (put_file p d w) = w_utc w"
  "w_now (put_file p d w) = w_now w"
  "file_data p (put_file p d w) = Some d"
  "q \<noteq> p \<Longrightarrow> file_data q (put_file p d w) = file_data q w"
  by (simp_all add: put_file_def file_data_def AList.update_conv')

text \<open>A loop over a list of calls, and one that keeps the results of those that succeed.\<close>

fun forIO :: "'a list \<Rightarrow> ('a \<Rightarrow> unit io) \<Rightarrow> unit io" where
  "forIO [] f = returnIO ()"
| "forIO (x # xs) f = bindIO (f x) (\<lambda>_. forIO xs f)"

fun collectIO :: "'a list \<Rightarrow> ('a \<Rightarrow> ('b option) io) \<Rightarrow> ('b list) io" where
  "collectIO [] f = returnIO []"
| "collectIO (x # xs) f =
     bindIO (f x) (\<lambda>r. bindIO (collectIO xs f) (\<lambda>rs.
       returnIO (case r of None \<Rightarrow> rs | Some y \<Rightarrow> y # rs)))"

section \<open>Buffered writing\<close>

text \<open>
  \<open>BufWriter\<close>: bytes wait in the buffer; a write that would overfill it first empties it, and
  a write as long as the buffer goes straight to the file.
\<close>

record BufWriter =
  bw_path :: string
  bw_buf :: bytes
  bw_cap :: nat

definition bw_flush_buf :: "BufWriter \<Rightarrow> (bool \<times> BufWriter) io" where
  "bw_flush_buf b =
     (if bw_buf b = [] then returnIO (True, b)
      else bindIO (fs_append (bw_path b) (bw_buf b)) (\<lambda>f. case f of
        None \<Rightarrow> returnIO (True, b\<lparr>bw_buf := []\<rparr>)
      | Some n \<Rightarrow> returnIO (False, b\<lparr>bw_buf := drop n (bw_buf b)\<rparr>)))"

definition bw_write_all :: "BufWriter \<Rightarrow> bytes \<Rightarrow> (bool \<times> BufWriter) io" where
  "bw_write_all b d =
     bindIO (if length (bw_buf b) + length d > bw_cap b then bw_flush_buf b else returnIO (True, b))
       (\<lambda>(ok, b).
         if \<not> ok then returnIO (False, b)
         else if length d \<ge> bw_cap b
         then bindIO (fs_append (bw_path b) d) (\<lambda>f. returnIO (f = None, b))
         else returnIO (True, b\<lparr>bw_buf := bw_buf b @ d\<rparr>))"

section \<open>Calls that cannot panic\<close>

text \<open>
  What every I/O routine here has: it does not panic, it does not move the clocks, and it adds
  no faults to an empty schedule.
\<close>

definition benign :: "'a io \<Rightarrow> bool" where
  "benign m \<longleftrightarrow>
     (\<forall>w. fst (m w) \<noteq> Panic \<and> w_now (snd (m w)) = w_now w \<and> w_utc (snd (m w)) = w_utc w
        \<and> (w_faults w = [] \<longrightarrow> w_faults (snd (m w)) = []))"

named_theorems benign_intros \<open>calls that cannot panic\<close>

lemma benign_basic [benign_intros]:
  "benign (returnIO x)" "benign (failIO e)" "benign (getW f)" "benign next_fault"
  by (auto simp: benign_def next_fault_def split: list.splits)

lemma benign_bind [benign_intros]: "benign m \<Longrightarrow> (\<And>x. benign (f x)) \<Longrightarrow> benign (bindIO m f)"
  unfolding benign_def bindIO_def
  by (auto simp: Let_def split: prod.splits rust.splits) (metis fst_conv snd_conv)+

lemma benign_attempt [benign_intros]: "benign m \<Longrightarrow> benign (attemptIO m)"
  unfolding benign_def attemptIO_def
  by (auto simp: Let_def split: prod.splits rust.splits) (metis fst_conv snd_conv)+

lemma benign_if [benign_intros]: "benign a \<Longrightarrow> benign b \<Longrightarrow> benign (if c then a else b)"
  by simp

lemma benign_for [benign_intros]: "(\<And>x. benign (f x)) \<Longrightarrow> benign (forIO xs f)"
  by (induction xs) (auto intro!: benign_intros)

lemma benign_collect [benign_intros]: "(\<And>x. benign (f x)) \<Longrightarrow> benign (collectIO xs f)"
  by (induction xs) (auto intro!: benign_intros)

lemma benign_fs [benign_intros]:
  "benign (fs_create p)" "benign (fs_append p d)" "benign (fs_write p d)" "benign (fs_rename p q)"
  "benign (fs_remove p)" "benign (fs_metadata p)" "benign (fs_read_dir dir)"
  "benign (fs_create_dir_all dir)"
  unfolding fs_create_def fs_append_def fs_write_def fs_rename_def fs_remove_def fs_metadata_def
    fs_read_dir_def fs_create_dir_all_def
  by (intro benign_bind benign_basic;
      auto simp: benign_def put_file_def Let_def split: option.splits)+

lemma benign_buf [benign_intros]: "benign (bw_flush_buf b)" "benign (bw_write_all b d)"
proof -
  show f: "benign (bw_flush_buf b)" for b
    unfolding bw_flush_buf_def by (intro benign_intros) (auto intro: benign_intros split: option.splits)
  show "benign (bw_write_all b d)"
    unfolding bw_write_all_def by (intro benign_intros) (auto intro!: benign_intros f split: prod.splits)
qed

lemma benign_Ok_or_Err:
  assumes "benign m"
  obtains (ok) x w' where "m w = (Ok x, w')" "w_now w' = w_now w" "w_utc w' = w_utc w"
      "w_faults w = [] \<longrightarrow> w_faults w' = []"
    | (err) e w' where "m w = (Err e, w')" "w_now w' = w_now w" "w_utc w' = w_utc w"
      "w_faults w = [] \<longrightarrow> w_faults w' = []"
proof (cases "m w")
  case (Pair r w')
  with assms have "r \<noteq> Panic" "w_now w' = w_now w" "w_utc w' = w_utc w"
    "w_faults w = [] \<longrightarrow> w_faults w' = []"
    unfolding benign_def by (metis fst_conv snd_conv)+
  with Pair show ?thesis by (cases r) (auto intro: ok err)
qed

section \<open>Calls that always return a value\<close>

definition sure :: "'a io \<Rightarrow> bool" where
  "sure m \<longleftrightarrow> benign m \<and> (\<forall>w. \<exists>x w'. m w = (Ok x, w'))"

named_theorems sure_intros \<open>calls that always return a value\<close>

lemma sure_basic [sure_intros]:
  "sure (returnIO x)" "sure (getW f)" "sure next_fault"
  by (auto simp: sure_def next_fault_def intro: benign_intros split: list.splits)

lemma sure_bind [sure_intros]: "sure m \<Longrightarrow> (\<And>x. sure (f x)) \<Longrightarrow> sure (bindIO m f)"
  unfolding sure_def by (auto intro!: benign_intros) (metis bindIO_Ok)

lemma sure_attempt [sure_intros]: "benign m \<Longrightarrow> sure (attemptIO m)"
  unfolding sure_def
proof (intro conjI allI)
  fix w assume m: "benign m"
  then show "\<exists>x w'. attemptIO m w = (Ok x, w')"
    by (cases rule: benign_Ok_or_Err [OF m, of w]) (auto simp: attemptIO_def)
qed (rule benign_intros)

lemma sure_if [sure_intros]: "sure a \<Longrightarrow> sure b \<Longrightarrow> sure (if c then a else b)"
  by simp

lemma sure_for [sure_intros]: "(\<And>x. sure (f x)) \<Longrightarrow> sure (forIO xs f)"
  by (induction xs) (auto intro!: sure_intros)

lemma sure_append [sure_intros]: "sure (fs_append p d)"
  unfolding sure_def
  by (intro conjI benign_fs) (auto simp: fs_append_def bindIO_def next_fault_def Let_def split: list.splits)

lemma sure_buf [sure_intros]: "sure (bw_flush_buf b)" "sure (bw_write_all b d)"
proof -
  show f: "sure (bw_flush_buf b)" for b
    unfolding bw_flush_buf_def by (intro sure_intros) (auto intro: sure_intros split: option.splits)
  show "sure (bw_write_all b d)"
    unfolding bw_write_all_def by (intro sure_intros f) (auto intro!: sure_intros f split: prod.splits)
qed

lemma sureE:
  assumes "sure m"
  obtains x w' where "m w = (Ok x, w')" "w_now w' = w_now w" "w_utc w' = w_utc w"
    "w_faults w = [] \<longrightarrow> w_faults w' = []"
proof -
  from assms obtain x w' where m: "m w = (Ok x, w')" "benign m" unfolding sure_def by blast
  then show ?thesis using that [OF m(1)] unfolding benign_def by (metis snd_conv)
qed

text \<open>What a call returns and leaves behind.\<close>

definition ensures :: "'a io \<Rightarrow> world \<Rightarrow> ('a \<Rightarrow> world \<Rightarrow> bool) \<Rightarrow> bool" where
  "ensures m w P \<longleftrightarrow> (\<exists>x w'. m w = (Ok x, w') \<and> P x w')"

lemma ensures_bind: "ensures (bindIO m f) w P \<longleftrightarrow> ensures m w (\<lambda>x w'. ensures (f x) w' P)"
  by (auto simp: ensures_def bindIO_eq_Ok_iff)

lemma ensures_pure [simp]:
  "ensures (returnIO x) w P = P x w" "ensures (getW f) w P = P (f w) w"
  by (simp_all add: ensures_def)

lemma ensures_sure:
  assumes "sure m"
    and "\<And>x w'. w_now w' = w_now w \<Longrightarrow> w_utc w' = w_utc w \<Longrightarrow> (w_faults w = [] \<longrightarrow> w_faults w' = []) \<Longrightarrow> P x w'"
  shows "ensures m w P"
  using assms sureE [OF assms(1), of w] unfolding ensures_def by metis

lemmas ensures_attempt = ensures_sure [OF sure_attempt]

text \<open>What a call leaves behind whether it succeeds or fails; in either case it does not panic.\<close>

definition ends :: "'a io \<Rightarrow> world \<Rightarrow> ('a \<Rightarrow> world \<Rightarrow> bool) \<Rightarrow> (world \<Rightarrow> bool) \<Rightarrow> bool" where
  "ends m w P Q \<longleftrightarrow>
     (case m w of (Ok x, w') \<Rightarrow> P x w' | (Err e, w') \<Rightarrow> Q w' | (Panic, w') \<Rightarrow> False)"

lemma ends_bind: "ends (bindIO m f) w P Q \<longleftrightarrow> ends m w (\<lambda>x w'. ends (f x) w' P Q) Q"
  by (auto simp: ends_def bindIO_def split: prod.splits rust.splits)

lemma ends_pure [simp]:
  "ends (returnIO x) w P Q = P x w" "ends (getW f) w P Q = P (f w) w" "ends (failIO e) w P Q = Q w"
  by (simp_all add: ends_def)

lemma ends_mono:
  "ends m w P Q \<Longrightarrow> (\<And>x w'. P x w' \<Longrightarrow> P' x w') \<Longrightarrow> (\<And>w'. Q w' \<Longrightarrow> Q' w') \<Longrightarrow> ends m w P' Q'"
  by (auto simp: ends_def split: prod.splits rust.splits)

lemma ends_conj: "ends m w P Q \<Longrightarrow> ends m w P' Q' \<Longrightarrow> ends m w (\<lambda>x w'. P x w' \<and> P' x w') (\<lambda>w'. Q w' \<and> Q' w')"
  by (auto simp: ends_def split: prod.splits rust.splits)

lemma ends_ensures: "ends m w P (\<lambda>_. False) \<longleftrightarrow> ensures m w P"
  by (auto simp: ends_def ensures_def split: prod.splits rust.splits)

section \<open>Event loops\<close>

text \<open>
  A \<open>select!\<close> loop consumes a sequence of events, each with the time it is handled at. It ends
  with the first handler that returns an error.
\<close>

definition set_time :: "instant \<Rightarrow> datetime \<Rightarrow> world \<Rightarrow> world" where
  "set_time t u w = w\<lparr>w_now := t, w_utc := u\<rparr>"

definition empty_world :: world where
  "empty_world = \<lparr>w_files = [], w_faults = [], w_now = 0, w_utc = 0\<rparr>"

lemma set_time_simps [simp]:
  "w_now (set_time t u w) = t" "w_utc (set_time t u w) = u" "w_faults (set_time t u w) = w_faults w"
  "file_data p (set_time t u w) = file_data p w"
  by (simp_all add: set_time_def file_data_def)

fun event_loop ::
    "('s \<Rightarrow> 'e \<Rightarrow> 's io) \<Rightarrow> 's \<Rightarrow> (instant \<times> datetime \<times> 'e) list \<Rightarrow> 's io" where
  "event_loop step s [] w = (Ok s, w)"
| "event_loop step s ((t, u, ev) # evs) w =
     bindIO (step s ev) (\<lambda>s'. event_loop step s' evs) (set_time t u w)"

declare event_loop.simps [simp del]

lemma ensures_loop_simps [simp]:
  "ensures (event_loop step s []) w P = P s w"
  "ensures (event_loop step s ((t, u, ev) # evs)) w P
     \<longleftrightarrow> ensures (step s ev) (set_time t u w) (\<lambda>s' w'. ensures (event_loop step s' evs) w' P)"
  by (auto simp: ensures_def bindIO_eq_Ok_iff event_loop.simps)

lemma ensures_loop_append:
  "ensures (event_loop step s (xs @ ys)) w P
     \<longleftrightarrow> ensures (event_loop step s xs) w (\<lambda>s' w'. ensures (event_loop step s' ys) w' P)"
proof (induction xs arbitrary: s w)
  case (Cons x xs)
  then show ?case by (cases x) simp
qed simp

lemma ensures_mono: "ensures m w P \<Longrightarrow> (\<And>x w'. P x w' \<Longrightarrow> Q x w') \<Longrightarrow> ensures m w Q"
  by (auto simp: ensures_def)

lemma ends_loop_simps [simp]:
  "ends (event_loop step s []) w P Q = P s w"
  "ends (event_loop step s ((t, u, ev) # evs)) w P Q
     \<longleftrightarrow> ends (step s ev) (set_time t u w) (\<lambda>s' w'. ends (event_loop step s' evs) w' P Q) Q"
  by (auto simp: ends_def bindIO_def event_loop.simps split: prod.splits rust.splits)

text \<open>An invariant that every handler keeps, and leaves behind in the world when it fails.\<close>

lemma ends_loop:
  assumes "\<And>s w ev. I s w \<Longrightarrow> ends (step s ev) w I Q"
    and "\<And>s w t u. I s w \<Longrightarrow> I s (set_time t u w)"
  shows "I s w \<Longrightarrow> ends (event_loop step s evs) w I Q"
proof (induction evs arbitrary: s w)
  case (Cons x evs)
  obtain t u ev where x: "x = (t, u, ev)" by (cases x)
  have "ends (step s ev) (set_time t u w) I Q" using assms Cons.prems by blast
  with Cons.IH x show ?case by (auto elim: ends_mono)
qed simp

text \<open>
  What a loop relies on: each handler, run without faults in a good state, returns a good
  state. Then the loop never fails and keeps the invariant.
\<close>

locale reliable_loop =
  fixes step :: "'s \<Rightarrow> 'e \<Rightarrow> 's io"
    and inv :: "'s \<Rightarrow> world \<Rightarrow> bool"
  assumes step_inv: "inv s w \<Longrightarrow> w_faults w = []
      \<Longrightarrow> ensures (step s ev) w (\<lambda>s' w'. inv s' w' \<and> w_faults w' = [])"
    and inv_time: "inv s w \<Longrightarrow> inv s (set_time t u w)"
begin

lemma loop_inv:
  "inv s w \<Longrightarrow> w_faults w = []
    \<Longrightarrow> ensures (event_loop step s evs) w (\<lambda>s' w'. inv s' w' \<and> w_faults w' = [])"
proof (induction evs arbitrary: s w)
  case Nil
  then show ?case by simp
next
  case (Cons x evs)
  obtain t u ev where x: "x = (t, u, ev)" by (cases x)
  have "ensures (step s ev) (set_time t u w) (\<lambda>s' w'. inv s' w' \<and> w_faults w' = [])"
    using Cons.prems by (intro step_inv inv_time) simp_all
  with Cons.IH x show ?case by (auto elim: ensures_mono)
qed

lemma loop_returns:
  assumes "inv s w" "w_faults w = []"
  shows "\<exists>s' w'. event_loop step s evs w = (Ok s', w')"
  using loop_inv [OF assms] unfolding ensures_def by blast

end

end
