(* ===== verification/Clip.thy ===== *)
theory Clip
  imports Storage
begin

text \<open>
  \<^verbatim>\<open>src/core/clip_writer.rs\<close>: a clip is written to a part file through a batch of pending bytes
  and a 256 KiB buffer, and renamed to its final name when it is complete. A method that
  returns \<open>Err\<close> keeps its writer usable, so it returns a success flag and the writer.
\<close>

record ClipWriter =
  cw_part_path :: string
  cw_final_path :: string
  cw_writer :: BufWriter
  cw_pending :: bytes
  cw_max_pending_bytes :: usize
  cw_written_bytes :: u64

definition ClipWriter_create :: "string \<Rightarrow> string \<Rightarrow> usize \<Rightarrow> ClipWriter io" where
  "ClipWriter_create part_path final_path max_pending_bytes =
     bindIO (fs_create part_path) (\<lambda>_.
       returnIO \<lparr>cw_part_path = part_path, cw_final_path = final_path,
         cw_writer = \<lparr>bw_path = part_path, bw_buf = [], bw_cap = 256 * 1024\<rparr>,
         cw_pending = [], cw_max_pending_bytes = max max_pending_bytes (16 * 1024),
         cw_written_bytes = 0\<rparr>)"

definition write_pending :: "ClipWriter \<Rightarrow> (bool \<times> ClipWriter) io" where
  "write_pending cw =
     (if cw_pending cw \<noteq> [] then
        bindIO (bw_write_all (cw_writer cw) (cw_pending cw)) (\<lambda>(ok, b).
          returnIO (if ok
            then (True, cw\<lparr>cw_writer := b,
                cw_written_bytes := cw_written_bytes cw + length (cw_pending cw),
                cw_pending := []\<rparr>)
            else (False, cw\<lparr>cw_writer := b\<rparr>)))
      else returnIO (True, cw))"

definition flush_pending :: "ClipWriter \<Rightarrow> bool \<Rightarrow> (bool \<times> ClipWriter) io" where
  "flush_pending cw do_flush =
     bindIO (write_pending cw) (\<lambda>(ok, cw).
       if ok \<and> do_flush then
         bindIO (bw_flush_buf (cw_writer cw)) (\<lambda>(ok, b). returnIO (ok, cw\<lparr>cw_writer := b\<rparr>))
       else returnIO (ok, cw))"

definition write_nal :: "ClipWriter \<Rightarrow> bytes \<Rightarrow> (bool \<times> ClipWriter) io" where
  "write_nal cw nal =
     (let cw = cw\<lparr>cw_pending := cw_pending cw @ nal\<rparr> in
      if length (cw_pending cw) \<ge> cw_max_pending_bytes cw then flush_pending cw False
      else returnIO (True, cw))"

definition ClipWriter_flush :: "ClipWriter \<Rightarrow> (bool \<times> ClipWriter) io" where
  "ClipWriter_flush cw = flush_pending cw True"

definition ClipWriter_finalize :: "ClipWriter \<Rightarrow> string io" where
  "ClipWriter_finalize cw =
     bindIO (flush_pending cw True) (\<lambda>(ok, cw).
       if \<not> ok then failIO IoFailed
       else bindIO (fs_rename (cw_part_path cw) (cw_final_path cw)) (\<lambda>_.
         returnIO (cw_final_path cw)))"

definition total_bytes :: "ClipWriter \<Rightarrow> u64" where
  "total_bytes cw = cw_written_bytes cw + length (cw_pending cw)"

fun write_nals :: "ClipWriter \<Rightarrow> bytes list \<Rightarrow> (bool \<times> ClipWriter) io" where
  "write_nals cw [] = returnIO (True, cw)"
| "write_nals cw (n # ns) =
     bindIO (write_nal cw n) (\<lambda>(ok, cw). if ok then write_nals cw ns else returnIO (False, cw))"

section \<open>What a writer holds\<close>

text \<open>
  The clip so far is what is in the part file, in the buffer and pending, in this order.
\<close>

definition clip_so_far :: "ClipWriter \<Rightarrow> world \<Rightarrow> bytes \<Rightarrow> bool" where
  "clip_so_far cw w d \<longleftrightarrow>
     bw_path (cw_writer cw) = cw_part_path cw \<and> cw_part_path cw \<noteq> cw_final_path cw
     \<and> (\<exists>f. file_data (cw_part_path cw) w = Some f
          \<and> d = f @ bw_buf (cw_writer cw) @ cw_pending cw
          \<and> cw_written_bytes cw = length (f @ bw_buf (cw_writer cw)))"

text \<open>What a call leaves alone: every other file, the clocks, the identity of the writer.\<close>

definition only_touches :: "string \<Rightarrow> world \<Rightarrow> world \<Rightarrow> bool" where
  "only_touches p w w' \<longleftrightarrow>
     (\<forall>q. q \<noteq> p \<longrightarrow> map_of (w_files w') q = map_of (w_files w) q)
     \<and> w_now w' = w_now w \<and> w_utc w' = w_utc w \<and> (w_faults w = [] \<longrightarrow> w_faults w' = [])"

lemma only_touches_refl [simp]: "only_touches p w w"
  by (simp add: only_touches_def)

lemma only_touches_trans [trans]:
  "only_touches p w w' \<Longrightarrow> only_touches p w' w'' \<Longrightarrow> only_touches p w w''"
  by (auto simp: only_touches_def)

lemma only_touches_data: "only_touches p w w' \<Longrightarrow> q \<noteq> p \<Longrightarrow> file_data q w' = file_data q w"
  by (simp add: only_touches_def file_data_def)

lemma fs_append_spec:
  obtains f w' where "fs_append p d w = (Ok f, w')" "only_touches p w w'"
    "w_faults w = [] \<longrightarrow> f = None"
    "\<And>old. file_data p w = Some old \<Longrightarrow> f = None \<Longrightarrow> file_data p w' = Some (old @ d)"
    "\<And>old. file_data p w = Some old \<Longrightarrow> \<exists>new. file_data p w' = Some new"
proof -
  obtain f w1 where f: "next_fault w = (Ok f, w1)" "only_touches p w w1" "file_data p w1 = file_data p w"
    "w_faults w = [] \<longrightarrow> f = None"
    by (cases "w_faults w") (auto simp: next_fault_def only_touches_def file_data_def)
  let ?w = "snd (fs_append p d w)"
  have o: "only_touches p w1 ?w"
    using f(1) by (auto simp: fs_append_def bindIO_def only_touches_def put_file_def AList.update_conv'
        split: option.splits)
  show ?thesis
    by (rule that [of f ?w])
       (use f o only_touches_trans [OF f(2) o] in
         \<open>auto simp: fs_append_def bindIO_def split: option.splits\<close>)
qed

text \<open>The contract of a buffered write of \<open>d\<close>: on success nothing is lost or reordered.\<close>

definition bw_post :: "BufWriter \<Rightarrow> bytes \<Rightarrow> world \<Rightarrow> bool \<Rightarrow> BufWriter \<Rightarrow> world \<Rightarrow> bool" where
  "bw_post b d w ok b' w' \<longleftrightarrow>
     only_touches (bw_path b) w w' \<and> bw_path b' = bw_path b \<and> bw_cap b' = bw_cap b
     \<and> (w_faults w = [] \<longrightarrow> ok)
     \<and> (\<forall>old. ok \<and> file_data (bw_path b) w = Some old
          \<longrightarrow> (\<exists>new. file_data (bw_path b) w' = Some new \<and> new @ bw_buf b' = old @ bw_buf b @ d))"

lemma bw_post_refl: "bw_post b [] w True b w"
  by (simp add: bw_post_def)

lemma bw_post_trans:
  assumes "bw_post b d w True b1 w1" "bw_post b1 e w1 ok b2 w2"
  shows "bw_post b (d @ e) w ok b2 w2"
proof -
  have t: "only_touches (bw_path b) w w2"
    using assms only_touches_trans by (auto simp: bw_post_def)
  have f: "w_faults w = [] \<longrightarrow> w_faults w1 = []" using assms(1) by (simp add: bw_post_def only_touches_def)
  have "\<exists>new. file_data (bw_path b) w2 = Some new \<and> new @ bw_buf b2 = old @ bw_buf b @ d @ e"
    if ok and old: "file_data (bw_path b) w = Some old" for old
  proof -
    obtain m where m: "file_data (bw_path b) w1 = Some m" "m @ bw_buf b1 = old @ bw_buf b @ d"
      using assms(1) old by (auto simp: bw_post_def)
    with assms that(1) have "\<exists>new. file_data (bw_path b) w2 = Some new \<and> new @ bw_buf b2 = m @ bw_buf b1 @ e"
      by (simp add: bw_post_def)
    moreover have "m @ bw_buf b1 @ e = old @ bw_buf b @ d @ e" using m(2) by (metis append.assoc)
    ultimately show ?thesis by simp
  qed
  with t f assms show ?thesis by (simp add: bw_post_def)
qed

lemma bw_flush_buf_spec:
  "\<exists>ok b' w'. bw_flush_buf b w = (Ok (ok, b'), w') \<and> bw_post b [] w ok b' w' \<and> (ok \<longrightarrow> bw_buf b' = [])"
proof (cases "bw_buf b = []")
  case True
  then show ?thesis
    using bw_post_refl [of b w]
    by (intro exI [of _ True] exI [of _ b] exI [of _ w]) (simp add: bw_flush_buf_def)
next
  case False
  obtain f w' where f: "fs_append (bw_path b) (bw_buf b) w = (Ok f, w')" "only_touches (bw_path b) w w'"
    "w_faults w = [] \<longrightarrow> f = None"
    "\<And>old. file_data (bw_path b) w = Some old \<Longrightarrow> f = None
       \<Longrightarrow> file_data (bw_path b) w' = Some (old @ bw_buf b)"
    by (rule fs_append_spec [of "bw_path b" "bw_buf b" w]) blast
  let ?b = "case f of None \<Rightarrow> b\<lparr>bw_buf := []\<rparr> | Some n \<Rightarrow> b\<lparr>bw_buf := drop n (bw_buf b)\<rparr>"
  from f False show ?thesis
    by (intro exI [of _ "f = None"] exI [of _ ?b] exI [of _ w'])
       (cases f, simp_all add: bw_flush_buf_def bindIO_def bw_post_def)
qed

lemma bw_direct_spec:
  assumes "bw_buf b = []"
  shows "\<exists>ok w'. bindIO (fs_append (bw_path b) d) (\<lambda>f. returnIO (f = None, b)) w = (Ok (ok, b), w')
    \<and> bw_post b d w ok b w'"
proof -
  obtain f w' where f: "fs_append (bw_path b) d w = (Ok f, w')" "only_touches (bw_path b) w w'"
    "w_faults w = [] \<longrightarrow> f = None"
    "\<And>old. file_data (bw_path b) w = Some old \<Longrightarrow> f = None
       \<Longrightarrow> file_data (bw_path b) w' = Some (old @ d)"
    by (rule fs_append_spec [of "bw_path b" d w]) blast
  with assms show ?thesis by (simp add: bindIO_def bw_post_def)
qed

lemma bw_write_all_spec:
  shows "\<exists>ok b' w'. bw_write_all b d w = (Ok (ok, b'), w') \<and> bw_post b d w ok b' w'"
proof (cases "length (bw_buf b) + length d > bw_cap b")
  case True
  obtain ok b1 w1 where f: "bw_flush_buf b w = (Ok (ok, b1), w1)" "bw_post b [] w ok b1 w1"
    "ok \<longrightarrow> bw_buf b1 = []"
    using bw_flush_buf_spec by blast
  have buffered: "bw_post b1 d w1 True (b1\<lparr>bw_buf := d\<rparr>) w1" if "bw_buf b1 = []"
    using that by (simp add: bw_post_def)
  show ?thesis
  proof (cases ok)
    case False
    with True f show ?thesis
      by (intro exI [of _ False] exI [of _ b1] exI [of _ w1])
         (simp add: bw_write_all_def bindIO_def bw_post_def)
  next
    case ok: True
    obtain ok2 w2 where g: "bindIO (fs_append (bw_path b1) d) (\<lambda>f. returnIO (f = None, b1)) w1
        = (Ok (ok2, b1), w2)" "bw_post b1 d w1 ok2 b1 w2"
      using bw_direct_spec [of b1 d w1] f(3) ok by blast
    have "bw_post b [] w True b1 w1" using f(2) ok by simp
    from bw_post_trans [OF this g(2)] bw_post_trans [OF this buffered] True f ok g(1) show ?thesis
      by (cases "length d \<ge> bw_cap b1")
         (auto simp: bw_write_all_def bindIO_def intro!: exI)
  qed
next
  case False
  then have "bw_cap b \<le> length d \<Longrightarrow> bw_buf b = []" by (cases "bw_buf b") auto
  moreover have "bw_post b d w True (b\<lparr>bw_buf := bw_buf b @ d\<rparr>) w" by (simp add: bw_post_def)
  ultimately show ?thesis
    using False bw_direct_spec [of b d w]
    by (cases "length d \<ge> bw_cap b") (auto simp: bw_write_all_def)
qed

section \<open>What the methods promise\<close>

definition cw_post :: "ClipWriter \<Rightarrow> bytes \<Rightarrow> world \<Rightarrow> bool \<Rightarrow> ClipWriter \<Rightarrow> world \<Rightarrow> bool" where
  "cw_post cw d w ok cw' w' \<longleftrightarrow>
     only_touches (bw_path (cw_writer cw)) w w'
     \<and> bw_path (cw_writer cw') = bw_path (cw_writer cw) \<and> bw_cap (cw_writer cw') = bw_cap (cw_writer cw)
     \<and> cw_part_path cw' = cw_part_path cw \<and> cw_final_path cw' = cw_final_path cw
     \<and> cw_max_pending_bytes cw' = cw_max_pending_bytes cw
     \<and> (w_faults w = [] \<longrightarrow> ok)
     \<and> (\<forall>old. ok \<and> clip_so_far cw w old \<longrightarrow> clip_so_far cw' w' (old @ d))"

lemma cw_post_trans:
  assumes "cw_post cw d w True cw1 w1" "cw_post cw1 e w1 ok cw2 w2"
  shows "cw_post cw (d @ e) w ok cw2 w2"
proof -
  have "only_touches (bw_path (cw_writer cw)) w w2"
    using assms only_touches_trans by (auto simp: cw_post_def)
  moreover have "w_faults w = [] \<longrightarrow> w_faults w1 = []"
    using assms(1) by (simp add: cw_post_def only_touches_def)
  ultimately show ?thesis using assms by (auto simp: cw_post_def)
qed

lemma flush_pending_write:
  assumes "bw_cap (cw_writer cw) > 0"
  shows "\<exists>ok cw' w'. write_pending cw w = (Ok (ok, cw'), w')
     \<and> cw_post cw [] w ok cw' w' \<and> (ok \<longrightarrow> cw_pending cw' = [])"
proof (cases "cw_pending cw = []")
  case True
  then show ?thesis
    by (intro exI [of _ True] exI [of _ cw] exI [of _ w]) (simp add: cw_post_def write_pending_def)
next
  case False
  obtain ok b w1 where b: "bw_write_all (cw_writer cw) (cw_pending cw) w = (Ok (ok, b), w1)"
    "bw_post (cw_writer cw) (cw_pending cw) w ok b w1"
    using bw_write_all_spec by blast
  let ?cw = "if ok then cw\<lparr>cw_writer := b,
      cw_written_bytes := cw_written_bytes cw + length (cw_pending cw), cw_pending := []\<rparr>
    else cw\<lparr>cw_writer := b\<rparr>"
  have "clip_so_far ?cw w1 old" if o: ok and c: "clip_so_far cw w old" for old
  proof -
    obtain f where f: "file_data (cw_part_path cw) w = Some f"
      "old = f @ bw_buf (cw_writer cw) @ cw_pending cw"
      "cw_written_bytes cw = length (f @ bw_buf (cw_writer cw))"
      "bw_path (cw_writer cw) = cw_part_path cw"
      using c by (auto simp: clip_so_far_def)
    obtain new where n: "file_data (cw_part_path cw) w1 = Some new" "new @ bw_buf b = old"
      using b(2) o f by (auto simp: bw_post_def)
    have "length old = length f + length (bw_buf (cw_writer cw)) + length (cw_pending cw)"
      using f(2) by simp
    with n f o c b(2) show ?thesis by (auto simp: clip_so_far_def bw_post_def simp flip: length_append)
  qed
  then have "cw_post cw [] w ok ?cw w1" using b(2) by (simp add: cw_post_def bw_post_def)
  with False b(1) show ?thesis
    by (intro exI [of _ ok] exI [of _ ?cw] exI [of _ w1]) (simp add: write_pending_def bindIO_def)
qed

lemma flush_pending_spec:
  assumes "bw_cap (cw_writer cw) > 0"
  shows "\<exists>ok cw' w'. flush_pending cw do_flush w = (Ok (ok, cw'), w') \<and> cw_post cw [] w ok cw' w'
    \<and> (ok \<longrightarrow> cw_pending cw' = [] \<and> (do_flush \<longrightarrow> bw_buf (cw_writer cw') = []))"
proof -
  obtain ok cw1 w1 where 1: "write_pending cw w = (Ok (ok, cw1), w1)"
    and p1: "cw_post cw [] w ok cw1 w1" "ok \<longrightarrow> cw_pending cw1 = []"
    using flush_pending_write [OF assms, of w] by blast
  show ?thesis
  proof (cases "ok \<and> do_flush")
    case False
    with 1 p1 show ?thesis
      by (intro exI [of _ ok] exI [of _ cw1] exI [of _ w1])
         (auto simp: flush_pending_def bindIO_def)
  next
    case True
    obtain ok2 b w2 where f: "bw_flush_buf (cw_writer cw1) w1 = (Ok (ok2, b), w2)"
      "bw_post (cw_writer cw1) [] w1 ok2 b w2" "ok2 \<longrightarrow> bw_buf b = []"
      using bw_flush_buf_spec by blast
    let ?cw = "cw1\<lparr>cw_writer := b\<rparr>"
    have "clip_so_far ?cw w2 old" if o2: ok2 and c1: "clip_so_far cw1 w1 old" for old
    proof -
      obtain g where g: "file_data (cw_part_path cw1) w1 = Some g" "old = g @ bw_buf (cw_writer cw1)"
        "cw_written_bytes cw1 = length (g @ bw_buf (cw_writer cw1))"
        "bw_path (cw_writer cw1) = cw_part_path cw1"
        using c1 p1(2) True by (auto simp: clip_so_far_def)
      have "file_data (cw_part_path cw1) w2 = Some old" "bw_path b = cw_part_path cw1"
        using f(2,3) g o2 by (auto simp: bw_post_def)
      with c1 o2 g f(3) p1(2) True show ?thesis by (simp add: clip_so_far_def)
    qed
    then have "cw_post cw1 [] w1 ok2 ?cw w2" using f(2) by (simp add: cw_post_def bw_post_def)
    moreover have "cw_post cw [] w True cw1 w1" using p1 True by simp
    ultimately have "cw_post cw [] w ok2 ?cw w2" using cw_post_trans [of cw "[]" w cw1 w1 "[]"] by simp
    with 1 p1 True f show ?thesis
      by (intro exI [of _ ok2] exI [of _ ?cw] exI [of _ w2])
         (simp add: flush_pending_def bindIO_def)
  qed
qed

lemma write_nal_spec:
  assumes "bw_cap (cw_writer cw) > 0"
  shows "\<exists>ok cw' w'. write_nal cw nal w = (Ok (ok, cw'), w') \<and> cw_post cw nal w ok cw' w'
    \<and> (ok \<longrightarrow> 0 < cw_max_pending_bytes cw \<longrightarrow> length (cw_pending cw') < cw_max_pending_bytes cw)"
proof -
  let ?cw = "cw\<lparr>cw_pending := cw_pending cw @ nal\<rparr>"
  have p: "cw_post cw nal w True ?cw w"
    by (auto simp: cw_post_def clip_so_far_def)
  show ?thesis
  proof (cases "length (cw_pending ?cw) \<ge> cw_max_pending_bytes ?cw")
    case True
    obtain ok cw' w' where "flush_pending ?cw False w = (Ok (ok, cw'), w')" "cw_post ?cw [] w ok cw' w'"
      "ok \<longrightarrow> cw_pending cw' = []"
      using flush_pending_spec [of ?cw False w] assms by auto
    with True cw_post_trans [OF p] show ?thesis by (fastforce simp: write_nal_def Let_def)
  next
    case False
    with p show ?thesis
      by (intro exI [of _ True] exI [of _ ?cw] exI [of _ w]) (simp add: write_nal_def Let_def)
  qed
qed

lemma write_nals_spec:
  assumes "bw_cap (cw_writer cw) > 0"
  shows "\<exists>ok cw' w'. write_nals cw ns w = (Ok (ok, cw'), w')
    \<and> (ok \<longrightarrow> cw_post cw (concat ns) w ok cw' w') \<and> (w_faults w = [] \<longrightarrow> ok)
    \<and> only_touches (bw_path (cw_writer cw)) w w'"
  using assms
proof (induction ns arbitrary: cw w)
  case Nil
  then show ?case
    by (intro exI [of _ True] exI [of _ cw] exI [of _ w]) (simp add: cw_post_def)
next
  case (Cons n ns)
  obtain ok cw1 w1 where 1: "write_nal cw n w = (Ok (ok, cw1), w1)" "cw_post cw n w ok cw1 w1"
    using write_nal_spec [OF Cons.prems] by blast
  show ?case
  proof (cases ok)
    case False
    with 1 show ?thesis by (auto simp: bindIO_def cw_post_def intro!: exI)
  next
    case True
    then have cap: "bw_cap (cw_writer cw1) > 0" "w_faults w = [] \<longrightarrow> w_faults w1 = []"
      using 1(2) Cons.prems by (simp_all add: cw_post_def only_touches_def)
    obtain ok2 cw2 w2 where 2: "write_nals cw1 ns w1 = (Ok (ok2, cw2), w2)"
      "ok2 \<longrightarrow> cw_post cw1 (concat ns) w1 ok2 cw2 w2" "w_faults w1 = [] \<longrightarrow> ok2"
      "only_touches (bw_path (cw_writer cw1)) w1 w2"
      using Cons.IH [OF cap(1)] by blast
    have t: "only_touches (bw_path (cw_writer cw)) w w2"
      using 1(2) 2(4) only_touches_trans by (auto simp: cw_post_def)
    have "cw_post cw n w True cw1 w1" using 1(2) True by simp
    with 1 2 True cap t cw_post_trans [of cw n w cw1 w1 "concat ns" ok2 cw2 w2] show ?thesis
      by (intro exI [of _ ok2] exI [of _ cw2] exI [of _ w2]) (cases ok2, simp_all add: bindIO_def)
  qed
qed

text \<open>A rename onto the final name, after a flush: the clip appears there whole or not at all.\<close>

lemma fs_rename_spec:
  assumes "file_data p w = Some d" "p \<noteq> q"
  obtains (moved) w' where "fs_rename p q w = (Ok (), w')" "file_data q w' = Some d"
      "file_data p w' = None" "\<And>r. r \<noteq> p \<Longrightarrow> r \<noteq> q \<Longrightarrow> file_data r w' = file_data r w"
    | (failed) e w' where "fs_rename p q w = (Err e, w')" "w_faults w \<noteq> []"
      "\<And>r. file_data r w' = file_data r w"
proof -
  obtain x where x: "map_of (w_files w) p = Some x" "f_data x = d"
    using assms(1) by (auto simp: file_data_def)
  show ?thesis
    by (cases "w_faults w"; cases "hd (w_faults w)")
       (use x assms(2) in \<open>auto simp: fs_rename_def bindIO_def next_fault_def file_data_def
         AList.update_conv' AList.delete_conv' intro: moved failed\<close>)
qed

lemma finalize_spec:
  assumes "bw_cap (cw_writer cw) > 0" "clip_so_far cw w d"
  shows "(\<exists>w'. ClipWriter_finalize cw w = (Ok (cw_final_path cw), w')
            \<and> file_data (cw_final_path cw) w' = Some d \<and> file_data (cw_part_path cw) w' = None
            \<and> (\<forall>r. r \<notin> {cw_part_path cw, cw_final_path cw} \<longrightarrow> file_data r w' = file_data r w))
       \<or> (\<exists>e w'. ClipWriter_finalize cw w = (Err e, w') \<and> w_faults w \<noteq> []
            \<and> (\<forall>r. r \<noteq> cw_part_path cw \<longrightarrow> file_data r w' = file_data r w))"
proof -
  obtain ok cw1 w1 where f: "flush_pending cw True w = (Ok (ok, cw1), w1)" "cw_post cw [] w ok cw1 w1"
    "ok \<longrightarrow> cw_pending cw1 = [] \<and> bw_buf (cw_writer cw1) = []"
    using flush_pending_spec [OF assms(1), of True w] by blast
  have path: "bw_path (cw_writer cw) = cw_part_path cw" "cw_part_path cw \<noteq> cw_final_path cw"
    using assms(2) by (simp_all add: clip_so_far_def)
  have same: "file_data r w1 = file_data r w" if "r \<noteq> cw_part_path cw" for r
    using f(2) that path only_touches_data [of "cw_part_path cw" w w1 r] by (simp add: cw_post_def)
  have names: "cw_part_path cw1 = cw_part_path cw" "cw_final_path cw1 = cw_final_path cw"
    "w_faults w = [] \<longrightarrow> w_faults w1 = [] \<and> ok"
    using f(2) by (simp_all add: cw_post_def only_touches_def)
  show ?thesis
  proof (cases ok)
    case False
    with f same names show ?thesis by (auto simp: ClipWriter_finalize_def bindIO_def)
  next
    case True
    with f assms(2) have "clip_so_far cw1 w1 d" by (auto simp: cw_post_def)
    with f(3) True names have "file_data (cw_part_path cw) w1 = Some d" by (simp add: clip_so_far_def)
    note data = fs_rename_spec [OF this path(2)]
    show ?thesis
    proof (cases rule: data)
      case m: (1 w2)
      then have "ClipWriter_finalize cw w = (Ok (cw_final_path cw), w2)"
        using f(1) True names by (simp add: ClipWriter_finalize_def bindIO_def)
      with m same show ?thesis by auto
    next
      case m: (2 e w2)
      then have "ClipWriter_finalize cw w = (Err e, w2)"
        using f(1) True names by (simp add: ClipWriter_finalize_def bindIO_def)
      with m same names show ?thesis by auto
    qed
  qed
qed

lemma create_spec:
  "(\<exists>cw w'. ClipWriter_create p q m w = (Ok cw, w') \<and> cw_part_path cw = p \<and> cw_final_path cw = q
        \<and> bw_cap (cw_writer cw) = 262144 \<and> bw_path (cw_writer cw) = p
        \<and> cw_max_pending_bytes cw = max m 16384 \<and> only_touches p w w'
        \<and> (p \<noteq> q \<longrightarrow> clip_so_far cw w' []))
   \<or> (\<exists>w'. ClipWriter_create p q m w = (Err IoFailed, w') \<and> w_faults w \<noteq> [] \<and> only_touches p w w'
        \<and> w_files w' = w_files w)"
  by (cases "w_faults w"; cases "hd (w_faults w)")
     (auto simp: ClipWriter_create_def fs_create_def bindIO_def next_fault_def only_touches_def
       put_file_def AList.update_conv' clip_so_far_def file_data_def)

text \<open>The whole life of a clip: create, write, finalize.\<close>

definition record_clip :: "string \<Rightarrow> string \<Rightarrow> usize \<Rightarrow> bytes list \<Rightarrow> string io" where
  "record_clip part final batch nals =
     bindIO (ClipWriter_create part final batch) (\<lambda>cw.
     bindIO (write_nals cw nals) (\<lambda>(ok, cw).
     if ok then ClipWriter_finalize cw else failIO IoFailed))"

lemma record_clip_spec:
  assumes "part \<noteq> final"
  shows "(\<exists>w'. record_clip part final batch nals w = (Ok final, w')
            \<and> file_data final w' = Some (concat nals) \<and> file_data part w' = None)
       \<or> (\<exists>e w'. record_clip part final batch nals w = (Err e, w') \<and> w_faults w \<noteq> []
            \<and> file_data final w' = file_data final w)"
proof -
  from create_spec [of part final batch w] show ?thesis
  proof (elim disjE exE conjE)
    fix cw w1 assume c: "ClipWriter_create part final batch w = (Ok cw, w1)" "cw_part_path cw = part"
      "cw_final_path cw = final" "bw_cap (cw_writer cw) = 262144" "bw_path (cw_writer cw) = part"
      "only_touches part w w1" "part \<noteq> final \<longrightarrow> clip_so_far cw w1 []"
    obtain ok cw2 w2 where n: "write_nals cw nals w1 = (Ok (ok, cw2), w2)"
      "ok \<longrightarrow> cw_post cw (concat nals) w1 ok cw2 w2" "w_faults w1 = [] \<longrightarrow> ok"
      "only_touches (bw_path (cw_writer cw)) w1 w2"
      using write_nals_spec [of cw nals w1] c(4) by auto
    have t: "only_touches part w w2" using c(5,6) n(4) only_touches_trans by auto
    have u: "file_data final w2 = file_data final w" "w_faults w = [] \<longrightarrow> w_faults w2 = [] \<and> ok"
      using only_touches_data [OF t] assms t c(6) n(3) by (auto simp: only_touches_def)
    show ?thesis
    proof (cases ok)
      case False
      with c(1) n(1) u show ?thesis by (simp add: record_clip_def bindIO_def)
    next
      case True
      then have "clip_so_far cw2 w2 (concat nals)" "bw_cap (cw_writer cw2) > 0"
        "cw_part_path cw2 = part" "cw_final_path cw2 = final"
        using n(2) c assms by (auto simp: cw_post_def)
      with finalize_spec [of cw2 w2 "concat nals"] c(1) n(1) u True assms show ?thesis
        by (auto simp: record_clip_def bindIO_def)
    qed
  qed (use assms in \<open>auto simp: record_clip_def bindIO_def file_data_def\<close>)
qed

text \<open>The writer never panics and always returns.\<close>

lemma benign_clip [benign_intros]:
  "benign (flush_pending cw b)" "benign (write_nal cw nal)" "benign (ClipWriter_flush cw)"
  "benign (ClipWriter_finalize cw)" "benign (ClipWriter_create p q m)"
proof -
  have w: "benign (write_pending cw)" for cw
    unfolding write_pending_def
    by (intro benign_intros) (auto intro!: benign_intros split: prod.splits)
  show f: "benign (flush_pending cw b)" for cw b
    unfolding flush_pending_def
    by (intro benign_intros w) (auto intro!: benign_intros split: prod.splits)
  show "benign (write_nal cw nal)"
    unfolding write_nal_def Let_def by (intro benign_intros f)
  show "benign (ClipWriter_flush cw)" unfolding ClipWriter_flush_def by (rule f)
  show "benign (ClipWriter_finalize cw)"
    unfolding ClipWriter_finalize_def
    by (intro benign_intros f) (auto intro!: benign_intros split: prod.splits)
  show "benign (ClipWriter_create p q m)"
    unfolding ClipWriter_create_def by (intro benign_intros)
qed

lemma sure_clip [sure_intros]:
  "sure (flush_pending cw b)" "sure (write_nal cw nal)" "sure (ClipWriter_flush cw)"
proof -
  have w: "sure (write_pending cw)" for cw
    unfolding write_pending_def
    by (intro sure_intros) (auto intro!: sure_intros split: prod.splits)
  show f: "sure (flush_pending cw b)" for cw b
    unfolding flush_pending_def
    by (intro sure_intros w) (auto intro!: sure_intros split: prod.splits)
  show "sure (write_nal cw nal)"
    unfolding write_nal_def Let_def by (intro sure_intros f)
  show "sure (ClipWriter_flush cw)" unfolding ClipWriter_flush_def by (rule f)
qed

section \<open>Properties\<close>

text \<open>
  C34. A clip appears under its final name complete or not at all. For every sequence of NAL
  units and every schedule of I/O faults: either recording succeeds, the final file holds
  exactly the units in order and the part file is gone, or it reports an error, which only a
  fault can cause, and whatever was under the final name before is untouched.
\<close>

theorem clip_complete_or_absent:
  assumes "part \<noteq> final"
  shows "(\<exists>w'. record_clip part final batch nals w = (Ok final, w')
            \<and> file_data final w' = Some (concat nals) \<and> file_data part w' = None)
       \<or> (\<exists>e w'. record_clip part final batch nals w = (Err e, w') \<and> w_faults w \<noteq> []
            \<and> file_data final w' = file_data final w)"
  by (rule record_clip_spec [OF assms])

theorem clip_complete_or_absent_witness:
  "\<exists>w'. record_clip ''a.h264.part'' ''a.h264'' 0 [[0, 0, 0, 1, 7], [0, 0, 0, 1, 5, 9]]
      \<lparr>w_files = [], w_faults = [], w_now = 0, w_utc = 0\<rparr> = (Ok ''a.h264'', w')
    \<and> file_data ''a.h264'' w' = Some [0, 0, 0, 1, 7, 0, 0, 0, 1, 5, 9]
    \<and> file_data ''a.h264.part'' w' = None"
  using clip_complete_or_absent [of "''a.h264.part''" "''a.h264''" 0
      "[[0, 0, 0, 1, 7], [0, 0, 0, 1, 5, 9]]" "\<lparr>w_files = [], w_faults = [], w_now = 0, w_utc = 0\<rparr>"]
  by simp

end
