(* ===== verification/ClipRecorder.thy ===== *)
theory ClipRecorder
  imports Clip Events H264 "HOL-Library.Char_ord" "HOL-Library.List_Lexorder"
    "HOL-Library.Multiset"
begin

text \<open>
  \<^verbatim>\<open>src/core/clip_recorder.rs\<close>: the state machine that turns motion states and NAL units into
  clip files: idle, armed (motion seen, waiting for an IDR), recording.

  Parameters (\<open>recorder_env\<close>): timestamp formatting of the \<open>chrono\<close> crate and the JSON encoder of
  the \<open>serde_json\<close> crate. Logging is not modelled.
\<close>

section \<open>Data\<close>

record ClipMeta =
  cm_camera_id :: string
  cm_event_id :: string
  cm_rule :: string
  cm_file_path :: string
  cm_file_size :: u64
  cm_started_at :: datetime
  cm_ended_at :: datetime

record ClipSidecar =
  sc_camera_id :: string
  sc_event_id :: string
  sc_rule :: string
  sc_filename :: string
  sc_file_size_bytes :: u64
  sc_started_at :: string
  sc_ended_at :: string
  sc_duration_secs :: int

record StickyMotion =
  sm_rule :: string
  sm_camera_id :: string
  sm_event_id :: string

record ClipRecorderConfig =
  rc_output_dir :: string
  rc_post_roll :: duration
  rc_min_clip_duration :: duration
  rc_flush_interval :: duration
  rc_stale_part_max_age :: duration
  rc_write_batch_bytes :: usize
  rc_max_files :: "usize option"
  rc_max_age_secs :: "u64 option"
  rc_max_total_bytes :: "u64 option"
  rc_max_clip_bytes :: "u64 option"
  rc_max_clip_secs :: "u64 option"

definition ClipRecorderConfig_default :: ClipRecorderConfig where
  "ClipRecorderConfig_default =
     \<lparr>rc_output_dir = ''clips'', rc_post_roll = from_secs 3, rc_min_clip_duration = from_secs 5,
      rc_flush_interval = from_secs 1, rc_stale_part_max_age = from_secs (24 * 60 * 60),
      rc_write_batch_bytes = 256 * 1024, rc_max_files = None, rc_max_age_secs = None,
      rc_max_total_bytes = None, rc_max_clip_bytes = None, rc_max_clip_secs = None\<rparr>"

record recording =
  re_rule :: string
  re_camera_id :: string
  re_event_id :: string
  re_writer :: ClipWriter
  re_stop_at :: "instant option"
  re_hard_stop_at :: "instant option"
  re_started_at :: instant
  re_started_at_utc :: datetime
  re_file_path :: string

datatype State =
    IdleState
  | Armed string string string instant
  | Recording recording

record ClipRecorder =
  cr_cfg :: ClipRecorderConfig
  cr_state :: State
  cr_last_sps :: "bytes option"
  cr_last_pps :: "bytes option"
  cr_last_motion_state :: MotionState
  cr_sticky_motion :: "StickyMotion option"
  cr_clip_meta_tx :: "ClipMeta list option"

record recorder_env =
  en_ts :: "datetime \<Rightarrow> string"
  en_rfc3339 :: "datetime \<Rightarrow> string"
  en_json :: "ClipSidecar \<Rightarrow> bytes"

definition ClipRecorder_new :: "ClipRecorderConfig \<Rightarrow> ClipRecorder" where
  "ClipRecorder_new cfg =
     \<lparr>cr_cfg = cfg, cr_state = IdleState, cr_last_sps = None, cr_last_pps = None,
      cr_last_motion_state = [], cr_sticky_motion = None, cr_clip_meta_tx = None\<rparr>"

definition with_clip_meta_tx :: "ClipRecorder \<Rightarrow> ClipRecorder" where
  "with_clip_meta_tx r = r\<lparr>cr_clip_meta_tx := Some []\<rparr>"

section \<open>Motion\<close>

fun min_by_key :: "MotionState \<Rightarrow> (string \<times> MotionMetadata) option" where
  "min_by_key [] = None"
| "min_by_key (x # xs) =
     (case min_by_key xs of
        None \<Rightarrow> Some x
      | Some y \<Rightarrow> Some (if fst x \<le> fst y then x else y))"

definition update_sticky :: "ClipRecorder \<Rightarrow> MotionState \<Rightarrow> ClipRecorder" where
  "update_sticky r st =
     (let r = r\<lparr>cr_last_motion_state := st\<rparr>;
          recording_active = (case cr_state r of Recording _ \<Rightarrow> True | _ \<Rightarrow> False) in
      if st = [] \<and> \<not> recording_active then r\<lparr>cr_sticky_motion := None\<rparr>
      else if st \<noteq> [] \<and> cr_sticky_motion r = None then
        (case min_by_key st of
           None \<Rightarrow> r
         | Some (rule, meta) \<Rightarrow>
             r\<lparr>cr_sticky_motion := Some \<lparr>sm_rule = rule, sm_camera_id = mm_camera_id meta,
                 sm_event_id = mm_event_id meta\<rparr>\<rparr>)
      else r)"

definition arm :: "ClipRecorder \<Rightarrow> MotionState \<Rightarrow> instant \<Rightarrow> ClipRecorder" where
  "arm r st now =
     (case cr_sticky_motion r of
        Some s \<Rightarrow> r\<lparr>cr_state := Armed (sm_rule s) (sm_camera_id s) (sm_event_id s) now\<rparr>
      | None \<Rightarrow>
          (case min_by_key st of
             None \<Rightarrow> r
           | Some (rule, meta) \<Rightarrow>
               r\<lparr>cr_state := Armed rule (mm_camera_id meta) (mm_event_id meta) now\<rparr>))"

definition on_motion_state_change :: "ClipRecorder \<Rightarrow> MotionState \<Rightarrow> instant \<Rightarrow> ClipRecorder" where
  "on_motion_state_change r st now =
     (let r = update_sticky r st;
          has_active_motion = (st \<noteq> []) in
      case cr_state r of
        IdleState \<Rightarrow> if has_active_motion then arm r st now else r
      | Armed rule camera_id event_id armed_at \<Rightarrow>
          if has_active_motion then r\<lparr>cr_state := Armed rule camera_id event_id now\<rparr>
          else if now - armed_at > from_secs 30 then r\<lparr>cr_state := IdleState\<rparr>
          else r
      | Recording rec \<Rightarrow>
          if has_active_motion then r\<lparr>cr_state := Recording (rec\<lparr>re_stop_at := None\<rparr>)\<rparr>
          else if re_stop_at rec = None then
            let elapsed = now - re_started_at rec;
                remaining_min = rc_min_clip_duration (cr_cfg r) - elapsed in
            if remaining_min > 0
            then r\<lparr>cr_state := Recording (rec\<lparr>re_stop_at := Some (now + remaining_min)\<rparr>)\<rparr>
            else r\<lparr>cr_state := Recording (rec\<lparr>re_stop_at := Some (now + rc_post_roll (cr_cfg r))\<rparr>)\<rparr>
          else r)"

section \<open>Retention\<close>

type_synonym clip_entry = "string \<times> datetime \<times> u64"

definition list_clips :: "string \<Rightarrow> (clip_entry list) io" where
  "list_clips dir =
     bindIO (fs_read_dir dir) (\<lambda>paths. collectIO paths (\<lambda>path.
       if extension path \<noteq> Some ''h264'' then returnIO None
       else bindIO (attemptIO (fs_metadata path)) (\<lambda>m.
         returnIO (case m of
           Inl _ \<Rightarrow> None
         | Inr md \<Rightarrow> Some (path, f_mtime md, length (f_data md))))))"

definition over_age :: "ClipRecorderConfig \<Rightarrow> datetime \<Rightarrow> clip_entry list \<Rightarrow> string list" where
  "over_age cfg now clips =
     (case rc_max_age_secs cfg of
        None \<Rightarrow> []
      | Some max_age \<Rightarrow>
          map fst (filter (\<lambda>(_, mtime, _). mtime < now - int (from_secs max_age)) clips))"

definition over_count :: "ClipRecorderConfig \<Rightarrow> clip_entry list \<Rightarrow> string list \<times> clip_entry list" where
  "over_count cfg clips =
     (case rc_max_files cfg of
        None \<Rightarrow> ([], clips)
      | Some max_files \<Rightarrow>
          if length clips > max_files then
            let excess = length clips - max_files in
            (map fst (take excess clips), drop excess clips)
          else ([], clips))"

fun drop_until_fits :: "u64 \<Rightarrow> u64 \<Rightarrow> clip_entry list \<Rightarrow> string list" where
  "drop_until_fits max_bytes current_size [] = []"
| "drop_until_fits max_bytes current_size ((path, _, sz) # clips) =
     (if current_size \<le> max_bytes then []
      else path # drop_until_fits max_bytes (current_size - sz) clips)"

definition over_bytes :: "ClipRecorderConfig \<Rightarrow> clip_entry list \<Rightarrow> string list" where
  "over_bytes cfg clips =
     (case rc_max_total_bytes cfg of
        None \<Rightarrow> []
      | Some max_bytes \<Rightarrow>
          let total_size = sum_list (map (\<lambda>(_, _, sz). sz) clips) in
          if total_size > max_bytes then drop_until_fits max_bytes total_size clips else [])"

definition clips_to_delete :: "ClipRecorderConfig \<Rightarrow> datetime \<Rightarrow> clip_entry list \<Rightarrow> string list" where
  "clips_to_delete cfg now clips =
     (let clips = sort_key (\<lambda>(_, mtime, _). mtime) clips;
          to_delete = over_age cfg now clips;
          clips = filter (\<lambda>(path, _, _). path \<notin> set to_delete) clips;
          (excess, clips) = over_count cfg clips in
      to_delete @ excess @ over_bytes cfg clips)"

definition cleanup_old_clips :: "ClipRecorderConfig \<Rightarrow> unit io" where
  "cleanup_old_clips cfg =
     bindIO (list_clips (rc_output_dir cfg)) (\<lambda>clips.
       if clips = [] then returnIO ()
       else bindIO (getW w_utc) (\<lambda>now.
         forIO (clips_to_delete cfg now clips) (\<lambda>path.
           bindIO (attemptIO (fs_remove path)) (\<lambda>_.
           bindIO (attemptIO (fs_remove (with_extension path ''json''))) (\<lambda>_. returnIO ())))))"

definition cleanup_stale_parts :: "ClipRecorderConfig \<Rightarrow> unit io" where
  "cleanup_stale_parts cfg =
     bindIO (getW w_utc) (\<lambda>now.
     bindIO (fs_read_dir (rc_output_dir cfg)) (\<lambda>paths. forIO paths (\<lambda>path.
       if \<not> ends_with (file_name path) ''.h264.part'' then returnIO ()
       else bindIO (attemptIO (fs_metadata path)) (\<lambda>m.
         case m of
           Inl _ \<Rightarrow> returnIO ()
         | Inr md \<Rightarrow>
             if f_mtime md < now - int (rc_stale_part_max_age cfg)
             then bindIO (attemptIO (fs_remove path)) (\<lambda>_. returnIO ())
             else returnIO ()))))"

section \<open>Recording\<close>

definition secs_between :: "datetime \<Rightarrow> datetime \<Rightarrow> int" where
  "secs_between a b =
     (let d = b - a in if d \<ge> 0 then d div 1000000000 else - ((- d) div 1000000000))"

definition write_sidecar_json ::
    "recorder_env \<Rightarrow> string \<Rightarrow> string \<Rightarrow> string \<Rightarrow> string \<Rightarrow> u64 \<Rightarrow> datetime \<Rightarrow> datetime \<Rightarrow> unit io" where
  "write_sidecar_json env file_path camera_id event_id rule file_size started_at ended_at =
     fs_write (with_extension file_path ''json'')
       (en_json env
         \<lparr>sc_camera_id = camera_id, sc_event_id = event_id, sc_rule = rule,
          sc_filename = file_name file_path, sc_file_size_bytes = file_size,
          sc_started_at = en_rfc3339 env started_at, sc_ended_at = en_rfc3339 env ended_at,
          sc_duration_secs = secs_between started_at ended_at\<rparr>)"

definition safe_rule :: "string \<Rightarrow> string" where
  "safe_rule rule =
     map (\<lambda>c. if c \<in> {CHR ''/'', CHR 0x5C, CHR '' ''} then CHR ''_'' else c) rule"

definition spawn_clip_writer ::
    "recorder_env \<Rightarrow> ClipRecorder \<Rightarrow> string \<Rightarrow> string \<Rightarrow> string \<Rightarrow> (ClipWriter \<times> string) io" where
  "spawn_clip_writer env r rule camera_id event_id =
     bindIO (getW w_utc) (\<lambda>now.
       let name = en_ts env now @ ''_'' @ camera_id @ ''_'' @ event_id @ ''_'' @ safe_rule rule;
           file_path = join_path (rc_output_dir (cr_cfg r)) (name @ ''.h264'');
           part_path = join_path (rc_output_dir (cr_cfg r)) (name @ ''.h264.part'') in
       bindIO (ClipWriter_create part_path file_path (rc_write_batch_bytes (cr_cfg r))) (\<lambda>writer.
         returnIO (writer, file_path)))"

definition stop_recording :: "recorder_env \<Rightarrow> ClipRecorder \<Rightarrow> ClipRecorder io" where
  "stop_recording env r =
     (case cr_state r of
        Recording rec \<Rightarrow>
          let r = r\<lparr>cr_state := IdleState\<rparr> in
          bindIO (ClipWriter_flush (re_writer rec)) (\<lambda>(_, writer).
          bindIO (attemptIO (ClipWriter_finalize writer)) (\<lambda>fin.
          case fin of
            Inl _ \<Rightarrow> returnIO r
          | Inr final_path \<Rightarrow>
              bindIO (attemptIO (fs_metadata final_path)) (\<lambda>m.
              let file_size = (case m of Inl _ \<Rightarrow> 0 | Inr md \<Rightarrow> length (f_data md)) in
              bindIO (getW w_utc) (\<lambda>ended_at.
              bindIO (attemptIO (write_sidecar_json env final_path (re_camera_id rec)
                (re_event_id rec) (re_rule rec) file_size (re_started_at_utc rec) ended_at)) (\<lambda>_.
              let meta = \<lparr>cm_camera_id = re_camera_id rec, cm_event_id = re_event_id rec,
                    cm_rule = re_rule rec, cm_file_path = final_path, cm_file_size = file_size,
                    cm_started_at = re_started_at_utc rec, cm_ended_at = ended_at\<rparr>;
                  r = r\<lparr>cr_clip_meta_tx := map_option (\<lambda>q. q @ [meta]) (cr_clip_meta_tx r)\<rparr> in
              bindIO (attemptIO (cleanup_old_clips (cr_cfg r))) (\<lambda>_. returnIO r))))))
      | _ \<Rightarrow> returnIO (r\<lparr>cr_state := IdleState\<rparr>))"

definition write_param_sets_and_idr :: "ClipRecorder \<Rightarrow> recording \<Rightarrow> bytes \<Rightarrow> recording io" where
  "write_param_sets_and_idr r rec idr =
     (case cr_last_sps r of
        None \<Rightarrow> failIO MissingSps
      | Some sps \<Rightarrow>
          (case cr_last_pps r of
             None \<Rightarrow> failIO MissingPps
           | Some pps \<Rightarrow>
               bindIO (write_nals (re_writer rec) [sps, pps, idr]) (\<lambda>(ok, writer).
                 if ok then returnIO (rec\<lparr>re_writer := writer\<rparr>) else failIO IoFailed)))"

definition start_recording ::
    "recorder_env \<Rightarrow> ClipRecorder \<Rightarrow> string \<Rightarrow> string \<Rightarrow> string \<Rightarrow> bytes \<Rightarrow> ClipRecorder io" where
  "start_recording env r rule camera_id event_id nal =
     bindIO (spawn_clip_writer env r rule camera_id event_id) (\<lambda>(writer, file_path).
     bindIO (getW w_now) (\<lambda>started_at.
     bindIO (getW w_utc) (\<lambda>started_at_utc.
     let rec = \<lparr>re_rule = rule, re_camera_id = camera_id, re_event_id = event_id,
           re_writer = writer,
           re_stop_at = Some (started_at + rc_min_clip_duration (cr_cfg r)),
           re_hard_stop_at =
             map_option (\<lambda>secs. started_at + from_secs secs) (rc_max_clip_secs (cr_cfg r)),
           re_started_at = started_at, re_started_at_utc = started_at_utc,
           re_file_path = file_path\<rparr> in
     bindIO (write_param_sets_and_idr r rec nal) (\<lambda>rec. returnIO (r\<lparr>cr_state := Recording rec\<rparr>)))))"

text \<open>A parameter set is cached, and written when recording; a failed write is ignored.\<close>

definition write_if_recording :: "ClipRecorder \<Rightarrow> bytes \<Rightarrow> ClipRecorder io" where
  "write_if_recording r nal =
     (case cr_state r of
        Recording rec \<Rightarrow>
          bindIO (write_nal (re_writer rec) nal) (\<lambda>(_, writer).
            returnIO (r\<lparr>cr_state := Recording (rec\<lparr>re_writer := writer\<rparr>)\<rparr>))
      | _ \<Rightarrow> returnIO r)"

definition on_nal :: "recorder_env \<Rightarrow> ClipRecorder \<Rightarrow> bytes \<Rightarrow> ClipRecorder io" where
  "on_nal env r nal =
     (case nal_type_from_annexb nal of
        None \<Rightarrow> returnIO r
      | Some nt \<Rightarrow>
          if nt = 7 then write_if_recording (r\<lparr>cr_last_sps := Some nal\<rparr>) nal
          else if nt = 8 then write_if_recording (r\<lparr>cr_last_pps := Some nal\<rparr>) nal
          else (case cr_state r of
                  IdleState \<Rightarrow> returnIO r
                | Armed rule camera_id event_id armed_at \<Rightarrow>
                    if nt = 5 \<and> cr_last_sps r \<noteq> None \<and> cr_last_pps r \<noteq> None
                    then start_recording env r rule camera_id event_id nal
                    else returnIO r
                | Recording rec \<Rightarrow>
                    bindIO (write_nal (re_writer rec) nal) (\<lambda>(ok, writer).
                      let r = r\<lparr>cr_state := Recording (rec\<lparr>re_writer := writer\<rparr>)\<rparr> in
                      if \<not> ok then stop_recording env r
                      else (case rc_max_clip_bytes (cr_cfg r) of
                              Some max_bytes \<Rightarrow>
                                if total_bytes writer \<ge> max_bytes then stop_recording env r
                                else returnIO r
                            | None \<Rightarrow> returnIO r))))"

definition due :: "instant option \<Rightarrow> instant \<Rightarrow> bool" where
  "due d now = (case d of None \<Rightarrow> False | Some t \<Rightarrow> now \<ge> t)"

definition rearm_if_motion_active :: "ClipRecorder \<Rightarrow> instant \<Rightarrow> ClipRecorder" where
  "rearm_if_motion_active r now =
     (if cr_last_motion_state r = [] then r else arm r (cr_last_motion_state r) now)"

definition maybe_stop_on_deadline :: "recorder_env \<Rightarrow> ClipRecorder \<Rightarrow> ClipRecorder io" where
  "maybe_stop_on_deadline env r =
     bindIO (getW w_now) (\<lambda>now.
       case cr_state r of
         Recording rec \<Rightarrow>
           let stop_due = due (re_stop_at rec) now;
               hard_due = due (re_hard_stop_at rec) now in
           if stop_due \<or> hard_due then
             bindIO (stop_recording env r) (\<lambda>r.
               if hard_due then bindIO (getW w_now) (\<lambda>now. returnIO (rearm_if_motion_active r now))
               else returnIO r)
           else returnIO r
       | _ \<Rightarrow> returnIO r)"

definition flush_recording :: "ClipRecorder \<Rightarrow> ClipRecorder io" where
  "flush_recording r =
     (case cr_state r of
        Recording rec \<Rightarrow>
          bindIO (ClipWriter_flush (re_writer rec)) (\<lambda>(_, writer).
            returnIO (r\<lparr>cr_state := Recording (rec\<lparr>re_writer := writer\<rparr>)\<rparr>))
      | _ \<Rightarrow> returnIO r)"

section \<open>The loop\<close>

text \<open>
  The branches of \<open>select!\<close>. The 200 ms sleep is created anew in every iteration, so \<open>Tick\<close>
  can only be taken when nothing else happened for 200 ms; the two intervals keep their phase.
  The \<open>else\<close> branch is never taken: it needs every branch disabled, and the sleep never is.
\<close>

datatype rec_event =
    Tick
  | CleanupTick
  | FlushTick
  | MotionChanged MotionState
  | Nal bytes

definition rec_step :: "recorder_env \<Rightarrow> ClipRecorder \<Rightarrow> rec_event \<Rightarrow> ClipRecorder io" where
  "rec_step env r ev =
     (case ev of
        Tick \<Rightarrow> maybe_stop_on_deadline env r
      | CleanupTick \<Rightarrow> bindIO (attemptIO (cleanup_old_clips (cr_cfg r))) (\<lambda>_. returnIO r)
      | FlushTick \<Rightarrow> flush_recording r
      | MotionChanged st \<Rightarrow> bindIO (getW w_now) (\<lambda>now. returnIO (on_motion_state_change r st now))
      | Nal nal \<Rightarrow> on_nal env r nal)"

fun rec_loop :: "recorder_env \<Rightarrow> ClipRecorder \<Rightarrow> (instant \<times> datetime \<times> rec_event) list \<Rightarrow> ClipRecorder io" where
  "rec_loop env r [] w = (Ok r, w)"
| "rec_loop env r ((t, u, ev) # evs) w =
     bindIO (rec_step env r ev) (\<lambda>r. rec_loop env r evs) (set_time t u w)"

definition ClipRecorder_run ::
    "recorder_env \<Rightarrow> ClipRecorder \<Rightarrow> (instant \<times> datetime \<times> rec_event) list \<Rightarrow> ClipRecorder io" where
  "ClipRecorder_run env r evs =
     bindIO (fs_create_dir_all (rc_output_dir (cr_cfg r))) (\<lambda>_.
     bindIO (attemptIO (cleanup_stale_parts (cr_cfg r))) (\<lambda>_. rec_loop env r evs))"

text \<open>The event times a run can have, from the start of the current iteration on.\<close>

fun timed :: "instant \<Rightarrow> (instant \<times> datetime \<times> rec_event) list \<Rightarrow> bool" where
  "timed start [] = True"
| "timed start ((t, u, ev) # evs) \<longleftrightarrow>
     start \<le> t \<and> (ev = Tick \<longrightarrow> start + from_millis 200 \<le> t) \<and> timed t evs"

section \<open>Retention lemmas\<close>

definition entry_mtime :: "clip_entry \<Rightarrow> datetime" where "entry_mtime e = fst (snd e)"
definition entry_size :: "clip_entry \<Rightarrow> u64" where "entry_size e = snd (snd e)"

lemma entry_simps [simp]: "entry_mtime (p, t, n) = t" "entry_size (p, t, n) = n"
  by (simp_all add: entry_mtime_def entry_size_def)

lemma drop_until_fits_split:
  assumes "current = sum_list (map entry_size clips)"
  shows "\<exists>k. drop_until_fits m current clips = map fst (take k clips)
    \<and> sum_list (map entry_size (drop k clips)) \<le> m"
  using assms
proof (induction m current clips rule: drop_until_fits.induct)
  case (2 m current path t sz clips)
  show ?case
  proof (cases "current \<le> m")
    case True
    with "2.prems" show ?thesis by (intro exI [of _ 0]) simp
  next
    case False
    with "2.IH" "2.prems" obtain k where
      "drop_until_fits m (current - sz) clips = map fst (take k clips)"
      "sum_list (map entry_size (drop k clips)) \<le> m"
      by auto
    with False show ?thesis by (intro exI [of _ "Suc k"]) simp
  qed
qed simp

lemma over_bytes_split:
  "\<exists>k. over_bytes cfg clips = map fst (take k clips)
    \<and> (\<forall>m. rc_max_total_bytes cfg = Some m \<longrightarrow> sum_list (map entry_size (drop k clips)) \<le> m)"
proof (cases "rc_max_total_bytes cfg")
  case (Some m)
  have e: "sum_list (map (\<lambda>(_, _, sz). sz) clips) = sum_list (map entry_size clips)"
    by (rule arg_cong [of _ _ sum_list]) (auto simp: entry_size_def)
  show ?thesis
    using drop_until_fits_split [OF refl, of m clips] Some e
    by (auto simp: over_bytes_def Let_def intro!: exI [of _ 0])
qed (auto simp: over_bytes_def intro!: exI [of _ 0])

lemma over_count_split:
  "\<exists>k. over_count cfg clips = (map fst (take k clips), drop k clips)
    \<and> (\<forall>m. rc_max_files cfg = Some m \<longrightarrow> length (drop k clips) \<le> m)"
proof (cases "rc_max_files cfg")
  case (Some m)
  then show ?thesis
    by (intro exI [of _ "length clips - m"]) (auto simp: over_count_def Let_def)
qed (auto simp: over_count_def intro!: exI [of _ 0])

lemma over_age_split:
  assumes "sorted (map entry_mtime clips)" "distinct (map fst clips)"
  shows "\<exists>k. over_age cfg now clips = map fst (take k clips)
    \<and> filter (\<lambda>(path, _, _). path \<notin> set (over_age cfg now clips)) clips = drop k clips
    \<and> (\<forall>a. rc_max_age_secs cfg = Some a
         \<longrightarrow> (\<forall>e \<in> set (drop k clips). now - int (from_secs a) \<le> entry_mtime e))"
proof (cases "rc_max_age_secs cfg")
  case (Some a)
  let ?old = "\<lambda>e :: clip_entry. entry_mtime e < now - int (from_secs a)"
  have eq: "over_age cfg now clips = map fst (filter ?old clips)"
    using Some by (simp add: over_age_def entry_mtime_def case_prod_unfold)
  have s: "sorted_wrt (\<lambda>x y. entry_mtime x \<le> entry_mtime y) clips"
    using assms(1) by (simp add: sorted_map)
  have tk: "filter ?old clips = takeWhile ?old clips" "filter (\<lambda>e. \<not> ?old e) clips = dropWhile ?old clips"
    using s by (induction clips) (fastforce simp: filter_empty_conv filter_id_conv
      takeWhile_eq_Nil_iff dropWhile_eq_self_iff dest: hd_in_set)+
  have kept: "filter (\<lambda>(path, _, _). path \<notin> set (over_age cfg now clips)) clips
      = filter (\<lambda>e. \<not> ?old e) clips"
  proof (intro filter_cong refl)
    fix e assume e: "e \<in> set clips"
    have "fst e \<in> set (over_age cfg now clips) \<longleftrightarrow> ?old e"
      using e assms(2) unfolding eq set_map set_filter distinct_map
      by (auto dest: inj_onD)
    then show "(case e of (path, _, _) \<Rightarrow> path \<notin> set (over_age cfg now clips)) = (\<not> ?old e)"
      by (simp add: case_prod_unfold)
  qed
  let ?k = "length (takeWhile ?old clips)"
  have "over_age cfg now clips = map fst (take ?k clips)"
    by (simp add: eq tk(1) flip: takeWhile_eq_take)
  moreover have d: "filter (\<lambda>e. \<not> ?old e) clips = drop ?k clips"
    by (simp add: tk(2) flip: dropWhile_eq_drop)
  moreover have "\<forall>e \<in> set (drop ?k clips). now - int (from_secs a) \<le> entry_mtime e"
    by (auto simp flip: d)
  ultimately show ?thesis using Some kept by auto
qed (auto simp: over_age_def intro!: exI [of _ 0])

lemma clips_to_delete_split:
  fixes clips :: "clip_entry list"
  assumes "distinct (map fst clips)"
  defines "sorted_clips \<equiv> sort_key entry_mtime clips"
  shows "\<exists>k. clips_to_delete cfg now clips = map fst (take k sorted_clips)
    \<and> (\<forall>m. rc_max_files cfg = Some m \<longrightarrow> length (drop k sorted_clips) \<le> m)
    \<and> (\<forall>m. rc_max_total_bytes cfg = Some m \<longrightarrow> sum_list (map entry_size (drop k sorted_clips)) \<le> m)
    \<and> (\<forall>a. rc_max_age_secs cfg = Some a
         \<longrightarrow> (\<forall>e \<in> set (drop k sorted_clips). now - int (from_secs a) \<le> entry_mtime e))"
proof -
  have key: "(\<lambda>(_, mtime, _). mtime) = entry_mtime" by (auto simp: entry_mtime_def fun_eq_iff)
  have srt: "sorted (map entry_mtime sorted_clips)" by (simp add: sorted_clips_def)
  have dst: "distinct (map fst sorted_clips)"
    using assms(1) by (simp add: sorted_clips_def distinct_map)
  obtain a where a: "over_age cfg now sorted_clips = map fst (take a sorted_clips)"
    "filter (\<lambda>(path, _, _). path \<notin> set (over_age cfg now sorted_clips)) sorted_clips = drop a sorted_clips"
    "\<forall>x. rc_max_age_secs cfg = Some x
       \<longrightarrow> (\<forall>e \<in> set (drop a sorted_clips). now - int (from_secs x) \<le> entry_mtime e)"
    using over_age_split [OF srt dst] by blast
  obtain b where b: "over_count cfg (drop a sorted_clips)
      = (map fst (take b (drop a sorted_clips)), drop b (drop a sorted_clips))"
    "\<forall>m. rc_max_files cfg = Some m \<longrightarrow> length (drop b (drop a sorted_clips)) \<le> m"
    using over_count_split by blast
  obtain c where c: "over_bytes cfg (drop b (drop a sorted_clips))
      = map fst (take c (drop b (drop a sorted_clips)))"
    "\<forall>m. rc_max_total_bytes cfg = Some m
       \<longrightarrow> sum_list (map entry_size (drop c (drop b (drop a sorted_clips)))) \<le> m"
    using over_bytes_split by blast
  have d1: "drop b (drop a sorted_clips) = drop (a + b) sorted_clips" by (simp add: add.commute)
  have d2: "drop c (drop (a + b) sorted_clips) = drop (a + b + c) sorted_clips"
    by (simp add: add.commute)
  have "clips_to_delete cfg now clips = map fst (take (a + b + c) sorted_clips)"
    using a b c d1
    by (simp add: clips_to_delete_def key sorted_clips_def [symmetric] Let_def take_add del: drop_drop)
  moreover have "set (drop (a + b + c) sorted_clips) \<subseteq> set (drop a sorted_clips)"
    by (rule set_drop_subset_set_drop) simp
  ultimately show ?thesis
    using a(3) b(2) c(2) unfolding d1 d2
    by (intro exI [of _ "a + b + c"]) auto
qed

section \<open>The recorder without faults\<close>

lemma benign_cleanup [benign_intros]: "benign (cleanup_old_clips cfg)"
proof -
  have "benign (list_clips dir)" for dir
    unfolding list_clips_def by (intro benign_intros)
  then show ?thesis
    unfolding cleanup_old_clips_def by (intro benign_intros)
qed

lemma benign_stop [benign_intros]: "benign (stop_recording env r)"
proof (cases "cr_state r")
  case (Recording rec)
  have s: "benign (write_sidecar_json e f c i ru sz a b)" for e f c i ru sz a b
    unfolding write_sidecar_json_def by (intro benign_intros)
  show ?thesis
    unfolding stop_recording_def using Recording
    by (simp add: Let_def) (auto intro!: benign_intros s split: sum.splits)
qed (simp_all add: stop_recording_def benign_intros)

text \<open>The end of a recording always leads to the idle state.\<close>

lemma stop_recording_idle:
  "\<exists>r' w'. stop_recording env r w = (Ok r', w') \<and> cr_state r' = IdleState \<and> cr_cfg r' = cr_cfg r
    \<and> cr_last_motion_state r' = cr_last_motion_state r \<and> cr_sticky_motion r' = cr_sticky_motion r
    \<and> w_now w' = w_now w"
proof (cases "cr_state r")
  case (Recording rec)
  have s: "benign (write_sidecar_json e f c i ru sz a b)" for e f c i ru sz a b
    unfolding write_sidecar_json_def by (intro benign_intros)
  have "ensures (stop_recording env r) w (\<lambda>r' w'. cr_state r' = IdleState \<and> cr_cfg r' = cr_cfg r
    \<and> cr_last_motion_state r' = cr_last_motion_state r \<and> cr_sticky_motion r' = cr_sticky_motion r
    \<and> w_now w' = w_now w)"
    unfolding stop_recording_def using Recording
    by (auto simp: ensures_bind Let_def intro!: ensures_attempt ensures_sure [OF sure_clip(3)]
        benign_intros s split: sum.splits)
  then show ?thesis unfolding ensures_def by blast
qed (simp_all add: stop_recording_def)

text \<open>
  While recording, without faults and without a size limit, every branch but \<open>Tick\<close> leaves the
  recorder recording.
\<close>

definition rec_ready :: "ClipRecorder \<Rightarrow> bool" where
  "rec_ready r \<longleftrightarrow> rc_max_clip_bytes (cr_cfg r) = None
     \<and> (case cr_state r of Recording rec \<Rightarrow> bw_cap (cw_writer (re_writer rec)) > 0 | _ \<Rightarrow> False)"

lemma write_nal_clean:
  assumes "bw_cap (cw_writer cw) > 0" "w_faults w = []"
  obtains cw' w' where "write_nal cw nal w = (Ok (True, cw'), w')" "cw_post cw nal w True cw' w'"
    "bw_cap (cw_writer cw') > 0" "w_faults w' = []"
proof -
  obtain ok cw' w' where "write_nal cw nal w = (Ok (ok, cw'), w')" "cw_post cw nal w ok cw' w'"
    using write_nal_spec [OF assms(1)] by blast
  with assms show ?thesis by (intro that [of cw' w']) (auto simp: cw_post_def only_touches_def)
qed

lemma rec_ready_motion: "rec_ready r \<Longrightarrow> rec_ready (on_motion_state_change r st now)"
  by (auto simp: rec_ready_def on_motion_state_change_def update_sticky_def Let_def
      split: State.splits option.splits)

lemma rec_ready_flush:
  assumes "rec_ready r" "w_faults w = []"
  shows "ensures (flush_recording r) w (\<lambda>r' w'. rec_ready r' \<and> w_faults w' = [])"
proof -
  obtain rec where rec: "cr_state r = Recording rec" "bw_cap (cw_writer (re_writer rec)) > 0"
    using assms(1) by (auto simp: rec_ready_def split: State.splits)
  obtain ok cw' w' where "flush_pending (re_writer rec) True w = (Ok (ok, cw'), w')"
    "cw_post (re_writer rec) [] w ok cw' w'"
    using flush_pending_spec [OF rec(2)] by blast
  with rec assms show ?thesis
    by (auto simp: ensures_def flush_recording_def ClipWriter_flush_def bindIO_def rec_ready_def
        cw_post_def only_touches_def)
qed

lemma rec_ready_nal:
  assumes "rec_ready r" "w_faults w = []"
  shows "ensures (on_nal env r nal) w (\<lambda>r' w'. rec_ready r' \<and> w_faults w' = [])"
proof -
  obtain rec where rec: "cr_state r = Recording rec" "bw_cap (cw_writer (re_writer rec)) > 0"
    "rc_max_clip_bytes (cr_cfg r) = None"
    using assms(1) by (auto simp: rec_ready_def split: State.splits)
  obtain cw' w' where "write_nal (re_writer rec) nal w = (Ok (True, cw'), w')"
    "bw_cap (cw_writer cw') > 0" "w_faults w' = []"
    by (rule write_nal_clean [OF rec(2) assms(2)])
  with rec assms show ?thesis
    by (auto simp: ensures_def on_nal_def write_if_recording_def bindIO_def rec_ready_def Let_def
        split: option.splits)
qed

lemma rec_ready_step:
  assumes "rec_ready r" "w_faults w = []" "ev \<noteq> Tick"
  shows "ensures (rec_step env r ev) w (\<lambda>r' w'. rec_ready r' \<and> w_faults w' = [])"
proof (cases ev)
  case CleanupTick
  then show ?thesis
    using assms by (auto simp: rec_step_def ensures_bind intro!: ensures_attempt benign_intros)
qed (use assms rec_ready_flush rec_ready_nal rec_ready_motion in
      \<open>auto simp: rec_step_def ensures_bind\<close>)

lemma rec_ready_loop:
  assumes "rec_ready r" "w_faults w = []" "\<forall>(t, u, ev) \<in> set evs. ev \<noteq> Tick"
  shows "ensures (rec_loop env r evs) w (\<lambda>r' w'. rec_ready r' \<and> w_faults w' = [])"
  using assms
proof (induction evs arbitrary: r w)
  case Nil
  then show ?case by (simp add: ensures_def)
next
  case (Cons x evs)
  obtain t u ev where x: "x = (t, u, ev)" by (cases x)
  have "ensures (rec_step env r ev) (set_time t u w) (\<lambda>r' w'. rec_ready r' \<and> w_faults w' = [])"
    using Cons.prems x by (intro rec_ready_step) (auto simp: set_time_def)
  then obtain r1 w1 where "rec_step env r ev (set_time t u w) = (Ok r1, w1)" "rec_ready r1"
    "w_faults w1 = []" by (auto simp: ensures_def)
  with Cons.IH [of r1 w1] Cons.prems(3) x show ?case
    by (auto simp: ensures_def bindIO_def)
qed

fun gaps_below :: "duration \<Rightarrow> instant \<Rightarrow> (instant \<times> datetime \<times> rec_event) list \<Rightarrow> bool" where
  "gaps_below g start [] = True"
| "gaps_below g start ((t, u, ev) # evs) \<longleftrightarrow> t < start + g \<and> gaps_below g t evs"

lemma no_tick_in_busy_run:
  "timed start evs \<Longrightarrow> gaps_below (from_millis 200) start evs \<Longrightarrow> \<forall>(t, u, ev) \<in> set evs. ev \<noteq> Tick"
  by (induction evs arbitrary: start) fastforce+

section \<open>Contents of a clip\<close>

lemma start_recording_clean:
  assumes "w_faults w = []" "cr_last_sps r = Some sps" "cr_last_pps r = Some pps"
  shows "ensures (start_recording env r rule cam eid idr) w (\<lambda>r' w'.
    \<exists>rec. r' = r\<lparr>cr_state := Recording rec\<rparr> \<and> re_rule rec = rule \<and> re_camera_id rec = cam
      \<and> re_event_id rec = eid \<and> re_started_at rec = w_now w
      \<and> re_stop_at rec = Some (w_now w + rc_min_clip_duration (cr_cfg r))
      \<and> re_hard_stop_at rec = map_option (\<lambda>s. w_now w + from_secs s) (rc_max_clip_secs (cr_cfg r))
      \<and> bw_cap (cw_writer (re_writer rec)) > 0 \<and> w_faults w' = []
      \<and> clip_so_far (re_writer rec) w' (sps @ pps @ idr))"
proof -
  define name where "name = en_ts env (w_utc w) @ ''_'' @ cam @ ''_'' @ eid @ ''_'' @ safe_rule rule"
  let ?f = "join_path (rc_output_dir (cr_cfg r)) (name @ ''.h264'')"
  let ?p = "join_path (rc_output_dir (cr_cfg r)) (name @ ''.h264.part'')"
  obtain cw w1 where cw: "ClipWriter_create ?p ?f (rc_write_batch_bytes (cr_cfg r)) w = (Ok cw, w1)"
    "bw_cap (cw_writer cw) = 262144" "only_touches ?p w w1" "clip_so_far cw w1 []"
    using create_spec [of ?p ?f "rc_write_batch_bytes (cr_cfg r)" w] assms(1)
    by (auto simp: join_path_def)
  obtain cw2 w2 where n: "write_nals cw [sps, pps, idr] w1 = (Ok (True, cw2), w2)"
    "cw_post cw (sps @ pps @ idr) w1 True cw2 w2"
    using write_nals_spec [of cw "[sps, pps, idr]" w1] cw assms(1) by (auto simp: only_touches_def)
  have "clip_so_far cw2 w2 (sps @ pps @ idr)" "bw_cap (cw_writer cw2) > 0" "w_faults w2 = []"
    using n(2) cw assms(1) by (auto simp: cw_post_def only_touches_def)
  moreover have "spawn_clip_writer env r rule cam eid w = (Ok (cw, ?f), w1)"
    using cw(1) by (simp add: spawn_clip_writer_def Let_def bindIO_def name_def)
  moreover have "write_param_sets_and_idr r rec idr w1 = (Ok (rec\<lparr>re_writer := cw2\<rparr>), w2)"
    if "re_writer rec = cw" for rec
    using n(1) assms(2,3) that
    by (simp add: write_param_sets_and_idr_def bindIO_def del: write_nals.simps)
  moreover have "w_now w1 = w_now w" using cw(3) by (simp add: only_touches_def)
  ultimately show ?thesis
    by (simp add: ensures_def start_recording_def Let_def bindIO_def)
       (intro exI conjI, rule refl, simp_all)
qed

text \<open>Of the NALs that arrive while recording, those that are Annex-B units are written.\<close>

lemma on_nal_clean:
  assumes "w_faults w = []" "cr_state r = Recording rec" "bw_cap (cw_writer (re_writer rec)) > 0"
    "rc_max_clip_bytes (cr_cfg r) = None" "clip_so_far (re_writer rec) w d"
  shows "ensures (on_nal env r nal) w (\<lambda>r' w'. \<exists>rec'. cr_state r' = Recording rec'
    \<and> bw_cap (cw_writer (re_writer rec')) > 0 \<and> rc_max_clip_bytes (cr_cfg r') = None
    \<and> w_faults w' = []
    \<and> clip_so_far (re_writer rec') w' (d @ (if nal_type_from_annexb nal = None then [] else nal)))"
proof -
  obtain cw' w' where "write_nal (re_writer rec) nal w = (Ok (True, cw'), w')"
    "bw_cap (cw_writer cw') > 0" "w_faults w' = []" "clip_so_far cw' w' (d @ nal)"
    by (rule write_nal_clean [OF assms(3,1), of nal]) (use assms(5) in \<open>auto simp: cw_post_def\<close>)
  with assms show ?thesis
    by (auto simp: ensures_def on_nal_def write_if_recording_def bindIO_def Let_def split: option.splits)
qed

definition nal_events :: "(instant \<times> datetime \<times> bytes) list \<Rightarrow> (instant \<times> datetime \<times> rec_event) list" where
  "nal_events = map (\<lambda>(t, u, n). (t, u, Nal n))"

definition annexb_part :: "(instant \<times> datetime \<times> bytes) list \<Rightarrow> bytes" where
  "annexb_part ns = concat (filter (\<lambda>n. nal_type_from_annexb n \<noteq> None) (map (\<lambda>(t, u, n). n) ns))"

lemma clip_so_far_set_time [simp]: "clip_so_far cw (set_time t u w) d = clip_so_far cw w d"
  by (simp add: clip_so_far_def file_data_def set_time_def)

lemma recording_loop_contents:
  assumes "w_faults w = []" "cr_state r = Recording rec" "bw_cap (cw_writer (re_writer rec)) > 0"
    "rc_max_clip_bytes (cr_cfg r) = None" "clip_so_far (re_writer rec) w d"
  shows "ensures (rec_loop env r (nal_events ns)) w (\<lambda>r' w'. \<exists>rec'. cr_state r' = Recording rec'
    \<and> clip_so_far (re_writer rec') w' (d @ annexb_part ns))"
  using assms
proof (induction ns arbitrary: r w rec d)
  case Nil
  then show ?case by (auto simp: nal_events_def ensures_def annexb_part_def)
next
  case (Cons x ns)
  obtain t u n where x: "x = (t, u, n)" by (cases x)
  have "ensures (on_nal env r n) (set_time t u w) (\<lambda>r' w'. \<exists>rec'. cr_state r' = Recording rec'
    \<and> bw_cap (cw_writer (re_writer rec')) > 0 \<and> rc_max_clip_bytes (cr_cfg r') = None
    \<and> w_faults w' = []
    \<and> clip_so_far (re_writer rec') w' (d @ (if nal_type_from_annexb n = None then [] else n)))"
    using Cons.prems by (intro on_nal_clean) (auto simp: set_time_def clip_so_far_def file_data_def)
  then obtain r1 w1 rec1 where "on_nal env r n (set_time t u w) = (Ok r1, w1)"
    "cr_state r1 = Recording rec1" "bw_cap (cw_writer (re_writer rec1)) > 0"
    "rc_max_clip_bytes (cr_cfg r1) = None" "w_faults w1 = []"
    "clip_so_far (re_writer rec1) w1 (d @ (if nal_type_from_annexb n = None then [] else n))"
    by (auto simp: ensures_def)
  with Cons.IH [OF this(5,2,3,4,6)] x show ?case
    by (auto simp: ensures_def nal_events_def annexb_part_def bindIO_def rec_step_def)
qed

section \<open>Deadlines\<close>

text \<open>
  At an instant \<open>now\<close>: a recording has started, and its stop deadline does not lie before its
  minimum duration.
\<close>

definition deadline_inv :: "instant \<Rightarrow> ClipRecorder \<Rightarrow> bool" where
  "deadline_inv now r \<longleftrightarrow>
     (case cr_state r of
        Recording rec \<Rightarrow>
          re_started_at rec \<le> now
          \<and> (\<forall>t. re_stop_at rec = Some t \<longrightarrow> re_started_at rec + rc_min_clip_duration (cr_cfg r) \<le> t)
      | _ \<Rightarrow> True)"

lemma deadline_inv_motion:
  "deadline_inv now r \<Longrightarrow> deadline_inv now (on_motion_state_change r st now)"
  by (auto simp: deadline_inv_def on_motion_state_change_def update_sticky_def arm_def Let_def
      split: State.splits option.splits)

lemma deadline_inv_later: "deadline_inv now r \<Longrightarrow> now \<le> t \<Longrightarrow> deadline_inv t r"
  by (auto simp: deadline_inv_def split: State.splits)

lemma not_recording_inv: "cr_state r = IdleState \<Longrightarrow> deadline_inv now r"
  by (simp add: deadline_inv_def)

lemma deadline_inv_arm: "cr_state r = IdleState \<Longrightarrow> deadline_inv now (rearm_if_motion_active r t)"
  by (auto simp: deadline_inv_def rearm_if_motion_active_def arm_def split: option.splits)

lemma stop_recording_Ok: "stop_recording env r w = (Ok r', w') \<Longrightarrow> cr_state r' = IdleState"
  using stop_recording_idle [of env r w] by auto

lemma write_param_sets_Ok:
  "write_param_sets_and_idr r rec idr w = (Ok rec', w') \<Longrightarrow> \<exists>cw. rec' = rec\<lparr>re_writer := cw\<rparr>"
  by (auto simp: write_param_sets_and_idr_def bindIO_eq_Ok_iff split: option.splits if_splits
      simp del: write_nals.simps)

lemma benign_now: "benign m \<Longrightarrow> m w = (x, w') \<Longrightarrow> w_now w' = w_now w"
  unfolding benign_def by (metis snd_conv)

lemma deadline_inv_start:
  assumes "start_recording env r rule cam eid nal w = (Ok r', w')"
  shows "deadline_inv (w_now w) r'"
proof -
  have "benign (spawn_clip_writer env r rule cam eid)"
    unfolding spawn_clip_writer_def Let_def by (intro benign_intros)
  with assms show ?thesis
    by (auto simp: start_recording_def bindIO_eq_Ok_iff Let_def deadline_inv_def
        dest!: write_param_sets_Ok benign_now)
qed

lemma deadline_inv_step:
  assumes "deadline_inv (w_now w) r" "rec_step env r ev w = (Ok r', w')"
  shows "deadline_inv (w_now w) r'"
proof (cases ev)
  case Tick
  with assms show ?thesis
    by (auto simp: rec_step_def maybe_stop_on_deadline_def bindIO_eq_Ok_iff Let_def
        intro: deadline_inv_arm not_recording_inv dest: stop_recording_Ok
        split: State.splits if_splits)
next
  case (Nal nal)
  with assms show ?thesis
    by (auto simp: rec_step_def on_nal_def write_if_recording_def bindIO_eq_Ok_iff Let_def
        intro: not_recording_inv deadline_inv_start dest: stop_recording_Ok
        split: State.splits if_splits option.splits)
       (auto simp: deadline_inv_def)
next
  case FlushTick
  with assms show ?thesis
    by (auto simp: rec_step_def flush_recording_def bindIO_eq_Ok_iff deadline_inv_def
        split: State.splits)
next
  case CleanupTick
  with assms show ?thesis by (auto simp: rec_step_def bindIO_eq_Ok_iff)
next
  case (MotionChanged st)
  with assms show ?thesis by (auto simp: rec_step_def intro: deadline_inv_motion)
qed

fun end_time :: "instant \<Rightarrow> (instant \<times> datetime \<times> rec_event) list \<Rightarrow> instant" where
  "end_time start [] = start"
| "end_time start ((t, u, ev) # evs) = end_time t evs"

lemma deadline_inv_loop:
  "deadline_inv start r \<Longrightarrow> timed start evs \<Longrightarrow> rec_loop env r evs w = (Ok r', w')
     \<Longrightarrow> deadline_inv (end_time start evs) r'"
proof (induction evs arbitrary: start r w)
  case (Cons x evs)
  obtain t u ev where x: "x = (t, u, ev)" by (cases x)
  obtain r1 w1 where r1: "rec_step env r ev (set_time t u w) = (Ok r1, w1)"
    "rec_loop env r1 evs w1 = (Ok r', w')"
    using Cons.prems(3) x by (auto simp: bindIO_eq_Ok_iff)
  have "deadline_inv t r" using Cons.prems x deadline_inv_later by simp
  with deadline_inv_step [OF _ r1(1)] have "deadline_inv t r1" by (simp add: set_time_def)
  with Cons.IH [OF this _ r1(2)] Cons.prems(2) x show ?case by simp
qed simp

section \<open>Sample values for the witnesses\<close>

definition sample_env :: recorder_env where
  "sample_env = \<lparr>en_ts = (\<lambda>_. ''t''), en_rfc3339 = (\<lambda>_. ''t''), en_json = (\<lambda>_. [])\<rparr>"

definition sample_state :: MotionState where
  "sample_state = [(''r'', \<lparr>mm_camera_id = ''c'', mm_event_id = ''e''\<rparr>)]"

definition sample_armed :: ClipRecorder where
  "sample_armed = (ClipRecorder_new ClipRecorderConfig_default)\<lparr>
     cr_state := Armed ''r'' ''c'' ''e'' 0, cr_last_sps := Some [0, 0, 0, 1, 7],
     cr_last_pps := Some [0, 0, 0, 1, 8], cr_last_motion_state := sample_state\<rparr>"

definition sample_recording :: recording where
  "sample_recording = \<lparr>re_rule = ''r'', re_camera_id = ''c'', re_event_id = ''e'',
     re_writer = \<lparr>cw_part_path = ''clips/x.h264.part'', cw_final_path = ''clips/x.h264'',
       cw_writer = \<lparr>bw_path = ''clips/x.h264.part'', bw_buf = [], bw_cap = 262144\<rparr>,
       cw_pending = [], cw_max_pending_bytes = 262144, cw_written_bytes = 0\<rparr>,
     re_stop_at = Some 7, re_hard_stop_at = None, re_started_at = 0, re_started_at_utc = 0,
     re_file_path = ''clips/x.h264''\<rparr>"

lemmas sample_defs = sample_env_def empty_world_def sample_state_def sample_armed_def
  sample_recording_def ClipRecorder_new_def ClipRecorderConfig_default_def

section \<open>Properties\<close>

definition deleted_clips :: "ClipRecorderConfig \<Rightarrow> datetime \<Rightarrow> clip_entry list \<Rightarrow> clip_entry list" where
  "deleted_clips cfg now clips = filter (\<lambda>e. fst e \<in> set (clips_to_delete cfg now clips)) clips"

definition kept_clips :: "ClipRecorderConfig \<Rightarrow> datetime \<Rightarrow> clip_entry list \<Rightarrow> clip_entry list" where
  "kept_clips cfg now clips = filter (\<lambda>e. fst e \<notin> set (clips_to_delete cfg now clips)) clips"

text \<open>
  C37. Retention: whatever clips a directory holds, deleting those \<open>cleanup_old_clips\<close> selects
  leaves no clip over the age limit, no more clips than the count limit and no more bytes than
  the size limit allows, and no clip is deleted while an older one is kept.
\<close>

theorem retention_limits_hold:
  assumes "distinct (map fst clips)"
  shows "(\<forall>m. rc_max_files cfg = Some m \<longrightarrow> length (kept_clips cfg now clips) \<le> m)
    \<and> (\<forall>m. rc_max_total_bytes cfg = Some m
         \<longrightarrow> sum_list (map entry_size (kept_clips cfg now clips)) \<le> m)
    \<and> (\<forall>a. rc_max_age_secs cfg = Some a
         \<longrightarrow> (\<forall>e \<in> set (kept_clips cfg now clips). now - int (from_secs a) \<le> entry_mtime e))
    \<and> (\<forall>e \<in> set (deleted_clips cfg now clips). \<forall>e' \<in> set (kept_clips cfg now clips).
         entry_mtime e \<le> entry_mtime e')"
proof -
  let ?kept = "kept_clips cfg now clips"
  let ?gone = "deleted_clips cfg now clips"
  define xs where "xs = sort_key entry_mtime clips"
  obtain k where k: "clips_to_delete cfg now clips = map fst (take k xs)"
    "\<forall>m. rc_max_files cfg = Some m \<longrightarrow> length (drop k xs) \<le> m"
    "\<forall>m. rc_max_total_bytes cfg = Some m \<longrightarrow> sum_list (map entry_size (drop k xs)) \<le> m"
    "\<forall>a. rc_max_age_secs cfg = Some a
       \<longrightarrow> (\<forall>e \<in> set (drop k xs). now - int (from_secs a) \<le> entry_mtime e)"
    using clips_to_delete_split [OF assms(1), of cfg now] unfolding xs_def by blast
  have "distinct (map fst xs)" using assms(1) by (simp add: xs_def distinct_map)
  then have d: "distinct (map fst (take k xs) @ map fst (drop k xs))"
    by (metis append_take_drop_id map_append)
  have mk: "mset ?kept = mset (drop k xs)"
  proof -
    have "filter (\<lambda>e. fst e \<notin> set (map fst (take k xs))) (take k xs @ drop k xs) = drop k xs"
      using d by (subst filter_append) (auto simp: filter_id_conv filter_empty_conv)
    then have "filter (\<lambda>e. fst e \<notin> set (map fst (take k xs))) xs = drop k xs" by simp
    moreover have "mset xs = mset clips" by (simp add: xs_def)
    ultimately show ?thesis unfolding kept_clips_def k(1) by (metis mset_filter)
  qed
  have sk: "set ?kept = set (drop k xs)" using mk by (rule mset_eq_setD)
  have lk: "length ?kept = length (drop k xs)" using mk by (rule mset_eq_length)
  have bk: "sum_list (map entry_size ?kept) = sum_list (map entry_size (drop k xs))"
    using mk by (metis mset_map sum_mset_sum_list)
  have sg: "set ?gone \<subseteq> set (take k xs)"
  proof
    fix e assume "e \<in> set ?gone"
    then have e: "e \<in> set xs" "fst e \<in> fst ` set (take k xs)" by (auto simp: deleted_clips_def k(1) xs_def)
    have "e \<notin> set (drop k xs)" using d e(2) by auto
    with e(1) show "e \<in> set (take k xs)" by (metis append_take_drop_id Un_iff set_append)
  qed
  have "sorted (map entry_mtime xs)" by (simp add: xs_def)
  then have "sorted_wrt (\<lambda>x y. entry_mtime x \<le> entry_mtime y) (take k xs @ drop k xs)"
    by (simp only: sorted_map append_take_drop_id)
  then have "\<forall>e \<in> set (take k xs). \<forall>e' \<in> set (drop k xs). entry_mtime e \<le> entry_mtime e'"
    unfolding sorted_wrt_append by blast
  then have "\<forall>e \<in> set ?gone. \<forall>e' \<in> set ?kept. entry_mtime e \<le> entry_mtime e'"
    using sg sk by blast
  then show ?thesis using k(2-4) unfolding sk lk bk by blast
qed

theorem retention_limits_hold_witness:
  "length (kept_clips (ClipRecorderConfig_default\<lparr>rc_max_files := Some 1\<rparr>) 9
     [(''b'', 2, 10), (''a'', 1, 10)]) \<le> 1"
  using retention_limits_hold [of "[(''b'', 2, 10), (''a'', 1, 10)]"
      "ClipRecorderConfig_default\<lparr>rc_max_files := Some 1\<rparr>" 9]
  by simp

text \<open>
  What a clip holds: armed with cached parameter sets, the recorder starts on the first IDR
  it sees, and after any further NAL units the clip is SPS, PPS, that IDR and every later
  Annex-B unit, in order and without loss, when no write fails and no limit ends it.
\<close>

theorem recorded_clip_contents:
  assumes "cr_state r = Armed rule cam eid armed_at" "cr_last_sps r = Some sps"
    "cr_last_pps r = Some pps" "nal_type_from_annexb idr = Some 5"
    "w_faults w = []" "rc_max_clip_bytes (cr_cfg r) = None"
  shows "ensures (rec_loop env r (nal_events ((t, u, idr) # ns))) w (\<lambda>r' w'.
    \<exists>rec. cr_state r' = Recording rec
      \<and> clip_so_far (re_writer rec) w' (sps @ pps @ idr @ annexb_part ns))"
proof -
  have "on_nal env r idr = start_recording env r rule cam eid idr"
    using assms(1-4) by (simp add: on_nal_def)
  moreover have f: "w_faults (set_time t u w) = []" using assms(5) by (simp add: set_time_def)
  ultimately obtain rec w1 where s: "on_nal env r idr (set_time t u w)
      = (Ok (r\<lparr>cr_state := Recording rec\<rparr>), w1)" "bw_cap (cw_writer (re_writer rec)) > 0"
    "w_faults w1 = []" "clip_so_far (re_writer rec) w1 (sps @ pps @ idr)"
    using start_recording_clean [OF f assms(2,3), of env rule cam eid idr] by (auto simp: ensures_def)
  have "ensures (rec_loop env (r\<lparr>cr_state := Recording rec\<rparr>) (nal_events ns)) w1 (\<lambda>r' w'.
    \<exists>rec. cr_state r' = Recording rec
      \<and> clip_so_far (re_writer rec) w' ((sps @ pps @ idr) @ annexb_part ns))"
    by (rule recording_loop_contents [OF s(3) _ s(2) _ s(4)]) (use assms(6) in simp_all)
  with s(1) show ?thesis by (simp add: ensures_def nal_events_def bindIO_def rec_step_def)
qed

theorem recorded_clip_contents_witness:
  "ensures (rec_loop sample_env sample_armed
       (nal_events [(1, 1, [0, 0, 0, 1, 5, 9]), (2, 2, [7, 7]), (3, 3, [0, 0, 0, 1, 1, 3])])) empty_world
     (\<lambda>r' w'. \<exists>rec. cr_state r' = Recording rec \<and> clip_so_far (re_writer rec) w'
        [0, 0, 0, 1, 7, 0, 0, 0, 1, 8, 0, 0, 0, 1, 5, 9, 0, 0, 0, 1, 1, 3])"
  using recorded_clip_contents [of sample_armed "''r''" "''c''" "''e''" 0 "[0, 0, 0, 1, 7]"
      "[0, 0, 0, 1, 8]" "[0, 0, 0, 1, 5, 9]" empty_world sample_env 1 1
      "[(2, 2, [7, 7]), (3, 3, [0, 0, 0, 1, 1, 3])]"]
  by (simp add: sample_defs nal_type_from_annexb_def annexb_part_def)

text \<open>
  Minimum duration: in every run from a new recorder, over any sequence of events with
  non-decreasing times, the stop deadline of a recording falls due only after the clip has
  lasted \<open>min_clip_duration\<close>.
\<close>

theorem clip_lasts_min_duration:
  assumes "timed start evs" "rec_loop env (ClipRecorder_new cfg) evs w = (Ok r, w')"
    and "cr_state r = Recording rec" "due (re_stop_at rec) now"
  shows "re_started_at rec + rc_min_clip_duration (cr_cfg r) \<le> now"
proof -
  have "deadline_inv start (ClipRecorder_new cfg)" by (simp add: deadline_inv_def ClipRecorder_new_def)
  from deadline_inv_loop [OF this assms(1,2)] assms(3,4) show ?thesis
    by (auto simp: deadline_inv_def due_def split: option.splits)
qed

theorem clip_lasts_min_duration_witness:
  "case rec_loop sample_env (ClipRecorder_new ClipRecorderConfig_default)
       [(1, 1, MotionChanged sample_state), (2, 2, Nal [0, 0, 0, 1, 7]), (3, 3, Nal [0, 0, 0, 1, 8]),
        (4, 4, Nal [0, 0, 0, 1, 5])] empty_world of
     (Ok r, w) \<Rightarrow>
       (case cr_state r of
          Recording rec \<Rightarrow> due (re_stop_at rec) 5000000004
            \<and> re_started_at rec + rc_min_clip_duration (cr_cfg r) \<le> 5000000004
        | _ \<Rightarrow> False)
   | _ \<Rightarrow> False"
proof -
  let ?evs = "[(1, 1, MotionChanged sample_state), (2, 2, Nal [0, 0, 0, 1, 7]),
    (3, 3, Nal [0, 0, 0, 1, 8]), (4, 4, Nal [0, 0, 0, 1, 5])]"
  let ?run = "rec_loop sample_env (ClipRecorder_new ClipRecorderConfig_default) ?evs empty_world"
  have "case ?run of (Ok r, w) \<Rightarrow> (case cr_state r of
      Recording rec \<Rightarrow> due (re_stop_at rec) 5000000004 | _ \<Rightarrow> False) | _ \<Rightarrow> False"
    by code_simp
  moreover have "timed 0 ?evs" by simp
  ultimately show ?thesis
    using clip_lasts_min_duration [of 0 ?evs sample_env ClipRecorderConfig_default empty_world
        _ _ _ 5000000004]
    by (auto split: prod.splits rust.splits State.splits)
qed

text \<open>
  The stop deadlines are not checked while the stream is busy: as long as no 200 ms pass
  without a NAL, a motion change or an interval tick, the recorder keeps recording, however
  long \<open>stop_at\<close> and \<open>hard_stop_at\<close> have passed.
\<close>

theorem busy_stream_never_stops:
  assumes "rec_ready r" "w_faults w = []" "timed start evs" "gaps_below (from_millis 200) start evs"
  shows "ensures (rec_loop env r evs) w (\<lambda>r' w'. \<exists>rec. cr_state r' = Recording rec)"
proof -
  have "ensures (rec_loop env r evs) w (\<lambda>r' w'. rec_ready r' \<and> w_faults w' = [])"
    by (rule rec_ready_loop [OF assms(1,2) no_tick_in_busy_run [OF assms(3,4)]])
  moreover have "rec_ready r' \<Longrightarrow> \<exists>rec. cr_state r' = Recording rec" for r'
    by (cases "cr_state r'") (simp_all add: rec_ready_def)
  ultimately show ?thesis unfolding ensures_def by blast
qed

theorem busy_stream_never_stops_witness:
  "ensures (rec_loop sample_env
      ((ClipRecorder_new ClipRecorderConfig_default)\<lparr>cr_state := Recording sample_recording\<rparr>)
      [(40000000, 1, Nal [0, 0, 0, 1, 1]), (80000000, 2, Nal [0, 0, 0, 1, 1]),
       (120000000, 3, FlushTick)]) empty_world
      (\<lambda>r' w'. \<exists>rec. cr_state r' = Recording rec)"
  by (rule busy_stream_never_stops [of _ _ 0])
     (simp_all add: sample_defs rec_ready_def from_millis_def)

text \<open>
  A clip is cut while motion goes on: recording starts with a stop deadline already set, and
  when it falls due with motion still active and no change of the motion state since, the clip
  is finalized and the recorder goes idle instead of arming again.
\<close>

theorem continuous_motion_is_cut:
  assumes "cr_state r = Armed rule cam eid armed_at" "cr_last_sps r = Some sps"
    "cr_last_pps r = Some pps" "nal_type_from_annexb idr = Some 5" "cr_last_motion_state r \<noteq> []"
    "w_faults w = []" "rc_max_clip_secs (cr_cfg r) = None"
    "t + rc_min_clip_duration (cr_cfg r) \<le> t'"
  shows "ensures (rec_loop env r [(t, u, Nal idr), (t', u', Tick)]) w (\<lambda>r' w'.
    cr_state r' = IdleState \<and> cr_last_motion_state r' \<noteq> [])"
proof -
  have f: "w_faults (set_time t u w) = []" "w_now (set_time t u w) = t"
    using assms(6) by (simp_all add: set_time_def)
  have "on_nal env r idr = start_recording env r rule cam eid idr"
    using assms(1-4) by (simp add: on_nal_def)
  then obtain rec w1 where s: "on_nal env r idr (set_time t u w)
      = (Ok (r\<lparr>cr_state := Recording rec\<rparr>), w1)"
    "re_stop_at rec = Some (t + rc_min_clip_duration (cr_cfg r))" "re_hard_stop_at rec = None"
    using start_recording_clean [OF f(1) assms(2,3), of env rule cam eid idr] assms(7) f(2)
    by (auto simp: ensures_def)
  obtain r2 w2 where "stop_recording env (r\<lparr>cr_state := Recording rec\<rparr>) (set_time t' u' w1)
      = (Ok r2, w2)" "cr_state r2 = IdleState" "cr_last_motion_state r2 = cr_last_motion_state r"
    using stop_recording_idle [of env "r\<lparr>cr_state := Recording rec\<rparr>" "set_time t' u' w1"] by auto
  with s assms(5,8) show ?thesis
    by (simp add: ensures_def rec_step_def bindIO_def maybe_stop_on_deadline_def due_def set_time_def)
qed

theorem continuous_motion_is_cut_witness:
  "ensures (rec_loop sample_env sample_armed
      [(1, 1, Nal [0, 0, 0, 1, 5]), (5000000001, 2, Tick)]) empty_world
      (\<lambda>r' w'. cr_state r' = IdleState \<and> cr_last_motion_state r' \<noteq> [])"
  by (rule continuous_motion_is_cut [of _ "''r''" "''c''" "''e''" 0 "[0, 0, 0, 1, 7]" "[0, 0, 0, 1, 8]"])
     (simp_all add: sample_defs nal_type_from_annexb_def from_secs_def)

text \<open>
  A later motion is recorded under an old event: when motion ends during a recording, the
  remembered rule, camera and event id are kept, and after the clip has stopped the next motion
  arms the recorder with them instead of its own.
\<close>

theorem stale_event_id_after_stop:
  assumes "cr_state r = Recording rec" "cr_sticky_motion r = Some s" "st \<noteq> []"
    "re_stop_at rec = Some stop_at" "re_hard_stop_at rec = None" "stop_at \<le> t2"
  shows "ensures (rec_loop env r [(t1, u1, MotionChanged []), (t2, u2, Tick), (t3, u3, MotionChanged st)])
    w (\<lambda>r' w'. cr_state r' = Armed (sm_rule s) (sm_camera_id s) (sm_event_id s) t3)"
proof -
  let ?r = "on_motion_state_change r [] t1"
  have r: "cr_state ?r = Recording rec" "cr_sticky_motion ?r = Some s"
    using assms(1,2,4) by (simp_all add: on_motion_state_change_def update_sticky_def Let_def)
  define w1 where "w1 = set_time t2 u2 (set_time t1 u1 w)"
  obtain r2 w2 where r2: "stop_recording env ?r w1 = (Ok r2, w2)" "cr_state r2 = IdleState"
    "cr_sticky_motion r2 = Some s"
    using stop_recording_idle [of env ?r w1] r(2) by auto
  have now: "w_now w1 = t2" "w_now (set_time t1 u1 w) = t1" "w_now (set_time t3 u3 w2) = t3"
    by (simp_all add: w1_def set_time_def)
  have "rec_step env r (MotionChanged []) (set_time t1 u1 w) = (Ok ?r, set_time t1 u1 w)"
    by (simp add: rec_step_def now)
  moreover have "rec_step env ?r Tick w1 = (Ok r2, w2)"
    using r r2 assms(4,5,6) now
    by (simp add: rec_step_def maybe_stop_on_deadline_def due_def bindIO_def)
  moreover have "cr_state (on_motion_state_change r2 st t3)
      = Armed (sm_rule s) (sm_camera_id s) (sm_event_id s) t3"
    using r2 assms(3) by (simp add: on_motion_state_change_def update_sticky_def arm_def Let_def)
  ultimately show ?thesis
    using now(3)
    by (simp add: ensures_def bindIO_def w1_def [symmetric]) (simp add: rec_step_def)
qed

theorem stale_event_id_after_stop_witness:
  "ensures (rec_loop sample_env
      ((ClipRecorder_new ClipRecorderConfig_default)\<lparr>cr_state := Recording sample_recording,
        cr_sticky_motion := Some \<lparr>sm_rule = ''r'', sm_camera_id = ''c'', sm_event_id = ''old''\<rparr>\<rparr>)
      [(5, 5, MotionChanged []), (7, 7, Tick),
       (9, 9, MotionChanged [(''q'', \<lparr>mm_camera_id = ''c'', mm_event_id = ''new''\<rparr>)])]) empty_world
      (\<lambda>r' w'. cr_state r' = Armed ''r'' ''c'' ''old'' 9)"
  using stale_event_id_after_stop
    [of "(ClipRecorder_new ClipRecorderConfig_default)\<lparr>cr_state := Recording sample_recording,
        cr_sticky_motion := Some \<lparr>sm_rule = ''r'', sm_camera_id = ''c'', sm_event_id = ''old''\<rparr>\<rparr>"
      sample_recording "\<lparr>sm_rule = ''r'', sm_camera_id = ''c'', sm_event_id = ''old''\<rparr>"
      "[(''q'', \<lparr>mm_camera_id = ''c'', mm_event_id = ''new''\<rparr>)]" 7 7 sample_env 5 5 7 9 9 empty_world]
  by (simp add: sample_defs)

end
