(* ===== verification/MpegTs.thy ===== *)
theory MpegTs
  imports Prelude
begin

text \<open>
  The MPEG transport stream writer of \<^verbatim>\<open>src/live/v2.rs\<close>: CRC, PES header with its time stamp,
  packetisation into 188-byte packets, and the two tables that open every segment. The
  specification is a demultiplexer written from the packet layout of ISO/IEC 13818-1.
\<close>

section \<open>The writer\<close>

definition PAT_PID :: u16 where "PAT_PID = 0x0000"
definition PMT_PID :: u16 where "PMT_PID = 0x1000"
definition VIDEO_PID :: u16 where "VIDEO_PID = 0x0100"
definition TS_PACKET_SIZE :: usize where "TS_PACKET_SIZE = 188"
definition H264_STREAM_TYPE :: u8 where "H264_STREAM_TYPE = 0x1B"
definition H264_STREAM_ID :: u8 where "H264_STREAM_ID = 0xE0"

definition crc_bit :: "u32 \<Rightarrow> u32" where
  "crc_bit crc =
     (if crc AND 0x80000000 \<noteq> 0 then push_bit 1 crc XOR 0x04C11DB7 else push_bit 1 crc)"

definition crc_byte :: "byte \<Rightarrow> u32 \<Rightarrow> u32" where
  "crc_byte b crc = (crc_bit ^^ 8) (crc XOR push_bit 24 (ucast b))"

definition mpeg_crc32 :: "bytes \<Rightarrow> u32" where
  "mpeg_crc32 bs = fold crc_byte bs 0xFFFFFFFF"

definition encode_pts :: "64 word \<Rightarrow> bytes" where
  "encode_pts pts_90k =
     (let pts = pts_90k AND (push_bit 33 1 - 1) in
      [push_bit 4 0x2 OR push_bit 1 (ucast (drop_bit 30 pts AND 0x07)) OR 1,
       ucast (drop_bit 22 pts AND 0xFF),
       push_bit 1 (ucast (drop_bit 15 pts AND 0x7F)) OR 1,
       ucast (drop_bit 7 pts AND 0xFF),
       push_bit 1 (ucast (pts AND 0x7F)) OR 1])"

definition build_pes_video :: "64 word \<Rightarrow> bytes \<Rightarrow> bytes" where
  "build_pes_video pts_90k payload =
     [0x00, 0x00, 0x01, H264_STREAM_ID] @ u16_to_be_bytes 0 @ [0x80, 0x80, 0x05]
     @ encode_pts pts_90k @ payload"

text \<open>
  The packet buffer starts as 188 zero bytes and is overwritten from the front to its end, so
  it is the concatenation of header, adaptation field and payload.
\<close>

definition adaptation_field :: "usize \<Rightarrow> bytes" where
  "adaptation_field n =
     (if n < 184 then
        let adaptation_field_length = 183 - n in
        [of_nat adaptation_field_length]
        @ (if adaptation_field_length > 0 then 0x00 # replicate (adaptation_field_length - 1) 0xFF
           else [])
      else [])"

definition ts_packet :: "u16 \<Rightarrow> u8 \<Rightarrow> bool \<Rightarrow> bytes \<Rightarrow> bytes" where
  "ts_packet pid cc pusi chunk =
     (let use_adaptation = length chunk < 184;
          adaptation_control = (if use_adaptation then 3 else 1) in
      [0x47,
       (if pusi then push_bit 6 1 else 0) OR (ucast (drop_bit 8 pid) AND 0x1F),
       ucast (pid AND 0xFF),
       push_bit 4 adaptation_control OR (cc AND 0x0F)]
      @ adaptation_field (length chunk) @ chunk)"

function ts_loop :: "u16 \<Rightarrow> bytes \<Rightarrow> u8 \<Rightarrow> bool \<Rightarrow> usize \<Rightarrow> bool \<Rightarrow> bytes \<Rightarrow> bytes \<times> u8" where
  "ts_loop pid payload cc pusi offset first packets =
     (if offset < length payload then
        let n = min (length payload - offset) 184;
            packet = ts_packet pid cc (first \<and> pusi) (take n (drop offset payload)) in
        ts_loop pid payload ((cc + 1) AND 0x0F) pusi (offset + n) False (packets @ packet)
      else (packets, cc))"
  by pat_completeness auto
termination
  by (relation "measure (\<lambda>(pid, payload, cc, pusi, offset, first, packets). length payload - offset)") auto

declare ts_loop.simps [simp del]

definition packetize_ts :: "u16 \<Rightarrow> bytes \<Rightarrow> u8 \<Rightarrow> bool \<Rightarrow> bytes \<times> u8" where
  "packetize_ts pid payload continuity_counter payload_unit_start =
     ts_loop pid payload continuity_counter payload_unit_start 0 True []"

definition pat_section :: bytes where
  "pat_section =
     [0x00, 0xB0, 0x0D] @ u16_to_be_bytes 1 @ [0xC1, 0x00, 0x00] @ u16_to_be_bytes 1
     @ [0xE0 OR (ucast (drop_bit 8 PMT_PID) AND 0x1F), ucast (PMT_PID AND 0xFF)]"

definition build_pat_packet :: "u8 \<Rightarrow> bytes \<times> u8" where
  "build_pat_packet continuity_counter =
     packetize_ts PAT_PID ([0x00] @ pat_section @ u32_to_be_bytes (mpeg_crc32 pat_section))
       continuity_counter True"

definition pmt_section :: bytes where
  "pmt_section =
     [0x02, 0xB0, 0x12] @ u16_to_be_bytes 1 @ [0xC1, 0x00, 0x00,
      0xE0 OR (ucast (drop_bit 8 VIDEO_PID) AND 0x1F), ucast (VIDEO_PID AND 0xFF), 0xF0, 0x00,
      H264_STREAM_TYPE, 0xE0 OR (ucast (drop_bit 8 VIDEO_PID) AND 0x1F), ucast (VIDEO_PID AND 0xFF),
      0xF0, 0x00]"

definition build_pmt_packet :: "u8 \<Rightarrow> bytes \<times> u8" where
  "build_pmt_packet continuity_counter =
     packetize_ts PMT_PID ([0x00] @ pmt_section @ u32_to_be_bytes (mpeg_crc32 pmt_section))
       continuity_counter True"

section \<open>A demultiplexer\<close>

record ts_fields =
  tf_pusi :: bool
  tf_pid :: u16
  tf_cc :: u8
  tf_payload :: bytes

definition ts_parse :: "bytes \<Rightarrow> ts_fields option" where
  "ts_parse p =
     (if length p \<noteq> 188 \<or> p ! 0 \<noteq> 0x47 then None
      else
        let afc = drop_bit 4 (p ! 3) AND 3;
            body = drop 4 p in
        if afc AND 1 = 0 then None
        else if afc = 3 \<and> unat (body ! 0) > 183 then None
        else Some \<lparr>tf_pusi = (p ! 1 AND 0x40 \<noteq> 0),
               tf_pid = push_bit 8 (ucast (p ! 1 AND 0x1F)) OR ucast (p ! 2),
               tf_cc = p ! 3 AND 0x0F,
               tf_payload = (if afc = 3 then drop (1 + unat (body ! 0)) body else body)\<rparr>)"

function ts_split :: "bytes \<Rightarrow> bytes list" where
  "ts_split s = (if s = [] then [] else take 188 s # ts_split (drop 188 s))"
  by pat_completeness auto
termination by (relation "measure length") auto

declare ts_split.simps [simp del]

definition ts_demux :: "bytes \<Rightarrow> ts_fields list option" where
  "ts_demux s = those (map ts_parse (ts_split s))"

section \<open>CRC\<close>

lemma crc_bit_low: "\<not> bit c 31 \<Longrightarrow> crc_bit c = push_bit 1 c"
proof -
  assume c: "\<not> bit c 31"
  have "bit (0x80000000 :: u32) n \<Longrightarrow> n = 31" for n
  proof -
    have e: "(0x80000000 :: u32) = push_bit 31 1" by simp
    show "bit (0x80000000 :: u32) n \<Longrightarrow> n = 31"
      unfolding e by (simp only: bit_push_bit_iff bit_1_iff) linarith
  qed
  with c have "c AND 0x80000000 = 0" by (auto intro!: bit_word_eqI simp: bit_and_iff)
  then show ?thesis by (simp add: crc_bit_def)
qed

lemma crc_bits_low:
  assumes "\<forall>n \<ge> 32 - k. \<not> bit c n" "k \<le> 32"
  shows "(crc_bit ^^ k) c = push_bit k c"
  using assms
proof (induction k)
  case (Suc k)
  have h: "\<forall>n \<ge> 32 - k. \<not> bit c n" using Suc.prems by auto
  have "\<not> bit (push_bit k c) 31"
    using Suc.prems by (auto simp: bit_push_bit_iff)
  with Suc.IH [OF h] Suc.prems show ?case by (simp add: crc_bit_low push_bit_push_bit)
qed simp

lemma crc_byte_cancel: "crc_byte (ucast (drop_bit 24 c)) c = push_bit 8 c"
proof -
  let ?c = "c XOR push_bit 24 (ucast (ucast (drop_bit 24 c) :: byte))"
  have b: "bit ?c n = (n < 24 \<and> bit c n)" for n
  proof -
    have "bit c n \<Longrightarrow> n < 32" using bit_imp_le_length [of c n] by simp
    then show ?thesis by (auto simp: bit_simps)
  qed
  have "(crc_bit ^^ 8) ?c = push_bit 8 ?c" by (rule crc_bits_low) (use b in auto)
  also have "\<dots> = push_bit 8 c"
    by (rule bit_word_eqI) (auto simp: bit_push_bit_iff b)
  finally show ?thesis by (simp add: crc_byte_def)
qed

lemma crc_residue: "mpeg_crc32 (s @ u32_to_be_bytes (mpeg_crc32 s)) = 0"
proof -
  let ?c = "mpeg_crc32 s"
  have b: "ucast (drop_bit 16 ?c) = (ucast (drop_bit 24 (push_bit 8 ?c)) :: byte)"
    "ucast (drop_bit 8 ?c) = (ucast (drop_bit 24 (push_bit 16 ?c)) :: byte)"
    "ucast ?c = (ucast (drop_bit 24 (push_bit 24 ?c)) :: byte)"
    by (auto intro!: bit_word_eqI simp: bit_simps)
  have "fold crc_byte (u32_to_be_bytes ?c) ?c = push_bit 32 ?c"
    unfolding u32_to_be_bytes_def
    by (simp add: crc_byte_cancel) (simp add: b crc_byte_cancel push_bit_push_bit)
  also have "\<dots> = 0" by (rule bit_word_eqI) (simp add: bit_simps)
  finally show ?thesis by (simp add: mpeg_crc32_def)
qed

section \<open>Time stamps\<close>

lemma and_masks:
  "(b :: byte) AND 0x1F = take_bit 5 b" "b AND 0x0F = take_bit 4 b"
  "(v :: u16) AND 0xFF = take_bit 8 v"
  "(x :: 64 word) AND 0x07 = take_bit 3 x" "x AND 0xFF = take_bit 8 x" "x AND 0x7F = take_bit 7 x"
  "x AND (push_bit 33 1 - 1) = take_bit 33 x"
  by (simp_all add: take_bit_eq_mask mask_eq_exp_minus_1)

text \<open>The time stamp a receiver reads from the five bytes.\<close>

definition decode_pts :: "bytes \<Rightarrow> 64 word" where
  "decode_pts p =
     push_bit 30 (ucast (take_bit 3 (drop_bit 1 (p ! 0)))) OR push_bit 22 (ucast (p ! 1))
     OR push_bit 15 (ucast (drop_bit 1 (p ! 2))) OR push_bit 7 (ucast (p ! 3))
     OR ucast (drop_bit 1 (p ! 4))"

lemma drop_push_or: "drop_bit s (push_bit s z OR w) = take_bit (8 - s) z OR drop_bit s (w :: byte)"
  by (rule bit_word_eqI) (auto simp: bit_simps)

lemma pts_bytes:
  fixes y :: byte
  shows "take_bit 3 (drop_bit 1 (push_bit 4 0x2 OR push_bit 1 (take_bit 3 y) OR 1)) = take_bit 3 y"
    "drop_bit 1 (push_bit 1 (take_bit 7 y) OR 1) = take_bit 7 y"
proof -
  have "push_bit 4 0x2 OR push_bit 1 (take_bit 3 y) OR 1 = push_bit 1 (take_bit 3 y) OR (0x21 :: byte)"
    using or.left_commute [of "0x20 :: byte" "push_bit 1 (take_bit 3 y)" 1] by simp
  then show "take_bit 3 (drop_bit 1 (push_bit 4 0x2 OR push_bit 1 (take_bit 3 y) OR 1)) = take_bit 3 y"
    using drop_push_or [of 1 "take_bit 3 y" "0x21"] by (simp add: take_bit_or)
  show "drop_bit 1 (push_bit 1 (take_bit 7 y) OR 1) = take_bit 7 y"
    using drop_push_or [of 1 "take_bit 7 y" 1] by simp
qed

lemma ucast_take_bits:
  "(ucast (take_bit 3 x) :: byte) = take_bit 3 (ucast (x :: 64 word))"
  "(ucast (take_bit 7 x) :: byte) = take_bit 7 (ucast x)"
  "(ucast (take_bit 8 x) :: byte) = ucast x"
  by (auto intro!: bit_word_eqI simp: bit_simps)

lemma pts_assemble:
  "push_bit 30 (ucast (take_bit 3 (ucast (drop_bit 30 x) :: byte)))
     OR push_bit 22 (ucast (ucast (drop_bit 22 x) :: byte))
     OR push_bit 15 (ucast (take_bit 7 (ucast (drop_bit 15 x) :: byte)))
     OR push_bit 7 (ucast (ucast (drop_bit 7 x) :: byte))
     OR ucast (take_bit 7 (ucast x :: byte)) = take_bit 33 (x :: 64 word)" (is "?l = ?r")
proof (rule bit_word_eqI)
  fix n assume "n < LENGTH(64)"
  then consider "n < 7" | "7 \<le> n" "n < 15" | "15 \<le> n" "n < 22" | "22 \<le> n" "n < 30"
    | "30 \<le> n" "n < 33" | "33 \<le> n" "n < 64"
    by force
  then show "bit ?l n = bit ?r n"
    by cases (simp_all only: bit_or_iff bit_push_bit_iff bit_unsigned_iff bit_take_bit_iff
        bit_drop_bit_eq comp_apply possible_bit_word, auto)
qed

lemma pts_roundtrip: "decode_pts (encode_pts x) = take_bit 33 x"
proof -
  let ?y = "take_bit 33 x"
  have "decode_pts (encode_pts x) =
    push_bit 30 (ucast (take_bit 3 (ucast (drop_bit 30 ?y) :: byte)))
     OR push_bit 22 (ucast (ucast (drop_bit 22 ?y) :: byte))
     OR push_bit 15 (ucast (take_bit 7 (ucast (drop_bit 15 ?y) :: byte)))
     OR push_bit 7 (ucast (ucast (drop_bit 7 ?y) :: byte))
     OR ucast (take_bit 7 (ucast ?y :: byte))"
    unfolding decode_pts_def encode_pts_def Let_def and_masks ucast_take_bits
    using pts_bytes [of "ucast (drop_bit 30 ?y)"] pts_bytes [of "ucast (drop_bit 15 ?y)"] pts_bytes [of "ucast ?y"]
    by (simp add: nth_Cons_numeral)
  then show ?thesis unfolding pts_assemble by simp
qed

section \<open>Packets\<close>

lemma length_adaptation_field: "n \<le> 184 \<Longrightarrow> length (adaptation_field n) = 184 - n"
  by (auto simp: adaptation_field_def Let_def)

lemma length_ts_packet: "length chunk \<le> 184 \<Longrightarrow> length (ts_packet pid cc pusi chunk) = 188"
  by (simp add: ts_packet_def Let_def length_adaptation_field)

lemma pusi_byte:
  fixes x :: byte
  shows "(((if p then push_bit 6 1 else 0) OR (x AND 0x1F)) AND 0x40 \<noteq> 0) = p"
    "((if p then push_bit 6 1 else 0) OR (x AND 0x1F)) AND 0x1F = x AND 0x1F"
  by (simp_all add: bit.conj_disj_distrib2 and.assoc)

lemma cc_byte:
  fixes x :: byte
  shows "drop_bit 4 (push_bit 4 3 OR (x AND 0x0F)) AND 3 = 3"
    "drop_bit 4 (push_bit 4 1 OR (x AND 0x0F)) AND 3 = 1"
    "(push_bit 4 3 OR (x AND 0x0F)) AND 0x0F = x AND 0x0F"
    "(push_bit 4 1 OR (x AND 0x0F)) AND 0x0F = x AND 0x0F"
proof -
  have d: "drop_bit 4 (x AND 0x0F) = 0"
    unfolding and_masks by (rule bit_word_eqI) (simp add: bit_simps)
  show "drop_bit 4 (push_bit 4 3 OR (x AND 0x0F)) AND 3 = 3"
    "drop_bit 4 (push_bit 4 1 OR (x AND 0x0F)) AND 3 = 1"
    by (simp_all add: drop_bit_or d)
  show "(push_bit 4 3 OR (x AND 0x0F)) AND 0x0F = x AND 0x0F"
    "(push_bit 4 1 OR (x AND 0x0F)) AND 0x0F = x AND 0x0F"
    by (simp_all add: bit.conj_disj_distrib2 and.assoc)
qed

lemma pid_bytes:
  "push_bit 8 (ucast ((ucast (drop_bit 8 pid) :: byte) AND 0x1F)) OR ucast (ucast (pid AND 0xFF) :: byte)
     = take_bit 13 (pid :: u16)" (is "?l = ?r")
proof (rule bit_word_eqI)
  fix n assume "n < LENGTH(16)"
  then consider "n < 8" | "8 \<le> n" "n < 13" | "13 \<le> n" "n < 16" by force
  then show "bit ?l n = bit ?r n"
    unfolding and_masks
    by cases (simp_all only: bit_or_iff bit_push_bit_iff bit_unsigned_iff bit_take_bit_iff
        bit_drop_bit_eq comp_apply possible_bit_word, auto)
qed

lemma parse_ts_packet:
  assumes "length chunk \<le> 184"
  shows "ts_parse (ts_packet pid cc pusi chunk) =
    Some \<lparr>tf_pusi = pusi, tf_pid = take_bit 13 pid, tf_cc = cc AND 0x0F, tf_payload = chunk\<rparr>"
proof -
  let ?p = "ts_packet pid cc pusi chunk"
  have h: "?p ! 0 = 0x47" "?p ! 1 = (if pusi then push_bit 6 1 else 0) OR (ucast (drop_bit 8 pid) AND 0x1F)"
    "?p ! 2 = ucast (pid AND 0xFF)"
    "?p ! 3 = push_bit 4 (if length chunk < 184 then 3 else 1) OR (cc AND 0x0F)"
    "drop 4 ?p = adaptation_field (length chunk) @ chunk"
    by (simp_all add: ts_packet_def Let_def)
  have f: "(?p ! 1 AND 0x40 \<noteq> 0) = pusi"
    "push_bit 8 (ucast (?p ! 1 AND 0x1F)) OR ucast (?p ! 2) = take_bit 13 pid"
    unfolding h(2,3) pusi_byte pid_bytes by simp_all
  have g: "?p ! 3 AND 0x0F = cc AND 0x0F"
    "drop_bit 4 (?p ! 3) AND 3 = (if length chunk < 184 then 3 else 1)"
    unfolding h(4) by (cases "length chunk < 184"; simp only: if_True if_False cc_byte)+
  have u: "unat (of_nat (183 - length chunk) :: byte) = 183 - length chunk"
    by (simp add: unat_of_nat)
  have b: "drop 4 ?p ! 0 = of_nat (183 - length chunk)"
    "drop (1 + (183 - length chunk)) (drop 4 ?p) = chunk" if "length chunk < 184"
    using that by (auto simp: h adaptation_field_def Let_def)
  have c: "drop 4 ?p = chunk" if "\<not> length chunk < 184"
    using that by (simp add: h adaptation_field_def)
  show ?thesis
    unfolding ts_parse_def Let_def f g length_ts_packet [OF assms] h(1)
    by (cases "length chunk < 184") (simp_all only: b c u if_True if_False, simp_all add: c)
qed

text \<open>The packets of a payload: chunks of 184 bytes, counted from \<open>cc\<close> modulo 16.\<close>

function ts_chunks :: "bytes \<Rightarrow> bytes list" where
  "ts_chunks payload = (if payload = [] then [] else take 184 payload # ts_chunks (drop 184 payload))"
  by pat_completeness auto
termination by (relation "measure length") auto

declare ts_chunks.simps [simp del]

fun ts_stream :: "u16 \<Rightarrow> u8 \<Rightarrow> bool \<Rightarrow> bytes list \<Rightarrow> bytes" where
  "ts_stream pid cc pusi [] = []"
| "ts_stream pid cc pusi (c # cs) =
     ts_packet pid cc pusi c @ ts_stream pid ((cc + 1) AND 0x0F) False cs"

fun advance_cc :: "u8 \<Rightarrow> 'a list \<Rightarrow> u8" where
  "advance_cc cc [] = cc"
| "advance_cc cc (c # cs) = advance_cc ((cc + 1) AND 0x0F) cs"

lemma concat_ts_chunks: "concat (ts_chunks p) = p"
  by (induction p rule: ts_chunks.induct) (subst ts_chunks.simps, auto)

lemma length_ts_chunks: "c \<in> set (ts_chunks p) \<Longrightarrow> 0 < length c \<and> length c \<le> 184"
  by (induction p rule: ts_chunks.induct) (subst (asm) (2) ts_chunks.simps, auto split: if_splits)

lemma ts_loop_stream:
  "offset \<le> length payload \<Longrightarrow>
     ts_loop pid payload cc pusi offset first packets
       = (packets @ ts_stream pid cc (first \<and> pusi) (ts_chunks (drop offset payload)),
          advance_cc cc (ts_chunks (drop offset payload)))"
proof (induction pid payload cc pusi offset first packets rule: ts_loop.induct)
  case (1 pid payload cc pusi offset first packets)
  show ?case
  proof (cases "offset < length payload")
    case False
    with "1.prems" show ?thesis
      by (subst ts_loop.simps) (simp add: ts_chunks.simps [of "[]"])
  next
    case True
    let ?n = "min (length payload - offset) 184"
    have t: "take ?n (drop offset payload) = take 184 (drop offset payload)"
      by (simp add: min_def)
    have d: "drop (offset + ?n) payload = drop 184 (drop offset payload)"
      using True by (auto simp: min_def add.commute)
    have c: "ts_chunks (drop offset payload)
        = take 184 (drop offset payload) # ts_chunks (drop 184 (drop offset payload))"
      using True by (subst ts_chunks.simps) auto
    have "offset + ?n \<le> length payload" using True by auto
    note ih = "1.IH" [OF True refl refl this]
    show ?thesis
      using True ih unfolding c t d
      by (simp add: ts_loop.simps [of pid payload cc pusi offset] Let_def t d)
  qed
qed

lemma ts_split_append: "length p = 188 \<Longrightarrow> ts_split (p @ s) = p # ts_split s"
  by (subst ts_split.simps) auto

fun fields_of :: "u16 \<Rightarrow> u8 \<Rightarrow> bool \<Rightarrow> bytes list \<Rightarrow> ts_fields list" where
  "fields_of pid cc pusi [] = []"
| "fields_of pid cc pusi (c # cs) =
     \<lparr>tf_pusi = pusi, tf_pid = pid, tf_cc = cc AND 0x0F, tf_payload = c\<rparr>
     # fields_of pid ((cc + 1) AND 0x0F) False cs"

lemma demux_stream:
  assumes "\<forall>c \<in> set cs. length c \<le> 184"
  shows "ts_demux (ts_stream pid cc pusi cs) = Some (fields_of (take_bit 13 pid) cc pusi cs)"
  using assms
proof (induction cs arbitrary: cc pusi)
  case Nil
  then show ?case by (simp add: ts_demux_def ts_split.simps [of "[]"])
next
  case (Cons c cs)
  then show ?case
    by (simp add: ts_demux_def ts_split_append length_ts_packet parse_ts_packet)
qed

lemma payload_of_fields: "concat (map tf_payload (fields_of pid cc pusi cs)) = concat cs"
  by (induction cs arbitrary: cc pusi) auto

lemma packetize_demux:
  "ts_demux (fst (packetize_ts pid payload cc pusi))
     = Some (fields_of (take_bit 13 pid) cc pusi (ts_chunks payload))"
  using ts_loop_stream [of 0 payload pid cc pusi True "[]"] length_ts_chunks [of _ payload]
  by (simp add: packetize_ts_def demux_stream)

section \<open>Properties\<close>

text \<open>
  Packetisation is lossless: for every payload, what \<open>packetize_ts\<close> writes is a sequence of
  well-formed 188-byte packets, and a demultiplexer reads from them, in order, the packets of
  this PID with consecutive continuity counters modulo 16, the unit start flag on the first
  only, and chunks that concatenate to the payload.
\<close>

theorem packetize_ts_lossless:
  "\<exists>cs. concat cs = payload \<and> (\<forall>c \<in> set cs. c \<noteq> [])
     \<and> ts_demux (fst (packetize_ts pid payload cc pusi))
       = Some (fields_of (take_bit 13 pid) cc pusi cs)
     \<and> snd (packetize_ts pid payload cc pusi) = advance_cc cc cs"
  using packetize_demux [of pid payload cc pusi] concat_ts_chunks [of payload]
    length_ts_chunks [of _ payload] ts_loop_stream [of 0 payload pid cc pusi True "[]"]
  by (intro exI [of _ "ts_chunks payload"]) (auto simp: packetize_ts_def)

theorem packetize_ts_lossless_witness:
  "\<exists>cs. concat cs = [1, 2, 3 :: byte] \<and> (\<forall>c \<in> set cs. c \<noteq> [])
     \<and> ts_demux (fst (packetize_ts VIDEO_PID [1, 2, 3] 15 True))
       = Some (fields_of (take_bit 13 VIDEO_PID) 15 True cs)
     \<and> snd (packetize_ts VIDEO_PID [1, 2, 3] 15 True) = advance_cc 15 cs"
  by (rule packetize_ts_lossless)

text \<open>
  The tables carry a valid checksum: for every section, appending the big-endian bytes of
  its \<open>mpeg_crc32\<close> gives data whose checksum is zero, the test a receiver of the program
  association and program map tables makes.
\<close>

theorem mpeg_crc32_residue: "mpeg_crc32 (section @ u32_to_be_bytes (mpeg_crc32 section)) = 0"
  by (rule crc_residue)

text \<open>
  Time stamps survive: the five bytes of \<open>encode_pts\<close> decode to the time stamp modulo \<open>2^33\<close>,
  so a 32-bit RTP time stamp is carried exactly.
\<close>

theorem encode_pts_roundtrip:
  "decode_pts (encode_pts pts) = take_bit 33 pts \<and> decode_pts (encode_pts (ucast ts)) = ucast (ts :: u32)"
proof -
  have "take_bit 33 (ucast ts :: 64 word) = ucast ts"
    by (rule bit_word_eqI) (auto simp: bit_simps dest: bit_imp_le_length)
  then show ?thesis by (simp add: pts_roundtrip)
qed

end
