(* ===== verification/Pipeline.thy ===== *)
theory Pipeline
  imports Clip H264 Rtp
begin

text \<open>
  \<^verbatim>\<open>src/server_pipeline.rs\<close>: the per-stream pipeline of the ingest server. RTP packets become
  access units, synchronised access units fill a ring of the last seconds, and a motion event
  turns the ring and what follows into a clip file; a health file tells the state of the stream.

  Parameters (\<open>pipe_env\<close>): timestamp formatting (\<open>chrono\<close>) and JSON encoding (\<open>serde_json\<close>).
  A write attempt that times out is an attempt that fails, as the code treats both alike.
  Logging is not modelled, what it keeps track of is.
\<close>

section \<open>Data\<close>

datatype StreamMsg =
    RtpMsg bytes
  | GapMsg u16 u16
  | MotionMsg string bool string

record StreamConfig =
  st_stream_id :: nat
  st_clip_dir :: string
  st_ring_secs :: u64
  st_pre_secs :: u64
  st_post_secs :: u64
  st_stale_part_secs :: u64
  st_max_clip_secs :: "u64 option"
  st_clip_write_timeout_ms :: u64
  st_clip_write_retry_count :: u64
  st_clip_write_retry_backoff_ms :: u64
  st_stale_secs :: u64
  st_stats_log_secs :: u64

record AccessUnit =
  au_ts :: instant
  au_nals :: "bytes list"
  au_has_idr :: bool

record ClipState =
  cs_writer :: ClipWriter
  cs_started_at :: datetime
  cs_rule :: string
  cs_stop_at :: instant
  cs_hard_stop_at :: "instant option"

record ClipWriteSettings =
  ws_timeout :: duration
  ws_retry_count :: u64
  ws_retry_backoff :: duration

record PipeSidecar =
  ps_stream_id :: nat
  ps_rule :: string
  ps_filename :: string
  ps_started_at :: string
  ps_ended_at :: string
  ps_duration_secs :: int

datatype StreamHealthState = HealthIdle | HealthReceiving | HealthStale

record StreamRuntimeStats =
  ss_total_rtp_packets :: u64
  ss_total_access_units :: u64
  ss_total_gaps :: u64
  ss_total_motion_events :: u64
  ss_total_parse_errors :: u64
  ss_last_rtp_at :: "datetime option"
  ss_last_access_unit_at :: "datetime option"
  ss_last_gap_at :: "datetime option"
  ss_last_motion_at :: "datetime option"
  ss_last_error_at :: "datetime option"
  ss_last_idr_at :: "datetime option"
  ss_last_stats_log_at :: "instant option"
  ss_last_health_write_at :: "instant option"

definition StreamRuntimeStats_default :: StreamRuntimeStats where
  "StreamRuntimeStats_default =
     \<lparr>ss_total_rtp_packets = 0, ss_total_access_units = 0, ss_total_gaps = 0,
      ss_total_motion_events = 0, ss_total_parse_errors = 0, ss_last_rtp_at = None,
      ss_last_access_unit_at = None, ss_last_gap_at = None, ss_last_motion_at = None,
      ss_last_error_at = None, ss_last_idr_at = None, ss_last_stats_log_at = None,
      ss_last_health_write_at = None\<rparr>"

record StreamHealthSnapshot =
  sh_stream_id :: nat
  sh_state :: StreamHealthState
  sh_updated_at :: string
  sh_stale_after_secs :: u64
  sh_ring_secs :: u64
  sh_clip_active :: bool
  sh_clip_pending :: bool
  sh_total_rtp_packets :: u64
  sh_total_access_units :: u64
  sh_total_gaps :: u64
  sh_total_motion_events :: u64
  sh_total_parse_errors :: u64
  sh_last_rtp_at :: "string option"
  sh_last_access_unit_at :: "string option"
  sh_last_gap_at :: "string option"
  sh_last_motion_at :: "string option"
  sh_last_error_at :: "string option"

record NoDecodeEpisode =
  nd_first_rtp_at :: "instant option"
  nd_access_units_at_start :: u64
  nd_logged :: bool

definition NoDecodeEpisode_default :: NoDecodeEpisode where
  "NoDecodeEpisode_default =
     \<lparr>nd_first_rtp_at = None, nd_access_units_at_start = 0, nd_logged = False\<rparr>"

text \<open>The local variables of \<open>run_stream\<close>, those of the media path as a record of their own.\<close>

record media =
  md_dep :: H264Depacketizer
  md_expected_seq :: "u16 option"
  md_synced :: bool
  md_sps :: "bytes option"
  md_pps :: "bytes option"
  md_ring :: "AccessUnit list"
  md_current_au :: "bytes list"

definition media_init :: media where
  "media_init =
     \<lparr>md_dep = H264Depacketizer_new, md_expected_seq = None, md_synced = False, md_sps = None,
      md_pps = None, md_ring = [], md_current_au = []\<rparr>"

record pipe =
  pl_media :: media
  pl_clip :: "ClipState option"
  pl_clip_pending :: bool
  pl_pending_rule :: string
  pl_pending_ring_snapshot :: "AccessUnit list option"
  pl_stats :: StreamRuntimeStats
  pl_episode :: NoDecodeEpisode

definition pipe_init :: pipe where
  "pipe_init =
     \<lparr>pl_media = media_init, pl_clip = None, pl_clip_pending = False, pl_pending_rule = [],
      pl_pending_ring_snapshot = None, pl_stats = StreamRuntimeStats_default,
      pl_episode = NoDecodeEpisode_default\<rparr>"

record pipe_env =
  pe_ts :: "datetime \<Rightarrow> string"
  pe_rfc3339 :: "datetime \<Rightarrow> string"
  pe_sidecar :: "PipeSidecar \<Rightarrow> bytes"
  pe_health :: "StreamHealthSnapshot \<Rightarrow> bytes"

section \<open>Access units and the ring\<close>

fun scan_nals :: "bytes list \<Rightarrow> bytes option \<Rightarrow> bytes option \<Rightarrow> bool
    \<Rightarrow> bytes option \<times> bytes option \<times> bool" where
  "scan_nals [] sps pps idr = (sps, pps, idr)"
| "scan_nals (nal # nals) sps pps idr =
     (case nal_type_from_annexb nal of
        None \<Rightarrow> scan_nals nals sps pps idr
      | Some nt \<Rightarrow>
          if nt = 7 then scan_nals nals (Some nal) pps idr
          else if nt = 8 then scan_nals nals sps (Some nal) idr
          else if nt = 5 then scan_nals nals sps pps True
          else scan_nals nals sps pps idr)"

definition build_access_unit ::
    "bytes list \<Rightarrow> bytes option \<Rightarrow> bytes option \<Rightarrow> instant
       \<Rightarrow> AccessUnit \<times> bytes option \<times> bytes option" where
  "build_access_unit nals sps pps now =
     (let (sps, pps, has_idr) = scan_nals nals sps pps False in
      (\<lparr>au_ts = now, au_nals = nals, au_has_idr = has_idr\<rparr>, sps, pps))"

fun prune_ring :: "AccessUnit list \<Rightarrow> u64 \<Rightarrow> instant \<Rightarrow> AccessUnit list" where
  "prune_ring [] ring_secs now = []"
| "prune_ring (front # ring) ring_secs now =
     (if now - au_ts front > from_secs ring_secs then prune_ring ring ring_secs now
      else front # ring)"

definition should_finalize_clip :: "instant \<Rightarrow> instant \<Rightarrow> instant option \<Rightarrow> bool" where
  "should_finalize_clip now stop_at hard_stop_at =
     (now \<ge> stop_at \<or> (case hard_stop_at of None \<Rightarrow> False | Some t \<Rightarrow> now \<ge> t))"

section \<open>Health\<close>

definition mark_stream_error :: "StreamRuntimeStats \<Rightarrow> datetime \<Rightarrow> StreamRuntimeStats" where
  "mark_stream_error s now =
     s\<lparr>ss_total_parse_errors := saturating_add (ss_total_parse_errors s) 1,
       ss_last_error_at := Some now\<rparr>"

definition maybe_log_no_decode_watchdog ::
    "StreamRuntimeStats \<Rightarrow> NoDecodeEpisode \<Rightarrow> instant \<Rightarrow> NoDecodeEpisode" where
  "maybe_log_no_decode_watchdog s ep now =
     (case nd_first_rtp_at ep of
        None \<Rightarrow> ep
      | Some started \<Rightarrow>
          if ss_total_access_units s > nd_access_units_at_start ep then NoDecodeEpisode_default
          else if nd_logged ep then ep
          else if now - started < from_secs 30 then ep
          else ep\<lparr>nd_logged := True\<rparr>)"

definition trunc_secs :: "int \<Rightarrow> int" where
  "trunc_secs d = (if d \<ge> 0 then d div 1000000000 else - ((- d) div 1000000000))"

definition derive_stream_health_state ::
    "datetime option \<Rightarrow> u64 \<Rightarrow> datetime \<Rightarrow> StreamHealthState" where
  "derive_stream_health_state last_rtp_at stale_secs now =
     (case last_rtp_at of
        None \<Rightarrow> HealthIdle
      | Some last_rtp_at \<Rightarrow>
          let elapsed_secs = nat (max (trunc_secs (now - last_rtp_at)) 0) in
          if elapsed_secs \<le> max stale_secs 1 then HealthReceiving else HealthStale)"

definition recently :: "instant option \<Rightarrow> instant \<Rightarrow> duration \<Rightarrow> bool" where
  "recently prev now interval = (case prev of None \<Rightarrow> False | Some t \<Rightarrow> now - t < interval)"

definition maybe_log_stream_stats :: "StreamConfig \<Rightarrow> StreamRuntimeStats \<Rightarrow> instant \<Rightarrow> StreamRuntimeStats" where
  "maybe_log_stream_stats cfg s now =
     (if recently (ss_last_stats_log_at s) now (from_secs (max (st_stats_log_secs cfg) 5)) then s
      else s\<lparr>ss_last_stats_log_at := Some now\<rparr>)"

definition health_file :: "StreamConfig \<Rightarrow> string" where
  "health_file cfg =
     join_path (st_clip_dir cfg) (''stream_'' @ show_nat (st_stream_id cfg) @ ''.health.json'')"

definition health_snapshot ::
    "pipe_env \<Rightarrow> StreamConfig \<Rightarrow> StreamRuntimeStats \<Rightarrow> bool \<Rightarrow> bool \<Rightarrow> datetime
       \<Rightarrow> StreamHealthSnapshot" where
  "health_snapshot env cfg s clip_active clip_pending now =
     \<lparr>sh_stream_id = st_stream_id cfg,
      sh_state = derive_stream_health_state (ss_last_rtp_at s) (st_stale_secs cfg) now,
      sh_updated_at = pe_rfc3339 env now, sh_stale_after_secs = st_stale_secs cfg,
      sh_ring_secs = st_ring_secs cfg, sh_clip_active = clip_active,
      sh_clip_pending = clip_pending,
      sh_total_rtp_packets = ss_total_rtp_packets s,
      sh_total_access_units = ss_total_access_units s, sh_total_gaps = ss_total_gaps s,
      sh_total_motion_events = ss_total_motion_events s,
      sh_total_parse_errors = ss_total_parse_errors s,
      sh_last_rtp_at = map_option (pe_rfc3339 env) (ss_last_rtp_at s),
      sh_last_access_unit_at = map_option (pe_rfc3339 env) (ss_last_access_unit_at s),
      sh_last_gap_at = map_option (pe_rfc3339 env) (ss_last_gap_at s),
      sh_last_motion_at = map_option (pe_rfc3339 env) (ss_last_motion_at s),
      sh_last_error_at = map_option (pe_rfc3339 env) (ss_last_error_at s)\<rparr>"

definition write_stream_health ::
    "pipe_env \<Rightarrow> StreamConfig \<Rightarrow> StreamRuntimeStats \<Rightarrow> bool \<Rightarrow> bool \<Rightarrow> unit io" where
  "write_stream_health env cfg s clip_active clip_pending =
     bindIO (getW w_utc) (\<lambda>now.
     bindIO (fs_write (health_file cfg @ ''.tmp'')
       (pe_health env (health_snapshot env cfg s clip_active clip_pending now))) (\<lambda>_.
     fs_rename (health_file cfg @ ''.tmp'') (health_file cfg)))"

definition maybe_write_stream_health ::
    "pipe_env \<Rightarrow> StreamConfig \<Rightarrow> StreamRuntimeStats \<Rightarrow> bool \<Rightarrow> bool \<Rightarrow> StreamRuntimeStats io" where
  "maybe_write_stream_health env cfg s clip_active clip_pending =
     bindIO (getW w_now) (\<lambda>now.
       if recently (ss_last_health_write_at s) now (from_secs 1) then returnIO s
       else bindIO (write_stream_health env cfg s clip_active clip_pending) (\<lambda>_.
         returnIO (s\<lparr>ss_last_health_write_at := Some now\<rparr>)))"

section \<open>Clips\<close>

definition sleepIO :: "duration \<Rightarrow> unit io" where
  "sleepIO d w = (Ok (), w\<lparr>w_now := w_now w + d, w_utc := w_utc w + int d\<rparr>)"

fun write_attempts :: "nat \<Rightarrow> duration \<Rightarrow> ClipWriter \<Rightarrow> bytes \<Rightarrow> (bool \<times> ClipWriter) io" where
  "write_attempts 0 backoff cw nal = returnIO (False, cw)"
| "write_attempts (Suc left) backoff cw nal =
     bindIO (write_nal cw nal) (\<lambda>(ok, cw).
       if ok then returnIO (True, cw)
       else if left > 0 then
         bindIO (if backoff > 0 then sleepIO backoff else returnIO ()) (\<lambda>_.
           write_attempts left backoff cw nal)
       else bindIO (attemptIO (fs_remove (cw_part_path cw))) (\<lambda>_. returnIO (False, cw)))"

definition write_active_clip_nal_with_retry ::
    "ClipState \<Rightarrow> bytes \<Rightarrow> ClipWriteSettings \<Rightarrow> (bool \<times> ClipState) io" where
  "write_active_clip_nal_with_retry clip nal settings =
     (let attempts = saturating_add (ws_retry_count settings) 1 in
      bindIO (write_attempts attempts (ws_retry_backoff settings) (cs_writer clip) nal) (\<lambda>(ok, cw).
        returnIO (ok, clip\<lparr>cs_writer := cw\<rparr>)))"

definition safe_rule_name :: "string \<Rightarrow> string" where
  "safe_rule_name rule =
     map (\<lambda>c. if c \<in> {CHR ''/'', CHR 0x5C, CHR '' ''} then CHR ''_'' else c) rule"

definition try_write_nals :: "ClipWriter \<Rightarrow> bytes list \<Rightarrow> ClipWriter io" where
  "try_write_nals writer nals =
     bindIO (write_nals writer nals) (\<lambda>(ok, writer).
       if ok then returnIO writer else failIO IoFailed)"

fun write_snapshot ::
    "bytes option \<Rightarrow> bytes option \<Rightarrow> AccessUnit list \<Rightarrow> bool \<Rightarrow> bool \<Rightarrow> ClipWriter
       \<Rightarrow> (bool \<times> ClipWriter) io" where
  "write_snapshot sps pps [] found wrote_any writer = returnIO (wrote_any, writer)"
| "write_snapshot sps pps (au # aus) found wrote_any writer =
     (if \<not> found \<and> \<not> au_has_idr au then write_snapshot sps pps aus found wrote_any writer
      else
        bindIO (if found then returnIO writer
                else case (sps, pps) of
                  (Some s, Some p) \<Rightarrow> try_write_nals writer [s, p]
                | _ \<Rightarrow> returnIO writer) (\<lambda>writer.
        bindIO (try_write_nals writer (au_nals au)) (\<lambda>writer.
        write_snapshot sps pps aus True (wrote_any \<or> au_nals au \<noteq> []) writer)))"

definition clip_name :: "pipe_env \<Rightarrow> StreamConfig \<Rightarrow> datetime \<Rightarrow> string \<Rightarrow> string" where
  "clip_name env cfg utc rule =
     pe_ts env utc @ ''_'' @ show_nat (st_stream_id cfg) @ ''_'' @ safe_rule_name rule"

definition clip_path :: "pipe_env \<Rightarrow> StreamConfig \<Rightarrow> datetime \<Rightarrow> string \<Rightarrow> string" where
  "clip_path env cfg utc rule = join_path (st_clip_dir cfg) (clip_name env cfg utc rule @ ''.h264'')"

definition try_start_clip ::
    "pipe_env \<Rightarrow> StreamConfig \<Rightarrow> string \<Rightarrow> AccessUnit list option \<Rightarrow> bytes option \<Rightarrow> bytes option
       \<Rightarrow> (ClipState option) io" where
  "try_start_clip env cfg rule ring_snapshot sps pps =
     bindIO (getW w_utc) (\<lambda>utc.
     let file_path = clip_path env cfg utc rule;
         part_path = join_path (st_clip_dir cfg) (clip_name env cfg utc rule @ ''.h264.part'') in
     bindIO (ClipWriter_create part_path file_path (256 * 1024)) (\<lambda>writer.
     bindIO (case ring_snapshot of
               Some snapshot \<Rightarrow> write_snapshot sps pps snapshot False False writer
             | None \<Rightarrow> returnIO (False, writer)) (\<lambda>(wrote_any, writer).
     if \<not> wrote_any \<and> (sps = None \<or> pps = None) then returnIO None
     else
       bindIO (getW w_utc) (\<lambda>started_at.
       bindIO (getW w_now) (\<lambda>now.
       returnIO (Some
         \<lparr>cs_writer = writer, cs_started_at = started_at, cs_rule = rule,
          cs_stop_at = now + from_secs (st_post_secs cfg),
          cs_hard_stop_at = map_option (\<lambda>secs. now + from_secs secs) (st_max_clip_secs cfg)\<rparr>))))))"

definition finalize_clip :: "pipe_env \<Rightarrow> nat \<Rightarrow> ClipState option \<Rightarrow> unit io" where
  "finalize_clip env sid clip =
     (case clip of
        None \<Rightarrow> returnIO ()
      | Some cs \<Rightarrow>
          bindIO (ClipWriter_finalize (cs_writer cs)) (\<lambda>final_path.
          bindIO (getW w_utc) (\<lambda>ended_at.
          fs_write (with_extension final_path ''json'')
            (pe_sidecar env
              \<lparr>ps_stream_id = sid, ps_rule = cs_rule cs, ps_filename = file_name final_path,
               ps_started_at = pe_rfc3339 env (cs_started_at cs), ps_ended_at = pe_rfc3339 env ended_at,
               ps_duration_secs = trunc_secs (ended_at - cs_started_at cs)\<rparr>))))"

definition cleanup_stale_part :: "datetime \<Rightarrow> string \<Rightarrow> unit io" where
  "cleanup_stale_part cutoff path =
     (if \<not> ends_with (file_name path) ''.h264.part'' then returnIO ()
      else bindIO (attemptIO (fs_metadata path)) (\<lambda>m.
        case m of
          Inl _ \<Rightarrow> returnIO ()
        | Inr md \<Rightarrow>
            if f_mtime md < cutoff
            then bindIO (attemptIO (fs_remove path)) (\<lambda>_. returnIO ())
            else returnIO ()))"

definition pipe_cleanup_stale_parts :: "string \<Rightarrow> u64 \<Rightarrow> unit io" where
  "pipe_cleanup_stale_parts dir stale_part_secs =
     bindIO (getW w_utc) (\<lambda>now.
     bindIO (fs_read_dir dir) (\<lambda>paths.
     forIO paths (cleanup_stale_part (now - int (from_secs stale_part_secs)))))"

section \<open>The media path of \<open>run_stream\<close>\<close>

definition media_resync :: "media \<Rightarrow> u16 option \<Rightarrow> media" where
  "media_resync m expected =
     m\<lparr>md_dep := H264Depacketizer_reset (md_dep m), md_synced := False,
       md_expected_seq := expected, md_current_au := []\<rparr>"

text \<open>A complete access unit: synchronise on an IDR with known parameter sets.\<close>

definition media_sync :: "media \<Rightarrow> instant \<Rightarrow> AccessUnit option \<times> media" where
  "media_sync m now =
     (let (au, sps, pps) = build_access_unit (md_current_au m) (md_sps m) (md_pps m) now;
          m = m\<lparr>md_sps := sps, md_pps := pps, md_current_au := []\<rparr> in
      if md_synced m then (Some au, m)
      else if au_has_idr au then
        (case (sps, pps) of
           (Some s, Some p) \<Rightarrow>
             (Some (au\<lparr>au_nals := s # p # au_nals au\<rparr>), m\<lparr>md_synced := True\<rparr>)
         | _ \<Rightarrow> (None, m))
      else (None, m))"

datatype media_result = ParseFailed | NoUnit | Kept AccessUnit

definition media_on_rtp ::
    "u64 \<Rightarrow> media \<Rightarrow> bytes \<Rightarrow> instant \<Rightarrow> (unit, media_result \<times> media) rust" where
  "media_on_rtp ring_secs m data now =
     (case RtpPacket_parse data of
        Panic \<Rightarrow> Panic
      | Err _ \<Rightarrow> Ok (ParseFailed, media_resync m None)
      | Ok pkt \<Rightarrow>
          let seq = rp_sequence_number pkt in
          if md_expected_seq m \<noteq> None \<and> md_expected_seq m \<noteq> Some seq
          then Ok (NoUnit, media_resync m (Some (seq + 1)))
          else
            let m = m\<lparr>md_expected_seq := Some (seq + 1)\<rparr>;
                (r, dep) = push_rtp_payload (md_dep m) (rp_payload pkt);
                m = m\<lparr>md_dep := dep\<rparr> in
            (case r of
               Panic \<Rightarrow> Panic
             | Err _ \<Rightarrow> Ok (ParseFailed, media_resync m None)
             | Ok nals \<Rightarrow>
                 let m = m\<lparr>md_current_au := md_current_au m @ nals\<rparr> in
                 if \<not> rp_marker pkt \<or> md_current_au m = [] then Ok (NoUnit, m)
                 else (case media_sync m now of
                         (None, m) \<Rightarrow> Ok (NoUnit, m)
                       | (Some au, m) \<Rightarrow>
                           Ok (Kept au, m\<lparr>md_ring := prune_ring (md_ring m @ [au]) ring_secs now\<rparr>))))"

section \<open>The handlers of \<open>run_stream\<close>\<close>

definition pipe_on_gap :: "pipe \<Rightarrow> datetime \<Rightarrow> pipe" where
  "pipe_on_gap p utc =
     p\<lparr>pl_stats := (pl_stats p)\<lparr>ss_total_gaps := saturating_add (ss_total_gaps (pl_stats p)) 1,
                              ss_last_gap_at := Some utc\<rparr>,
       pl_media := media_resync (pl_media p) None\<rparr>"

definition pipe_on_motion :: "pipe \<Rightarrow> string \<Rightarrow> bool \<Rightarrow> datetime \<Rightarrow> pipe" where
  "pipe_on_motion p rule active utc =
     (let p = p\<lparr>pl_stats := (pl_stats p)\<lparr>
            ss_total_motion_events := saturating_add (ss_total_motion_events (pl_stats p)) 1,
            ss_last_motion_at := Some utc\<rparr>\<rparr> in
      if active \<and> pl_clip p = None
      then p\<lparr>pl_clip_pending := True, pl_pending_rule := rule,
             pl_pending_ring_snapshot := Some (md_ring (pl_media p))\<rparr>
      else p)"

definition clip_write_settings :: "StreamConfig \<Rightarrow> ClipWriteSettings" where
  "clip_write_settings cfg =
     \<lparr>ws_timeout = from_millis (max (st_clip_write_timeout_ms cfg) 1),
      ws_retry_count = st_clip_write_retry_count cfg,
      ws_retry_backoff = from_millis (st_clip_write_retry_backoff_ms cfg)\<rparr>"

fun write_au :: "ClipWriteSettings \<Rightarrow> ClipState \<Rightarrow> bytes list \<Rightarrow> (ClipState option) io" where
  "write_au settings cs [] = returnIO (Some cs)"
| "write_au settings cs (nal # nals) =
     bindIO (write_active_clip_nal_with_retry cs nal settings) (\<lambda>(ok, cs).
       if ok then write_au settings cs nals else returnIO None)"

definition note_access_unit :: "pipe \<Rightarrow> datetime \<Rightarrow> AccessUnit \<Rightarrow> pipe" where
  "note_access_unit p utc au =
     (let s = pl_stats p in
      p\<lparr>pl_stats := s\<lparr>ss_total_access_units := saturating_add (ss_total_access_units s) 1,
                     ss_last_access_unit_at := Some utc,
                     ss_last_idr_at := (if au_has_idr au then Some utc else ss_last_idr_at s)\<rparr>,
        pl_episode := NoDecodeEpisode_default\<rparr>)"

definition pipe_start_clip :: "pipe_env \<Rightarrow> StreamConfig \<Rightarrow> pipe \<Rightarrow> pipe io" where
  "pipe_start_clip env cfg p =
     (if pl_clip_pending p \<and> pl_clip p = None then
        bindIO (try_start_clip env cfg (pl_pending_rule p) (pl_pending_ring_snapshot p)
            (md_sps (pl_media p)) (md_pps (pl_media p))) (\<lambda>start. returnIO (case start of
          Some cs \<Rightarrow> p\<lparr>pl_clip := Some cs, pl_clip_pending := False,
                       pl_pending_ring_snapshot := None\<rparr>
        | None \<Rightarrow> p))
      else returnIO p)"

definition pipe_feed_clip :: "StreamConfig \<Rightarrow> pipe \<Rightarrow> pipe io" where
  "pipe_feed_clip cfg p =
     (case pl_clip p of
        None \<Rightarrow> returnIO p
      | Some cs \<Rightarrow>
          if md_ring (pl_media p) = [] then returnIO p
          else bindIO (write_au (clip_write_settings cfg) cs (au_nals (last (md_ring (pl_media p)))))
            (\<lambda>clip. returnIO (p\<lparr>pl_clip := clip\<rparr>)))"

definition note_rtp :: "pipe \<Rightarrow> instant \<Rightarrow> datetime \<Rightarrow> pipe" where
  "note_rtp p now utc =
     (let s = pl_stats p;
          p = p\<lparr>pl_stats := s\<lparr>ss_total_rtp_packets := saturating_add (ss_total_rtp_packets s) 1,
                             ss_last_rtp_at := Some utc\<rparr>\<rparr> in
      if nd_first_rtp_at (pl_episode p) = None
      then p\<lparr>pl_episode := \<lparr>nd_first_rtp_at = Some now,
              nd_access_units_at_start = ss_total_access_units (pl_stats p), nd_logged = False\<rparr>\<rparr>
      else p)"

definition pipe_on_rtp :: "pipe_env \<Rightarrow> StreamConfig \<Rightarrow> pipe \<Rightarrow> bytes \<Rightarrow> pipe io" where
  "pipe_on_rtp env cfg p data =
     bindIO (getW w_utc) (\<lambda>utc. bindIO (getW w_now) (\<lambda>now.
     let p = note_rtp p now utc in
     case media_on_rtp (st_ring_secs cfg) (pl_media p) data now of
       Ok (r, m) \<Rightarrow>
         let p = p\<lparr>pl_media := m\<rparr> in
         (case r of
            ParseFailed \<Rightarrow> returnIO (p\<lparr>pl_stats := mark_stream_error (pl_stats p) utc\<rparr>)
          | NoUnit \<Rightarrow> returnIO p
          | Kept au \<Rightarrow>
              bindIO (pipe_start_clip env cfg (note_access_unit p utc au)) (pipe_feed_clip cfg))
     | _ \<Rightarrow> (\<lambda>w. (Panic, w))))"

definition pipe_check_deadline :: "pipe_env \<Rightarrow> StreamConfig \<Rightarrow> pipe \<Rightarrow> pipe io" where
  "pipe_check_deadline env cfg p =
     bindIO (getW w_now) (\<lambda>now. case pl_clip p of
       Some cs \<Rightarrow>
         if should_finalize_clip now (cs_stop_at cs) (cs_hard_stop_at cs)
         then bindIO (finalize_clip env (st_stream_id cfg) (Some cs)) (\<lambda>_.
           returnIO (p\<lparr>pl_clip := None\<rparr>))
         else returnIO p
     | None \<Rightarrow> returnIO p)"

definition pipe_on_tick :: "pipe_env \<Rightarrow> StreamConfig \<Rightarrow> pipe \<Rightarrow> pipe io" where
  "pipe_on_tick env cfg p =
     bindIO (pipe_check_deadline env cfg p) (\<lambda>p.
     bindIO (getW w_now) (\<lambda>now.
     let p = p\<lparr>pl_episode := maybe_log_no_decode_watchdog (pl_stats p) (pl_episode p) now,
               pl_stats := maybe_log_stream_stats cfg (pl_stats p) now\<rparr> in
     bindIO (maybe_write_stream_health env cfg (pl_stats p) (pl_clip p \<noteq> None) (pl_clip_pending p))
       (\<lambda>s. returnIO (p\<lparr>pl_stats := s\<rparr>))))"

text \<open>
  The branches of \<open>select!\<close>. When the senders are gone \<open>recv\<close> yields \<open>None\<close>, which disables its
  branch for the iteration; the interval stays enabled, so \<open>else\<close> is never taken and the loop
  goes on ticking.
\<close>

datatype pipe_event = PipeTick | PipeMsg StreamMsg

definition pipe_step :: "pipe_env \<Rightarrow> StreamConfig \<Rightarrow> pipe \<Rightarrow> pipe_event \<Rightarrow> pipe io" where
  "pipe_step env cfg p ev =
     (case ev of
        PipeTick \<Rightarrow> pipe_on_tick env cfg p
      | PipeMsg (GapMsg _ _) \<Rightarrow> bindIO (getW w_utc) (\<lambda>utc. returnIO (pipe_on_gap p utc))
      | PipeMsg (MotionMsg rule active _) \<Rightarrow>
          bindIO (getW w_utc) (\<lambda>utc. returnIO (pipe_on_motion p rule active utc))
      | PipeMsg (RtpMsg data) \<Rightarrow> pipe_on_rtp env cfg p data)"

definition run_stream ::
    "pipe_env \<Rightarrow> StreamConfig \<Rightarrow> (instant \<times> datetime \<times> pipe_event) list \<Rightarrow> pipe io" where
  "run_stream env cfg evs =
     bindIO (fs_create_dir_all (st_clip_dir cfg)) (\<lambda>_.
     bindIO (pipe_cleanup_stale_parts (st_clip_dir cfg) (st_stale_part_secs cfg)) (\<lambda>_.
     event_loop (pipe_step env cfg) pipe_init evs))"

section \<open>The ring\<close>

lemma prune_ring_dropWhile:
  "prune_ring ring ring_secs now = dropWhile (\<lambda>au. now - au_ts au > from_secs ring_secs) ring"
  by (induction ring) simp_all

text \<open>In arrival order dropping old units from the front is the same as dropping all old units.\<close>

lemma prune_ring_filter:
  "sorted (map au_ts ring) \<Longrightarrow>
     prune_ring ring ring_secs now = filter (\<lambda>au. now - au_ts au \<le> from_secs ring_secs) ring"
proof (induction ring)
  case (Cons au ring)
  have "now - au_ts b \<le> from_secs ring_secs"
    if "now - au_ts au \<le> from_secs ring_secs" "b \<in> set ring" for b
    using Cons.prems that by (metis diff_le_mono2 le_trans list.set_intros(2) list.simps(9) set_map
        sorted_wrt.simps(2) imageI)
  with Cons show ?case by (auto simp: filter_id_conv)
qed simp

lemma prune_ring_last [simp]: "prune_ring (ring @ [au]) ring_secs (au_ts au) = prune_ring ring ring_secs (au_ts au) @ [au]"
  by (induction ring) simp_all

lemma build_access_unit_simps [simp]:
  "au_ts (fst (build_access_unit nals sps pps now)) = now"
  "au_nals (fst (build_access_unit nals sps pps now)) = nals"
  by (simp_all add: build_access_unit_def split: prod.splits)

lemma scan_nals_keeps:
  "scan_nals nals sps pps idr = (sps', pps', idr') \<Longrightarrow> (sps \<noteq> None \<longrightarrow> sps' \<noteq> None) \<and> (pps \<noteq> None \<longrightarrow> pps' \<noteq> None)"
  by (induction nals arbitrary: sps pps idr) (auto split: option.splits if_splits)

section \<open>The media path\<close>

definition media_inv :: "media \<Rightarrow> bool" where
  "media_inv m \<longleftrightarrow> dep_inv (md_dep m) \<and> (md_synced m \<longrightarrow> md_sps m \<noteq> None \<and> md_pps m \<noteq> None)"

lemma media_inv_init [simp]: "media_inv media_init"
  by (simp add: media_inv_def media_init_def h264.fresh_inv)

lemma media_resync_inv [simp]: "media_inv m \<Longrightarrow> media_inv (media_resync m e)"
  by (simp add: media_inv_def media_resync_def h264.reset_inv)

lemma media_resync_simps [simp]:
  "md_ring (media_resync m e) = md_ring m" "md_synced (media_resync m e) = False"
  by (simp_all add: media_resync_def)

lemma media_sync_cases:
  assumes "media_inv m" "media_sync m now = (r, m')"
  shows "media_inv m' \<and> md_ring m' = md_ring m
    \<and> (\<forall>au. r = Some au \<longrightarrow> au_ts au = now \<and> md_synced m' \<and> suffix (md_current_au m) (au_nals au))"
proof -
  obtain sps pps idr where s: "scan_nals (md_current_au m) (md_sps m) (md_pps m) False = (sps, pps, idr)"
    by (cases "scan_nals (md_current_au m) (md_sps m) (md_pps m) False")
  from scan_nals_keeps [OF s] s assms show ?thesis
    by (auto simp: media_sync_def build_access_unit_def media_inv_def Let_def suffix_def
        split: if_splits option.splits)
qed

text \<open>
  What one packet does: it is always handled, and either leaves the ring as it is or keeps one
  access unit stamped with the time of arrival.
\<close>

lemma media_on_rtp_cases:
  assumes "media_inv m"
  obtains (failed) m' where "media_on_rtp rs m data now = Ok (ParseFailed, m')" "media_inv m'"
      "md_ring m' = md_ring m"
    | (no_unit) m' where "media_on_rtp rs m data now = Ok (NoUnit, m')" "media_inv m'"
      "md_ring m' = md_ring m"
    | (kept) au m' where "media_on_rtp rs m data now = Ok (Kept au, m')" "media_inv m'" "md_synced m'"
      "au_ts au = now" "au_nals au \<noteq> []" "md_ring m' = prune_ring (md_ring m @ [au]) rs now"
proof (cases "RtpPacket_parse data")
  case (Err e)
  then show ?thesis using assms
    by (intro failed [of "media_resync m None"]) (simp_all add: media_on_rtp_def)
next
  case Panic
  then show ?thesis using parse_no_panic by simp
next
  case (Ok pkt)
  note parsed = Ok
  let ?seq = "rp_sequence_number pkt"
  let ?m = "m\<lparr>md_expected_seq := Some (?seq + 1)\<rparr>"
  show ?thesis
  proof (cases "md_expected_seq m \<noteq> None \<and> md_expected_seq m \<noteq> Some ?seq")
    case True
    show ?thesis
      by (rule no_unit [of "media_resync m (Some (?seq + 1))"])
         (use True parsed assms in \<open>simp_all add: media_on_rtp_def Let_def\<close>)
  next
    case False
    have "dep_inv (md_dep m)" using assms by (simp add: media_inv_def)
    note push = h264.push_cases [OF this, of "rp_payload pkt"]
    show ?thesis
    proof (cases rule: push)
      case p: (2 e d)
      show ?thesis
        by (rule failed [of "media_resync (?m\<lparr>md_dep := d\<rparr>) None"])
           (use p False parsed assms in \<open>auto simp: media_on_rtp_def Let_def media_inv_def
             media_resync_def h264.reset_inv\<close>)
    next
      case p: (1 ns d)
      define m1 where "m1 = ?m\<lparr>md_dep := d, md_current_au := md_current_au m @ ns\<rparr>"
      have m1: "media_inv m1" "md_ring m1 = md_ring m" using assms p by (simp_all add: media_inv_def m1_def)
      have eq: "media_on_rtp rs m data now =
          (if \<not> rp_marker pkt \<or> md_current_au m1 = [] then Ok (NoUnit, m1)
           else case media_sync m1 now of (None, m) \<Rightarrow> Ok (NoUnit, m)
             | (Some au, m) \<Rightarrow> Ok (Kept au, m\<lparr>md_ring := prune_ring (md_ring m @ [au]) rs now\<rparr>))"
        by (cases "md_expected_seq m")
           (use False parsed p in \<open>simp_all add: media_on_rtp_def Let_def m1_def\<close>)
      obtain r m2 where s: "media_sync m1 now = (r, m2)" by (cases "media_sync m1 now")
      note s' = media_sync_cases [OF m1(1) s]
      show ?thesis
      proof (cases "\<not> rp_marker pkt \<or> md_current_au m1 = []")
        case True
        show ?thesis by (rule no_unit [of m1]) (use True eq m1 in simp_all)
      next
        case c: False
        show ?thesis
        proof (cases r)
          case None
          show ?thesis by (rule no_unit [of m2]) (use None eq c s s' m1 in auto)
        next
          case (Some au)
          with s' have "suffix (md_current_au m1) (au_nals au)" by simp
          with c have "au_nals au \<noteq> []" by auto
          then show ?thesis
            by (intro kept [of au "m2\<lparr>md_ring := prune_ring (md_ring m2 @ [au]) rs now\<rparr>"])
               (use Some eq c s s' m1 in \<open>auto simp: media_inv_def\<close>)
        qed
      qed
    qed
  qed
qed

section \<open>The clip\<close>

text \<open>
  A clip in progress: its writer is usable and its two names have the suffixes that keep them
  apart from the sidecar and the health file.
\<close>

definition clip_good :: "ClipState \<Rightarrow> world \<Rightarrow> bytes \<Rightarrow> bool" where
  "clip_good cs w d \<longleftrightarrow>
     clip_so_far (cs_writer cs) w d \<and> bw_cap (cw_writer (cs_writer cs)) > 0
     \<and> suffix ''.part'' (cw_part_path (cs_writer cs)) \<and> suffix ''.h264'' (cw_final_path (cs_writer cs))"

definition clip_id :: "ClipState \<Rightarrow> string \<times> string \<times> datetime \<times> instant \<times> instant option" where
  "clip_id cs = (cw_final_path (cs_writer cs), cs_rule cs, cs_started_at cs, cs_stop_at cs,
     cs_hard_stop_at cs)"

lemma clip_good_time [simp]: "clip_good cs (set_time t u w) d = clip_good cs w d"
  by (simp add: clip_good_def clip_so_far_def)

lemma cw_post_good:
  assumes "clip_good cs w d" "cw_post (cs_writer cs) e w True cw' w'"
  shows "clip_good (cs\<lparr>cs_writer := cw'\<rparr>) w' (d @ e) \<and> clip_id (cs\<lparr>cs_writer := cw'\<rparr>) = clip_id cs"
  using assms by (auto simp: clip_good_def cw_post_def clip_id_def)

lemma cw_post_clock:
  "cw_post cw e w ok cw' w' \<Longrightarrow> w_now w' = w_now w \<and> w_utc w' = w_utc w \<and> (w_faults w = [] \<longrightarrow> w_faults w' = [] \<and> ok)"
  by (auto simp: cw_post_def only_touches_def)

lemma write_with_retry_clean:
  assumes "clip_good cs w d" "w_faults w = []"
  shows "ensures (write_active_clip_nal_with_retry cs nal settings) w (\<lambda>r w'.
    \<exists>cs'. r = (True, cs') \<and> clip_good cs' w' (d @ nal) \<and> clip_id cs' = clip_id cs
      \<and> w_faults w' = [] \<and> w_now w' = w_now w)"
proof -
  obtain ok cw' w' where w: "write_nal (cs_writer cs) nal w = (Ok (ok, cw'), w')"
    "cw_post (cs_writer cs) nal w ok cw' w'"
    using write_nal_spec [of "cs_writer cs" nal w] assms(1) by (auto simp: clip_good_def)
  with cw_post_clock [OF w(2)] assms(2) have ok: "ok" "w_faults w' = []" "w_now w' = w_now w" by simp_all
  obtain k where k: "saturating_add (ws_retry_count settings) (Suc 0) = Suc k"
    by (cases "saturating_add (ws_retry_count settings) (Suc 0)") (simp_all add: saturating_add_def u64_max_def)
  have "write_active_clip_nal_with_retry cs nal settings w = (Ok (True, cs\<lparr>cs_writer := cw'\<rparr>), w')"
    using w(1) ok(1) by (simp add: write_active_clip_nal_with_retry_def Let_def k bindIO_def)
  with cw_post_good [OF assms(1)] w(2) ok show ?thesis by (auto simp: ensures_def)
qed

lemma write_au_clean:
  "clip_good cs w d \<Longrightarrow> w_faults w = [] \<Longrightarrow>
   ensures (write_au settings cs nals) w (\<lambda>r w'. \<exists>cs'. r = Some cs'
     \<and> clip_good cs' w' (d @ concat nals) \<and> clip_id cs' = clip_id cs
     \<and> w_faults w' = [] \<and> w_now w' = w_now w)"
proof (induction nals arbitrary: cs w d)
  case Nil
  then show ?case by (auto simp: ensures_def)
next
  case (Cons nal nals)
  from write_with_retry_clean [OF Cons.prems, of nal settings] obtain cs1 w1 where
    1: "write_active_clip_nal_with_retry cs nal settings w = (Ok (True, cs1), w1)"
    "clip_good cs1 w1 (d @ nal)" "w_faults w1 = []" "w_now w1 = w_now w" "clip_id cs1 = clip_id cs"
    by (auto simp: ensures_def)
  from Cons.IH [OF 1(2,3)] 1 show ?case by (auto simp: ensures_def bindIO_def)
qed

text \<open>What of the snapshot goes into the clip: everything from its first IDR on.\<close>

fun preroll :: "bytes option \<Rightarrow> bytes option \<Rightarrow> AccessUnit list \<Rightarrow> bytes list" where
  "preroll sps pps [] = []"
| "preroll sps pps (au # aus) =
     (if au_has_idr au then
        (case (sps, pps) of (Some s, Some p) \<Rightarrow> [s, p] | _ \<Rightarrow> [])
        @ concat (map au_nals (au # aus))
      else preroll sps pps aus)"

lemma try_write_nals_clean:
  assumes "bw_cap (cw_writer cw) > 0" "w_faults w = []"
  shows "ensures (try_write_nals cw nals) w (\<lambda>cw' w'. cw_post cw (concat nals) w True cw' w')"
proof -
  obtain ok cw' w' where "write_nals cw nals w = (Ok (ok, cw'), w')"
    "ok \<longrightarrow> cw_post cw (concat nals) w ok cw' w'" "w_faults w = [] \<longrightarrow> ok"
    using write_nals_spec [OF assms(1), of nals w] by blast
  with assms(2) show ?thesis by (simp add: ensures_def try_write_nals_def bindIO_def)
qed

lemma write_snapshot_found:
  assumes "bw_cap (cw_writer cw) > 0" "w_faults w = []"
  shows "ensures (write_snapshot sps pps aus True any cw) w (\<lambda>(any', cw') w'.
    cw_post cw (concat (concat (map au_nals aus))) w True cw' w'
    \<and> any' = (any \<or> (\<exists>au \<in> set aus. au_nals au \<noteq> [])))"
  using assms
proof (induction aus arbitrary: cw w any)
  case Nil
  then show ?case by (auto simp: ensures_def cw_post_def)
next
  case (Cons au aus)
  from try_write_nals_clean [OF Cons.prems, of "au_nals au"] obtain cw1 w1 where
    1: "try_write_nals cw (au_nals au) w = (Ok cw1, w1)" "cw_post cw (concat (au_nals au)) w True cw1 w1"
    by (auto simp: ensures_def)
  then have "bw_cap (cw_writer cw1) > 0" "w_faults w1 = []"
    using Cons.prems by (auto simp: cw_post_def only_touches_def)
  from Cons.IH [OF this, of "any \<or> au_nals au \<noteq> []"] obtain any' cw2 w2 where
    2: "write_snapshot sps pps aus True (any \<or> au_nals au \<noteq> []) cw1 w1 = (Ok (any', cw2), w2)"
    "cw_post cw1 (concat (concat (map au_nals aus))) w1 True cw2 w2"
    "any' = ((any \<or> au_nals au \<noteq> []) \<or> (\<exists>au \<in> set aus. au_nals au \<noteq> []))"
    by (auto simp: ensures_def)
  from 1 2 cw_post_trans [OF 1(2) 2(2)] show ?case by (auto simp: ensures_def bindIO_def)
qed

lemma write_snapshot_clean:
  assumes "bw_cap (cw_writer cw) > 0" "w_faults w = []"
  shows "ensures (write_snapshot sps pps aus False False cw) w (\<lambda>(any', cw') w'.
    cw_post cw (concat (preroll sps pps aus)) w True cw' w')"
  using assms
proof (induction aus)
  case Nil
  then show ?case by (auto simp: ensures_def cw_post_def)
next
  case (Cons au aus)
  show ?case
  proof (cases "au_has_idr au")
    case False
    with Cons show ?thesis by simp
  next
    case True
    let ?ps = "case (sps, pps) of (Some s, Some p) \<Rightarrow> [s, p] | _ \<Rightarrow> []"
    have ps: "(case (sps, pps) of (Some s, Some p) \<Rightarrow> try_write_nals cw [s, p] | _ \<Rightarrow> returnIO cw) w
        = try_write_nals cw ?ps w"
      by (auto simp: try_write_nals_def bindIO_def split: option.splits)
    from try_write_nals_clean [OF Cons.prems, of ?ps] obtain cw1 w1 where
      1: "try_write_nals cw ?ps w = (Ok cw1, w1)" "cw_post cw (concat ?ps) w True cw1 w1"
      by (auto simp: ensures_def)
    then have "bw_cap (cw_writer cw1) > 0" "w_faults w1 = []"
      using Cons.prems by (auto simp: cw_post_def only_touches_def)
    from write_snapshot_found [OF this, of sps pps "au # aus" False] obtain any' cw2 w2 where
      2: "write_snapshot sps pps (au # aus) True False cw1 w1 = (Ok (any', cw2), w2)"
      "cw_post cw1 (concat (concat (map au_nals (au # aus)))) w1 True cw2 w2"
      by (auto simp: ensures_def)
    have "write_snapshot sps pps (au # aus) False False cw w
        = bindIO (try_write_nals cw ?ps) (write_snapshot sps pps (au # aus) True False) w"
      using True ps by (simp add: bindIO_def split: prod.splits rust.splits)
    with 1 2 cw_post_trans [OF 1(2) 2(2)] True show ?thesis
      by (auto simp: ensures_def bindIO_def)
  qed
qed

lemma try_start_clip_clean:
  assumes "w_faults w = []" "sps \<noteq> None" "pps \<noteq> None"
  shows "ensures (try_start_clip env cfg rule snapshot sps pps) w (\<lambda>r w'. \<exists>cs. r = Some cs
    \<and> clip_good cs w' (concat (preroll sps pps (unwrap_or snapshot []))) \<and> w_faults w' = []
    \<and> w_now w' = w_now w \<and> clip_id cs = (clip_path env cfg (w_utc w) rule, rule, w_utc w,
        w_now w + from_secs (st_post_secs cfg),
        map_option (\<lambda>secs. w_now w + from_secs secs) (st_max_clip_secs cfg)))"
proof -
  let ?part = "join_path (st_clip_dir cfg) (clip_name env cfg (w_utc w) rule @ ''.h264.part'')"
  let ?final = "clip_path env cfg (w_utc w) rule"
  have ne: "?part \<noteq> ?final" by (simp add: join_path_def clip_path_def)
  obtain cw w1 where c: "ClipWriter_create ?part ?final (256 * 1024) w = (Ok cw, w1)"
    "cw_part_path cw = ?part" "cw_final_path cw = ?final" "bw_cap (cw_writer cw) = 262144"
    "clip_so_far cw w1 []" "only_touches ?part w w1"
    using create_spec [of ?part ?final "256 * 1024" w] assms(1) ne by auto
  have f1: "w_faults w1 = []" "w_now w1 = w_now w" "w_utc w1 = w_utc w"
    using c(6) assms(1) by (auto simp: only_touches_def)
  let ?fill = "case snapshot of Some s \<Rightarrow> write_snapshot sps pps s False False cw
    | None \<Rightarrow> returnIO (False, cw)"
  have "ensures ?fill w1 (\<lambda>(any', cw') w'.
      cw_post cw (concat (preroll sps pps (unwrap_or snapshot []))) w1 True cw' w')"
    using write_snapshot_clean [of cw w1 sps pps] c(4) f1(1)
    by (cases snapshot) (simp_all add: ensures_def cw_post_def unwrap_or_def)
  then obtain any' cw2 w2 where 2: "?fill w1 = (Ok (any', cw2), w2)"
    "cw_post cw (concat (preroll sps pps (unwrap_or snapshot []))) w1 True cw2 w2"
    by (auto simp: ensures_def)
  have f2: "w_faults w2 = []" "w_now w2 = w_now w" "w_utc w2 = w_utc w"
    using cw_post_clock [OF 2(2)] f1 by simp_all
  have "clip_so_far cw2 w2 (concat (preroll sps pps (unwrap_or snapshot [])))"
    "bw_cap (cw_writer cw2) > 0" "cw_part_path cw2 = ?part" "cw_final_path cw2 = ?final"
    using 2(2) c by (auto simp: cw_post_def)
  note names = this
  then have "clip_good (cs\<lparr>cs_writer := cw2\<rparr>) w2 (concat (preroll sps pps (unwrap_or snapshot [])))" for cs
    by (auto simp: clip_good_def clip_path_def join_path_def suffix_def)
  from this [of "\<lparr>cs_writer = cw2, cs_started_at = w_utc w, cs_rule = rule,
      cs_stop_at = w_now w + from_secs (st_post_secs cfg),
      cs_hard_stop_at = map_option (\<lambda>secs. w_now w + from_secs secs) (st_max_clip_secs cfg)\<rparr>"]
  show ?thesis using c(1) 2(1) f2 assms(2,3) names
    by (auto simp: ensures_def try_start_clip_def bindIO_def Let_def clip_id_def clip_path_def clip_name_def)
qed

lemma fs_write_clean: "w_faults w = [] \<Longrightarrow> fs_write p d w = (Ok (), put_file p d w)"
  by (simp add: fs_write_def)

lemma with_extension_suffix: "suffix ext (with_extension path ext)"
  by (auto simp: with_extension_def suffix_def split: option.splits)

lemma suffix_last: "suffix s p \<Longrightarrow> s \<noteq> [] \<Longrightarrow> last p = last s"
  by (auto simp: suffix_def)

lemma finalize_clip_clean:
  assumes "clip_good cs w d" "w_faults w = []"
  shows "ensures (finalize_clip env sid (Some cs)) w (\<lambda>_ w'. w_faults w' = [] \<and> w_now w' = w_now w
    \<and> file_data (cw_final_path (cs_writer cs)) w' = Some d
    \<and> file_data (cw_part_path (cs_writer cs)) w' = None)"
proof -
  let ?final = "cw_final_path (cs_writer cs)" and ?part = "cw_part_path (cs_writer cs)"
  let ?json = "with_extension ?final ''json''"
  have g: "bw_cap (cw_writer (cs_writer cs)) > 0" "clip_so_far (cs_writer cs) w d"
    "suffix ''.part'' ?part" "suffix ''.h264'' ?final"
    using assms(1) by (simp_all add: clip_good_def)
  then obtain w1 where 1: "ClipWriter_finalize (cs_writer cs) w = (Ok ?final, w1)"
    "file_data ?final w1 = Some d" "file_data ?part w1 = None"
    using finalize_spec [OF g(1,2)] assms(2) by auto
  have "benign (ClipWriter_finalize (cs_writer cs))" by (intro benign_intros)
  then have f1: "w_faults w1 = []" "w_now w1 = w_now w" "w_utc w1 = w_utc w"
    using 1(1) assms(2) unfolding benign_def by (metis snd_conv)+
  have "last ?json = CHR ''n''" "last ?final = CHR ''4''" "last ?part = CHR ''t''"
    using suffix_last [OF with_extension_suffix [of "''json''" ?final]] suffix_last [OF g(3)]
      suffix_last [OF g(4)] by simp_all
  then have "?json \<noteq> ?final" "?json \<noteq> ?part" by force+
  with 1 f1 show ?thesis
    by (simp add: ensures_def finalize_clip_def bindIO_def fs_write_clean)
qed

section \<open>The health file\<close>

lemma health_file_last: "last (health_file cfg) = CHR ''n''"
  by (simp add: health_file_def join_path_def)

lemma write_stream_health_effect:
  "\<exists>r w'. write_stream_health env cfg s active pending w = (r, w')
     \<and> (r = Ok () \<or> r = Err IoFailed)
     \<and> (w_faults w = [] \<longrightarrow> r = Ok () \<and> w_faults w' = []) \<and> w_now w' = w_now w
     \<and> (\<forall>q. q \<noteq> health_file cfg \<and> q \<noteq> health_file cfg @ ''.tmp'' \<longrightarrow> file_data q w' = file_data q w)
     \<and> file_data (health_file cfg) w' =
         (if r = Ok () then Some (pe_health env (health_snapshot env cfg s active pending (w_utc w)))
          else file_data (health_file cfg) w)"
proof -
  let ?d = "pe_health env (health_snapshot env cfg s active pending (w_utc w))"
  let ?tmp = "health_file cfg @ ''.tmp''"
  have ne: "?tmp \<noteq> health_file cfg" by simp
  obtain f w1 where f: "next_fault w = (Ok f, w1)" "w_faults w = [] \<longrightarrow> f = None \<and> w_faults w1 = []"
    "w_now w1 = w_now w" "w_utc w1 = w_utc w" "\<And>q. file_data q w1 = file_data q w"
    by (cases "w_faults w") (auto simp: next_fault_def file_data_def)
  have eq: "write_stream_health env cfg s active pending w =
      (case f of Some n \<Rightarrow> (Err IoFailed, put_file ?tmp (take n ?d) w1)
       | None \<Rightarrow> fs_rename ?tmp (health_file cfg) (put_file ?tmp ?d w1))"
    using f(1) by (auto simp: write_stream_health_def fs_write_def bindIO_def split: option.splits)
  show ?thesis
  proof (cases f)
    case (Some n)
    with eq f ne show ?thesis by auto
  next
    case None
    let ?w2 = "put_file ?tmp ?d w1"
    have b: "benign (fs_rename ?tmp (health_file cfg))" by (intro benign_intros)
    have "file_data ?tmp ?w2 = Some ?d" by simp
    note r = fs_rename_spec [OF this ne]
    show ?thesis
    proof (cases rule: r)
      case m: (1 w3)
      have "w_now w3 = w_now w" "w_faults w = [] \<longrightarrow> w_faults w3 = []"
        using b m(1) f unfolding benign_def by (metis put_file_simps(1,3) snd_conv)+
      moreover have "\<forall>q. q \<noteq> health_file cfg \<and> q \<noteq> ?tmp \<longrightarrow> file_data q w3 = file_data q w"
        using m(4) f(5) by simp
      ultimately show ?thesis using eq None m(1,2) by simp
    next
      case m: (2 e w3)
      have "w_now w3 = w_now w" using b m(1) f unfolding benign_def by (metis put_file_simps(3) snd_conv)
      moreover have "e = IoFailed"
        using m(1) by (auto simp: fs_rename_def bindIO_def next_fault_def put_file_def AList.update_conv'
            split: list.splits option.splits)
      ultimately show ?thesis using eq None m f ne by auto
    qed
  qed
qed

lemma maybe_write_health_clean:
  assumes "w_faults w = []"
  shows "ensures (maybe_write_stream_health env cfg s active pending) w (\<lambda>s' w'.
    w_faults w' = [] \<and> w_now w' = w_now w
    \<and> (\<forall>q. last q \<in> {CHR ''4'', CHR ''t''} \<longrightarrow> file_data q w' = file_data q w))"
proof -
  have "q \<noteq> health_file cfg \<and> q \<noteq> health_file cfg @ ''.tmp''" if "last q \<in> {CHR ''4'', CHR ''t''}" for q
    using that health_file_last [of cfg] by auto
  with write_stream_health_effect [of env cfg s active pending w] assms show ?thesis
    by (auto simp: maybe_write_stream_health_def ensures_def bindIO_def)
qed

section \<open>One step of the pipeline without faults\<close>

text \<open>The media path as a function of the events alone: the units it keeps and its state.\<close>

fun media_step :: "u64 \<Rightarrow> media \<Rightarrow> instant \<Rightarrow> pipe_event \<Rightarrow> AccessUnit list \<times> media" where
  "media_step rs m now (PipeMsg (RtpMsg data)) =
     (case media_on_rtp rs m data now of
        Ok (Kept au, m') \<Rightarrow> ([au], m')
      | Ok (_, m') \<Rightarrow> ([], m')
      | _ \<Rightarrow> ([], m))"
| "media_step rs m now (PipeMsg (GapMsg a b)) = ([], media_resync m None)"
| "media_step rs m now (PipeMsg (MotionMsg rule active ts)) = ([], m)"
| "media_step rs m now PipeTick = ([], m)"

fun media_run :: "u64 \<Rightarrow> media \<Rightarrow> (instant \<times> datetime \<times> pipe_event) list \<Rightarrow> AccessUnit list \<times> media" where
  "media_run rs m [] = ([], m)"
| "media_run rs m ((t, u, ev) # evs) =
     (let (aus, m) = media_step rs m t ev; (aus', m) = media_run rs m evs in (aus @ aus', m))"

lemma media_step_inv [simp]: "media_inv m \<Longrightarrow> media_inv (snd (media_step rs m now ev))"
proof (induction rs m now ev rule: media_step.induct)
  case (1 rs m now data)
  show ?case by (cases rule: media_on_rtp_cases [OF 1, of rs data now]) simp_all
qed simp_all

definition pipe_inv :: "pipe \<Rightarrow> world \<Rightarrow> bool" where
  "pipe_inv p w \<longleftrightarrow> media_inv (pl_media p) \<and> (\<forall>cs. pl_clip p = Some cs \<longrightarrow> (\<exists>d. clip_good cs w d))"

lemma pipe_start_clip_clean:
  assumes "w_faults w = []" "media_inv (pl_media p)" "md_synced (pl_media p)" "pl_clip p = None"
    "pl_clip_pending p"
  shows "ensures (pipe_start_clip env cfg p) w (\<lambda>p' w'. w_faults w' = [] \<and> w_now w' = w_now w
    \<and> pl_media p' = pl_media p \<and> (\<exists>cs. pl_clip p' = Some cs
    \<and> clip_good cs w' (concat (preroll (md_sps (pl_media p)) (md_pps (pl_media p))
        (unwrap_or (pl_pending_ring_snapshot p) [])))
    \<and> clip_id cs = (clip_path env cfg (w_utc w) (pl_pending_rule p), pl_pending_rule p, w_utc w,
        w_now w + from_secs (st_post_secs cfg),
        map_option (\<lambda>secs. w_now w + from_secs secs) (st_max_clip_secs cfg))))"
proof -
  have "md_sps (pl_media p) \<noteq> None" "md_pps (pl_media p) \<noteq> None"
    using assms(2,3) by (simp_all add: media_inv_def)
  from try_start_clip_clean [OF assms(1) this, of env cfg "pl_pending_rule p" "pl_pending_ring_snapshot p"]
  show ?thesis using assms(4,5) by (auto simp: ensures_def pipe_start_clip_def bindIO_def)
qed

lemma pipe_feed_clip_clean:
  assumes "w_faults w = []" "pl_clip p = Some cs" "clip_good cs w d" "md_ring (pl_media p) = ring @ [au]"
  shows "ensures (pipe_feed_clip cfg p) w (\<lambda>p' w'. w_faults w' = [] \<and> w_now w' = w_now w
    \<and> pl_media p' = pl_media p \<and> (\<exists>cs'. pl_clip p' = Some cs'
    \<and> clip_good cs' w' (d @ concat (au_nals au)) \<and> clip_id cs' = clip_id cs))"
  using write_au_clean [OF assms(3,1), of "clip_write_settings cfg" "au_nals au"] assms(2,4)
  by (auto simp: pipe_feed_clip_def ensures_def bindIO_def)

lemma note_simps [simp]:
  "pl_media (note_rtp p now utc) = pl_media p" "pl_clip (note_rtp p now utc) = pl_clip p"
  "pl_clip_pending (note_rtp p now utc) = pl_clip_pending p"
  "pl_pending_rule (note_rtp p now utc) = pl_pending_rule p"
  "pl_pending_ring_snapshot (note_rtp p now utc) = pl_pending_ring_snapshot p"
  "pl_media (note_access_unit p utc au) = pl_media p" "pl_clip (note_access_unit p utc au) = pl_clip p"
  "pl_clip_pending (note_access_unit p utc au) = pl_clip_pending p"
  "pl_pending_rule (note_access_unit p utc au) = pl_pending_rule p"
  "pl_pending_ring_snapshot (note_access_unit p utc au) = pl_pending_ring_snapshot p"
  by (simp_all add: note_rtp_def note_access_unit_def Let_def)

lemma pipe_on_rtp_eq:
  "pipe_on_rtp env cfg p data w =
     (case media_on_rtp (st_ring_secs cfg) (pl_media p) data (w_now w) of
        Ok (r, m) \<Rightarrow>
          let p = (note_rtp p (w_now w) (w_utc w))\<lparr>pl_media := m\<rparr> in
          (case r of
             ParseFailed \<Rightarrow> (Ok (p\<lparr>pl_stats := mark_stream_error (pl_stats p) (w_utc w)\<rparr>), w)
           | NoUnit \<Rightarrow> (Ok p, w)
           | Kept au \<Rightarrow>
               bindIO (pipe_start_clip env cfg (note_access_unit p (w_utc w) au)) (pipe_feed_clip cfg) w)
      | _ \<Rightarrow> (Panic, w))"
  by (simp add: pipe_on_rtp_def Let_def split: rust.splits media_result.splits)

lemma pipe_on_rtp_no_unit:
  assumes "media_inv (pl_media p)"
    and "fst (media_step (st_ring_secs cfg) (pl_media p) (w_now w) (PipeMsg (RtpMsg data))) = []"
  shows "ensures (pipe_on_rtp env cfg p data) w (\<lambda>p' w'. w' = w \<and> pl_clip p' = pl_clip p
    \<and> pl_clip_pending p' = pl_clip_pending p \<and> pl_pending_rule p' = pl_pending_rule p
    \<and> pl_pending_ring_snapshot p' = pl_pending_ring_snapshot p
    \<and> pl_media p' = snd (media_step (st_ring_secs cfg) (pl_media p) (w_now w) (PipeMsg (RtpMsg data))))"
  using assms(2)
  by (cases rule: media_on_rtp_cases [OF assms(1), of "st_ring_secs cfg" data "w_now w"])
     (auto simp: ensures_def pipe_on_rtp_eq Let_def)

text \<open>A kept unit starts the clip a motion is waiting for, with the preroll, and goes into it.\<close>

lemma pipe_on_rtp_kept:
  assumes "media_inv (pl_media p)" "w_faults w = []"
    and kept: "media_step (st_ring_secs cfg) (pl_media p) (w_now w) (PipeMsg (RtpMsg data)) = ([au], m)"
    and clip: "\<forall>cs. pl_clip p = Some cs \<longrightarrow> clip_good cs w d"
  shows "ensures (pipe_on_rtp env cfg p data) w (\<lambda>p' w'. w_faults w' = [] \<and> pl_media p' = m
    \<and> (case pl_clip p of
         Some cs \<Rightarrow> \<exists>cs'. pl_clip p' = Some cs' \<and> clip_good cs' w' (d @ concat (au_nals au))
           \<and> clip_id cs' = clip_id cs
       | None \<Rightarrow>
           if pl_clip_pending p then \<exists>cs'. pl_clip p' = Some cs'
             \<and> clip_good cs' w' (concat (preroll (md_sps m) (md_pps m)
                 (unwrap_or (pl_pending_ring_snapshot p) []) @ au_nals au))
             \<and> clip_id cs' = (clip_path env cfg (w_utc w) (pl_pending_rule p), pl_pending_rule p,
                 w_utc w, w_now w + from_secs (st_post_secs cfg),
                 map_option (\<lambda>secs. w_now w + from_secs secs) (st_max_clip_secs cfg))
           else pl_clip p' = None))"
proof -
  obtain ring where r: "media_on_rtp (st_ring_secs cfg) (pl_media p) data (w_now w) = Ok (Kept au, m)"
    "media_inv m" "md_synced m" "md_ring m = ring @ [au]"
    using kept
    by (cases rule: media_on_rtp_cases [OF assms(1), of "st_ring_secs cfg" data "w_now w"])
       (auto, metis prune_ring_last)
  define p1 where "p1 = note_access_unit ((note_rtp p (w_now w) (w_utc w))\<lparr>pl_media := m\<rparr>) (w_utc w) au"
  have p1: "pl_media p1 = m" "pl_clip p1 = pl_clip p" "pl_clip_pending p1 = pl_clip_pending p"
    "pl_pending_rule p1 = pl_pending_rule p" "pl_pending_ring_snapshot p1 = pl_pending_ring_snapshot p"
    by (simp_all add: p1_def)
  have run: "pipe_on_rtp env cfg p data w = bindIO (pipe_start_clip env cfg p1) (pipe_feed_clip cfg) w"
    using r(1) by (simp add: pipe_on_rtp_eq Let_def p1_def)
  show ?thesis
  proof (cases "pl_clip p")
    case (Some cs)
    then have "pipe_start_clip env cfg p1 w = (Ok p1, w)" using p1 by (simp add: pipe_start_clip_def)
    with run pipe_feed_clip_clean [of w p1 cs d ring au cfg] assms(2) clip Some p1 r(4)
    show ?thesis by (auto simp: ensures_def bindIO_def)
  next
    case None
    show ?thesis
    proof (cases "pl_clip_pending p")
      case False
      with None p1 run show ?thesis
        using assms(2) by (simp add: ensures_def bindIO_def pipe_start_clip_def pipe_feed_clip_def)
    next
      case True
      from pipe_start_clip_clean [of w p1 env cfg] None True p1 r assms(2) obtain p2 w2 cs where
        2: "pipe_start_clip env cfg p1 w = (Ok p2, w2)" "w_faults w2 = []" "pl_media p2 = m"
        "pl_clip p2 = Some cs" "clip_good cs w2 (concat (preroll (md_sps m) (md_pps m)
          (unwrap_or (pl_pending_ring_snapshot p) [])))"
        "clip_id cs = (clip_path env cfg (w_utc w) (pl_pending_rule p), pl_pending_rule p,
          w_utc w, w_now w + from_secs (st_post_secs cfg),
          map_option (\<lambda>secs. w_now w + from_secs secs) (st_max_clip_secs cfg))"
        by (auto simp: ensures_def)
      from pipe_feed_clip_clean [OF 2(2,4,5), of ring au cfg] 2 r(4) None True run show ?thesis
        by (auto simp: ensures_def bindIO_def)
    qed
  qed
qed

lemma media_step_cases:
  assumes "media_inv m"
  obtains (none) "fst (media_step rs m now ev) = []"
    | (one) data au m' where "ev = PipeMsg (RtpMsg data)" "media_step rs m now ev = ([au], m')"
proof (cases "fst (media_step rs m now ev) = []")
  case False
  then obtain data where ev: "ev = PipeMsg (RtpMsg data)"
    by (cases "(rs, m, now, ev)" rule: media_step.cases) auto
  show ?thesis
    by (cases rule: media_on_rtp_cases [OF assms, of rs data now]) (use False ev one in auto)
qed (rule none)

lemma clip_good_cong:
  assumes "clip_good cs w d" "\<forall>q. last q \<in> {CHR ''4'', CHR ''t''} \<longrightarrow> file_data q w' = file_data q w"
  shows "clip_good cs w' d"
proof -
  have "last (cw_part_path (cs_writer cs)) = CHR ''t''"
    using assms(1) suffix_last [of "''.part''"] by (simp add: clip_good_def)
  with assms show ?thesis by (simp add: clip_good_def clip_so_far_def)
qed

text \<open>A tick: the clip is finalized when it is due, and otherwise left alone.\<close>

lemma pipe_check_deadline_clean:
  assumes "w_faults w = []" "\<forall>cs. pl_clip p = Some cs \<longrightarrow> clip_good cs w d"
  shows "ensures (pipe_check_deadline env cfg p) w (\<lambda>p' w'. w_faults w' = [] \<and> w_now w' = w_now w
    \<and> (case pl_clip p of
         Some cs \<Rightarrow>
           if should_finalize_clip (w_now w) (cs_stop_at cs) (cs_hard_stop_at cs)
           then p' = p\<lparr>pl_clip := None\<rparr> \<and> file_data (cw_final_path (cs_writer cs)) w' = Some d
           else p' = p \<and> w' = w
       | None \<Rightarrow> p' = p \<and> w' = w))"
proof (cases "pl_clip p")
  case None
  with assms show ?thesis by (simp add: ensures_def pipe_check_deadline_def)
next
  case (Some cs)
  with assms finalize_clip_clean [of cs w d env "st_stream_id cfg"] show ?thesis
    by (auto simp: ensures_def pipe_check_deadline_def bindIO_def)
qed

lemma pipe_on_tick_clean:
  assumes "w_faults w = []" "\<forall>cs. pl_clip p = Some cs \<longrightarrow> clip_good cs w d"
  shows "ensures (pipe_on_tick env cfg p) w (\<lambda>p' w'. w_faults w' = [] \<and> pl_media p' = pl_media p
    \<and> pl_clip_pending p' = pl_clip_pending p \<and> pl_pending_rule p' = pl_pending_rule p
    \<and> pl_pending_ring_snapshot p' = pl_pending_ring_snapshot p
    \<and> (case pl_clip p of
         Some cs \<Rightarrow>
           if should_finalize_clip (w_now w) (cs_stop_at cs) (cs_hard_stop_at cs)
           then pl_clip p' = None \<and> file_data (cw_final_path (cs_writer cs)) w' = Some d
           else pl_clip p' = Some cs \<and> clip_good cs w' d
       | None \<Rightarrow> pl_clip p' = None))"
proof -
  from pipe_check_deadline_clean [OF assms, of env cfg] obtain p1 w1 where
    1: "pipe_check_deadline env cfg p w = (Ok p1, w1)" "w_faults w1 = []"
    "case pl_clip p of
         Some cs \<Rightarrow>
           if should_finalize_clip (w_now w) (cs_stop_at cs) (cs_hard_stop_at cs)
           then p1 = p\<lparr>pl_clip := None\<rparr> \<and> file_data (cw_final_path (cs_writer cs)) w1 = Some d
           else p1 = p \<and> w1 = w
       | None \<Rightarrow> p1 = p \<and> w1 = w"
    by (auto simp: ensures_def)
  define s1 where "s1 = maybe_log_stream_stats cfg (pl_stats p1) (w_now w1)"
  from maybe_write_health_clean [OF 1(2), of env cfg s1 "pl_clip p1 \<noteq> None" "pl_clip_pending p1"]
  obtain s2 w2 where 2: "maybe_write_stream_health env cfg s1 (pl_clip p1 \<noteq> None) (pl_clip_pending p1) w1
      = (Ok s2, w2)" "w_faults w2 = []"
    "\<forall>q. last q \<in> {CHR ''4'', CHR ''t''} \<longrightarrow> file_data q w2 = file_data q w1"
    by (auto simp: ensures_def)
  have run: "\<exists>ep. pipe_on_tick env cfg p w = (Ok (p1\<lparr>pl_episode := ep, pl_stats := s2\<rparr>), w2)"
    using 1(1) 2(1) by (auto simp: pipe_on_tick_def bindIO_def Let_def s1_def)
  show ?thesis
  proof (cases "pl_clip p")
    case None
    with run 1 2 show ?thesis by (auto simp: ensures_def)
  next
    case (Some cs)
    then have good: "clip_good cs w d" using assms(2) by simp
    then have l: "last (cw_final_path (cs_writer cs)) = CHR ''4''"
      using suffix_last [of "''.h264''"] by (simp add: clip_good_def)
    show ?thesis
    proof (cases "should_finalize_clip (w_now w) (cs_stop_at cs) (cs_hard_stop_at cs)")
      case True
      with run 1 2 Some l show ?thesis by (auto simp: ensures_def)
    next
      case False
      with 1 2 Some have "clip_good cs w2 d" using clip_good_cong [OF good] by simp
      with False run 1 2 Some show ?thesis by (auto simp: ensures_def)
    qed
  qed
qed

text \<open>While a clip is active and not due, every event only extends it.\<close>

lemma pipe_step_active:
  assumes "media_inv (pl_media p)" "w_faults w = []" "pl_clip p = Some cs" "clip_good cs w d"
    and "ev = PipeTick \<longrightarrow> \<not> should_finalize_clip (w_now w) (cs_stop_at cs) (cs_hard_stop_at cs)"
    and m: "media_step (st_ring_secs cfg) (pl_media p) (w_now w) ev = (aus, m)"
  shows "ensures (pipe_step env cfg p ev) w (\<lambda>p' w'. w_faults w' = [] \<and> pl_media p' = m
    \<and> (\<exists>cs'. pl_clip p' = Some cs' \<and> clip_good cs' w' (d @ concat (concat (map au_nals aus)))
         \<and> clip_id cs' = clip_id cs))"
proof (cases ev)
  case PipeTick
  with pipe_on_tick_clean [of w p d env cfg] assms show ?thesis
    by (auto simp: pipe_step_def ensures_def)
next
  case (PipeMsg msg)
  show ?thesis
  proof (cases msg)
    case (GapMsg a b)
    with PipeMsg assms show ?thesis by (auto simp: pipe_step_def ensures_def pipe_on_gap_def)
  next
    case (MotionMsg rule active ts)
    with PipeMsg assms show ?thesis
      by (auto simp: pipe_step_def ensures_def pipe_on_motion_def Let_def)
  next
    case (RtpMsg data)
    with PipeMsg have ev: "ev = PipeMsg (RtpMsg data)" by simp
    show ?thesis
    proof (cases rule: media_step_cases [OF assms(1), of "st_ring_secs cfg" "w_now w" ev])
      case 1
      with pipe_on_rtp_no_unit [OF assms(1), of cfg w data env] ev m assms show ?thesis
        by (auto simp: pipe_step_def ensures_def simp del: media_step.simps)
    next
      case k: (2 data' au m')
      with ev m have e: "media_step (st_ring_secs cfg) (pl_media p) (w_now w) (PipeMsg (RtpMsg data)) = ([au], m)"
        "aus = [au]" by (simp_all del: media_step.simps)
      from pipe_on_rtp_kept [OF assms(1,2) e(1), of d env] assms(3,4) ev e(2) show ?thesis
        by (auto simp: pipe_step_def ensures_def simp del: media_step.simps)
    qed
  qed
qed

lemma pipe_loop_active:
  assumes "media_inv (pl_media p)" "w_faults w = []" "pl_clip p = Some cs" "clip_good cs w d"
    and "\<forall>(t, u, ev) \<in> set evs. ev = PipeTick \<longrightarrow> \<not> should_finalize_clip t (cs_stop_at cs) (cs_hard_stop_at cs)"
    and "media_run (st_ring_secs cfg) (pl_media p) evs = (aus, m)"
  shows "ensures (event_loop (pipe_step env cfg) p evs) w (\<lambda>p' w'. w_faults w' = [] \<and> pl_media p' = m
    \<and> (\<exists>cs'. pl_clip p' = Some cs' \<and> clip_good cs' w' (d @ concat (concat (map au_nals aus)))
         \<and> clip_id cs' = clip_id cs))"
  using assms
proof (induction evs arbitrary: p w cs d aus)
  case Nil
  then show ?case by auto
next
  case (Cons x evs)
  obtain t u ev where x: "x = (t, u, ev)" by (cases x)
  obtain aus1 m1 where 1: "media_step (st_ring_secs cfg) (pl_media p) t ev = (aus1, m1)"
    by (cases "media_step (st_ring_secs cfg) (pl_media p) t ev")
  obtain aus2 where 2: "media_run (st_ring_secs cfg) m1 evs = (aus2, m)" "aus = aus1 @ aus2"
    using Cons.prems(6) x 1 by (auto simp: Let_def split: prod.splits)
  have mi: "media_inv m1" using media_step_inv [OF Cons.prems(1), of "st_ring_secs cfg" t ev] 1 by simp
  have "ensures (pipe_step env cfg p ev) (set_time t u w) (\<lambda>p' w'. w_faults w' = [] \<and> pl_media p' = m1
    \<and> (\<exists>cs'. pl_clip p' = Some cs' \<and> clip_good cs' w' (d @ concat (concat (map au_nals aus1)))
         \<and> clip_id cs' = clip_id cs))"
    by (rule pipe_step_active) (use Cons.prems x 1 in auto)
  then obtain p1 w1 cs1 where s: "pipe_step env cfg p ev (set_time t u w) = (Ok p1, w1)" "w_faults w1 = []"
    "pl_media p1 = m1" "pl_clip p1 = Some cs1" "clip_good cs1 w1 (d @ concat (concat (map au_nals aus1)))"
    "clip_id cs1 = clip_id cs"
    by (auto simp: ensures_def)
  have "ensures (event_loop (pipe_step env cfg) p1 evs) w1 (\<lambda>p' w'. w_faults w' = [] \<and> pl_media p' = m
    \<and> (\<exists>cs'. pl_clip p' = Some cs'
         \<and> clip_good cs' w' ((d @ concat (concat (map au_nals aus1))) @ concat (concat (map au_nals aus2)))
         \<and> clip_id cs' = clip_id cs1))"
    by (rule Cons.IH) (use s mi 2 Cons.prems(5) in \<open>auto simp: clip_id_def\<close>)
  with x s 2 show ?case by (auto simp: ensures_def event_loop.simps bindIO_def)
qed

section \<open>The pipeline is reliable\<close>

lemma pipe_step_clean:
  assumes "pipe_inv p w" "w_faults w = []"
  shows "ensures (pipe_step env cfg p ev) w (\<lambda>p' w'. pipe_inv p' w' \<and> w_faults w' = []
    \<and> pl_media p' = snd (media_step (st_ring_secs cfg) (pl_media p) (w_now w) ev))"
proof -
  obtain aus m where m: "media_step (st_ring_secs cfg) (pl_media p) (w_now w) ev = (aus, m)"
    by (cases "media_step (st_ring_secs cfg) (pl_media p) (w_now w) ev")
  have inv: "media_inv (pl_media p)" using assms(1) by (simp add: pipe_inv_def)
  have mi: "media_inv m" using media_step_inv [OF inv, of "st_ring_secs cfg" "w_now w" ev] m by simp
  show ?thesis
  proof (cases "pl_clip p")
    case (Some cs)
    then obtain d where d: "clip_good cs w d" using assms(1) by (auto simp: pipe_inv_def)
    show ?thesis
    proof (cases "ev = PipeTick \<and> should_finalize_clip (w_now w) (cs_stop_at cs) (cs_hard_stop_at cs)")
      case False
      then have "ev = PipeTick \<longrightarrow> \<not> should_finalize_clip (w_now w) (cs_stop_at cs) (cs_hard_stop_at cs)"
        by simp
      from pipe_step_active [OF inv assms(2) Some d this m, of env] m mi show ?thesis
        by (auto simp: ensures_def pipe_inv_def)
    next
      case True
      with pipe_on_tick_clean [of w p d env cfg] Some d assms(2) inv show ?thesis
        by (auto simp: pipe_step_def ensures_def pipe_inv_def)
    qed
  next
    case None
    show ?thesis
    proof (cases rule: media_step_cases [OF inv, of "st_ring_secs cfg" "w_now w" ev])
      case k: (2 data au m')
      from pipe_on_rtp_kept [OF inv assms(2) k(2) [unfolded k(1)], of "[]" env] None k m mi show ?thesis
        by (auto simp: pipe_step_def ensures_def pipe_inv_def simp del: media_step.simps split: if_splits)
    next
      case 1
      show ?thesis
      proof (cases "(st_ring_secs cfg, pl_media p, w_now w, ev)" rule: media_step.cases)
        case (1 rs m0 now data)
        with \<open>fst (media_step _ _ _ ev) = []\<close> pipe_on_rtp_no_unit [OF inv, of cfg w data env] None m mi assms(2)
        show ?thesis by (auto simp: pipe_step_def ensures_def pipe_inv_def simp del: media_step.simps)
      next
        case (2 rs m0 now a b)
        with None inv assms(2) show ?thesis
          by (auto simp: pipe_step_def ensures_def pipe_inv_def pipe_on_gap_def)
      next
        case (3 rs m0 now rule active ts)
        with None inv assms(2) show ?thesis
          by (auto simp: pipe_step_def ensures_def pipe_inv_def pipe_on_motion_def Let_def)
      next
        case (4 rs m0 now)
        with pipe_on_tick_clean [of w p "[]" env cfg] None assms(2) inv show ?thesis
          by (auto simp: pipe_step_def ensures_def pipe_inv_def)
      qed
    qed
  qed
qed

interpretation pipeline: reliable_loop "pipe_step env cfg" pipe_inv for env cfg
proof unfold_locales
  show "ensures (pipe_step env cfg p ev) w (\<lambda>p' w'. pipe_inv p' w' \<and> w_faults w' = [])"
    if "pipe_inv p w" "w_faults w = []" for p w ev
    using pipe_step_clean [OF that, of env cfg ev] by (auto elim: ensures_mono)
  show "pipe_inv p (set_time t u w)" if "pipe_inv p w" for p w t u
    using that by (simp add: pipe_inv_def)
qed

lemma pipe_loop_media:
  "pipe_inv p w \<Longrightarrow> w_faults w = [] \<Longrightarrow>
   ensures (event_loop (pipe_step env cfg) p evs) w (\<lambda>p' w'.
     pl_media p' = snd (media_run (st_ring_secs cfg) (pl_media p) evs))"
proof (induction evs arbitrary: p w)
  case (Cons x evs)
  obtain t u ev where x: "x = (t, u, ev)" by (cases x)
  have "pipe_inv p (set_time t u w)" "w_faults (set_time t u w) = []"
    using Cons.prems pipeline.inv_time by simp_all
  from pipe_step_clean [OF this, of env cfg ev] Cons.IH x show ?case
    by (auto simp: ensures_def event_loop.simps bindIO_def Let_def split: prod.splits) force
qed simp

lemma sure_cleanup_stale_part: "sure (cleanup_stale_part cutoff path)"
proof -
  have "sure (case m of Inl _ \<Rightarrow> returnIO ()
      | Inr md \<Rightarrow> if f_mtime md < cutoff
          then bindIO (attemptIO (fs_remove path)) (\<lambda>_. returnIO ()) else returnIO ())" for m :: "_ + fs_file"
    by (cases m) (auto intro!: sure_intros benign_intros)
  then show ?thesis unfolding cleanup_stale_part_def by (intro sure_intros benign_intros)
qed

lemma run_stream_starts:
  assumes "w_faults w = []"
  obtains w1 where "run_stream env cfg evs w = event_loop (pipe_step env cfg) pipe_init evs w1"
    "w_faults w1 = []"
proof -
  let ?paths = "filter (\<lambda>p. parent_dir p = st_clip_dir cfg) (map fst (w_files w))"
  let ?cutoff = "w_utc w - int (from_secs (st_stale_part_secs cfg))"
  have "sure (forIO ?paths (cleanup_stale_part ?cutoff))"
    by (intro sure_for sure_cleanup_stale_part)
  from sureE [OF this, of w] obtain x w1 where "forIO ?paths (cleanup_stale_part ?cutoff) w = (Ok x, w1)"
    "w_faults w = [] \<longrightarrow> w_faults w1 = []" by metis
  with assms show ?thesis
    by (intro that [of w1]) (simp_all add: run_stream_def fs_create_dir_all_def bindIO_def
      pipe_cleanup_stale_parts_def fs_read_dir_def next_fault_def)
qed

lemma pipe_inv_init [simp]: "pipe_inv pipe_init w"
  by (simp add: pipe_inv_def pipe_init_def)

text \<open>The ring, as a function of the units kept so far: those not older than the window.\<close>

definition window :: "u64 \<Rightarrow> AccessUnit list \<Rightarrow> AccessUnit list" where
  "window rs kept = filter (\<lambda>au. au_ts (last kept) - au_ts au \<le> from_secs rs) kept"

lemma window_extend:
  assumes "sorted (map au_ts (kept @ [au]))"
  shows "prune_ring (window rs kept @ [au]) rs (au_ts au) = window rs (kept @ [au])"
proof -
  have le: "au_ts (last kept) \<le> au_ts au" if "k \<in> set kept" for k
  proof -
    have "last kept \<in> set kept" using that by (metis last_in_set length_pos_if_in_set length_greater_0_conv)
    then show ?thesis using assms by (auto simp: sorted_append)
  qed
  have "sorted (map au_ts (window rs kept @ [au]))"
    using assms unfolding window_def by (auto simp: sorted_append sorted_filter)
  then have "prune_ring (window rs kept @ [au]) rs (au_ts au)
      = filter (\<lambda>k. au_ts au - au_ts k \<le> from_secs rs) (window rs kept @ [au])"
    by (rule prune_ring_filter)
  also have "\<dots> = filter (\<lambda>k. au_ts au - au_ts k \<le> from_secs rs) kept @ [au]"
    using le by (auto simp: window_def intro!: filter_cong) (meson diff_le_mono le_trans)
  finally show ?thesis by (simp add: window_def)
qed

lemma media_run_ring:
  assumes "media_inv m" "md_ring m = window rs kept" "sorted (map au_ts kept)"
    "\<forall>au \<in> set kept. \<forall>(t, e) \<in> set evs. au_ts au \<le> t" "sorted (map fst evs)"
    "media_run rs m evs = (aus, m')"
  shows "md_ring m' = window rs (kept @ aus)"
  using assms
proof (induction evs arbitrary: m kept aus)
  case Nil
  then show ?case by simp
next
  case (Cons x evs)
  obtain t u ev where x: "x = (t, u, ev)" by (cases x)
  obtain aus1 m1 where 1: "media_step rs m t ev = (aus1, m1)" by (cases "media_step rs m t ev")
  obtain aus2 where 2: "media_run rs m1 evs = (aus2, m')" "aus = aus1 @ aus2"
    using Cons.prems(6) x 1 by (auto simp: Let_def split: prod.splits)
  have mi: "media_inv m1" using media_step_inv [OF Cons.prems(1), of rs t ev] 1 by simp
  have step: "(aus1 = [] \<and> md_ring m1 = md_ring m)
      \<or> (\<exists>au. aus1 = [au] \<and> au_ts au = t \<and> md_ring m1 = prune_ring (md_ring m @ [au]) rs t)"
  proof (cases "(rs, m, t, ev)" rule: media_step.cases)
    case (1 rs' m0 now data)
    with \<open>media_step rs m t ev = (aus1, m1)\<close> show ?thesis
      by (cases rule: media_on_rtp_cases [OF Cons.prems(1), of rs data t]) auto
  qed (use 1 in auto)
  have s: "sorted (map au_ts (kept @ aus1))" "md_ring m1 = window rs (kept @ aus1)"
    "\<forall>au \<in> set (kept @ aus1). \<forall>(t, e) \<in> set evs. au_ts au \<le> t"
    using step Cons.prems(2-5) x window_extend [of kept _ rs] by (auto simp: sorted_append)
  from Cons.IH [OF mi s(2,1,3) _ 2(1)] Cons.prems(5) 2(2) show ?case by simp
qed

section \<open>A write that goes straight to the file\<close>

lemma fs_append_fault:
  assumes "file_data p w = Some old" "w_faults w = Some n # fs"
  shows "fs_append p d w = (Ok (Some n), put_file p (old @ take n d) (w\<lparr>w_faults := fs\<rparr>))"
  using assms by (auto simp: fs_append_def next_fault_def bindIO_def file_data_def min_def Let_def)

lemma fs_append_clean:
  assumes "file_data p w = Some old" "w_faults w = []"
  shows "fs_append p d w = (Ok None, put_file p (old @ d) w)"
  using assms by (simp add: fs_append_def)

lemma write_nal_direct:
  assumes "bw_path (cw_writer cw) = cw_part_path cw" "bw_buf (cw_writer cw) = []"
    "cw_max_pending_bytes cw \<le> length (cw_pending cw @ nal)"
    "bw_cap (cw_writer cw) \<le> length (cw_pending cw @ nal)" "nal \<noteq> []"
  shows "write_nal cw nal w = bindIO (fs_append (cw_part_path cw) (cw_pending cw @ nal)) (\<lambda>f.
    returnIO (if f = None
      then (True, cw\<lparr>cw_pending := [],
             cw_written_bytes := cw_written_bytes cw + length (cw_pending cw @ nal)\<rparr>)
      else (False, cw\<lparr>cw_pending := cw_pending cw @ nal\<rparr>))) w"
  using assms
  by (auto simp: write_nal_def flush_pending_def write_pending_def bw_write_all_def bw_flush_buf_def
      Let_def bindIO_def split: prod.splits rust.splits)

lemma saturating_add_ge2: "0 < n \<Longrightarrow> \<exists>k. saturating_add n (Suc 0) = Suc (Suc k)"
proof -
  assume "0 < n"
  then have "2 \<le> saturating_add n (Suc 0)" by (simp add: saturating_add_def u64_max_def)
  then show ?thesis by (metis Suc_le_D numeral_2_eq_2 Suc_le_mono)
qed

section \<open>A clip from motion to file\<close>

fun is_motion :: "pipe_event \<Rightarrow> bool" where
  "is_motion (PipeMsg (MotionMsg rule active ts)) = True"
| "is_motion _ = False"

definition waiting :: "pipe \<Rightarrow> string \<Rightarrow> AccessUnit list \<Rightarrow> bool" where
  "waiting p rule snapshot \<longleftrightarrow> pl_clip p = None \<and> pl_clip_pending p \<and> pl_pending_rule p = rule
     \<and> pl_pending_ring_snapshot p = Some snapshot"

lemma pipe_step_waiting:
  assumes "media_inv (pl_media p)" "w_faults w = []" "waiting p rule snap" "\<not> is_motion ev"
    "media_step (st_ring_secs cfg) (pl_media p) (w_now w) ev = ([], m)"
  shows "ensures (pipe_step env cfg p ev) w (\<lambda>p' w'. w_faults w' = [] \<and> pl_media p' = m
    \<and> waiting p' rule snap)"
proof (cases "(st_ring_secs cfg, pl_media p, w_now w, ev)" rule: media_step.cases)
  case (1 rs m0 now data)
  with pipe_on_rtp_no_unit [OF assms(1), of cfg w data env] assms show ?thesis
    by (auto simp: pipe_step_def ensures_def waiting_def simp del: media_step.simps)
next
  case (2 rs m0 now a b)
  with assms show ?thesis by (auto simp: pipe_step_def ensures_def waiting_def pipe_on_gap_def)
next
  case (3 rs m0 now r active ts)
  with assms(4) show ?thesis by simp
next
  case (4 rs m0 now)
  with pipe_on_tick_clean [of w p "[]" env cfg] assms show ?thesis
    by (auto simp: pipe_step_def ensures_def waiting_def)
qed

lemma pipe_loop_waiting:
  "media_inv (pl_media p) \<Longrightarrow> w_faults w = [] \<Longrightarrow> waiting p rule snap
    \<Longrightarrow> \<forall>(t, u, ev) \<in> set evs. \<not> is_motion ev
    \<Longrightarrow> media_run (st_ring_secs cfg) (pl_media p) evs = ([], m)
    \<Longrightarrow> ensures (event_loop (pipe_step env cfg) p evs) w (\<lambda>p' w'. w_faults w' = []
      \<and> pl_media p' = m \<and> media_inv m \<and> waiting p' rule snap)"
proof (induction evs arbitrary: p w)
  case (Cons x evs)
  obtain t u ev where x: "x = (t, u, ev)" by (cases x)
  obtain m1 where 1: "media_step (st_ring_secs cfg) (pl_media p) t ev = ([], m1)"
    "media_run (st_ring_secs cfg) m1 evs = ([], m)"
    using Cons.prems(5) x by (auto simp: Let_def split: prod.splits)
  have mi: "media_inv m1" using media_step_inv [OF Cons.prems(1), of "st_ring_secs cfg" t ev] 1 by simp
  have "ensures (pipe_step env cfg p ev) (set_time t u w) (\<lambda>p' w'. w_faults w' = [] \<and> pl_media p' = m1
    \<and> waiting p' rule snap)"
    by (rule pipe_step_waiting) (use Cons.prems x 1 in auto)
  with Cons.IH Cons.prems(4) x mi 1(2) show ?case by (auto elim!: ensures_mono)
qed simp

lemma clip_ends:
  assumes "media_inv (pl_media p)" "w_faults w = []" "pl_clip p = Some cs" "clip_good cs w d"
    "clip_id cs = (path, rule, started, stop_at, hard)"
    "media_run (st_ring_secs cfg) (pl_media p) during = (aus, m)"
    "\<forall>(t, u, ev) \<in> set during. ev = PipeTick \<longrightarrow> \<not> should_finalize_clip t stop_at hard"
    "should_finalize_clip t1 stop_at hard"
  shows "ensures (event_loop (pipe_step env cfg) p (during @ [(t1, u1, PipeTick)])) w (\<lambda>p' w'.
    pl_clip p' = None \<and> file_data path w' = Some (d @ concat (concat (map au_nals aus))))"
proof -
  let ?d = "d @ concat (concat (map au_nals aus))"
  from pipe_loop_active [OF assms(1-4) _ assms(6), of env] assms(5,7) obtain p1 w1 cs1 where
    1: "event_loop (pipe_step env cfg) p during w = (Ok p1, w1)" "w_faults w1 = []"
    "pl_clip p1 = Some cs1" "clip_good cs1 w1 ?d" "clip_id cs1 = clip_id cs"
    by (auto simp: ensures_def clip_id_def)
  from pipe_on_tick_clean [of "set_time t1 u1 w1" p1 ?d env cfg] 1 assms(5,8)
  have "ensures (event_loop (pipe_step env cfg) p1 [(t1, u1, PipeTick)]) w1 (\<lambda>p' w'.
      pl_clip p' = None \<and> file_data path w' = Some ?d)"
    by (auto simp: pipe_step_def clip_id_def elim!: ensures_mono)
  with 1(1) show ?thesis unfolding ensures_loop_append by (simp add: ensures_def)
qed

lemma clip_starts:
  assumes "media_inv (pl_media p)" "w_faults w = []" "pl_clip p = None"
    "\<forall>(t, u, ev) \<in> set before. \<not> is_motion ev"
    "media_run (st_ring_secs cfg) (pl_media p) before = ([], m0)"
    "media_step (st_ring_secs cfg) m0 t0 (PipeMsg (RtpMsg data)) = ([au], m1)"
  shows "ensures (event_loop (pipe_step env cfg) p ((t, u, PipeMsg (MotionMsg rule True ts)) # before
      @ [(t0, u0, PipeMsg (RtpMsg data))])) w
    (\<lambda>p' w'. w_faults w' = [] \<and> pl_media p' = m1 \<and> media_inv m1 \<and> (\<exists>cs. pl_clip p' = Some cs
      \<and> clip_good cs w' (concat (preroll (md_sps m1) (md_pps m1) (md_ring (pl_media p)) @ au_nals au))
      \<and> clip_id cs = (clip_path env cfg u0 rule, rule, u0, t0 + from_secs (st_post_secs cfg),
          map_option (\<lambda>secs. t0 + from_secs secs) (st_max_clip_secs cfg))))"
proof -
  let ?p1 = "pipe_on_motion p rule True u"
  let ?started = "(\<lambda>p' w'. w_faults w' = [] \<and> pl_media p' = m1 \<and> media_inv m1 \<and> (\<exists>cs. pl_clip p' = Some cs
     \<and> clip_good cs w' (concat (preroll (md_sps m1) (md_pps m1) (md_ring (pl_media p)) @ au_nals au))
     \<and> clip_id cs = (clip_path env cfg u0 rule, rule, u0, t0 + from_secs (st_post_secs cfg),
         map_option (\<lambda>secs. t0 + from_secs secs) (st_max_clip_secs cfg))))"
  have w1: "waiting ?p1 rule (md_ring (pl_media p))" "pl_media ?p1 = pl_media p"
    using assms(3) by (simp_all add: waiting_def pipe_on_motion_def Let_def)
  from pipe_loop_waiting [of ?p1 "set_time t u w" rule "md_ring (pl_media p)" before cfg m0 env] w1 assms
  obtain p2 w2 where 2: "event_loop (pipe_step env cfg) ?p1 before (set_time t u w) = (Ok p2, w2)"
    "w_faults w2 = []" "pl_media p2 = m0" "media_inv m0" "waiting p2 rule (md_ring (pl_media p))"
    by (auto simp: ensures_def)
  have mi: "media_inv m1"
    using media_step_inv [OF 2(4), of "st_ring_secs cfg" t0 "PipeMsg (RtpMsg data)"] assms(6)
    by (simp del: media_step.simps)
  have "media_inv (pl_media p2)" "w_faults (set_time t0 u0 w2) = []" using 2 by simp_all
  from pipe_on_rtp_kept [OF this, of cfg data au m1 "[]" env] assms(6) 2 mi
  have "ensures (event_loop (pipe_step env cfg) p2 [(t0, u0, PipeMsg (RtpMsg data))]) w2 ?started"
    by (auto simp: pipe_step_def waiting_def unwrap_or_def simp del: media_step.simps elim!: ensures_mono)
  then have "ensures (event_loop (pipe_step env cfg) ?p1 (before @ [(t0, u0, PipeMsg (RtpMsg data))]))
      (set_time t u w) ?started"
    unfolding ensures_loop_append using 2(1) by (simp add: ensures_def)
  moreover have "ensures (pipe_step env cfg p (PipeMsg (MotionMsg rule True ts))) (set_time t u w) Q
      = Q ?p1 (set_time t u w)" for Q
    by (simp add: pipe_step_def ensures_def)
  ultimately show ?thesis by simp
qed

section \<open>Sample values for the witnesses\<close>

definition sample_pipe_env :: pipe_env where
  "sample_pipe_env = \<lparr>pe_ts = (\<lambda>_. ''t''), pe_rfc3339 = (\<lambda>_. ''t''), pe_sidecar = (\<lambda>_. []),
     pe_health = (\<lambda>_. [1])\<rparr>"

definition sample_stream_config :: StreamConfig where
  "sample_stream_config = \<lparr>st_stream_id = 7, st_clip_dir = ''c'', st_ring_secs = 10, st_pre_secs = 2,
     st_post_secs = 3, st_stale_part_secs = 1, st_max_clip_secs = None, st_clip_write_timeout_ms = 5000,
     st_clip_write_retry_count = 2, st_clip_write_retry_backoff_ms = 250, st_stale_secs = 15,
     st_stats_log_secs = 60\<rparr>"

text \<open>A packet with the marker set that carries one NAL unit.\<close>

definition sample_packet :: "byte \<Rightarrow> bytes \<Rightarrow> pipe_event" where
  "sample_packet seq nal = PipeMsg (RtpMsg ([0x80, 0xE0, 0, seq, 0, 0, 0, 0, 0, 0, 0, 9] @ nal))"

text \<open>SPS, PPS and IDR in one aggregation packet, then a slice.\<close>

definition sample_stap :: bytes where
  "sample_stap = [0x78, 0, 2, 0x67, 1, 0, 2, 0x68, 2, 0, 2, 0x65, 3]"

definition sample_media_events :: "(instant \<times> datetime \<times> pipe_event) list" where
  "sample_media_events = [(1, 1, sample_packet 1 sample_stap), (2, 2, sample_packet 2 [0x41, 4])]"

lemmas pipe_sample_defs = sample_pipe_env_def sample_stream_config_def sample_packet_def
  sample_stap_def sample_media_events_def empty_world_def

section \<open>Properties\<close>



text \<open>
  The ring holds exactly the access units of the last \<open>ring_secs\<close> seconds: after any run
  with non-decreasing times it is the list of all units the media path kept, in order, without
  those older than the window at the time of the newest.
\<close>

theorem ring_is_recent_window:
  assumes "w_faults w = []" "sorted (map fst evs)"
  shows "ensures (run_stream env cfg evs) w (\<lambda>p w'.
    md_ring (pl_media p)
      = (let kept = fst (media_run (st_ring_secs cfg) media_init evs) in
         filter (\<lambda>au. au_ts (last kept) - au_ts au \<le> from_secs (st_ring_secs cfg)) kept))"
proof -
  obtain w1 where w1: "run_stream env cfg evs w = event_loop (pipe_step env cfg) pipe_init evs w1"
    "w_faults w1 = []"
    using run_stream_starts [OF assms(1)] by metis
  obtain kept m where k: "media_run (st_ring_secs cfg) media_init evs = (kept, m)"
    by (cases "media_run (st_ring_secs cfg) media_init evs")
  have "md_ring m = window (st_ring_secs cfg) ([] @ kept)"
    by (rule media_run_ring [OF media_inv_init _ _ _ assms(2) k]) (simp_all add: media_init_def window_def)
  with pipe_loop_media [OF pipe_inv_init w1(2), of env cfg evs] k w1(1) show ?thesis
    by (auto simp: ensures_def pipe_init_def window_def)
qed

theorem ring_is_recent_window_witness:
  "ensures (run_stream sample_pipe_env (sample_stream_config\<lparr>st_ring_secs := 0\<rparr>) sample_media_events)
     empty_world (\<lambda>p w'. map au_nals (md_ring (pl_media p)) = [[[0, 0, 0, 1, 0x41, 4]]])"
proof -
  have k: "fst (media_run 0 media_init sample_media_events)
      = [\<lparr>au_ts = 1, au_nals = [[0, 0, 0, 1, 0x67, 1], [0, 0, 0, 1, 0x68, 2], [0, 0, 0, 1, 0x67, 1],
            [0, 0, 0, 1, 0x68, 2], [0, 0, 0, 1, 0x65, 3]], au_has_idr = True\<rparr>,
         \<lparr>au_ts = 2, au_nals = [[0, 0, 0, 1, 0x41, 4]], au_has_idr = False\<rparr>]"
    by code_simp
  have "sorted (map fst sample_media_events)" "w_faults empty_world = []"
    by (simp_all add: pipe_sample_defs)
  from ring_is_recent_window [OF this(2,1), of sample_pipe_env "sample_stream_config\<lparr>st_ring_secs := 0\<rparr>"]
  show ?thesis by (simp add: k ensures_def sample_stream_config_def from_secs_def Let_def)
    (metis (no_types, lifting) list.simps(8,9) AccessUnit.select_convs(2))
qed


definition sample_unit :: "instant \<Rightarrow> byte \<Rightarrow> AccessUnit" where
  "sample_unit t b = \<lparr>au_ts = t, au_nals = [[0, 0, 0, 1, 0x41, b]], au_has_idr = False\<rparr>"

definition sample_media :: "u16 \<Rightarrow> AccessUnit list \<Rightarrow> media" where
  "sample_media seq aus =
     \<lparr>md_dep = H264Depacketizer_new, md_expected_seq = Some seq, md_synced = True,
      md_sps = Some [0, 0, 0, 1, 0x67, 1], md_pps = Some [0, 0, 0, 1, 0x68, 2],
      md_ring = \<lparr>au_ts = 1, au_nals = [[0, 0, 0, 1, 0x65, 3]], au_has_idr = True\<rparr> # aus,
      md_current_au = []\<rparr>"

definition sample_running :: pipe where
  "sample_running = pipe_init\<lparr>pl_media := sample_media 3 []\<rparr>"


text \<open>
  A retried write duplicates data: the NAL stays in the batch when a write fails, and the
  retry appends it again. With one failed write of \<open>n\<close> bytes and a retry that succeeds, the call
  reports success, and the part file has got those \<open>n\<close> bytes, the whole batch and the NAL twice.
\<close>

theorem retry_duplicates_nal:
  assumes "cw = cs_writer cs" "bw_path (cw_writer cw) = cw_part_path cw" "bw_buf (cw_writer cw) = []"
    "cw_max_pending_bytes cw \<le> length (cw_pending cw @ nal)"
    "bw_cap (cw_writer cw) \<le> length (cw_pending cw @ nal)" "nal \<noteq> []"
    "file_data (cw_part_path cw) w = Some old" "w_faults w = [Some n]" "ws_retry_count settings > 0"
  shows "ensures (write_active_clip_nal_with_retry cs nal settings) w (\<lambda>(ok, cs') w'. ok
    \<and> file_data (cw_part_path cw) w'
        = Some (old @ take n (cw_pending cw @ nal) @ cw_pending cw @ nal @ nal))"
proof -
  let ?batch = "cw_pending cw @ nal" and ?cw1 = "cw\<lparr>cw_pending := cw_pending cw @ nal\<rparr>"
  let ?w1 = "put_file (cw_part_path cw) (old @ take n ?batch) (w\<lparr>w_faults := []\<rparr>)"
  have 1: "write_nal cw nal w = (Ok (False, ?cw1), ?w1)"
    using write_nal_direct [OF assms(2-6)] fs_append_fault [OF assms(7,8), of ?batch]
    by (simp add: bindIO_def)
  have 2: "\<exists>cw2 w2. write_nal ?cw1 nal v = (Ok (True, cw2), w2)
      \<and> file_data (cw_part_path cw) w2 = Some (old @ take n ?batch @ ?batch @ nal)"
    if "w_faults v = []" "file_data (cw_part_path cw) v = Some (old @ take n ?batch)" for v
    using write_nal_direct [of ?cw1 nal] fs_append_clean [OF that(2,1)] assms(2-6)
    by (simp add: bindIO_def)
  obtain k where k: "saturating_add (ws_retry_count settings) (Suc 0) = Suc (Suc k)"
    using assms(9) saturating_add_ge2 by blast
  let ?w2 = "?w1\<lparr>w_now := w_now w + ws_retry_backoff settings,
      w_utc := w_utc w + int (ws_retry_backoff settings)\<rparr>"
  have f: "w_faults ?w2 = []" "file_data (cw_part_path cw) ?w2 = Some (old @ take n ?batch)"
    by (simp_all add: put_file_def file_data_def AList.update_conv')
  have "ensures (write_attempts (Suc (Suc k)) (ws_retry_backoff settings) cw nal) w (\<lambda>(ok, cw') w'. ok
      \<and> file_data (cw_part_path cw) w' = Some (old @ take n ?batch @ ?batch @ nal))"
    using 1 2 [OF f] 2 [of ?w1]
    by (cases "ws_retry_backoff settings > 0") (auto simp: ensures_def bindIO_def sleepIO_def)
  then show ?thesis
    by (auto simp: ensures_def write_active_clip_nal_with_retry_def Let_def k bindIO_def assms(1)
        simp del: write_attempts.simps)
qed

theorem retry_duplicates_nal_witness:
  "ensures (write_active_clip_nal_with_retry
      \<lparr>cs_writer = \<lparr>cw_part_path = ''c/x.h264.part'', cw_final_path = ''c/x.h264'',
         cw_writer = \<lparr>bw_path = ''c/x.h264.part'', bw_buf = [], bw_cap = 3\<rparr>, cw_pending = [7, 8],
         cw_max_pending_bytes = 3, cw_written_bytes = 1\<rparr>,
       cs_started_at = 0, cs_rule = ''r'', cs_stop_at = 9, cs_hard_stop_at = None\<rparr> [5]
      \<lparr>ws_timeout = 1, ws_retry_count = 2, ws_retry_backoff = 0\<rparr>)
    \<lparr>w_files = [(''c/x.h264.part'', \<lparr>f_data = [1], f_mtime = 0\<rparr>)], w_faults = [Some 0], w_now = 0,
      w_utc = 0\<rparr>
    (\<lambda>(ok, cs') w'. ok \<and> file_data ''c/x.h264.part'' w' = Some [1, 7, 8, 5, 5])"
  using retry_duplicates_nal [of _
      "\<lparr>cs_writer = \<lparr>cw_part_path = ''c/x.h264.part'', cw_final_path = ''c/x.h264'',
         cw_writer = \<lparr>bw_path = ''c/x.h264.part'', bw_buf = [], bw_cap = 3\<rparr>, cw_pending = [7, 8],
         cw_max_pending_bytes = 3, cw_written_bytes = 1\<rparr>,
       cs_started_at = 0, cs_rule = ''r'', cs_stop_at = 9, cs_hard_stop_at = None\<rparr>" "[5]"
      "\<lparr>w_files = [(''c/x.h264.part'', \<lparr>f_data = [1], f_mtime = 0\<rparr>)], w_faults = [Some 0], w_now = 0,
      w_utc = 0\<rparr>" "[1]" 0 "\<lparr>ws_timeout = 1, ws_retry_count = 2, ws_retry_backoff = 0\<rparr>", OF refl]
  by (simp add: file_data_def)

text \<open>
  The health file is replaced atomically: whatever I/O faults occur, after a health update
  the file holds either exactly the new snapshot, when the update reports success, or what it
  held before.
\<close>

theorem health_file_atomic:
  "\<exists>r w'. write_stream_health env cfg s active pending w = (r, w')
     \<and> file_data (health_file cfg) w' =
         (if r = Ok () then Some (pe_health env (health_snapshot env cfg s active pending (w_utc w)))
          else file_data (health_file cfg) w)"
  using write_stream_health_effect [of env cfg s active pending w] by blast

end
