(* ===== verification/LiveV2.thy ===== *)
theory LiveV2
  imports MpegTs Pipeline
begin

text \<open>
  \<^verbatim>\<open>src/live/v2.rs\<close>: the live pipeline of the ingest server. RTP packets become access units behind
  the sync gate, access units become MPEG-TS segments, and segments are published with a
  playlist and a pointer to the current session.

  Parameters (\<open>live_env\<close>): timestamps (\<open>chrono\<close>), session ids (\<open>ulid\<close>), JSON (\<open>serde_json\<close>) and the
  decimal rendering of a duration, which the code keeps as \<open>f64\<close> seconds and the model as
  nanoseconds. Directories are not part of the storage model; the removal of old session
  directories is the choice of which ones to remove. The session number of a file name is
  padded to six digits as \<open>{seq:06}\<close> does.
\<close>

section \<open>Data\<close>

record H264SyncSeed =
  sd_sps_annexb :: bytes
  sd_pps_annexb :: bytes

record LivePipelineV2Config =
  lc_stream_id :: nat
  lc_output_root :: string
  lc_health_dir :: string
  lc_stale_secs :: u64
  lc_stats_log_secs :: u64
  lc_segment_secs :: u64
  lc_window_secs :: u64
  lc_h264_sync_seed :: "H264SyncSeed option"

record LiveAccessUnit =
  la_rtp_timestamp :: u32
  la_nals :: "bytes list"
  la_has_idr :: bool

record LiveRuntimeStats =
  ls_total_rtp_packets :: u64
  ls_total_access_units :: u64
  ls_total_gaps :: u64
  ls_total_motion_events :: u64
  ls_total_parse_errors :: u64
  ls_last_rtp_at :: "datetime option"
  ls_last_access_unit_at :: "datetime option"
  ls_last_gap_at :: "datetime option"
  ls_last_motion_at :: "datetime option"
  ls_last_error_at :: "datetime option"
  ls_last_idr_at :: "datetime option"
  ls_last_segment_write_at :: "datetime option"
  ls_last_stats_log_at :: "instant option"
  ls_last_health_write_at :: "instant option"

definition LiveRuntimeStats_default :: LiveRuntimeStats where
  "LiveRuntimeStats_default =
     \<lparr>ls_total_rtp_packets = 0, ls_total_access_units = 0, ls_total_gaps = 0,
      ls_total_motion_events = 0, ls_total_parse_errors = 0, ls_last_rtp_at = None,
      ls_last_access_unit_at = None, ls_last_gap_at = None, ls_last_motion_at = None,
      ls_last_error_at = None, ls_last_idr_at = None, ls_last_segment_write_at = None,
      ls_last_stats_log_at = None, ls_last_health_write_at = None\<rparr>"

record NoPublishEpisode =
  np_first_rtp_at :: "instant option"
  np_segment_seq_at_start :: u64
  np_logged :: bool

definition NoPublishEpisode_default :: NoPublishEpisode where
  "NoPublishEpisode_default =
     \<lparr>np_first_rtp_at = None, np_segment_seq_at_start = 0, np_logged = False\<rparr>"

record LiveHealthSnapshot =
  lh_stream_id :: nat
  lh_current_session_id :: string
  lh_state :: StreamHealthState
  lh_updated_at :: string
  lh_stale_after_secs :: u64
  lh_ring_secs :: u64
  lh_clip_active :: bool
  lh_clip_pending :: bool
  lh_total_rtp_packets :: u64
  lh_total_access_units :: u64
  lh_total_gaps :: u64
  lh_total_motion_events :: u64
  lh_total_parse_errors :: u64
  lh_last_rtp_at :: "string option"
  lh_last_access_unit_at :: "string option"
  lh_last_gap_at :: "string option"
  lh_last_motion_at :: "string option"
  lh_last_error_at :: "string option"
  lh_last_idr_at :: "string option"
  lh_last_segment_write_at :: "string option"
  lh_last_segment_write_ts :: "string option"
  lh_segment_seq :: u64
  lh_discontinuity_count :: u64

record CurrentSessionPointer =
  sp_session_id :: string
  sp_started_at :: string
  sp_generation :: u64
  sp_writer_state :: string
  sp_updated_at :: string
  sp_last_segment_seq :: u64

record LiveSessionContext =
  se_session_id :: string
  se_output_root :: string
  se_generation :: u64
  se_started_at :: datetime

record live_env =
  le_rfc3339 :: "datetime \<Rightarrow> string"
  le_session_id :: "datetime \<Rightarrow> string"
  le_health_json :: "LiveHealthSnapshot \<Rightarrow> bytes"
  le_pointer_json :: "CurrentSessionPointer \<Rightarrow> bytes"
  le_pointer_parse :: "bytes \<Rightarrow> CurrentSessionPointer option"
  le_extinf :: "duration \<Rightarrow> string"

section \<open>Atomic publication\<close>

record AtomicPublisher =
  ap_final_path :: string
  ap_temp_path :: string
  ap_writer :: BufWriter

definition temp_path_for :: "string \<Rightarrow> string" where
  "temp_path_for final_path = final_path @ ''.tmp''"

definition AtomicPublisher_create :: "string \<Rightarrow> AtomicPublisher io" where
  "AtomicPublisher_create final_path =
     (let temp_path = temp_path_for final_path in
      bindIO (fs_create_dir_all (parent_dir final_path)) (\<lambda>_.
      bindIO (fs_create temp_path) (\<lambda>_.
      returnIO \<lparr>ap_final_path = final_path, ap_temp_path = temp_path,
        ap_writer = \<lparr>bw_path = temp_path, bw_buf = [], bw_cap = 256 * 1024\<rparr>\<rparr>)))"

definition AtomicPublisher_write_all :: "AtomicPublisher \<Rightarrow> bytes \<Rightarrow> AtomicPublisher io" where
  "AtomicPublisher_write_all ap d =
     bindIO (bw_write_all (ap_writer ap) d) (\<lambda>(ok, b).
       if ok then returnIO (ap\<lparr>ap_writer := b\<rparr>) else failIO IoFailed)"

definition AtomicPublisher_publish :: "AtomicPublisher \<Rightarrow> string io" where
  "AtomicPublisher_publish ap =
     bindIO (bw_flush_buf (ap_writer ap)) (\<lambda>(ok, b).
       if \<not> ok then failIO IoFailed
       else bindIO (fs_rename (ap_temp_path ap) (ap_final_path ap)) (\<lambda>_.
         returnIO (ap_final_path ap)))"

text \<open>Remove a file if it is there: a failing \<open>metadata\<close> call counts as not there.\<close>

definition remove_if_exists :: "string \<Rightarrow> unit io" where
  "remove_if_exists path =
     bindIO (attemptIO (fs_metadata path)) (\<lambda>m. case m of
       Inr _ \<Rightarrow> fs_remove path
     | Inl _ \<Rightarrow> returnIO ())"

definition AtomicPublisher_discard :: "AtomicPublisher \<Rightarrow> unit io" where
  "AtomicPublisher_discard ap = remove_if_exists (ap_temp_path ap)"

definition publish_bytes :: "string \<Rightarrow> bytes \<Rightarrow> unit io" where
  "publish_bytes final_path d =
     bindIO (AtomicPublisher_create final_path) (\<lambda>ap.
     bindIO (AtomicPublisher_write_all ap d) (\<lambda>ap.
     bindIO (AtomicPublisher_publish ap) (\<lambda>_. returnIO ())))"

section \<open>Segments\<close>

record MpegTsSegmentWriter =
  sw_publisher :: AtomicPublisher
  sw_pat_cc :: u8
  sw_pmt_cc :: u8
  sw_video_cc :: u8

definition MpegTsSegmentWriter_create :: "string \<Rightarrow> MpegTsSegmentWriter io" where
  "MpegTsSegmentWriter_create path =
     bindIO (AtomicPublisher_create path) (\<lambda>ap.
     let (pat, pat_cc) = build_pat_packet 0; (pmt, pmt_cc) = build_pmt_packet 0 in
     bindIO (AtomicPublisher_write_all ap pat) (\<lambda>ap.
     bindIO (AtomicPublisher_write_all ap pmt) (\<lambda>ap.
     returnIO \<lparr>sw_publisher = ap, sw_pat_cc = pat_cc, sw_pmt_cc = pmt_cc, sw_video_cc = 0\<rparr>)))"

definition write_access_unit :: "MpegTsSegmentWriter \<Rightarrow> LiveAccessUnit \<Rightarrow> MpegTsSegmentWriter io" where
  "write_access_unit sw au =
     (let pes = build_pes_video (ucast (la_rtp_timestamp au)) (concat (la_nals au));
          (ts, video_cc) = packetize_ts VIDEO_PID pes (sw_video_cc sw) True in
      bindIO (AtomicPublisher_write_all (sw_publisher sw) ts) (\<lambda>ap.
      returnIO (sw\<lparr>sw_publisher := ap, sw_video_cc := video_cc\<rparr>)))"

record SegmentEntry =
  sg_seq :: u64
  sg_duration :: duration
  sg_filename :: string
  sg_discontinuity :: bool

record PlaylistState =
  pt_target_duration_secs :: u64
  pt_max_segments :: usize
  pt_next_segment_seq :: u64
  pt_entries :: "SegmentEntry list"

definition PlaylistState_new :: "u64 \<Rightarrow> u64 \<Rightarrow> PlaylistState" where
  "PlaylistState_new segment_secs window_secs =
     (let target_duration_secs = max segment_secs 1;
          max_segments = (max window_secs target_duration_secs + target_duration_secs - 1)
            div target_duration_secs + 1 in
      \<lparr>pt_target_duration_secs = target_duration_secs, pt_max_segments = max max_segments 3,
       pt_next_segment_seq = 1, pt_entries = []\<rparr>)"

definition segment_name :: "u64 \<Rightarrow> string" where
  "segment_name seq =
     (let s = show_nat seq in ''seg_'' @ replicate (6 - length s) (CHR ''0'') @ s @ ''.ts'')"

definition next_segment_path :: "PlaylistState \<Rightarrow> string \<Rightarrow> u64 \<times> string \<times> PlaylistState" where
  "next_segment_path pt output_root =
     (let seq = pt_next_segment_seq pt in
      (seq, join_path output_root (segment_name seq), pt\<lparr>pt_next_segment_seq := seq + 1\<rparr>))"

definition playlist_line :: "live_env \<Rightarrow> SegmentEntry \<Rightarrow> string" where
  "playlist_line env e =
     (if sg_discontinuity e then ''#EXT-X-DISCONTINUITY'' @ [newline] else [])
     @ ''#EXTINF:'' @ le_extinf env (sg_duration e) @ '','' @ [newline]
     @ sg_filename e @ [newline]"

definition playlist_text :: "live_env \<Rightarrow> u64 \<Rightarrow> SegmentEntry list \<Rightarrow> string" where
  "playlist_text env target entries =
     (let media_sequence = (case entries of [] \<Rightarrow> 0 | e # _ \<Rightarrow> sg_seq e) in
      ''#EXTM3U'' @ [newline] @ ''#EXT-X-VERSION:3'' @ [newline]
      @ ''#EXT-X-INDEPENDENT-SEGMENTS'' @ [newline]
      @ ''#EXT-X-TARGETDURATION:'' @ show_nat target @ [newline]
      @ ''#EXT-X-MEDIA-SEQUENCE:'' @ show_nat media_sequence @ [newline]
      @ concat (map (playlist_line env) entries))"

definition playlist_path :: "string \<Rightarrow> string" where
  "playlist_path output_root = join_path output_root ''index.m3u8''"

definition publish_entries :: "live_env \<Rightarrow> u64 \<Rightarrow> string \<Rightarrow> SegmentEntry list \<Rightarrow> unit io" where
  "publish_entries env target output_root entries =
     publish_bytes (playlist_path output_root) (as_bytes (playlist_text env target entries))"

definition push_segment ::
    "live_env \<Rightarrow> PlaylistState \<Rightarrow> string \<Rightarrow> u64 \<Rightarrow> duration \<Rightarrow> bool \<Rightarrow> PlaylistState io" where
  "push_segment env pt output_root seq dur discontinuity =
     (let entries = pt_entries pt @ [\<lparr>sg_seq = seq, sg_duration = max dur 1000000,
            sg_filename = segment_name seq, sg_discontinuity = discontinuity\<rparr>];
          excess = length entries - pt_max_segments pt;
          evicted = map sg_filename (take excess entries);
          next_entries = drop excess entries in
      bindIO (publish_entries env (pt_target_duration_secs pt) output_root next_entries) (\<lambda>_.
      bindIO (forIO evicted (\<lambda>name. remove_if_exists (join_path output_root name))) (\<lambda>_.
      returnIO (pt\<lparr>pt_entries := next_entries\<rparr>))))"

section \<open>Sessions\<close>

definition load_session_gc_config :: "(string \<Rightarrow> string option) \<Rightarrow> u64 \<times> usize" where
  "load_session_gc_config getenv =
     (let parse = (\<lambda>name. case getenv name of None \<Rightarrow> None | Some v \<Rightarrow> parse_uint u64_max v) in
      (max (unwrap_or (parse ''LIVE_V2_SESSION_RETENTION_SECS'') 300) 30,
       max (unwrap_or (parse ''LIVE_V2_SESSION_KEEP_COUNT'') 3) 1))"

definition fs_read :: "string \<Rightarrow> bytes io" where
  "fs_read path = bindIO (fs_metadata path) (\<lambda>f. returnIO (f_data f))"

definition pointer_path :: "string \<Rightarrow> string" where
  "pointer_path camera_root = join_path camera_root ''current.json''"

definition read_current_generation :: "live_env \<Rightarrow> string \<Rightarrow> u64 io" where
  "read_current_generation env camera_root =
     bindIO (attemptIO (fs_read (pointer_path camera_root))) (\<lambda>r.
       returnIO (case r of
         Inl _ \<Rightarrow> 1
       | Inr raw \<Rightarrow>
           (case le_pointer_parse env raw of
              None \<Rightarrow> 1
            | Some ptr \<Rightarrow> max (saturating_add (sp_generation ptr) 1) 1)))"

definition write_current_session_pointer ::
    "live_env \<Rightarrow> string \<Rightarrow> LiveSessionContext \<Rightarrow> string \<Rightarrow> u64 \<Rightarrow> unit io" where
  "write_current_session_pointer env camera_root ses writer_state last_segment_seq =
     bindIO (getW w_utc) (\<lambda>now.
     publish_bytes (pointer_path camera_root)
       (le_pointer_json env
         \<lparr>sp_session_id = se_session_id ses, sp_started_at = le_rfc3339 env (se_started_at ses),
          sp_generation = se_generation ses, sp_writer_state = writer_state,
          sp_updated_at = le_rfc3339 env now, sp_last_segment_seq = last_segment_seq\<rparr>))"

definition initialize_live_session :: "live_env \<Rightarrow> string \<Rightarrow> LiveSessionContext io" where
  "initialize_live_session env camera_root =
     bindIO (fs_create_dir_all camera_root) (\<lambda>_.
     bindIO (read_current_generation env camera_root) (\<lambda>generation.
     bindIO (getW w_utc) (\<lambda>now.
     let session_id = le_session_id env now;
         session_output_root = join_path camera_root session_id in
     bindIO (fs_create_dir_all session_output_root) (\<lambda>_.
     returnIO \<lparr>se_session_id = session_id, se_output_root = session_output_root,
       se_generation = generation, se_started_at = now\<rparr>))))"

text \<open>
  Which session directories \<open>cleanup_old_sessions\<close> removes, given the entries of the camera
  directory: name, whether it is a directory, and modification time (nanoseconds).
\<close>

type_synonym dir_entry = "string \<times> bool \<times> nat"

definition old_sessions :: "string \<Rightarrow> dir_entry list \<Rightarrow> dir_entry list" where
  "old_sessions current_session_id entries =
     filter (\<lambda>(name, is_dir, modified). is_dir \<and> name \<noteq> current_session_id) entries"

text \<open>\<open>sort_by\<close> is stable, newest first.\<close>

definition newest_first :: "dir_entry list \<Rightarrow> dir_entry list" where
  "newest_first = sort_key (\<lambda>(name, is_dir, modified). - int modified)"

definition cleanup_old_sessions ::
    "string \<Rightarrow> u64 \<Rightarrow> usize \<Rightarrow> nat \<Rightarrow> dir_entry list \<Rightarrow> string list" where
  "cleanup_old_sessions current_session_id retention_secs keep_count now entries =
     (let sessions = newest_first (old_sessions current_session_id entries);
          keep_old = keep_count - 1 in
      map fst (filter (\<lambda>(name, is_dir, modified). (now - modified) div from_secs 1 > retention_secs)
        (drop keep_old sessions)))"

section \<open>The current segment\<close>

record CurrentSegment =
  cu_seq :: u64
  cu_writer :: MpegTsSegmentWriter
  cu_started_at :: instant
  cu_access_units_written :: u64
  cu_discontinuity :: bool

definition elapsed_secs :: "CurrentSegment \<Rightarrow> instant \<Rightarrow> duration" where
  "elapsed_secs cu now = now - cu_started_at cu"

text \<open>What \<open>handle_discontinuity\<close> and \<open>finalize_segment\<close> borrow from \<open>run_stream_v2\<close>.\<close>

record segmenter =
  sr_playlist :: PlaylistState
  sr_segment :: "CurrentSegment option"
  sr_pending_discontinuity :: bool
  sr_discontinuity_count :: u64
  sr_latest_segment_seq :: u64

definition live_build_access_unit :: "bytes list \<Rightarrow> u32 \<Rightarrow> LiveAccessUnit" where
  "live_build_access_unit nals rtp_timestamp =
     \<lparr>la_rtp_timestamp = rtp_timestamp, la_nals = nals,
      la_has_idr = list_ex (\<lambda>nal. nal_type_from_annexb nal = Some 5) nals\<rparr>"

definition open_segment :: "string \<Rightarrow> segmenter \<Rightarrow> segmenter io" where
  "open_segment root sr =
     (let (seq, path, pt) = next_segment_path (sr_playlist sr) root in
      bindIO (MpegTsSegmentWriter_create path) (\<lambda>sw.
      bindIO (getW w_now) (\<lambda>now.
      returnIO (sr\<lparr>sr_playlist := pt,
        sr_segment := Some \<lparr>cu_seq = seq, cu_writer = sw, cu_started_at = now,
          cu_access_units_written = 0, cu_discontinuity = sr_pending_discontinuity sr\<rparr>,
        sr_pending_discontinuity := False\<rparr>))))"

definition should_rotate_segment ::
    "CurrentSegment option \<Rightarrow> LiveAccessUnit \<Rightarrow> u64 \<Rightarrow> instant \<Rightarrow> bool" where
  "should_rotate_segment current next_au target_segment_secs now =
     (case current of
        None \<Rightarrow> False
      | Some cu \<Rightarrow> cu_access_units_written cu > 0
          \<and> elapsed_secs cu now \<ge> from_secs (max target_segment_secs 1) \<and> la_has_idr next_au)"

definition finalize_segment :: "live_env \<Rightarrow> string \<Rightarrow> segmenter \<Rightarrow> (bool \<times> segmenter) io" where
  "finalize_segment env root sr =
     (case sr_segment sr of
        None \<Rightarrow> returnIO (False, sr)
      | Some cu \<Rightarrow>
          let sr = sr\<lparr>sr_segment := None\<rparr> in
          if cu_access_units_written cu = 0 then
            bindIO (AtomicPublisher_discard (sw_publisher (cu_writer cu))) (\<lambda>_. returnIO (False, sr))
          else
            bindIO (getW w_now) (\<lambda>now.
            bindIO (AtomicPublisher_publish (sw_publisher (cu_writer cu))) (\<lambda>_.
            bindIO (push_segment env (sr_playlist sr) root (cu_seq cu) (elapsed_secs cu now)
                (cu_discontinuity cu)) (\<lambda>pt.
            returnIO (True, sr\<lparr>sr_playlist := pt, sr_latest_segment_seq := cu_seq cu\<rparr>)))))"

definition handle_discontinuity :: "live_env \<Rightarrow> string \<Rightarrow> segmenter \<Rightarrow> segmenter io" where
  "handle_discontinuity env root sr =
     (let saw_published_output = (sr_latest_segment_seq sr > 0 \<or> sr_segment sr \<noteq> None) in
      bindIO (finalize_segment env root sr) (\<lambda>(_, sr).
      returnIO (if saw_published_output
        then sr\<lparr>sr_pending_discontinuity := True,
               sr_discontinuity_count := saturating_add (sr_discontinuity_count sr) 1\<rparr>
        else sr)))"

section \<open>Statistics and health\<close>

definition live_mark_stream_error :: "LiveRuntimeStats \<Rightarrow> datetime \<Rightarrow> LiveRuntimeStats" where
  "live_mark_stream_error s now =
     s\<lparr>ls_total_parse_errors := saturating_add (ls_total_parse_errors s) 1,
       ls_last_error_at := Some now\<rparr>"

definition maybe_log_no_publish_watchdog ::
    "u64 \<Rightarrow> NoPublishEpisode \<Rightarrow> instant \<Rightarrow> NoPublishEpisode" where
  "maybe_log_no_publish_watchdog segment_seq ep now =
     (case np_first_rtp_at ep of
        None \<Rightarrow> ep
      | Some started \<Rightarrow>
          if segment_seq > np_segment_seq_at_start ep then NoPublishEpisode_default
          else if np_logged ep then ep
          else if now - started < from_secs 30 then ep
          else ep\<lparr>np_logged := True\<rparr>)"

definition live_health_state :: "datetime option \<Rightarrow> u64 \<Rightarrow> datetime \<Rightarrow> StreamHealthState" where
  "live_health_state last_rtp_at stale_secs now =
     (case last_rtp_at of
        None \<Rightarrow> HealthIdle
      | Some last_rtp_at \<Rightarrow>
          let elapsed_secs = nat (max (trunc_secs (now - last_rtp_at)) 0) in
          if elapsed_secs \<le> max stale_secs 1 then HealthReceiving else HealthStale)"

definition live_log_stream_stats ::
    "LivePipelineV2Config \<Rightarrow> LiveRuntimeStats \<Rightarrow> instant \<Rightarrow> LiveRuntimeStats" where
  "live_log_stream_stats cfg s now =
     (if recently (ls_last_stats_log_at s) now (from_secs (max (lc_stats_log_secs cfg) 5)) then s
      else s\<lparr>ls_last_stats_log_at := Some now\<rparr>)"

definition live_health_file :: "LivePipelineV2Config \<Rightarrow> string" where
  "live_health_file cfg =
     join_path (lc_health_dir cfg) (''stream_'' @ show_nat (lc_stream_id cfg) @ ''.health.json'')"

definition live_health_snapshot ::
    "live_env \<Rightarrow> LivePipelineV2Config \<Rightarrow> LiveRuntimeStats \<Rightarrow> segmenter \<Rightarrow> string \<Rightarrow> datetime
       \<Rightarrow> LiveHealthSnapshot" where
  "live_health_snapshot env cfg s sr session_id now =
     \<lparr>lh_stream_id = lc_stream_id cfg, lh_current_session_id = session_id,
      lh_state = live_health_state (ls_last_rtp_at s) (lc_stale_secs cfg) now,
      lh_updated_at = le_rfc3339 env now, lh_stale_after_secs = lc_stale_secs cfg,
      lh_ring_secs = 0, lh_clip_active = False, lh_clip_pending = False,
      lh_total_rtp_packets = ls_total_rtp_packets s,
      lh_total_access_units = ls_total_access_units s, lh_total_gaps = ls_total_gaps s,
      lh_total_motion_events = ls_total_motion_events s,
      lh_total_parse_errors = ls_total_parse_errors s,
      lh_last_rtp_at = map_option (le_rfc3339 env) (ls_last_rtp_at s),
      lh_last_access_unit_at = map_option (le_rfc3339 env) (ls_last_access_unit_at s),
      lh_last_gap_at = map_option (le_rfc3339 env) (ls_last_gap_at s),
      lh_last_motion_at = map_option (le_rfc3339 env) (ls_last_motion_at s),
      lh_last_error_at = map_option (le_rfc3339 env) (ls_last_error_at s),
      lh_last_idr_at = map_option (le_rfc3339 env) (ls_last_idr_at s),
      lh_last_segment_write_at = map_option (le_rfc3339 env) (ls_last_segment_write_at s),
      lh_last_segment_write_ts = map_option (le_rfc3339 env) (ls_last_segment_write_at s),
      lh_segment_seq = sr_latest_segment_seq sr,
      lh_discontinuity_count = sr_discontinuity_count sr\<rparr>"

definition live_write_stream_health ::
    "live_env \<Rightarrow> LivePipelineV2Config \<Rightarrow> LiveRuntimeStats \<Rightarrow> segmenter \<Rightarrow> string \<Rightarrow> unit io" where
  "live_write_stream_health env cfg s sr session_id =
     bindIO (getW w_utc) (\<lambda>now.
     publish_bytes (live_health_file cfg)
       (le_health_json env (live_health_snapshot env cfg s sr session_id now)))"

definition live_maybe_write_stream_health ::
    "live_env \<Rightarrow> LivePipelineV2Config \<Rightarrow> LiveRuntimeStats \<Rightarrow> segmenter \<Rightarrow> string
       \<Rightarrow> LiveRuntimeStats io" where
  "live_maybe_write_stream_health env cfg s sr session_id =
     bindIO (getW w_now) (\<lambda>now.
       if recently (ls_last_health_write_at s) now (from_secs 1) then returnIO s
       else bindIO (live_write_stream_health env cfg s sr session_id) (\<lambda>_.
         returnIO (s\<lparr>ls_last_health_write_at := Some now\<rparr>)))"

section \<open>The loop (\<open>run_stream_v2\<close>)\<close>

record live_media =
  lm_dep :: H264Depacketizer
  lm_sync_gate :: H264SyncGate
  lm_expected_seq :: "u16 option"
  lm_current_au_nals :: "bytes list"
  lm_current_au_rtp_ts :: "u32 option"

record live =
  lv_media :: live_media
  lv_segmenter :: segmenter
  lv_stats :: LiveRuntimeStats
  lv_episode :: NoPublishEpisode

definition live_init :: "LivePipelineV2Config \<Rightarrow> live" where
  "live_init cfg =
     \<lparr>lv_media = \<lparr>lm_dep = H264Depacketizer_new,
        lm_sync_gate = (case lc_h264_sync_seed cfg of
          None \<Rightarrow> H264SyncGate_new True
        | Some seed \<Rightarrow> set_sprop_param_sets (H264SyncGate_new True) (sd_sps_annexb seed)
            (sd_pps_annexb seed)),
        lm_expected_seq = None, lm_current_au_nals = [], lm_current_au_rtp_ts = None\<rparr>,
      lv_segmenter = \<lparr>sr_playlist = PlaylistState_new (lc_segment_secs cfg) (lc_window_secs cfg),
        sr_segment = None, sr_pending_discontinuity = False, sr_discontinuity_count = 0,
        sr_latest_segment_seq = 0\<rparr>,
      lv_stats = LiveRuntimeStats_default, lv_episode = NoPublishEpisode_default\<rparr>"

definition live_media_reset :: "live_media \<Rightarrow> u16 option \<Rightarrow> live_media" where
  "live_media_reset m expected =
     m\<lparr>lm_dep := H264Depacketizer_reset (lm_dep m), lm_sync_gate := H264SyncGate_reset (lm_sync_gate m),
       lm_expected_seq := expected, lm_current_au_nals := [], lm_current_au_rtp_ts := None\<rparr>"

definition live_break :: "live_env \<Rightarrow> LiveSessionContext \<Rightarrow> live \<Rightarrow> u16 option \<Rightarrow> live io" where
  "live_break env ses lv expected =
     bindIO (handle_discontinuity env (se_output_root ses) (lv_segmenter lv)) (\<lambda>sr.
     returnIO (lv\<lparr>lv_segmenter := sr, lv_media := live_media_reset (lv_media lv) expected\<rparr>))"

definition live_note_gap :: "live \<Rightarrow> datetime \<Rightarrow> live" where
  "live_note_gap lv utc =
     lv\<lparr>lv_stats := (lv_stats lv)\<lparr>
       ls_total_gaps := saturating_add (ls_total_gaps (lv_stats lv)) 1, ls_last_gap_at := Some utc\<rparr>\<rparr>"

definition live_on_gap :: "live_env \<Rightarrow> LiveSessionContext \<Rightarrow> live \<Rightarrow> live io" where
  "live_on_gap env ses lv =
     bindIO (getW w_utc) (\<lambda>utc. live_break env ses (live_note_gap lv utc) None)"

definition live_on_motion :: "live \<Rightarrow> datetime \<Rightarrow> live" where
  "live_on_motion lv utc =
     lv\<lparr>lv_stats := (lv_stats lv)\<lparr>
       ls_total_motion_events := saturating_add (ls_total_motion_events (lv_stats lv)) 1,
       ls_last_motion_at := Some utc\<rparr>\<rparr>"

definition live_on_error :: "live_env \<Rightarrow> LiveSessionContext \<Rightarrow> live \<Rightarrow> live io" where
  "live_on_error env ses lv =
     bindIO (getW w_utc) (\<lambda>utc.
     live_break env ses (lv\<lparr>lv_stats := live_mark_stream_error (lv_stats lv) utc\<rparr>) None)"

text \<open>A segment is closed before an IDR once it has lasted long enough.\<close>

definition live_rotate ::
    "live_env \<Rightarrow> LivePipelineV2Config \<Rightarrow> LiveSessionContext \<Rightarrow> live \<Rightarrow> LiveAccessUnit \<Rightarrow> live io" where
  "live_rotate env cfg ses lv au =
     bindIO (getW w_now) (\<lambda>now.
     if should_rotate_segment (sr_segment (lv_segmenter lv)) au (lc_segment_secs cfg) now then
       bindIO (finalize_segment env (se_output_root ses) (lv_segmenter lv)) (\<lambda>(published, sr).
       bindIO (if published
               then write_current_session_pointer env (lc_output_root cfg) ses ''ready''
                      (sr_latest_segment_seq sr)
               else returnIO ()) (\<lambda>_.
       returnIO (lv\<lparr>lv_segmenter := sr, lv_episode := NoPublishEpisode_default\<rparr>)))
     else returnIO lv)"

definition live_write_unit :: "live \<Rightarrow> LiveAccessUnit \<Rightarrow> live io" where
  "live_write_unit lv au =
     (case sr_segment (lv_segmenter lv) of
        None \<Rightarrow> returnIO lv
      | Some cu \<Rightarrow>
          bindIO (write_access_unit (cu_writer cu) au) (\<lambda>sw.
          bindIO (getW w_utc) (\<lambda>utc.
          returnIO (lv\<lparr>
            lv_segmenter := (lv_segmenter lv)\<lparr>sr_segment := Some (cu\<lparr>cu_writer := sw,
              cu_access_units_written := saturating_add (cu_access_units_written cu) 1\<rparr>)\<rparr>,
            lv_stats := (lv_stats lv)\<lparr>ls_last_segment_write_at := Some utc\<rparr>\<rparr>))))"

definition live_clear_pending :: "live \<Rightarrow> LiveAccessUnit \<Rightarrow> live" where
  "live_clear_pending lv au =
     (let sr = lv_segmenter lv in
      if sr_pending_discontinuity sr \<and> la_has_idr au \<and> sr_latest_segment_seq sr > 0
      then lv\<lparr>lv_segmenter := sr\<lparr>sr_pending_discontinuity := False\<rparr>\<rparr> else lv)"

definition live_on_access_unit ::
    "live_env \<Rightarrow> LivePipelineV2Config \<Rightarrow> LiveSessionContext \<Rightarrow> live \<Rightarrow> LiveAccessUnit \<Rightarrow> live io" where
  "live_on_access_unit env cfg ses lv au =
     bindIO (getW w_utc) (\<lambda>utc.
     let s = lv_stats lv;
         s = (if la_has_idr au then s\<lparr>ls_last_idr_at := Some utc\<rparr> else s);
         s = s\<lparr>ls_total_access_units := saturating_add (ls_total_access_units s) 1,
               ls_last_access_unit_at := Some utc\<rparr> in
     bindIO (live_rotate env cfg ses (lv\<lparr>lv_stats := s\<rparr>) au) (\<lambda>lv.
     if sr_segment (lv_segmenter lv) = None \<and> \<not> la_has_idr au then returnIO lv
     else
       bindIO (if sr_segment (lv_segmenter lv) = None
               then open_segment (se_output_root ses) (lv_segmenter lv)
               else returnIO (lv_segmenter lv)) (\<lambda>sr.
       bindIO (live_write_unit (lv\<lparr>lv_segmenter := sr\<rparr>) au) (\<lambda>lv.
       returnIO (live_clear_pending lv au)))))"

definition live_note_rtp :: "live \<Rightarrow> instant \<Rightarrow> datetime \<Rightarrow> live" where
  "live_note_rtp lv now utc =
     (let s = lv_stats lv;
          lv = lv\<lparr>lv_stats := s\<lparr>ls_total_rtp_packets := saturating_add (ls_total_rtp_packets s) 1,
                               ls_last_rtp_at := Some utc\<rparr>\<rparr> in
      if np_first_rtp_at (lv_episode lv) = None
      then lv\<lparr>lv_episode := \<lparr>np_first_rtp_at = Some now,
              np_segment_seq_at_start = sr_latest_segment_seq (lv_segmenter lv),
              np_logged = False\<rparr>\<rparr>
      else lv)"

text \<open>
  The rest of the packet path after the sequence check: depacketize, gate, and complete the
  access unit on the marker.
\<close>

definition live_on_payload ::
    "live_env \<Rightarrow> LivePipelineV2Config \<Rightarrow> LiveSessionContext \<Rightarrow> live \<Rightarrow> RtpPacket \<Rightarrow> live io" where
  "live_on_payload env cfg ses lv pkt =
     (let m = lv_media lv;
          m = m\<lparr>lm_expected_seq := Some (rp_sequence_number pkt + 1),
                lm_current_au_rtp_ts := or_else (lm_current_au_rtp_ts m) (Some (rp_timestamp pkt))\<rparr>;
          (r, dep) = push_rtp_payload (lm_dep m) (rp_payload pkt);
          m = m\<lparr>lm_dep := dep\<rparr> in
      case r of
        Panic \<Rightarrow> (\<lambda>w. (Panic, w))
      | Err _ \<Rightarrow> live_on_error env ses (lv\<lparr>lv_media := m\<rparr>)
      | Ok nals \<Rightarrow>
          let (gated, gate) = push_nals (lm_sync_gate m) nals;
              m = m\<lparr>lm_sync_gate := gate, lm_current_au_nals := lm_current_au_nals m @ gated\<rparr> in
          if \<not> rp_marker pkt then returnIO (lv\<lparr>lv_media := m\<rparr>)
          else if lm_current_au_nals m = []
          then returnIO (lv\<lparr>lv_media := m\<lparr>lm_current_au_rtp_ts := None\<rparr>\<rparr>)
          else
            live_on_access_unit env cfg ses
              (lv\<lparr>lv_media := m\<lparr>lm_current_au_nals := [], lm_current_au_rtp_ts := None\<rparr>\<rparr>)
              (live_build_access_unit (lm_current_au_nals m)
                (unwrap_or (lm_current_au_rtp_ts m) (rp_timestamp pkt))))"

definition live_on_rtp ::
    "live_env \<Rightarrow> LivePipelineV2Config \<Rightarrow> LiveSessionContext \<Rightarrow> live \<Rightarrow> bytes \<Rightarrow> live io" where
  "live_on_rtp env cfg ses lv data =
     bindIO (getW w_utc) (\<lambda>utc. bindIO (getW w_now) (\<lambda>now.
     let lv = live_note_rtp lv now utc in
     case RtpPacket_parse data of
       Panic \<Rightarrow> (\<lambda>w. (Panic, w))
     | Err _ \<Rightarrow> live_on_error env ses lv
     | Ok pkt \<Rightarrow>
         bindIO (if lm_expected_seq (lv_media lv) \<noteq> None
                   \<and> lm_expected_seq (lv_media lv) \<noteq> Some (rp_sequence_number pkt)
                 then live_break env ses (live_note_gap lv utc) (lm_expected_seq (lv_media lv))
                 else returnIO lv) (\<lambda>lv.
         live_on_payload env cfg ses lv pkt)))"

definition live_on_tick ::
    "live_env \<Rightarrow> LivePipelineV2Config \<Rightarrow> LiveSessionContext \<Rightarrow> live \<Rightarrow> live io" where
  "live_on_tick env cfg ses lv =
     bindIO (getW w_now) (\<lambda>now.
     let lv = lv\<lparr>lv_episode := maybe_log_no_publish_watchdog
                   (sr_latest_segment_seq (lv_segmenter lv)) (lv_episode lv) now,
                 lv_stats := live_log_stream_stats cfg (lv_stats lv) now\<rparr> in
     bindIO (live_maybe_write_stream_health env cfg (lv_stats lv) (lv_segmenter lv) (se_session_id ses))
       (\<lambda>s. returnIO (lv\<lparr>lv_stats := s\<rparr>)))"

definition live_step ::
    "live_env \<Rightarrow> LivePipelineV2Config \<Rightarrow> LiveSessionContext \<Rightarrow> live \<Rightarrow> pipe_event \<Rightarrow> live io" where
  "live_step env cfg ses lv ev =
     (case ev of
        PipeTick \<Rightarrow> live_on_tick env cfg ses lv
      | PipeMsg (GapMsg _ _) \<Rightarrow> live_on_gap env ses lv
      | PipeMsg (MotionMsg _ _ _) \<Rightarrow> bindIO (getW w_utc) (\<lambda>utc. returnIO (live_on_motion lv utc))
      | PipeMsg (RtpMsg data) \<Rightarrow> live_on_rtp env cfg ses lv data)"

text \<open>The channel is closed: publish what is there, then the pointer and the health file.\<close>

definition live_finish ::
    "live_env \<Rightarrow> LivePipelineV2Config \<Rightarrow> LiveSessionContext \<Rightarrow> live \<Rightarrow> unit io" where
  "live_finish env cfg ses lv =
     bindIO (finalize_segment env (se_output_root ses) (lv_segmenter lv)) (\<lambda>(published, sr).
     bindIO (if published
             then write_current_session_pointer env (lc_output_root cfg) ses ''ready''
                    (sr_latest_segment_seq sr)
             else returnIO ()) (\<lambda>_.
     bindIO (if sr_latest_segment_seq sr > 0
             then write_current_session_pointer env (lc_output_root cfg) ses ''stopped''
                    (sr_latest_segment_seq sr)
             else returnIO ()) (\<lambda>_.
     live_write_stream_health env cfg (lv_stats lv) sr (se_session_id ses))))"

definition run_stream_v2 ::
    "live_env \<Rightarrow> LivePipelineV2Config \<Rightarrow> (instant \<times> datetime \<times> pipe_event) list \<Rightarrow> unit io" where
  "run_stream_v2 env cfg evs =
     bindIO (initialize_live_session env (lc_output_root cfg)) (\<lambda>ses.
     bindIO (event_loop (live_step env cfg ses) (live_init cfg) evs) (\<lambda>lv.
     live_finish env cfg ses lv))"

section \<open>What a publisher promises\<close>

text \<open>The file so far is what is in the temporary file and in the buffer.\<close>

definition ap_holds :: "AtomicPublisher \<Rightarrow> world \<Rightarrow> bytes \<Rightarrow> bool" where
  "ap_holds ap w d \<longleftrightarrow>
     ap_temp_path ap = temp_path_for (ap_final_path ap) \<and> bw_path (ap_writer ap) = ap_temp_path ap
     \<and> (\<exists>f. file_data (ap_temp_path ap) w = Some f \<and> d = f @ bw_buf (ap_writer ap))"

definition touched :: "string \<Rightarrow> world \<Rightarrow> world \<Rightarrow> bool" where
  "touched p w w' \<longleftrightarrow> only_touches (temp_path_for p) w w'"

text \<open>A failed call has met a fault and touched the temporary file only.\<close>

definition spoiled :: "string \<Rightarrow> world \<Rightarrow> world \<Rightarrow> bool" where
  "spoiled p w w' \<longleftrightarrow> touched p w w' \<and> w_faults w \<noteq> []"

lemma touched_trans: "touched p w w1 \<Longrightarrow> touched p w1 w2 \<Longrightarrow> touched p w w2"
  unfolding touched_def by (rule only_touches_trans)

lemma touched_spoiled: "touched p w w1 \<Longrightarrow> spoiled p w1 w2 \<Longrightarrow> spoiled p w w2"
  by (auto simp: spoiled_def touched_def only_touches_def)

lemma spoil_intro: "touched p w w' \<Longrightarrow> w_faults w \<noteq> [] \<Longrightarrow> spoiled p w w'"
  by (simp add: spoiled_def)

lemma spoiled_data: "spoiled p w w' \<Longrightarrow> file_data p w' = file_data p w"
  unfolding spoiled_def touched_def by (elim conjE) (rule only_touches_data, auto simp: temp_path_for_def)

lemma ap_create_spec:
  "ends (AtomicPublisher_create p) w
     (\<lambda>ap w'. ap_final_path ap = p \<and> ap_holds ap w' [] \<and> touched p w w') (spoiled p w)"
  by (cases "w_faults w"; cases "tl (w_faults w)")
     (auto simp: ends_def AtomicPublisher_create_def Let_def fs_create_dir_all_def fs_create_def bindIO_def
       next_fault_def spoiled_def touched_def only_touches_def put_file_def AList.update_conv'
       ap_holds_def file_data_def split: option.splits)

lemma ap_write_spec:
  assumes "ap_holds ap w d"
  shows "ends (AtomicPublisher_write_all ap e) w
     (\<lambda>ap' w'. ap_final_path ap' = ap_final_path ap \<and> ap_holds ap' w' (d @ e)
        \<and> touched (ap_final_path ap) w w') (spoiled (ap_final_path ap) w)"
proof -
  obtain ok b w1 where b: "bw_write_all (ap_writer ap) e w = (Ok (ok, b), w1)"
    "bw_post (ap_writer ap) e w ok b w1"
    using bw_write_all_spec by blast
  with assms show ?thesis
    by (auto simp: ends_def AtomicPublisher_write_all_def bindIO_def bw_post_def ap_holds_def
        touched_def spoiled_def)
qed

lemma ap_publish_spec:
  assumes "ap_holds ap w d"
  shows "ends (AtomicPublisher_publish ap) w
     (\<lambda>_ w'. file_data (ap_final_path ap) w' = Some d \<and> w_now w' = w_now w \<and> w_utc w' = w_utc w
        \<and> (w_faults w = [] \<longrightarrow> w_faults w' = [])
        \<and> (\<forall>q. q \<noteq> ap_final_path ap \<and> q \<noteq> ap_temp_path ap \<longrightarrow> file_data q w' = file_data q w))
     (spoiled (ap_final_path ap) w)"
proof -
  obtain ok b w1 where b: "bw_flush_buf (ap_writer ap) w = (Ok (ok, b), w1)"
    "bw_post (ap_writer ap) [] w ok b w1" "ok \<longrightarrow> bw_buf b = []"
    using bw_flush_buf_spec by blast
  let ?p = "ap_final_path ap" and ?t = "ap_temp_path ap"
  have t: "?t = temp_path_for ?p" "?t \<noteq> ?p" "only_touches ?t w w1"
    using assms b(2) by (auto simp: ap_holds_def temp_path_for_def bw_post_def)
  show ?thesis
  proof (cases ok)
    case False
    with b t show ?thesis
      by (auto simp: ends_def AtomicPublisher_publish_def bindIO_def spoiled_def touched_def bw_post_def)
  next
    case True
    with b assms have "file_data ?t w1 = Some d" by (auto simp: ap_holds_def bw_post_def)
    note r = fs_rename_spec [OF this t(2)]
    have be: "benign (fs_rename ?t ?p)" by (intro benign_intros)
    show ?thesis
    proof (cases rule: r)
      case m: (1 w2)
      have "w_now w2 = w_now w1" "w_utc w2 = w_utc w1" "w_faults w1 = [] \<longrightarrow> w_faults w2 = []"
        using be m(1) unfolding benign_def by (metis snd_conv)+
      with m b(1) True t(3) only_touches_data [OF t(3)] show ?thesis
        by (auto simp: ends_def AtomicPublisher_publish_def bindIO_def only_touches_def)
    next
      case m: (2 e w2)
      have n: "w_now w2 = w_now w1" "w_utc w2 = w_utc w1" "w_files w2 = w_files w1"
        using be m(1) unfolding benign_def
        by (metis snd_conv, metis snd_conv)
           (use m(1) in \<open>auto simp: fs_rename_def bindIO_def next_fault_def
             split: list.splits option.splits prod.splits\<close>)
      with m b(1) True t show ?thesis
        by (auto simp: ends_def AtomicPublisher_publish_def bindIO_def spoiled_def touched_def
            only_touches_def)
    qed
  qed
qed

lemma publish_bytes_spec:
  "ends (publish_bytes p d) w
     (\<lambda>_ w'. file_data p w' = Some d \<and> w_now w' = w_now w \<and> w_utc w' = w_utc w
        \<and> (w_faults w = [] \<longrightarrow> w_faults w' = [])
        \<and> (\<forall>q. q \<noteq> p \<and> q \<noteq> temp_path_for p \<longrightarrow> file_data q w' = file_data q w))
     (spoiled p w)"
  unfolding publish_bytes_def ends_bind
proof (rule ends_mono [OF ap_create_spec])
  fix ap w1 assume 1: "ap_final_path ap = p \<and> ap_holds ap w1 [] \<and> touched p w w1"
  then have h: "ap_holds ap w1 []" by simp
  have t: "only_touches (temp_path_for p) w w1" using 1 by (simp add: touched_def)
  show "ends (AtomicPublisher_write_all ap d) w1 (\<lambda>x w'. ends (AtomicPublisher_publish x) w'
      (\<lambda>x w'. ends (returnIO ()) w' (\<lambda>_ w'. file_data p w' = Some d \<and> w_now w' = w_now w \<and> w_utc w' = w_utc w
        \<and> (w_faults w = [] \<longrightarrow> w_faults w' = [])
        \<and> (\<forall>q. q \<noteq> p \<and> q \<noteq> temp_path_for p \<longrightarrow> file_data q w' = file_data q w)) (spoiled p w))
      (spoiled p w)) (spoiled p w)"
  proof (rule ends_mono [OF ap_write_spec [OF h]])
    fix ap2 w2 assume 2: "ap_final_path ap2 = ap_final_path ap \<and> ap_holds ap2 w2 ([] @ d)
      \<and> touched (ap_final_path ap) w1 w2"
    then have h2: "ap_holds ap2 w2 d" and p2: "ap_final_path ap2 = p" "ap_temp_path ap2 = temp_path_for p"
      using 1 by (auto simp: ap_holds_def)
    have t2: "touched p w w2" using 1 2 touched_trans by auto
    show "ends (AtomicPublisher_publish ap2) w2
      (\<lambda>x w'. ends (returnIO ()) w' (\<lambda>_ w'. file_data p w' = Some d \<and> w_now w' = w_now w \<and> w_utc w' = w_utc w
        \<and> (w_faults w = [] \<longrightarrow> w_faults w' = [])
        \<and> (\<forall>q. q \<noteq> p \<and> q \<noteq> temp_path_for p \<longrightarrow> file_data q w' = file_data q w)) (spoiled p w))
      (spoiled p w)"
      by (rule ends_mono [OF ap_publish_spec [OF h2]])
         (use p2 t2 touched_spoiled [OF t2] in \<open>auto simp: touched_def only_touches_def file_data_def\<close>)
  qed (use 1 touched_spoiled in auto)
qed simp

lemma remove_if_exists_spec:
  "ends (remove_if_exists p) w
     (\<lambda>_ w'. w_now w' = w_now w \<and> w_utc w' = w_utc w \<and> (w_faults w = [] \<longrightarrow> w_faults w' = [])
        \<and> (\<forall>q. q \<noteq> p \<longrightarrow> file_data q w' = file_data q w))
     (\<lambda>w'. w_faults w \<noteq> [] \<and> (\<forall>q. file_data q w' = file_data q w))"
  by (cases "w_faults w"; cases "tl (w_faults w)")
     (auto simp: ends_def remove_if_exists_def fs_metadata_def fs_remove_def attemptIO_def bindIO_def
       next_fault_def file_data_def AList.delete_conv' split: option.splits sum.splits)

section \<open>The playlist\<close>

lemma parse_zeros [simp]: "parse_digits 0 (replicate n (CHR ''0'') @ s) = parse_digits 0 s"
  by (induction n) (simp_all add: digit_val_def)

lemma segment_name_inj [simp]: "segment_name a = segment_name b \<longleftrightarrow> a = b"
proof
  assume "segment_name a = segment_name b"
  then have "replicate (6 - length (show_nat a)) (CHR ''0'') @ show_nat a
      = replicate (6 - length (show_nat b)) (CHR ''0'') @ show_nat b"
    by (simp add: segment_name_def Let_def)
  from arg_cong [OF this, of "parse_digits 0"] show "a = b" by (simp add: parse_digits_show)
qed simp

lemma segment_name_chars [simp]:
  "newline \<notin> set (segment_name seq)" "hd (segment_name seq) = CHR ''s''" "segment_name seq \<noteq> []"
  "last (segment_name seq) = CHR ''s''"
  by (auto simp: segment_name_def Let_def newline_def [symmetric]) (simp_all add: newline_def)

text \<open>What a client fetches: the lines that are neither empty nor start with \<open>#\<close>.\<close>

definition playlist_uris :: "string \<Rightarrow> string list" where
  "playlist_uris text = filter (\<lambda>l. l \<noteq> [] \<and> hd l \<noteq> CHR ''#'') (split_on newline text)"

definition entry_lines :: "live_env \<Rightarrow> SegmentEntry \<Rightarrow> string list" where
  "entry_lines env e =
     (if sg_discontinuity e then [''#EXT-X-DISCONTINUITY''] else [])
     @ [''#EXTINF:'' @ le_extinf env (sg_duration e) @ '','', sg_filename e]"

definition header_lines :: "u64 \<Rightarrow> SegmentEntry list \<Rightarrow> string list" where
  "header_lines target entries =
     [''#EXTM3U'', ''#EXT-X-VERSION:3'', ''#EXT-X-INDEPENDENT-SEGMENTS'',
      ''#EXT-X-TARGETDURATION:'' @ show_nat target,
      ''#EXT-X-MEDIA-SEQUENCE:'' @ show_nat (case entries of [] \<Rightarrow> 0 | e # _ \<Rightarrow> sg_seq e)]"

lemma playlist_text_lines:
  "playlist_text env target entries
     = unlines (header_lines target entries @ concat (map (entry_lines env) entries))"
proof -
  have "concat (map (playlist_line env) es) = unlines (concat (map (entry_lines env) es))" for es
    by (induction es) (simp_all add: playlist_line_def entry_lines_def)
  then show ?thesis by (simp add: playlist_text_def header_lines_def Let_def)
qed

definition extinf_ok :: "live_env \<Rightarrow> bool" where
  "extinf_ok env \<longleftrightarrow> (\<forall>d. newline \<notin> set (le_extinf env d))"

definition entry_ok :: "SegmentEntry \<Rightarrow> bool" where
  "entry_ok e \<longleftrightarrow> sg_filename e = segment_name (sg_seq e)"

lemma uris_of_playlist:
  assumes "extinf_ok env" "\<forall>e \<in> set es. entry_ok e"
  shows "playlist_uris (playlist_text env target es) = map sg_filename es"
proof -
  have h: "\<forall>l \<in> set (header_lines target es). newline \<notin> set l \<and> hd l = CHR ''#''"
    by (auto simp: header_lines_def) (auto simp: newline_def)
  have e: "newline \<notin> set l" if "e \<in> set es" "l \<in> set (entry_lines env e)" for e l
    using that assms by (auto simp: entry_lines_def extinf_ok_def entry_ok_def split: if_splits)
       (auto simp: newline_def)
  have f: "filter (\<lambda>l. l \<noteq> [] \<and> hd l \<noteq> CHR ''#'') (concat (map (entry_lines env) es)) = map sg_filename es"
    using assms(2) by (induction es) (auto simp: entry_lines_def entry_ok_def)
  have "split_on newline (playlist_text env target es)
      = (header_lines target es @ concat (map (entry_lines env) es)) @ [[]]"
    unfolding playlist_text_lines using h e by (intro split_unlines) auto
  with h f show ?thesis by (simp add: playlist_uris_def filter_False)
qed

section \<open>What is on disk\<close>

abbreviation seg_path :: "string \<Rightarrow> u64 \<Rightarrow> string" where
  "seg_path root seq \<equiv> join_path root (segment_name seq)"

lemma path_simps [simp]:
  "last (seg_path root seq) = CHR ''s''" "last (playlist_path root) = CHR ''8''"
  "last (pointer_path root) = CHR ''n''" "last (live_health_file cfg) = CHR ''n''"
  "last (temp_path_for p) = CHR ''p''" "temp_path_for p = temp_path_for q \<longleftrightarrow> p = q"
  "seg_path root a = seg_path root b \<longleftrightarrow> a = b"
  by (simp_all add: join_path_def playlist_path_def pointer_path_def live_health_file_def temp_path_for_def
      last_append)

lemma last_neq: "last a \<noteq> last b \<Longrightarrow> a \<noteq> b"
  by auto

lemma path_distinct [simp]:
  "seg_path root seq \<noteq> playlist_path r" "playlist_path r \<noteq> seg_path root seq"
  "temp_path_for p \<noteq> seg_path root seq" "seg_path root seq \<noteq> temp_path_for p"
  "temp_path_for p \<noteq> playlist_path r" "playlist_path r \<noteq> temp_path_for p"
  by (rule last_neq, simp)+

definition on_disk :: "string \<Rightarrow> world \<Rightarrow> SegmentEntry \<Rightarrow> bool" where
  "on_disk root w e \<longleftrightarrow> entry_ok e \<and> file_data (join_path root (sg_filename e)) w \<noteq> None"

text \<open>The playlist on disk, if there is one, names only segments that are on disk.\<close>

definition listed :: "live_env \<Rightarrow> string \<Rightarrow> world \<Rightarrow> bool" where
  "listed env root w \<longleftrightarrow>
     file_data (playlist_path root) w = None
     \<or> (\<exists>target es. (\<forall>e \<in> set es. on_disk root w e)
          \<and> file_data (playlist_path root) w = Some (as_bytes (playlist_text env target es)))"

text \<open>What everything but publishing a segment leaves alone: segments and playlists.\<close>

definition kept :: "world \<Rightarrow> world \<Rightarrow> bool" where
  "kept w w' \<longleftrightarrow> (\<forall>q. last q \<in> {CHR ''s'', CHR ''8''} \<longrightarrow> file_data q w' = file_data q w)"

lemma kept_on_disk: "kept w w' \<Longrightarrow> on_disk root w' e = on_disk root w e"
proof (cases "entry_ok e")
  case True
  then have "last (join_path root (sg_filename e)) = CHR ''s''" by (simp add: entry_ok_def)
  then show "kept w w' \<Longrightarrow> ?thesis" by (simp add: on_disk_def kept_def)
qed (simp add: on_disk_def)

lemma kept_listed: "kept w w' \<Longrightarrow> listed env root w' = listed env root w"
  using path_simps(2) [of root] kept_on_disk [of w w' root] by (simp add: listed_def kept_def)

lemma listed_mono:
  assumes "listed env root w" "file_data (playlist_path root) w' = file_data (playlist_path root) w"
    and "\<And>e. on_disk root w e \<Longrightarrow> on_disk root w' e"
  shows "listed env root w'"
  using assms unfolding listed_def by metis

lemma kept_trans: "kept w w1 \<Longrightarrow> kept w1 w2 \<Longrightarrow> kept w w2"
  by (simp add: kept_def)

lemma touched_kept: "touched p w w' \<Longrightarrow> kept w w'"
  unfolding kept_def touched_def
proof (intro allI impI)
  fix q assume t: "only_touches (temp_path_for p) w w'" and q: "last q \<in> {CHR ''s'', CHR ''8''}"
  have "q \<noteq> temp_path_for p" by (rule last_neq) (use q in auto)
  then show "file_data q w' = file_data q w" by (rule only_touches_data [OF t])
qed

lemma spoiled_kept: "spoiled p w w' \<Longrightarrow> kept w w'"
  by (auto simp: spoiled_def intro: touched_kept)

lemma kept_set_time [simp]: "kept w (set_time t u w)"
  by (simp add: kept_def)

text \<open>Removing evicted segments.\<close>

lemma evict_spec:
  "ends (forIO names (\<lambda>name. remove_if_exists (join_path root name))) w
     (\<lambda>_ w'. \<forall>q. q \<notin> join_path root ` set names \<longrightarrow> file_data q w' = file_data q w)
     (\<lambda>w'. \<forall>q. q \<notin> join_path root ` set names \<longrightarrow> file_data q w' = file_data q w)"
proof (induction names arbitrary: w)
  case (Cons n ns)
  show ?case
    unfolding forIO.simps ends_bind
    by (rule ends_mono [OF remove_if_exists_spec [of "join_path root n" w]])
       (auto intro!: ends_mono [OF Cons.IH])
qed simp

definition numbered :: "nat \<Rightarrow> SegmentEntry list \<Rightarrow> bool" where
  "numbered n es \<longleftrightarrow> length es \<le> n \<and> map sg_seq es = [n - length es ..< n]"

lemma numbered_less: "numbered n es \<Longrightarrow> e \<in> set es \<Longrightarrow> sg_seq e < n"
  by (auto simp: numbered_def dest!: arg_cong [of _ _ set])

lemma numbered_push:
  assumes "numbered n es" "sg_seq e = n"
  shows "numbered (Suc n) (drop k (es @ [e]))"
proof -
  have "map sg_seq (drop k (es @ [e])) = drop k ([n - length es ..< n] @ [n])"
    using assms unfolding numbered_def by (simp only: drop_map [symmetric] map_append list.map)
  also have "\<dots> = drop k [n - length es ..< Suc n]" by simp
  also have "\<dots> = [n - length es + k ..< Suc n]" by (simp only: drop_upt)
  also have "[n - length es + k ..< Suc n] = [Suc n - length (drop k (es @ [e])) ..< Suc n]"
    using assms(1) by (cases "k \<le> Suc (length es)") (auto simp: numbered_def)
  finally have "map sg_seq (drop k (es @ [e])) = [Suc n - length (drop k (es @ [e])) ..< Suc n]" .
  moreover have "length (drop k (es @ [e])) \<le> Suc n" using assms(1) by (auto simp: numbered_def)
  ultimately show ?thesis unfolding numbered_def by blast
qed

lemma numbered_split:
  assumes "numbered n (es @ fs)" "e \<in> set es" "f \<in> set fs"
  shows "sg_seq e \<noteq> sg_seq f"
proof -
  have "distinct (map sg_seq (es @ fs))" using assms(1) by (simp only: numbered_def distinct_upt)
  with assms(2,3) show ?thesis by auto
qed

text \<open>Evicting some numbered segments leaves the others and the playlist alone.\<close>

lemma evicted_paths:
  assumes "numbered n (out @ es)" "\<forall>y \<in> set (out @ es). entry_ok y"
  shows "x \<in> set es \<Longrightarrow> join_path root (sg_filename x) \<notin> join_path root ` set (map sg_filename out)"
    and "playlist_path root \<notin> join_path root ` set (map sg_filename out)"
proof
  assume x: "x \<in> set es" and "join_path root (sg_filename x) \<in> join_path root ` set (map sg_filename out)"
  then obtain y where y: "y \<in> set out" "sg_filename x = sg_filename y" by (auto simp: join_path_def)
  with assms(2) x have "sg_seq x = sg_seq y" by (simp add: entry_ok_def)
  with numbered_split [OF assms(1) y(1) x] show False by simp
next
  show "playlist_path root \<notin> join_path root ` set (map sg_filename out)"
    using assms(2) by (auto simp: entry_ok_def)
qed

lemma evict_listed:
  assumes "numbered n (out @ es)" "\<forall>y \<in> set (out @ es). on_disk root w y"
    and "file_data (playlist_path root) w = Some (as_bytes (playlist_text env target es))"
    and "\<forall>q. q \<notin> join_path root ` set (map sg_filename out) \<longrightarrow> file_data q w' = file_data q w"
  shows "listed env root w' \<and> (\<forall>x \<in> set es. on_disk root w' x)"
proof -
  have ok: "\<forall>y \<in> set (out @ es). entry_ok y" using assms(2) by (auto simp: on_disk_def)
  have "\<forall>x \<in> set es. on_disk root w' x"
    using assms(2,4) evicted_paths(1) [OF assms(1) ok] by (auto simp: on_disk_def)
  moreover have "file_data (playlist_path root) w' = file_data (playlist_path root) w"
    using assms(4) evicted_paths(2) [OF assms(1) ok] by blast
  ultimately show ?thesis using assms(3) by (auto simp: listed_def)
qed

text \<open>
  Pushing a segment: the new playlist is published before the evicted segments are removed, so
  the playlist on disk never names a missing file, whichever call fails.
\<close>

lemma push_segment_spec:
  assumes "listed env root w" "\<forall>e \<in> set (pt_entries pt). on_disk root w e" "numbered seq (pt_entries pt)"
    and "file_data (seg_path root seq) w \<noteq> None"
  shows "ends (push_segment env pt root seq dur disc) w
    (\<lambda>pt' w'. listed env root w' \<and> (\<forall>e \<in> set (pt_entries pt'). on_disk root w' e)
       \<and> numbered (Suc seq) (pt_entries pt') \<and> length (pt_entries pt') \<le> pt_max_segments pt
       \<and> pt_next_segment_seq pt' = pt_next_segment_seq pt \<and> pt_max_segments pt' = pt_max_segments pt) (listed env root)"
proof -
  define e where "e = \<lparr>sg_seq = seq, sg_duration = max dur 1000000, sg_filename = segment_name seq,
    sg_discontinuity = disc\<rparr>"
  define k where "k = length (pt_entries pt @ [e]) - pt_max_segments pt"
  define out where "out = take k (pt_entries pt @ [e])"
  define es where "es = drop k (pt_entries pt @ [e])"
  have split: "out @ es = pt_entries pt @ [e]" by (simp only: out_def es_def append_take_drop_id)
  have all: "\<forall>x \<in> set (out @ es). on_disk root w x"
    using assms(2,4) unfolding split by (auto simp: on_disk_def entry_ok_def e_def)
  have num: "numbered (Suc seq) (out @ es)" "numbered (Suc seq) es"
    using numbered_push [OF assms(3), of e 0] numbered_push [OF assms(3), of e k]
    unfolding split by (simp_all add: e_def es_def)
  have pub: "\<forall>x \<in> set (out @ es). on_disk root w1 x"
    if "\<forall>q. q \<noteq> playlist_path root \<and> q \<noteq> temp_path_for (playlist_path root) \<longrightarrow> file_data q w1 = file_data q w" for w1
  proof
    fix x assume "x \<in> set (out @ es)"
    with all have x: "on_disk root w x" by blast
    then have "sg_filename x = segment_name (sg_seq x)" by (simp add: on_disk_def entry_ok_def)
    with x that show "on_disk root w1 x" by (simp add: on_disk_def)
  qed
  have run: "push_segment env pt root seq dur disc =
      bindIO (publish_bytes (playlist_path root) (as_bytes (playlist_text env (pt_target_duration_secs pt) es)))
        (\<lambda>_. bindIO (forIO (map sg_filename out) (\<lambda>name. remove_if_exists (join_path root name)))
          (\<lambda>_. returnIO (pt\<lparr>pt_entries := es\<rparr>)))"
    by (simp add: push_segment_def publish_entries_def Let_def e_def k_def out_def es_def)
  show ?thesis
    unfolding run ends_bind
  proof (rule ends_mono [OF publish_bytes_spec])
    fix w1 assume "spoiled (playlist_path root) w w1"
    then show "listed env root w1" using assms(1) kept_listed [OF spoiled_kept] by blast
  next
    fix x w1 assume 1: "file_data (playlist_path root) w1
        = Some (as_bytes (playlist_text env (pt_target_duration_secs pt) es)) \<and> w_now w1 = w_now w \<and> w_utc w1 = w_utc w
        \<and> (w_faults w = [] \<longrightarrow> w_faults w1 = [])
        \<and> (\<forall>q. q \<noteq> playlist_path root \<and> q \<noteq> temp_path_for (playlist_path root) \<longrightarrow> file_data q w1 = file_data q w)"
    have "length es \<le> pt_max_segments pt" by (simp add: es_def k_def)
    with 1 evict_listed [OF num(1) pub, of w1] num(2)
    show "ends (forIO (map sg_filename out) (\<lambda>name. remove_if_exists (join_path root name))) w1
      (\<lambda>x w'. ends (returnIO (pt\<lparr>pt_entries := es\<rparr>)) w'
        (\<lambda>pt' w'. listed env root w' \<and> (\<forall>e \<in> set (pt_entries pt'). on_disk root w' e)
           \<and> numbered (Suc seq) (pt_entries pt') \<and> length (pt_entries pt') \<le> pt_max_segments pt
           \<and> pt_next_segment_seq pt' = pt_next_segment_seq pt \<and> pt_max_segments pt' = pt_max_segments pt) (listed env root)) (listed env root)"
      by (intro ends_mono [OF evict_spec]) auto
  qed
qed

section \<open>The segmenter\<close>

definition unpublished :: "segmenter \<Rightarrow> nat" where
  "unpublished sr =
     (case sr_segment sr of None \<Rightarrow> pt_next_segment_seq (sr_playlist sr) | Some cu \<Rightarrow> cu_seq cu)"

definition writer_ok :: "string \<Rightarrow> CurrentSegment \<Rightarrow> world \<Rightarrow> bool" where
  "writer_ok root cu w \<longleftrightarrow>
     ap_final_path (sw_publisher (cu_writer cu)) = seg_path root (cu_seq cu)
     \<and> (\<exists>d. ap_holds (sw_publisher (cu_writer cu)) w d)"

text \<open>
  The state between two handlers: the playlist on disk is sound, the entries are numbered
  without a hole up to the segment being written, and that segment has something in it.
\<close>

definition live_inv :: "live_env \<Rightarrow> string \<Rightarrow> segmenter \<Rightarrow> world \<Rightarrow> bool" where
  "live_inv env root sr w \<longleftrightarrow>
     listed env root w \<and> (\<forall>e \<in> set (pt_entries (sr_playlist sr)). on_disk root w e)
     \<and> numbered (unpublished sr) (pt_entries (sr_playlist sr))
     \<and> length (pt_entries (sr_playlist sr)) \<le> pt_max_segments (sr_playlist sr)
     \<and> (\<forall>cu. sr_segment sr = Some cu \<longrightarrow> writer_ok root cu w
          \<and> pt_next_segment_seq (sr_playlist sr) = Suc (cu_seq cu))"

definition unit_written :: "segmenter \<Rightarrow> bool" where
  "unit_written sr \<longleftrightarrow> (\<forall>cu. sr_segment sr = Some cu \<longrightarrow> cu_access_units_written cu > 0)"

lemma live_inv_listed: "live_inv env root sr w \<Longrightarrow> listed env root w"
  by (simp add: live_inv_def)

text \<open>Publishing another file, not a segment or a playlist, keeps all of it.\<close>

lemma live_inv_publish:
  assumes "live_inv env root sr w" "last p = CHR ''n''"
    and "\<forall>q. q \<noteq> p \<and> q \<noteq> temp_path_for p \<longrightarrow> file_data q w' = file_data q w"
  shows "live_inv env root sr w'"
proof -
  have k: "kept w w'"
    unfolding kept_def
  proof (intro allI impI)
    fix q assume "last q \<in> {CHR ''s'', CHR ''8''}"
    then have "last q \<noteq> last p" "last q \<noteq> last (temp_path_for p)" using assms(2) by auto
    then have "q \<noteq> p \<and> q \<noteq> temp_path_for p" by auto
    with assms(3) show "file_data q w' = file_data q w" by blast
  qed
  have "writer_ok root cu w'" if "writer_ok root cu w" for cu
  proof -
    let ?f = "seg_path root (cu_seq cu)"
    have "?f \<noteq> p" by (rule last_neq) (simp add: assms(2))
    then have "temp_path_for ?f \<noteq> temp_path_for p" by simp
    moreover have "temp_path_for ?f \<noteq> p" by (rule last_neq) (simp add: assms(2))
    ultimately have "file_data (temp_path_for ?f) w' = file_data (temp_path_for ?f) w"
      using assms(3) by blast
    with that show ?thesis by (auto simp: writer_ok_def ap_holds_def)
  qed
  with assms(1) kept_listed [OF k] kept_on_disk [OF k] show ?thesis by (simp add: live_inv_def)
qed

lemma publish_bytes_inv:
  assumes "live_inv env root sr w" "last p = CHR ''n''"
  shows "ends (publish_bytes p d) w (\<lambda>_ w'. live_inv env root sr w') (listed env root)"
proof (rule ends_mono [OF publish_bytes_spec])
  fix w' assume "spoiled p w w'"
  then show "listed env root w'" using kept_listed [OF spoiled_kept] live_inv_listed [OF assms(1)] by blast
next
  fix x w' assume "file_data p w' = Some d \<and> w_now w' = w_now w \<and> w_utc w' = w_utc w
    \<and> (w_faults w = [] \<longrightarrow> w_faults w' = []) \<and> (\<forall>q. q \<noteq> p \<and> q \<noteq> temp_path_for p \<longrightarrow> file_data q w' = file_data q w)"
  then show "live_inv env root sr w'" using live_inv_publish [OF assms] by blast
qed

lemma writer_ok_set_time [simp]: "writer_ok root cu (set_time t u w) = writer_ok root cu w"
  by (simp add: writer_ok_def ap_holds_def)

lemma live_inv_set_time: "live_inv env root sr w \<Longrightarrow> live_inv env root sr (set_time t u w)"
  using kept_listed [OF kept_set_time] kept_on_disk [OF kept_set_time]
  by (simp add: live_inv_def)

lemma finalize_segment_inv:
  assumes "live_inv env root sr w" "unit_written sr"
  shows "ends (finalize_segment env root sr) w
    (\<lambda>(_, sr') w'. live_inv env root sr' w' \<and> sr_segment sr' = None) (listed env root)"
proof (cases "sr_segment sr")
  case None
  with assms show ?thesis by (simp add: finalize_segment_def)
next
  case (Some cu)
  with assms obtain d where h: "ap_holds (sw_publisher (cu_writer cu)) w d"
    and f: "ap_final_path (sw_publisher (cu_writer cu)) = seg_path root (cu_seq cu)"
    and n: "cu_access_units_written cu > 0" "numbered (cu_seq cu) (pt_entries (sr_playlist sr))"
      "pt_next_segment_seq (sr_playlist sr) = Suc (cu_seq cu)"
    and l: "listed env root w" "\<forall>e \<in> set (pt_entries (sr_playlist sr)). on_disk root w e"
    by (auto simp: live_inv_def writer_ok_def unit_written_def unpublished_def)
  have t: "ap_temp_path (sw_publisher (cu_writer cu)) = temp_path_for (seg_path root (cu_seq cu))"
    using h f by (simp add: ap_holds_def)
  have run: "finalize_segment env root sr w = bindIO (AtomicPublisher_publish (sw_publisher (cu_writer cu))) (\<lambda>_.
      bindIO (push_segment env (sr_playlist sr) root (cu_seq cu) (elapsed_secs cu (w_now w)) (cu_discontinuity cu))
        (\<lambda>pt. returnIO (True, sr\<lparr>sr_segment := None, sr_playlist := pt, sr_latest_segment_seq := cu_seq cu\<rparr>))) w"
    using Some n(1) by (simp add: finalize_segment_def Let_def)
  show ?thesis
    unfolding ends_def run
  proof (fold ends_def, unfold ends_bind, rule ends_mono [OF ap_publish_spec [OF h]])
    fix w' assume "spoiled (ap_final_path (sw_publisher (cu_writer cu))) w w'"
    then show "listed env root w'" using kept_listed [OF spoiled_kept] l(1) by blast
  next
    fix x w1 assume 1: "file_data (ap_final_path (sw_publisher (cu_writer cu))) w1 = Some d \<and> w_now w1 = w_now w
      \<and> w_utc w1 = w_utc w \<and> (w_faults w = [] \<longrightarrow> w_faults w1 = [])
      \<and> (\<forall>q. q \<noteq> ap_final_path (sw_publisher (cu_writer cu)) \<and> q \<noteq> ap_temp_path (sw_publisher (cu_writer cu))
           \<longrightarrow> file_data q w1 = file_data q w)"
    have e: "on_disk root w1 y" if "on_disk root w y" for y
      using that 1 f t by (cases "sg_seq y = cu_seq cu") (auto simp: on_disk_def entry_ok_def)
    have "file_data (playlist_path root) w1 = file_data (playlist_path root) w" using 1 f t by simp
    then have "listed env root w1" using listed_mono [OF l(1)] e by blast
    moreover have "\<forall>y \<in> set (pt_entries (sr_playlist sr)). on_disk root w1 y" using l(2) e by blast
    moreover have "file_data (seg_path root (cu_seq cu)) w1 \<noteq> None" using 1 f by simp
    ultimately show "ends (push_segment env (sr_playlist sr) root (cu_seq cu) (elapsed_secs cu (w_now w))
        (cu_discontinuity cu)) w1 (\<lambda>pt w'. ends (returnIO (True, sr\<lparr>sr_segment := None, sr_playlist := pt,
          sr_latest_segment_seq := cu_seq cu\<rparr>)) w'
        (\<lambda>(_, sr') w'. live_inv env root sr' w' \<and> sr_segment sr' = None) (listed env root)) (listed env root)"
      using n by (intro ends_mono [OF push_segment_spec]) (auto simp: live_inv_def unpublished_def)
  qed
qed

lemma handle_discontinuity_inv:
  assumes "live_inv env root sr w" "unit_written sr"
  shows "ends (handle_discontinuity env root sr) w
    (\<lambda>sr' w'. live_inv env root sr' w' \<and> sr_segment sr' = None) (listed env root)"
  unfolding handle_discontinuity_def Let_def ends_bind
  by (rule ends_mono [OF finalize_segment_inv [OF assms]])
     (auto simp: live_inv_def unpublished_def)

lemma live_inv_touched:
  assumes "live_inv env root sr w" "sr_segment sr = None" "touched p w w'"
  shows "live_inv env root sr w'"
  using assms kept_listed [OF touched_kept [OF assms(3)]] kept_on_disk [OF touched_kept [OF assms(3)]]
  by (simp add: live_inv_def)

definition tables :: bytes where
  "tables = fst (build_pat_packet 0) @ fst (build_pmt_packet 0)"

lemma segment_create_spec:
  "ends (MpegTsSegmentWriter_create p) w
    (\<lambda>sw w'. touched p w w' \<and> ap_final_path (sw_publisher sw) = p \<and> sw_video_cc sw = 0
       \<and> ap_holds (sw_publisher sw) w' tables) (spoiled p w)"
proof -
  obtain pat pat_cc pmt pmt_cc where p: "build_pat_packet 0 = (pat, pat_cc)" "build_pmt_packet 0 = (pmt, pmt_cc)"
    by (cases "build_pat_packet 0"; cases "build_pmt_packet 0")
  let ?P = "\<lambda>sw w'. touched p w w' \<and> ap_final_path (sw_publisher sw) = p \<and> sw_video_cc sw = 0
       \<and> ap_holds (sw_publisher sw) w' tables"
  let ?ret = "\<lambda>ap. returnIO \<lparr>sw_publisher = ap, sw_pat_cc = pat_cc, sw_pmt_cc = pmt_cc, sw_video_cc = 0\<rparr>"
  show ?thesis
    unfolding MpegTsSegmentWriter_create_def p Let_def prod.case ends_bind
  proof (rule ends_mono [OF ap_create_spec])
    fix ap w1 assume 1: "ap_final_path ap = p \<and> ap_holds ap w1 [] \<and> touched p w w1"
    then have h: "ap_holds ap w1 []" by simp
    show "ends (AtomicPublisher_write_all ap pat) w1 (\<lambda>ap w'. ends (AtomicPublisher_write_all ap pmt) w' (\<lambda>ap w'.
        ends (?ret ap) w' ?P (spoiled p w)) (spoiled p w)) (spoiled p w)"
    proof (rule ends_mono [OF ap_write_spec [OF h]])
      fix ap2 w2 assume 2: "ap_final_path ap2 = ap_final_path ap \<and> ap_holds ap2 w2 ([] @ pat)
        \<and> touched (ap_final_path ap) w1 w2"
      then have h2: "ap_holds ap2 w2 pat" by simp
      have t2: "touched p w w2" using 1 2 touched_trans by auto
      show "ends (AtomicPublisher_write_all ap2 pmt) w2 (\<lambda>ap w'. ends (?ret ap) w' ?P (spoiled p w)) (spoiled p w)"
        by (rule ends_mono [OF ap_write_spec [OF h2]])
           (use 1 2 touched_trans [OF t2] touched_spoiled [OF t2] in \<open>auto simp: tables_def p\<close>)
    qed (use 1 touched_spoiled in auto)
  qed simp
qed

lemma write_access_unit_spec:
  assumes "ap_holds (sw_publisher sw) w d"
    and "packetize_ts VIDEO_PID (build_pes_video (ucast (la_rtp_timestamp au)) (concat (la_nals au)))
      (sw_video_cc sw) True = (ts, cc)"
  shows "ends (write_access_unit sw au) w
    (\<lambda>sw' w'. ap_final_path (sw_publisher sw') = ap_final_path (sw_publisher sw)
       \<and> ap_holds (sw_publisher sw') w' (d @ ts) \<and> sw_video_cc sw' = cc
       \<and> touched (ap_final_path (sw_publisher sw)) w w') (spoiled (ap_final_path (sw_publisher sw)) w)"
  unfolding write_access_unit_def assms(2) Let_def prod.case ends_bind
  by (rule ends_mono [OF ap_write_spec [OF assms(1)]]) auto

lemma open_segment_inv:
  assumes "live_inv env root sr w" "sr_segment sr = None"
  shows "ends (open_segment root sr) w (\<lambda>sr' w'. live_inv env root sr' w' \<and> sr_segment sr' \<noteq> None)
    (listed env root)"
  unfolding open_segment_def next_segment_path_def Let_def prod.case ends_bind
proof (rule ends_mono [OF segment_create_spec])
  let ?seq = "pt_next_segment_seq (sr_playlist sr)"
  fix w' assume "spoiled (seg_path root ?seq) w w'"
  then show "listed env root w'" using kept_listed [OF spoiled_kept] live_inv_listed [OF assms(1)] by blast
next
  let ?seq = "pt_next_segment_seq (sr_playlist sr)"
  fix sw :: MpegTsSegmentWriter and w'
  assume t: "touched (seg_path root ?seq) w w' \<and> ap_final_path (sw_publisher sw) = seg_path root ?seq
     \<and> sw_video_cc sw = 0 \<and> ap_holds (sw_publisher sw) w' tables"
  then have "live_inv env root sr w'" using live_inv_touched [OF assms] by blast
  with t assms(2)
  show "ends (getW w_now) w' (\<lambda>x w'. ends (returnIO (sr\<lparr>sr_playlist := (sr_playlist sr)
        \<lparr>pt_next_segment_seq := ?seq + 1\<rparr>, sr_segment := Some \<lparr>cu_seq = ?seq, cu_writer = sw,
        cu_started_at = x, cu_access_units_written = 0, cu_discontinuity = sr_pending_discontinuity sr\<rparr>,
        sr_pending_discontinuity := False\<rparr>)) w'
      (\<lambda>sr' w'. live_inv env root sr' w' \<and> sr_segment sr' \<noteq> None) (listed env root)) (listed env root)"
    by (auto simp: live_inv_def writer_ok_def unpublished_def)
qed

lemma live_write_unit_inv:
  assumes "live_inv env root (lv_segmenter lv) w" "sr_segment (lv_segmenter lv) \<noteq> None"
  shows "ends (live_write_unit lv au) w
    (\<lambda>lv' w'. live_inv env root (lv_segmenter lv') w' \<and> unit_written (lv_segmenter lv')
       \<and> lv_media lv' = lv_media lv) (listed env root)"
proof -
  obtain cu where cu: "sr_segment (lv_segmenter lv) = Some cu" using assms(2) by blast
  then obtain d where h: "ap_holds (sw_publisher (cu_writer cu)) w d"
    and f: "ap_final_path (sw_publisher (cu_writer cu)) = seg_path root (cu_seq cu)"
    using assms(1) by (auto simp: live_inv_def writer_ok_def)
  obtain ts cc where "packetize_ts VIDEO_PID (build_pes_video (ucast (la_rtp_timestamp au)) (concat (la_nals au)))
      (sw_video_cc (cu_writer cu)) True = (ts, cc)" by fastforce
  note wr = write_access_unit_spec [OF h this]
  show ?thesis
    unfolding live_write_unit_def cu option.case ends_bind
  proof (rule ends_mono [OF wr])
    fix w' assume "spoiled (ap_final_path (sw_publisher (cu_writer cu))) w w'"
    then show "listed env root w'" using kept_listed [OF spoiled_kept] live_inv_listed [OF assms(1)] by blast
  next
    fix sw :: MpegTsSegmentWriter and w'
    assume 1: "ap_final_path (sw_publisher sw) = ap_final_path (sw_publisher (cu_writer cu))
       \<and> ap_holds (sw_publisher sw) w' (d @ ts) \<and> sw_video_cc sw = cc
       \<and> touched (ap_final_path (sw_publisher (cu_writer cu))) w w'"
    then have k: "kept w w'" using touched_kept by blast
    have "saturating_add (cu_access_units_written cu) (Suc 0) > 0" by (simp add: saturating_add_def u64_max_def)
    with 1 assms(1) cu f kept_listed [OF k] kept_on_disk [OF k]
    show "ends (getW w_utc) w' (\<lambda>utc w'. ends (returnIO (lv\<lparr>
        lv_segmenter := (lv_segmenter lv)\<lparr>sr_segment := Some (cu\<lparr>cu_writer := sw,
          cu_access_units_written := saturating_add (cu_access_units_written cu) 1\<rparr>)\<rparr>,
        lv_stats := (lv_stats lv)\<lparr>ls_last_segment_write_at := Some utc\<rparr>\<rparr>)) w'
      (\<lambda>lv' w'. live_inv env root (lv_segmenter lv') w' \<and> unit_written (lv_segmenter lv')
       \<and> lv_media lv' = lv_media lv) (listed env root))
      (listed env root)"
      by (auto simp: live_inv_def writer_ok_def unpublished_def unit_written_def)
  qed
qed

section \<open>The loop keeps the playlist sound\<close>

definition live_ok :: "live_env \<Rightarrow> LiveSessionContext \<Rightarrow> live \<Rightarrow> world \<Rightarrow> bool" where
  "live_ok env ses lv w \<longleftrightarrow>
     live_inv env (se_output_root ses) (lv_segmenter lv) w \<and> unit_written (lv_segmenter lv)
     \<and> dep_inv (lm_dep (lv_media lv))"

lemma pointer_inv:
  assumes "live_inv env root sr w"
  shows "ends (write_current_session_pointer env camera ses st n) w (\<lambda>_ w'. live_inv env root sr w') (listed env root)"
  unfolding write_current_session_pointer_def ends_bind
  by (simp, rule publish_bytes_inv [OF assms]) simp

lemma health_inv:
  assumes "live_inv env root sr w"
  shows "ends (live_write_stream_health env cfg s sr' sid) w (\<lambda>_ w'. live_inv env root sr w') (listed env root)"
  unfolding live_write_stream_health_def ends_bind
  by (simp, rule publish_bytes_inv [OF assms]) simp

lemma live_break_ok:
  assumes "live_ok env ses lv w"
  shows "ends (live_break env ses lv expected) w (live_ok env ses) (listed env (se_output_root ses))"
  unfolding live_break_def ends_bind
  by (rule ends_mono [OF handle_discontinuity_inv])
     (use assms in \<open>auto simp: live_ok_def unit_written_def live_media_reset_def h264.reset_inv\<close>)

lemma live_on_error_ok:
  assumes "live_ok env ses lv w"
  shows "ends (live_on_error env ses lv) w (live_ok env ses) (listed env (se_output_root ses))"
  unfolding live_on_error_def ends_bind
  by (simp, rule live_break_ok) (use assms in \<open>simp add: live_ok_def\<close>)

lemma live_rotate_ok:
  assumes "live_ok env ses lv w"
  shows "ends (live_rotate env cfg ses lv au) w (live_ok env ses) (listed env (se_output_root ses))"
proof -
  let ?root = "se_output_root ses"
  have i: "live_inv env ?root (lv_segmenter lv) w" "unit_written (lv_segmenter lv)"
    using assms by (simp_all add: live_ok_def)
  have "ends (finalize_segment env ?root (lv_segmenter lv)) w (\<lambda>x w'. ends ((\<lambda>(published, sr).
      bindIO (if published then write_current_session_pointer env (lc_output_root cfg) ses ''ready''
          (sr_latest_segment_seq sr) else returnIO ())
        (\<lambda>_. returnIO (lv\<lparr>lv_segmenter := sr, lv_episode := NoPublishEpisode_default\<rparr>))) x) w'
      (live_ok env ses) (listed env ?root)) (listed env ?root)"
  proof (rule ends_mono [OF finalize_segment_inv [OF i]], clarify)
    fix published sr w' assume l: "live_inv env ?root sr w'" and n: "sr_segment sr = None"
    have "live_ok env ses (lv\<lparr>lv_segmenter := sr, lv_episode := NoPublishEpisode_default\<rparr>) w''"
      if "live_inv env ?root sr w''" for w''
      using that n assms by (simp add: live_ok_def unit_written_def)
    with l show "ends (bindIO (if published then write_current_session_pointer env (lc_output_root cfg) ses ''ready''
          (sr_latest_segment_seq sr) else returnIO ())
        (\<lambda>_. returnIO (lv\<lparr>lv_segmenter := sr, lv_episode := NoPublishEpisode_default\<rparr>))) w'
      (live_ok env ses) (listed env ?root)"
      unfolding ends_bind
      by (cases published) (auto simp: ends_mono [OF pointer_inv [OF l]])
  qed
  with assms show ?thesis unfolding live_rotate_def by (simp add: ends_bind)
qed

lemma live_inv_pending [simp]:
  "live_inv env root (sr\<lparr>sr_pending_discontinuity := b\<rparr>) w = live_inv env root sr w"
  "unit_written (sr\<lparr>sr_pending_discontinuity := b\<rparr>) = unit_written sr"
  by (cases "sr_segment sr", simp_all add: live_inv_def unpublished_def unit_written_def)

lemma live_on_access_unit_ok:
  assumes "live_ok env ses lv w"
  shows "ends (live_on_access_unit env cfg ses lv au) w (live_ok env ses) (listed env (se_output_root ses))"
proof -
  let ?root = "se_output_root ses"
  define s where "s = (let s = lv_stats lv;
         s = (if la_has_idr au then s\<lparr>ls_last_idr_at := Some (w_utc w)\<rparr> else s) in
         s\<lparr>ls_total_access_units := saturating_add (ls_total_access_units s) 1,
               ls_last_access_unit_at := Some (w_utc w)\<rparr>)"
  have "live_ok env ses (lv\<lparr>lv_stats := s\<rparr>) w" using assms by (simp add: live_ok_def)
  note rot = live_rotate_ok [OF this]
  have fill: "ends (live_write_unit (lv1\<lparr>lv_segmenter := sr\<rparr>) au) w2
      (\<lambda>lv w'. ends (returnIO (live_clear_pending lv au)) w' (live_ok env ses) (listed env ?root)) (listed env ?root)"
    if "live_inv env ?root sr w2" "sr_segment sr \<noteq> None" "dep_inv (lm_dep (lv_media lv1))" for lv1 sr w2
    by (rule ends_mono [OF live_write_unit_inv])
       (use that in \<open>auto simp: live_ok_def live_clear_pending_def Let_def\<close>)
  have run: "live_on_access_unit env cfg ses lv au w = bindIO (live_rotate env cfg ses (lv\<lparr>lv_stats := s\<rparr>) au) (\<lambda>lv.
     if sr_segment (lv_segmenter lv) = None \<and> \<not> la_has_idr au then returnIO lv
     else
       bindIO (if sr_segment (lv_segmenter lv) = None
               then open_segment ?root (lv_segmenter lv)
               else returnIO (lv_segmenter lv)) (\<lambda>sr.
       bindIO (live_write_unit (lv\<lparr>lv_segmenter := sr\<rparr>) au) (\<lambda>lv.
       returnIO (live_clear_pending lv au)))) w"
    by (simp add: live_on_access_unit_def s_def Let_def)
  show ?thesis
    unfolding ends_def run
  proof (fold ends_def, unfold ends_bind, rule ends_mono [OF rot])
    fix lv1 w1 assume ok: "live_ok env ses lv1 w1"
    then have i: "live_inv env ?root (lv_segmenter lv1) w1" "dep_inv (lm_dep (lv_media lv1))"
      by (simp_all add: live_ok_def)
    show "ends (if sr_segment (lv_segmenter lv1) = None \<and> \<not> la_has_idr au then returnIO lv1
     else
       bindIO (if sr_segment (lv_segmenter lv1) = None
               then open_segment ?root (lv_segmenter lv1)
               else returnIO (lv_segmenter lv1)) (\<lambda>sr.
       bindIO (live_write_unit (lv1\<lparr>lv_segmenter := sr\<rparr>) au) (\<lambda>lv.
       returnIO (live_clear_pending lv au)))) w1 (live_ok env ses) (listed env ?root)"
    proof (cases "sr_segment (lv_segmenter lv1) = None")
      case True
      with ok fill i(2) show ?thesis
        by (auto simp: ends_bind intro!: ends_mono [OF open_segment_inv [OF i(1)]])
    next
      case False
      from fill [OF i(1) False i(2)] False show ?thesis by (auto simp: ends_bind)
    qed
  qed
qed

lemma live_on_payload_ok:
  assumes "live_ok env ses lv w"
  shows "ends (live_on_payload env cfg ses lv pkt) w (live_ok env ses) (listed env (se_output_root ses))"
proof -
  have "dep_inv (lm_dep (lv_media lv))" using assms by (simp add: live_ok_def)
  note push = h264.push_cases [OF this, of "rp_payload pkt"]
  show ?thesis
  proof (cases rule: push)
    case p: (2 e d)
    then show ?thesis
      unfolding live_on_payload_def Let_def
      by (simp, intro live_on_error_ok) (use assms in \<open>simp add: live_ok_def\<close>)
  next
    case p: (1 ns d)
    obtain gated gate where g: "push_nals (lm_sync_gate (lv_media lv)) ns = (gated, gate)" by fastforce
    have "live_ok env ses (lv\<lparr>lv_media := m\<rparr>) w" if "lm_dep m = d" for m :: live_media
      using that assms p(2) by (simp add: live_ok_def)
    with p g show ?thesis
      unfolding live_on_payload_def Let_def by (auto intro!: live_on_access_unit_ok)
  qed
qed

lemma live_note_rtp_ok: "live_ok env ses lv w \<Longrightarrow> live_ok env ses (live_note_rtp lv now utc) w"
  by (simp add: live_ok_def live_note_rtp_def Let_def)

lemma live_on_rtp_ok:
  assumes "live_ok env ses lv w"
  shows "ends (live_on_rtp env cfg ses lv data) w (live_ok env ses) (listed env (se_output_root ses))"
proof -
  let ?lv = "live_note_rtp lv (w_now w) (w_utc w)"
  have ok: "live_ok env ses ?lv w" "live_ok env ses (live_note_gap ?lv (w_utc w)) w"
    using live_note_rtp_ok [OF assms] by (simp_all add: live_ok_def live_note_gap_def)
  show ?thesis
  proof (cases "RtpPacket_parse data")
    case Panic
    then show ?thesis using parse_no_panic by simp
  next
    case (Err e)
    with live_on_error_ok [OF ok(1)] show ?thesis by (simp add: live_on_rtp_def ends_bind Let_def)
  next
    case (Ok pkt)
    then show ?thesis
      unfolding live_on_rtp_def
      by (auto simp: ends_bind Let_def intro!: live_on_payload_ok ok ends_mono [OF live_break_ok [OF ok(2)]])
  qed
qed

lemma live_on_tick_ok:
  assumes "live_ok env ses lv w"
  shows "ends (live_on_tick env cfg ses lv) w (live_ok env ses) (listed env (se_output_root ses))"
  using assms
  by (auto simp: live_on_tick_def live_maybe_write_stream_health_def ends_bind Let_def live_ok_def
      intro!: ends_mono [OF health_inv])

lemma live_step_ok:
  assumes "live_ok env ses lv w"
  shows "ends (live_step env cfg ses lv ev) w (live_ok env ses) (listed env (se_output_root ses))"
proof (cases ev)
  case PipeTick
  with assms show ?thesis by (simp add: live_step_def live_on_tick_ok)
next
  case (PipeMsg msg)
  with assms show ?thesis
    by (cases msg) (auto simp: live_step_def ends_bind live_on_rtp_ok live_on_gap_def live_on_motion_def
        live_note_gap_def live_ok_def intro!: live_break_ok)
qed

lemma live_finish_ok:
  assumes "live_ok env ses lv w"
  shows "ends (live_finish env cfg ses lv) w (\<lambda>_. listed env (se_output_root ses)) (listed env (se_output_root ses))"
proof -
  let ?root = "se_output_root ses"
  have i: "live_inv env ?root (lv_segmenter lv) w" "unit_written (lv_segmenter lv)"
    using assms by (simp_all add: live_ok_def)
  have opt: "ends (if b then write_current_session_pointer env (lc_output_root cfg) ses st n else returnIO ()) v
      (\<lambda>_ v'. live_inv env ?root sr v') (listed env ?root)" if "live_inv env ?root sr v" for b st n sr v
    using that pointer_inv by simp
  show ?thesis
    unfolding live_finish_def ends_bind
  proof (rule ends_mono [OF finalize_segment_inv [OF i]], clarify)
    fix published sr w1 assume l: "live_inv env ?root sr w1"
    show "ends (bindIO (if published then write_current_session_pointer env (lc_output_root cfg) ses ''ready''
          (sr_latest_segment_seq sr) else returnIO ()) (\<lambda>_.
        bindIO (if sr_latest_segment_seq sr > 0 then write_current_session_pointer env (lc_output_root cfg) ses ''stopped''
          (sr_latest_segment_seq sr) else returnIO ()) (\<lambda>_.
        live_write_stream_health env cfg (lv_stats lv) sr (se_session_id ses)))) w1
      (\<lambda>_. listed env ?root) (listed env ?root)"
      unfolding ends_bind
      by (rule ends_mono [OF opt [OF l]], rule ends_mono [OF opt], assumption)
         (auto intro!: ends_mono [OF health_inv] dest: live_inv_listed)
  qed
qed

section \<open>The start of a session\<close>

lemma read_only_calls:
  "ends (fs_create_dir_all d) w (\<lambda>_ w'. w_files w' = w_files w \<and> w_utc w' = w_utc w) (\<lambda>w'. w_files w' = w_files w)"
  "ends (read_current_generation env root) w (\<lambda>_ w'. w_files w' = w_files w \<and> w_utc w' = w_utc w) (\<lambda>w'. w_files w' = w_files w)"
  by (cases "w_faults w"; auto simp: ends_def fs_create_dir_all_def read_current_generation_def fs_read_def
      fs_metadata_def attemptIO_def bindIO_def next_fault_def split: option.splits)+

lemma initialize_session_spec:
  "ends (initialize_live_session env camera) w
     (\<lambda>ses w'. se_output_root ses = join_path camera (le_session_id env (w_utc w)) \<and> w_files w' = w_files w)
     (\<lambda>w'. w_files w' = w_files w)"
  unfolding initialize_live_session_def ends_bind
  by (rule ends_mono [OF read_only_calls(1)], rule ends_mono [OF read_only_calls(2)])
     (auto simp: Let_def ends_bind intro!: ends_mono [OF read_only_calls(1)])

lemma listed_files: "w_files w' = w_files w \<Longrightarrow> listed env root w' = listed env root w"
  by (simp add: listed_def on_disk_def file_data_def)

lemma live_ok_init:
  assumes "listed env (se_output_root ses) w"
  shows "live_ok env ses (live_init cfg) w"
  using assms by (simp add: live_ok_def live_inv_def live_init_def unpublished_def unit_written_def
      PlaylistState_new_def Let_def numbered_def h264.fresh_inv)

lemma live_ok_time: "live_ok env ses lv w \<Longrightarrow> live_ok env ses lv (set_time t u w)"
  by (simp add: live_ok_def live_inv_set_time)

lemma live_loop_ok:
  assumes "listed env (se_output_root ses) w"
  shows "ends (event_loop (live_step env cfg ses) (live_init cfg) evs) w (live_ok env ses)
    (listed env (se_output_root ses))"
  by (rule ends_loop [OF live_step_ok live_ok_time live_ok_init [OF assms]])

lemma run_stream_v2_listed:
  assumes "listed env (join_path (lc_output_root cfg) (le_session_id env (w_utc w))) w"
  shows "ends (run_stream_v2 env cfg evs) w
    (\<lambda>_. listed env (join_path (lc_output_root cfg) (le_session_id env (w_utc w))))
    (listed env (join_path (lc_output_root cfg) (le_session_id env (w_utc w))))"
  unfolding run_stream_v2_def ends_bind
proof (rule ends_mono [OF initialize_session_spec])
  let ?root = "join_path (lc_output_root cfg) (le_session_id env (w_utc w))"
  fix w' :: world assume "w_files w' = w_files w"
  with assms show "listed env ?root w'" using listed_files by blast
next
  let ?root = "join_path (lc_output_root cfg) (le_session_id env (w_utc w))"
  fix ses :: LiveSessionContext and w' :: world assume s: "se_output_root ses = ?root \<and> w_files w' = w_files w"
  then have "listed env (se_output_root ses) w'" using assms listed_files by metis
  from ends_mono [OF live_loop_ok [OF this, of cfg evs], where P' = "\<lambda>lv w'. ends (live_finish env cfg ses lv) w'
      (\<lambda>_. listed env ?root) (listed env ?root)" and Q' = "listed env ?root"] live_finish_ok s
  show "ends (event_loop (live_step env cfg ses) (live_init cfg) evs) w'
      (\<lambda>lv w'. ends (live_finish env cfg ses lv) w' (\<lambda>_. listed env ?root) (listed env ?root)) (listed env ?root)"
    by metis
qed

definition playlist_ok :: "string \<Rightarrow> world \<Rightarrow> bool" where
  "playlist_ok root w \<longleftrightarrow>
     (case file_data (playlist_path root) w of
        None \<Rightarrow> True
      | Some d \<Rightarrow> list_all (\<lambda>uri. file_data (join_path root uri) w \<noteq> None) (playlist_uris (to_str d)))"

lemma listed_playlist_ok: "extinf_ok env \<Longrightarrow> listed env root w \<Longrightarrow> playlist_ok root w"
  by (auto simp: listed_def playlist_ok_def on_disk_def uris_of_playlist list_all_iff)

section \<open>Reading a segment back\<close>

lemma demux_stream_append:
  assumes "\<forall>c \<in> set cs. length c \<le> 184"
  shows "ts_demux (ts_stream pid cc pusi cs @ rest)
    = map_option (\<lambda>fs. fields_of (take_bit 13 pid) cc pusi cs @ fs) (ts_demux rest)"
  using assms
proof (induction cs arbitrary: cc pusi)
  case Nil
  then show ?case by (simp add: option.map_ident)
next
  case (Cons c cs)
  then show ?case
    by (simp add: ts_demux_def ts_split_append length_ts_packet parse_ts_packet option.map_comp comp_def)
qed

lemma packetize_stream:
  "packetize_ts pid payload cc pusi = (ts_stream pid cc pusi (ts_chunks payload), advance_cc cc (ts_chunks payload))"
  using ts_loop_stream [of 0 payload pid cc pusi True "[]"] by (simp add: packetize_ts_def)

lemma packetize_demux_append:
  "ts_demux (fst (packetize_ts pid payload cc pusi) @ rest)
    = map_option (\<lambda>fs. fields_of (take_bit 13 pid) cc pusi (ts_chunks payload) @ fs) (ts_demux rest)"
  using length_ts_chunks [of _ payload] by (simp add: packetize_stream demux_stream_append)

definition unit_pes :: "LiveAccessUnit \<Rightarrow> bytes" where
  "unit_pes au = build_pes_video (ucast (la_rtp_timestamp au)) (concat (la_nals au))"

fun units_ts :: "u8 \<Rightarrow> LiveAccessUnit list \<Rightarrow> bytes" where
  "units_ts cc [] = []"
| "units_ts cc (au # aus) =
     fst (packetize_ts VIDEO_PID (unit_pes au) cc True)
     @ units_ts (snd (packetize_ts VIDEO_PID (unit_pes au) cc True)) aus"

fun units_fields :: "u8 \<Rightarrow> LiveAccessUnit list \<Rightarrow> ts_fields list" where
  "units_fields cc [] = []"
| "units_fields cc (au # aus) =
     fields_of VIDEO_PID cc True (ts_chunks (unit_pes au))
     @ units_fields (advance_cc cc (ts_chunks (unit_pes au))) aus"

lemma pid_13_bits: "take_bit 13 VIDEO_PID = VIDEO_PID" "take_bit 13 PAT_PID = PAT_PID" "take_bit 13 PMT_PID = PMT_PID"
  by (simp_all add: VIDEO_PID_def PAT_PID_def PMT_PID_def take_bit_eq_mask mask_eq_exp_minus_1)

lemma demux_units: "ts_demux (units_ts cc aus) = Some (units_fields cc aus)"
proof (induction aus arbitrary: cc)
  case Nil
  then show ?case by (simp add: ts_demux_def ts_split.simps [of "[]"])
next
  case (Cons au aus)
  then show ?case by (simp add: packetize_demux_append pid_13_bits) (simp add: packetize_stream)
qed

text \<open>A receiver starts a new PES unit at every packet with the unit start flag.\<close>

function pes_units :: "ts_fields list \<Rightarrow> bytes list" where
  "pes_units fs = (case fs of [] \<Rightarrow> []
     | f # rest \<Rightarrow> concat (map tf_payload (f # takeWhile (\<lambda>g. \<not> tf_pusi g) rest))
         # pes_units (dropWhile (\<lambda>g. \<not> tf_pusi g) rest))"
  by pat_completeness auto
termination
  by (relation "measure length") (auto simp: le_imp_less_Suc length_dropWhile_le)

declare pes_units.simps [simp del]

lemma pes_units_simps [simp]:
  "pes_units [] = []"
  "pes_units (f # fs) = concat (map tf_payload (f # takeWhile (\<lambda>g. \<not> tf_pusi g) fs))
     # pes_units (dropWhile (\<lambda>g. \<not> tf_pusi g) fs)"
  by (subst pes_units.simps, simp)+

definition unit_of_pes :: "bytes \<Rightarrow> 64 word \<times> bytes" where
  "unit_of_pes p = (decode_pts (take 5 (drop 9 p)), drop 14 p)"

text \<open>
  A player reads a segment: the association table, the map table, then video packets only,
  whose PES units are time stamps and elementary stream data.
\<close>

definition segment_units :: "bytes \<Rightarrow> (64 word \<times> bytes) list option" where
  "segment_units d =
     (case ts_demux d of
        Some (pat # pmt # fs) \<Rightarrow>
          if tf_pid pat = PAT_PID \<and> tf_pid pmt = PMT_PID \<and> list_all (\<lambda>f. tf_pid f = VIDEO_PID) fs
          then Some (map unit_of_pes (pes_units fs)) else None
      | _ \<Rightarrow> None)"

lemma continuation_fields:
  "takeWhile (\<lambda>g. \<not> tf_pusi g) (fields_of pid cc False cs @ gs)
     = fields_of pid cc False cs @ takeWhile (\<lambda>g. \<not> tf_pusi g) gs"
  "dropWhile (\<lambda>g. \<not> tf_pusi g) (fields_of pid cc False cs @ gs) = dropWhile (\<lambda>g. \<not> tf_pusi g) gs"
  by (induction cs arbitrary: cc) auto

lemma unit_chunks: obtains c cs where "ts_chunks (unit_pes au) = c # cs"
  by (subst (asm) ts_chunks.simps) (simp add: unit_pes_def build_pes_video_def)

lemma unit_fields_start:
  "takeWhile (\<lambda>g. \<not> tf_pusi g) (units_fields cc aus) = []"
  "dropWhile (\<lambda>g. \<not> tf_pusi g) (units_fields cc aus) = units_fields cc aus"
proof -
  have "units_fields cc aus = [] \<or> (\<exists>f fs. units_fields cc aus = f # fs \<and> tf_pusi f)"
  proof (cases aus)
    case (Cons au aus')
    obtain c cs where "ts_chunks (unit_pes au) = c # cs" by (rule unit_chunks)
    with Cons show ?thesis by simp
  qed simp
  then show "takeWhile (\<lambda>g. \<not> tf_pusi g) (units_fields cc aus) = []"
    "dropWhile (\<lambda>g. \<not> tf_pusi g) (units_fields cc aus) = units_fields cc aus" by auto
qed

lemma pes_units_fields: "pes_units (units_fields cc aus) = map unit_pes aus"
proof (induction aus arbitrary: cc)
  case (Cons au aus)
  obtain c cs where c: "ts_chunks (unit_pes au) = c # cs" by (rule unit_chunks)
  then have "c @ concat cs = unit_pes au" using concat_ts_chunks [of "unit_pes au"] by simp
  with c Cons.IH show ?case by (simp add: continuation_fields unit_fields_start payload_of_fields)
qed simp

lemma units_fields_pid: "list_all (\<lambda>f. tf_pid f = VIDEO_PID) (units_fields cc aus)"
proof (induction aus arbitrary: cc)
  case (Cons au aus)
  have "list_all (\<lambda>f. tf_pid f = VIDEO_PID) (fields_of VIDEO_PID cc pusi cs)" for cc pusi and cs :: "bytes list"
    by (induction cs arbitrary: cc pusi) auto
  with Cons.IH show ?case by simp
qed simp

lemma unit_of_unit_pes:
  "unit_of_pes (unit_pes au) = (ucast (la_rtp_timestamp au), concat (la_nals au))"
proof -
  have l: "length (encode_pts x) = 5" for x by (simp add: encode_pts_def Let_def)
  have "take_bit 33 (ucast (x :: u32) :: 64 word) = ucast x" for x
    by (rule bit_word_eqI) (auto simp: bit_simps dest: bit_imp_le_length)
  then show ?thesis
    by (simp add: unit_of_pes_def unit_pes_def build_pes_video_def u16_to_be_bytes_def l pts_roundtrip
        numeral_eq_Suc)
qed

lemma table_chunks:
  "\<exists>pat. ts_chunks ([0x00] @ pat_section @ u32_to_be_bytes (mpeg_crc32 pat_section)) = [pat]"
  "\<exists>pmt. ts_chunks ([0x00] @ pmt_section @ u32_to_be_bytes (mpeg_crc32 pmt_section)) = [pmt]"
  by (subst ts_chunks.simps, simp add: pat_section_def pmt_section_def u16_to_be_bytes_def u32_to_be_bytes_def
      ts_chunks.simps [of "[]"])+

lemma segment_units_spec:
  "segment_units (tables @ units_ts 0 aus) = Some (map (\<lambda>au. (ucast (la_rtp_timestamp au), concat (la_nals au))) aus)"
proof -
  obtain pat pmt where t: "ts_chunks ([0x00] @ pat_section @ u32_to_be_bytes (mpeg_crc32 pat_section)) = [pat]"
    "ts_chunks ([0x00] @ pmt_section @ u32_to_be_bytes (mpeg_crc32 pmt_section)) = [pmt]"
    using table_chunks by blast
  then show ?thesis
    unfolding segment_units_def tables_def build_pat_packet_def build_pmt_packet_def append_assoc
      packetize_demux_append
    by (simp add: pid_13_bits demux_units units_fields_pid pes_units_fields unit_of_unit_pes)
qed

text \<open>The life of one segment: create it, write access units, publish it.\<close>

fun write_units :: "MpegTsSegmentWriter \<Rightarrow> LiveAccessUnit list \<Rightarrow> MpegTsSegmentWriter io" where
  "write_units sw [] = returnIO sw"
| "write_units sw (au # aus) = bindIO (write_access_unit sw au) (\<lambda>sw. write_units sw aus)"

definition segment_life :: "string \<Rightarrow> LiveAccessUnit list \<Rightarrow> string io" where
  "segment_life path aus =
     bindIO (MpegTsSegmentWriter_create path) (\<lambda>sw.
     bindIO (write_units sw aus) (\<lambda>sw. AtomicPublisher_publish (sw_publisher sw)))"

lemma write_units_spec:
  assumes "ap_holds (sw_publisher sw) w d" "ap_final_path (sw_publisher sw) = p"
  shows "ends (write_units sw aus) w
    (\<lambda>sw' w'. ap_final_path (sw_publisher sw') = p \<and> touched p w w'
       \<and> ap_holds (sw_publisher sw') w' (d @ units_ts (sw_video_cc sw) aus)) (spoiled p w)"
  using assms
proof (induction aus arbitrary: sw w d)
  case Nil
  then show ?case by (simp add: ends_def touched_def only_touches_def)
next
  case (Cons au aus)
  obtain ts cc where ts: "packetize_ts VIDEO_PID (unit_pes au) (sw_video_cc sw) True = (ts, cc)" by fastforce
  note wr = write_access_unit_spec [OF Cons.prems(1) ts [unfolded unit_pes_def]]
  show ?case
    unfolding write_units.simps ends_bind
  proof (rule ends_mono [OF wr])
    fix sw1 :: MpegTsSegmentWriter and w1
    assume 1: "ap_final_path (sw_publisher sw1) = ap_final_path (sw_publisher sw)
       \<and> ap_holds (sw_publisher sw1) w1 (d @ ts) \<and> sw_video_cc sw1 = cc
       \<and> touched (ap_final_path (sw_publisher sw)) w w1"
    then have h: "ap_holds (sw_publisher sw1) w1 (d @ ts)" "ap_final_path (sw_publisher sw1) = p" "touched p w w1"
      using Cons.prems(2) by auto
    show "ends (write_units sw1 aus) w1 (\<lambda>sw' w'. ap_final_path (sw_publisher sw') = p \<and> touched p w w'
       \<and> ap_holds (sw_publisher sw') w' (d @ units_ts (sw_video_cc sw) (au # aus))) (spoiled p w)"
      by (rule ends_mono [OF Cons.IH [OF h(1,2)]])
         (use 1 ts h(3) in \<open>auto intro: touched_trans touched_spoiled\<close>)
  qed (use Cons.prems(2) in simp)
qed

section \<open>Which sessions are removed\<close>

lemma newest_first_set [simp]: "set (newest_first es) = set es" "distinct (newest_first es) = distinct es"
  by (simp_all add: newest_first_def)

abbreviation modified :: "dir_entry \<Rightarrow> nat" where
  "modified e \<equiv> snd (snd e)"

lemma newest_first_sorted:
  assumes "e \<in> set (drop k (newest_first es))" "f \<in> set (take k (newest_first es))"
  shows "modified e \<le> modified f"
proof -
  let ?k = "\<lambda>(name, is_dir, modified). - int modified"
  have "sorted (map ?k (newest_first es))" by (simp only: newest_first_def sorted_sort_key)
  then have "sorted (map ?k (take k (newest_first es)) @ map ?k (drop k (newest_first es)))"
    by (metis append_take_drop_id map_append)
  then have "\<forall>x \<in> set (take k (newest_first es)). \<forall>y \<in> set (drop k (newest_first es)). ?k x \<le> ?k y"
    by (simp only: sorted_append) auto
  with assms have "?k f \<le> ?k e" by blast
  then show ?thesis by (cases e; cases f) simp
qed

text \<open>At least \<open>n\<close> other sessions are as recent as \<open>e\<close>.\<close>

definition newer_count :: "dir_entry list \<Rightarrow> dir_entry \<Rightarrow> nat" where
  "newer_count es e = length (filter (\<lambda>f. f \<noteq> e \<and> modified f \<ge> modified e) es)"

lemma newer_count_drop:
  assumes "e \<in> set (drop k (newest_first es))" "distinct es"
  shows "k \<le> newer_count es e"
proof -
  let ?s = "newest_first es" and ?F = "\<lambda>f. f \<noteq> e \<and> modified f \<ge> modified e"
  have d: "distinct ?s" using assms(2) by simp
  then have "set (take k ?s) \<inter> set (drop k ?s) = {}"
    by (metis append_take_drop_id distinct_append)
  then have sub: "set (take k ?s) \<subseteq> set (filter ?F es)"
    using assms(1) newest_first_sorted [OF assms(1)] set_take_subset [of k ?s] by auto
  have "k < length ?s" using assms(1) by (metis drop_all empty_iff list.set(1) not_le)
  then have "k = card (set (take k ?s))" using d by (simp add: distinct_card)
  also have "\<dots> \<le> card (set (filter ?F es))" using sub by (intro card_mono) auto
  also have "\<dots> \<le> length (filter ?F es)" by (rule card_length)
  finally show ?thesis by (simp add: newer_count_def)
qed

lemma removed_in:
  "name \<in> set (cleanup_old_sessions cur retention keep now entries) \<longleftrightarrow>
     (\<exists>m. (name, True, m) \<in> set (drop (keep - 1) (newest_first (old_sessions cur entries)))
        \<and> (now - m) div from_secs 1 > retention)" (is "?l \<longleftrightarrow> ?r")
proof -
  let ?xs = "drop (keep - 1) (newest_first (old_sessions cur entries))"
  have dir: "is_dir" if "(n, is_dir, m) \<in> set ?xs" for n is_dir m
    using in_set_dropD [OF that] by (auto simp: old_sessions_def)
  have l: "?l \<longleftrightarrow> (\<exists>e \<in> set ?xs. fst e = name \<and> (now - modified e) div from_secs 1 > retention)"
    by (auto simp: cleanup_old_sessions_def Let_def case_prod_beta)
  show ?thesis
  proof
    assume ?l
    then obtain d m where e: "(name, d, m) \<in> set ?xs" "(now - m) div from_secs 1 > retention"
      using l by (metis prod.collapse)
    from dir [OF e(1)] e show ?r by auto
  next
    assume ?r
    then show ?l unfolding l by force
  qed
qed

section \<open>A sample stream\<close>

definition sample_live_env :: live_env where
  "sample_live_env = \<lparr>le_rfc3339 = (\<lambda>_. ''t''), le_session_id = (\<lambda>_. ''s''), le_health_json = (\<lambda>_. [1]),
     le_pointer_json = (\<lambda>_. [2]), le_pointer_parse = (\<lambda>_. None), le_extinf = (\<lambda>_. ''1.000'')\<rparr>"

definition sample_live_config :: LivePipelineV2Config where
  "sample_live_config = \<lparr>lc_stream_id = 7, lc_output_root = ''o'', lc_health_dir = ''h'', lc_stale_secs = 15,
     lc_stats_log_secs = 60, lc_segment_secs = 1, lc_window_secs = 2, lc_h264_sync_seed = None\<rparr>"

definition sample_session :: LiveSessionContext where
  "sample_session = \<lparr>se_session_id = ''s'', se_output_root = ''o/s'', se_generation = 1, se_started_at = 0\<rparr>"

section \<open>Properties\<close>



text \<open>
  C36. The playlist is a window of consecutive segments: after any events and any faults, as long
  as the pipeline runs, its entries carry consecutive sequence numbers ending just before the
  segment being written, there are at most as many as the window allows, and each of them is on
  disk under its numbered name.
\<close>

theorem playlist_is_window:
  assumes "file_data (playlist_path (se_output_root ses)) w = None"
  shows "ends (event_loop (live_step env cfg ses) (live_init cfg) evs) w
    (\<lambda>lv w'. let pt = sr_playlist (lv_segmenter lv);
                 next = (case sr_segment (lv_segmenter lv) of None \<Rightarrow> pt_next_segment_seq pt | Some cu \<Rightarrow> cu_seq cu) in
       map sg_seq (pt_entries pt) = [next - length (pt_entries pt) ..< next]
       \<and> length (pt_entries pt) \<le> pt_max_segments pt
       \<and> list_all (\<lambda>e. file_data (seg_path (se_output_root ses) (sg_seq e)) w' \<noteq> None) (pt_entries pt))
    (\<lambda>_. True)"
proof (rule ends_mono [OF live_loop_ok])
  show "listed env (se_output_root ses) w" using assms by (simp add: listed_def)
  fix lv w' assume "live_ok env ses lv w'"
  then have i: "live_inv env (se_output_root ses) (lv_segmenter lv) w'" by (simp add: live_ok_def)
  have n: "unpublished sr = (case sr_segment sr of None \<Rightarrow> pt_next_segment_seq (sr_playlist sr) | Some cu \<Rightarrow> cu_seq cu)" for sr
    by (simp add: unpublished_def split: option.splits)
  from i show "let pt = sr_playlist (lv_segmenter lv);
                 next = (case sr_segment (lv_segmenter lv) of None \<Rightarrow> pt_next_segment_seq pt | Some cu \<Rightarrow> cu_seq cu) in
       map sg_seq (pt_entries pt) = [next - length (pt_entries pt) ..< next]
       \<and> length (pt_entries pt) \<le> pt_max_segments pt
       \<and> list_all (\<lambda>e. file_data (seg_path (se_output_root ses) (sg_seq e)) w' \<noteq> None) (pt_entries pt)"
    by (auto simp: live_inv_def numbered_def n Let_def list_all_iff on_disk_def entry_ok_def)
qed simp

theorem playlist_is_window_witness:
  "ends (event_loop (live_step sample_live_env sample_live_config sample_session) (live_init sample_live_config)
      (sample_media_events @ [(2000000000, 3, PipeMsg (GapMsg 1 3))])) empty_world
    (\<lambda>lv w'. length (pt_entries (sr_playlist (lv_segmenter lv))) \<le> pt_max_segments (sr_playlist (lv_segmenter lv)))
    (\<lambda>_. True)"
  by (rule ends_mono [OF playlist_is_window]) (simp_all add: Let_def file_data_def empty_world_def)

text \<open>
  C17. A published segment is what was recorded: whatever the disk does, if creating a segment,
  writing access units and publishing it succeeds, a player that demultiplexes the file reads
  the two tables and then exactly these access units, each with its RTP time stamp; if any step
  fails, the file under the published name is untouched.
\<close>

theorem segment_roundtrip:
  "ends (segment_life p aus) w
     (\<lambda>_ w'. \<exists>d. file_data p w' = Some d
        \<and> segment_units d = Some (map (\<lambda>au. (ucast (la_rtp_timestamp au), concat (la_nals au))) aus))
     (\<lambda>w'. file_data p w' = file_data p w)"
  unfolding segment_life_def ends_bind
proof (rule ends_mono [OF segment_create_spec])
  fix w' assume "spoiled p w w'"
  then show "file_data p w' = file_data p w" by (rule spoiled_data)
next
  fix sw :: MpegTsSegmentWriter and w1
  assume 1: "touched p w w1 \<and> ap_final_path (sw_publisher sw) = p \<and> sw_video_cc sw = 0
       \<and> ap_holds (sw_publisher sw) w1 tables"
  then have h: "ap_holds (sw_publisher sw) w1 tables" "ap_final_path (sw_publisher sw) = p" by simp_all
  let ?P = "\<lambda>_ w'. \<exists>d. file_data p w' = Some d
        \<and> segment_units d = Some (map (\<lambda>au. (ucast (la_rtp_timestamp au), concat (la_nals au))) aus)"
  show "ends (write_units sw aus) w1 (\<lambda>sw w'. ends (AtomicPublisher_publish (sw_publisher sw)) w' ?P
      (\<lambda>w'. file_data p w' = file_data p w)) (\<lambda>w'. file_data p w' = file_data p w)"
  proof (rule ends_mono [OF write_units_spec [OF h]])
    fix w' assume "spoiled p w1 w'"
    then show "file_data p w' = file_data p w" using touched_spoiled 1 spoiled_data by blast
  next
    fix sw2 :: MpegTsSegmentWriter and w2
    assume 2: "ap_final_path (sw_publisher sw2) = p \<and> touched p w1 w2
       \<and> ap_holds (sw_publisher sw2) w2 (tables @ units_ts (sw_video_cc sw) aus)"
    then have t: "touched p w w2" using 1 touched_trans by blast
    have h2: "ap_holds (sw_publisher sw2) w2 (tables @ units_ts 0 aus)" using 1 2 by simp
    have u: "file_data p w' = file_data p w" if "spoiled p w2 w'" for w'
      using touched_spoiled [OF t that] by (rule spoiled_data)
    show "ends (AtomicPublisher_publish (sw_publisher sw2)) w2 ?P (\<lambda>w'. file_data p w' = file_data p w)"
      by (rule ends_mono [OF ap_publish_spec [OF h2]]) (use 2 segment_units_spec u in auto)
  qed
qed

text \<open>
  Session retention: a removed session is a directory other than the current one, older than
  the retention time, and at least \<open>keep_count - 1\<close> other old sessions are as recent as it.
\<close>

theorem cleanup_keeps_recent:
  assumes "distinct entries" "name \<in> set (cleanup_old_sessions cur retention keep now entries)"
  shows "\<exists>m. (name, True, m) \<in> set entries \<and> name \<noteq> cur \<and> (now - m) div from_secs 1 > retention
    \<and> newer_count (old_sessions cur entries) (name, True, m) \<ge> keep - 1"
proof -
  obtain m where m: "(name, True, m) \<in> set (drop (keep - 1) (newest_first (old_sessions cur entries)))"
    "(now - m) div from_secs 1 > retention"
    using assms(2) by (auto simp: removed_in)
  moreover have "distinct (old_sessions cur entries)" using assms(1) by (simp add: old_sessions_def)
  ultimately have "keep - 1 \<le> newer_count (old_sessions cur entries) (name, True, m)"
    by (intro newer_count_drop)
  with m in_set_dropD [OF m(1)] show ?thesis by (auto simp: old_sessions_def)
qed

theorem cleanup_keeps_recent_witness:
  "\<exists>m. (''a'', True, m) \<in> set [(''a'', True, 5), (''b'', True, 700000000000), (''cur'', True, 9), (''f'', False, 1)]
    \<and> ''a'' \<noteq> ''cur'' \<and> (from_secs 1000 - m) div from_secs 1 > 300
    \<and> newer_count (old_sessions ''cur''
        [(''a'', True, 5), (''b'', True, 700000000000), (''cur'', True, 9), (''f'', False, 1)]) (''a'', True, m) \<ge> 2 - 1"
  by (rule cleanup_keeps_recent)
     (simp_all add: cleanup_old_sessions_def old_sessions_def newest_first_def from_secs_def Let_def)

end
