(* ===== verification/Uplink.thy ===== *)
theory Uplink
  imports Proto Text "HOL-Library.Sublist" "HOL-Library.AList"
begin

text \<open>
  \<^verbatim>\<open>src/agent_uplink.rs\<close>: the task that keeps a TLS connection to the ingest server, and the calls
  by which the cameras hand it packets, gaps and motion events. The connection is a state machine
  over a sequence of events: calls of other tasks, outcomes of a connection attempt, the end of a
  pause, and one round of the \<open>select!\<close> loop with what is ready in it.

  Parameters (\<open>uplink_env\<close>): JSON (\<open>serde_json\<close>), Base64, time parsing (\<open>chrono\<close>). Nonces and clock
  readings are part of the events. TLS set-up is the outcome of an attempt. Log output and the
  counters kept only for it are left out.
\<close>

section \<open>Data\<close>

record H264ParameterSets =
  ps_sps :: bytes
  ps_pps :: bytes

record HelloIngestConfig =
  hi_clip_pre_secs :: "u64 option"
  hi_clip_post_secs :: "u64 option"
  hi_clip_ring_secs :: "u64 option"
  hi_clip_stale_part_secs :: "u64 option"
  hi_clip_max_secs :: "u64 option"
  hi_clip_write_timeout_ms :: "u64 option"
  hi_clip_write_retry_count :: "u64 option"
  hi_clip_write_retry_backoff_ms :: "u64 option"

definition HelloIngestConfig_is_empty :: "HelloIngestConfig \<Rightarrow> bool" where
  "HelloIngestConfig_is_empty h \<longleftrightarrow>
     hi_clip_pre_secs h = None \<and> hi_clip_post_secs h = None \<and> hi_clip_ring_secs h = None
     \<and> hi_clip_stale_part_secs h = None \<and> hi_clip_max_secs h = None
     \<and> hi_clip_write_timeout_ms h = None \<and> hi_clip_write_retry_count h = None
     \<and> hi_clip_write_retry_backoff_ms h = None"

record HelloStream =
  hs_stream_id :: u32
  hs_name :: string
  hs_camera_id :: string
  hs_ingest :: "HelloIngestConfig option"
  hs_h264_sps_b64 :: "string option"
  hs_h264_pps_b64 :: "string option"

record HelloPayload =
  hp_agent_id :: string
  hp_token :: string
  hp_streams :: "string list"
  hp_timestamp_unix :: int
  hp_nonce :: string
  hp_streams_info :: "HelloStream list"

record MotionEnvelope =
  mv_stream_id :: u32
  mv_rule :: string
  mv_active :: bool
  mv_ts :: string
  mv_camera_id :: string
  mv_event_id :: string

text \<open>The confidence is always \<open>0.0\<close>.\<close>

record EventPayload =
  ep_stream_id :: string
  ep_event_type :: string
  ep_state :: string
  ep_event_ts_unix_ms :: int
  ep_rule :: "string option"
  ep_event_id :: "string option"
  ep_camera_id :: "string option"

record HelloOkPayload =
  ho_session_id :: string
  ho_max_payload :: nat
  ho_ping_interval_sec :: u64

text \<open>Atomic counters wrap.\<close>

record UplinkStats =
  us_rtp_sent :: "64 word"
  us_gap_sent :: "64 word"
  us_motion_sent :: "64 word"
  us_dropped :: "64 word"

definition UplinkStats_default :: UplinkStats where
  "UplinkStats_default = \<lparr>us_rtp_sent = 0, us_gap_sent = 0, us_motion_sent = 0, us_dropped = 0\<rparr>"

record uplink_env =
  ue_b64 :: "bytes \<Rightarrow> string"
  ue_hello_json :: "HelloPayload \<Rightarrow> bytes option"
  ue_event_json :: "EventPayload \<Rightarrow> bytes option"
  ue_hello_ok :: "bytes \<Rightarrow> HelloOkPayload option"
  ue_rfc3339_millis :: "string \<Rightarrow> int option"

record uplink_config =
  uc_token :: string
  uc_agent_id :: string
  uc_stream_map :: "(u32 \<times> string) list"
  uc_stream_camera_map :: "(u32 \<times> string) list"
  uc_stream_ingest :: "HelloIngestConfig option"

section \<open>Payloads\<close>

definition hello_stream ::
    "uplink_env \<Rightarrow> uplink_config \<Rightarrow> (u32 \<times> H264ParameterSets) list \<Rightarrow> u32 \<times> string \<Rightarrow> HelloStream" where
  "hello_stream env cfg sets = (\<lambda>(sid, name).
     let ps = map_of sets sid in
     \<lparr>hs_stream_id = sid, hs_name = name,
      hs_camera_id = unwrap_or (map_of (uc_stream_camera_map cfg) sid) (''stream-'' @ show_nat (unat sid)),
      hs_ingest = uc_stream_ingest cfg,
      hs_h264_sps_b64 = map_option (\<lambda>p. ue_b64 env (ps_sps p)) ps,
      hs_h264_pps_b64 = map_option (\<lambda>p. ue_b64 env (ps_pps p)) ps\<rparr>)"

definition build_streams_info ::
    "uplink_env \<Rightarrow> uplink_config \<Rightarrow> (u32 \<times> H264ParameterSets) list \<Rightarrow> HelloStream list" where
  "build_streams_info env cfg sets = sort_key hs_stream_id (map (hello_stream env cfg sets) (uc_stream_map cfg))"

definition hello_payload ::
    "uplink_env \<Rightarrow> uplink_config \<Rightarrow> (u32 \<times> H264ParameterSets) list \<Rightarrow> string \<Rightarrow> int \<Rightarrow> HelloPayload" where
  "hello_payload env cfg sets nonce now =
     (let streams_info = build_streams_info env cfg sets in
      \<lparr>hp_agent_id = uc_agent_id cfg, hp_token = uc_token cfg, hp_streams = map hs_name streams_info,
       hp_timestamp_unix = now, hp_nonce = nonce, hp_streams_info = streams_info\<rparr>)"

definition build_event_payload :: "uplink_env \<Rightarrow> MotionEnvelope \<Rightarrow> int \<Rightarrow> EventPayload" where
  "build_event_payload env msg now_ms =
     (let event_ts = unwrap_or (ue_rfc3339_millis env (mv_ts msg)) now_ms;
          event_id =
            (if mv_event_id msg = []
             then if event_ts > 0
                  then Some (''stream'' @ show_nat (unat (mv_stream_id msg)) @ ''-'' @ show_int event_ts)
                  else None
             else Some (mv_event_id msg)) in
      \<lparr>ep_stream_id = show_nat (unat (mv_stream_id msg)), ep_event_type = ''motion'',
       ep_state = (if mv_active msg then ''start'' else ''stop''), ep_event_ts_unix_ms = event_ts,
       ep_rule = Some (mv_rule msg), ep_event_id = event_id, ep_camera_id = Some (mv_camera_id msg)\<rparr>)"

section \<open>The connection\<close>

text \<open>
  What has been written on a connection. A write can fail after any prefix of its bytes; a stream
  that failed stays failed.
\<close>

record uplink_conn =
  cn_wire :: bytes
  cn_broken :: bool

definition send_record :: "u8 \<Rightarrow> bytes \<Rightarrow> nat option \<Rightarrow> uplink_conn \<Rightarrow> bool \<times> uplink_conn" where
  "send_record rtype payload fault c =
     (case write_record rtype 0 payload of
        Ok b \<Rightarrow>
          if cn_broken c then (False, c)
          else (case fault of
                  None \<Rightarrow> (True, c\<lparr>cn_wire := cn_wire c @ b\<rparr>)
                | Some n \<Rightarrow> (False, c\<lparr>cn_wire := cn_wire c @ take n b, cn_broken := True\<rparr>))
      | _ \<Rightarrow> (False, c))"

text \<open>
  Where the task is: at the head of its loop, in a pause (after which the back-off may grow), in
  the \<open>select!\<close> loop of a connection, out of the loop, or ended by a panic.
\<close>

datatype uplink_phase = Idle | Pausing bool | Connected | Stopped | Crashed

text \<open>
  \<open>up_conns\<close> are the connections so far, newest first; \<open>up_taken\<close> is a history variable: the media
  messages taken from the channel on each of them.
\<close>

record uplink =
  up_media_rx :: "Msg list"
  up_motion_rx :: "MotionEnvelope list"
  up_stats :: UplinkStats
  up_cancelled :: bool
  up_parameter_sets :: "(u32 \<times> H264ParameterSets) list"
  up_backoff :: duration
  up_phase :: uplink_phase
  up_conns :: "uplink_conn list"
  up_taken :: "Msg list list"

definition uplink_init :: "(u32 \<times> H264ParameterSets) list \<Rightarrow> uplink" where
  "uplink_init sets =
     \<lparr>up_media_rx = [], up_motion_rx = [], up_stats = UplinkStats_default, up_cancelled = False,
      up_parameter_sets = sets, up_backoff = from_secs 1, up_phase = Idle, up_conns = [], up_taken = []\<rparr>"

section \<open>Calls from other tasks\<close>

text \<open>When the task has ended, its receivers are dropped and both channels are closed.\<close>

definition up_closed :: "uplink \<Rightarrow> bool" where
  "up_closed u \<longleftrightarrow> up_phase u \<in> {Stopped, Crashed}"

definition try_send :: "Msg \<Rightarrow> uplink \<Rightarrow> uplink" where
  "try_send msg u =
     (if up_closed u \<or> length (up_media_rx u) \<ge> 4096
      then u\<lparr>up_stats := (up_stats u)\<lparr>us_dropped := us_dropped (up_stats u) + 1\<rparr>\<rparr>
      else u\<lparr>up_media_rx := up_media_rx u @ [msg]\<rparr>)"

definition rtp_msg :: "u32 \<Rightarrow> bytes \<Rightarrow> Msg" where
  "rtp_msg sid rtp_bytes = \<lparr>msg_type = RTP, msg_stream_id = sid, msg_payload = rtp_bytes\<rparr>"

definition gap_msg :: "u32 \<Rightarrow> u16 \<Rightarrow> u16 \<Rightarrow> Msg" where
  "gap_msg sid last_seq new_seq =
     \<lparr>msg_type = GAP, msg_stream_id = sid, msg_payload = encode_gap_tls sid last_seq new_seq\<rparr>"

definition send_rtp :: "u32 \<Rightarrow> bytes \<Rightarrow> uplink \<Rightarrow> uplink" where
  "send_rtp sid rtp_bytes = try_send (rtp_msg sid rtp_bytes)"

definition send_gap :: "u32 \<Rightarrow> u16 \<Rightarrow> u16 \<Rightarrow> uplink \<Rightarrow> uplink" where
  "send_gap sid last_seq new_seq = try_send (gap_msg sid last_seq new_seq)"

definition send_motion :: "MotionEnvelope \<Rightarrow> uplink \<Rightarrow> uplink" where
  "send_motion msg u = (if up_closed u then u else u\<lparr>up_motion_rx := up_motion_rx u @ [msg]\<rparr>)"

definition set_stream_h264_parameter_sets :: "u32 \<Rightarrow> bytes \<Rightarrow> bytes \<Rightarrow> uplink \<Rightarrow> uplink" where
  "set_stream_h264_parameter_sets sid sps pps u =
     u\<lparr>up_parameter_sets := AList.update sid \<lparr>ps_sps = sps, ps_pps = pps\<rparr> (up_parameter_sets u)\<rparr>"

definition uplink_shutdown :: "uplink \<Rightarrow> uplink" where
  "uplink_shutdown u = u\<lparr>up_cancelled := True\<rparr>"

section \<open>The task\<close>

datatype hello_reply = Reply Record | ReplyFailed | ReplyTimedOut

datatype connect_outcome =
    TlsConfigFailed
  | ConnectFailed
  | HandshakeFailed
  | TlsConnected string int "nat option" hello_reply

text \<open>
  \<open>tokio::time::interval\<close> panics on a period of zero. The paths after a rejected greeting pause
  and retry without growing the back-off.
\<close>

definition after_hello :: "uplink_env \<Rightarrow> hello_reply \<Rightarrow> uplink_phase" where
  "after_hello env reply =
     (case reply of
        Reply rec \<Rightarrow>
          if record_type rec = RECORD_HELLO_OK then
            (case ue_hello_ok env (record_payload rec) of
               None \<Rightarrow> Pausing False
             | Some hello_ok \<Rightarrow> if ho_ping_interval_sec hello_ok = 0 then Crashed else Connected)
          else Pausing False
      | ReplyFailed \<Rightarrow> Pausing False
      | ReplyTimedOut \<Rightarrow> Pausing False)"

definition uplink_attempt :: "uplink_env \<Rightarrow> uplink_config \<Rightarrow> connect_outcome \<Rightarrow> uplink \<Rightarrow> uplink" where
  "uplink_attempt env cfg outcome u =
     (if up_cancelled u then u\<lparr>up_phase := Stopped\<rparr>
      else case outcome of
        TlsConfigFailed \<Rightarrow> u\<lparr>up_phase := Pausing True\<rparr>
      | ConnectFailed \<Rightarrow> u\<lparr>up_phase := Pausing True\<rparr>
      | HandshakeFailed \<Rightarrow> u\<lparr>up_phase := Pausing True\<rparr>
      | TlsConnected nonce now fault reply \<Rightarrow>
          let u = u\<lparr>up_backoff := from_secs 1\<rparr> in
          (case ue_hello_json env (hello_payload env cfg (up_parameter_sets u) nonce now) of
             None \<Rightarrow> u\<lparr>up_phase := Pausing False\<rparr>
           | Some payload \<Rightarrow>
               let (ok, c) = send_record RECORD_HELLO payload fault \<lparr>cn_wire = [], cn_broken = False\<rparr>;
                   u = u\<lparr>up_conns := c # up_conns u, up_taken := [] # up_taken u\<rparr> in
               if ok then u\<lparr>up_phase := after_hello env reply\<rparr>
               else u\<lparr>up_phase := Pausing False\<rparr>))"

definition uplink_slept :: "uplink \<Rightarrow> uplink" where
  "uplink_slept u =
     (if up_cancelled u then u\<lparr>up_phase := Stopped\<rparr>
      else (case up_phase u of
              Pausing grow \<Rightarrow>
                u\<lparr>up_backoff := (if grow then min (up_backoff u * 2) (from_secs 30) else up_backoff u),
                  up_phase := Idle\<rparr>
            | _ \<Rightarrow> u))"

text \<open>Write a record on the current connection.\<close>

definition uplink_write :: "u8 \<Rightarrow> bytes \<Rightarrow> nat option \<Rightarrow> uplink \<Rightarrow> bool \<times> uplink" where
  "uplink_write rtype payload fault u =
     (let (ok, c) = send_record rtype payload fault (hd (up_conns u)) in
      (ok, u\<lparr>up_conns := c # tl (up_conns u)\<rparr>))"

definition uplink_disconnect :: "uplink \<Rightarrow> uplink" where
  "uplink_disconnect u = u\<lparr>up_phase := (if up_cancelled u then Stopped else Pausing True)\<rparr>"

definition uplink_on_record :: "record_error + Record \<Rightarrow> nat option \<Rightarrow> uplink \<Rightarrow> uplink" where
  "uplink_on_record r fault u =
     (case r of
        Inr rec \<Rightarrow>
          if record_type rec = RECORD_PING then snd (uplink_write RECORD_PING [] fault u)
          else if record_type rec = RECORD_CLOSE then uplink_disconnect u
          else if record_type rec = RECORD_ERROR then uplink_disconnect u
          else u
      | Inl _ \<Rightarrow> uplink_disconnect u)"

definition uplink_on_motion :: "uplink_env \<Rightarrow> MotionEnvelope \<Rightarrow> int \<Rightarrow> nat option \<Rightarrow> uplink \<Rightarrow> uplink" where
  "uplink_on_motion env msg now_ms fault u =
     (case ue_event_json env (build_event_payload env msg now_ms) of
        None \<Rightarrow> u
      | Some payload \<Rightarrow>
          let (ok, u) = uplink_write RECORD_EVENT payload fault u in
          if ok then u\<lparr>up_stats := (up_stats u)\<lparr>us_motion_sent := us_motion_sent (up_stats u) + 1\<rparr>\<rparr>
          else uplink_disconnect u)"

definition uplink_on_media :: "Msg \<Rightarrow> nat option \<Rightarrow> uplink \<Rightarrow> uplink" where
  "uplink_on_media msg fault u =
     (if msg_type msg = RTP then
        let (ok, u) = uplink_write RECORD_RTP (encode_rtp_tls (msg_stream_id msg) (msg_payload msg)) fault u in
        if ok then u\<lparr>up_stats := (up_stats u)\<lparr>us_rtp_sent := us_rtp_sent (up_stats u) + 1\<rparr>\<rparr>
        else uplink_disconnect u
      else if msg_type msg = GAP then
        let (ok, u) = uplink_write RECORD_GAP (msg_payload msg) fault u in
        if ok then u\<lparr>up_stats := (up_stats u)\<lparr>us_gap_sent := us_gap_sent (up_stats u) + 1\<rparr>\<rparr>
        else uplink_disconnect u
      else u)"

definition uplink_on_ping :: "nat option \<Rightarrow> uplink \<Rightarrow> uplink" where
  "uplink_on_ping fault u =
     (let (ok, u) = uplink_write RECORD_PING [] fault u in if ok then u else uplink_disconnect u)"

text \<open>
  One round of the loop. The branches are polled in order (\<open>biased\<close>): cancellation, a record from
  the server, motion, media, the ping timer.
\<close>

definition uplink_poll ::
    "uplink_env \<Rightarrow> (record_error + Record) option \<Rightarrow> bool \<Rightarrow> int \<Rightarrow> nat option \<Rightarrow> uplink \<Rightarrow> uplink" where
  "uplink_poll env incoming ping_due now_ms fault u =
     (if up_cancelled u then u\<lparr>up_phase := Stopped\<rparr>
      else case incoming of
        Some r \<Rightarrow> uplink_on_record r fault u
      | None \<Rightarrow>
          (case up_motion_rx u of
             msg # rest \<Rightarrow> uplink_on_motion env msg now_ms fault (u\<lparr>up_motion_rx := rest\<rparr>)
           | [] \<Rightarrow>
               (case up_media_rx u of
                  msg # rest \<Rightarrow>
                    uplink_on_media msg fault (u\<lparr>up_media_rx := rest,
                      up_taken := (hd (up_taken u) @ [msg]) # tl (up_taken u)\<rparr>)
                | [] \<Rightarrow> if ping_due then uplink_on_ping fault u else u)))"

datatype uplink_event =
    SendRtp u32 bytes
  | SendGap u32 u16 u16
  | SendMotion MotionEnvelope
  | SetParameterSets u32 bytes bytes
  | Shutdown
  | Attempt connect_outcome
  | Slept
  | Polled "(record_error + Record) option" bool int "nat option"

definition uplink_step :: "uplink_env \<Rightarrow> uplink_config \<Rightarrow> uplink_event \<Rightarrow> uplink \<Rightarrow> uplink" where
  "uplink_step env cfg ev u =
     (case ev of
        SendRtp sid rtp_bytes \<Rightarrow> send_rtp sid rtp_bytes u
      | SendGap sid last_seq new_seq \<Rightarrow> send_gap sid last_seq new_seq u
      | SendMotion msg \<Rightarrow> send_motion msg u
      | SetParameterSets sid sps pps \<Rightarrow> set_stream_h264_parameter_sets sid sps pps u
      | Shutdown \<Rightarrow> uplink_shutdown u
      | Attempt outcome \<Rightarrow> if up_phase u = Idle then uplink_attempt env cfg outcome u else u
      | Slept \<Rightarrow> (case up_phase u of Pausing _ \<Rightarrow> uplink_slept u | _ \<Rightarrow> u)
      | Polled incoming ping_due now_ms fault \<Rightarrow>
          if up_phase u = Connected then uplink_poll env incoming ping_due now_ms fault u else u)"

definition connect_and_run ::
    "uplink_env \<Rightarrow> uplink_config \<Rightarrow> (u32 \<times> H264ParameterSets) list \<Rightarrow> uplink_event list \<Rightarrow> uplink" where
  "connect_and_run env cfg sets evs = fold (uplink_step env cfg) evs (uplink_init sets)"

section \<open>What the server reads\<close>

text \<open>The complete records at the front of what has arrived.\<close>

function complete_records :: "bytes \<Rightarrow> Record list" where
  "complete_records r =
     (case read_record r of
        Ok (rec, rest) \<Rightarrow> if length rest < length r then rec # complete_records rest else []
      | _ \<Rightarrow> [])"
  by pat_completeness auto
termination by (relation "measure length") auto

declare complete_records.simps [simp del]

lemma write_rec_length: "write_rec r = Ok b \<Longrightarrow> 6 \<le> length b"
  by (auto simp: write_rec_def elim: write_record_OkE)

text \<open>What can follow the complete records: nothing, or a proper prefix of a record.\<close>

definition cut_off :: "bytes \<Rightarrow> bool" where
  "cut_off tail \<longleftrightarrow> tail = [] \<or> (\<exists>r b n. write_rec r = Ok b \<and> n < length b \<and> tail = take n b)"

lemma cut_off_read: "cut_off tail \<Longrightarrow> \<exists>e. read_record tail = Err e"
  unfolding cut_off_def
proof (elim disjE exE conjE)
  show "tail = [] \<Longrightarrow> ?thesis" by (simp add: read_record_def read_exact_short)
  show "write_rec r = Ok b \<Longrightarrow> n < length b \<Longrightarrow> tail = take n b \<Longrightarrow> ?thesis" for r b n
    using tls_records.rd_truncated by simp
qed

lemma complete_records_frames:
  "write_all_frames write_rec rs = Ok b \<Longrightarrow> cut_off tail \<Longrightarrow> complete_records (b @ tail) = rs"
proof (induction rs arbitrary: b)
  case Nil
  then obtain e where "read_record tail = Err e" using cut_off_read by blast
  with Nil show ?case by (simp add: complete_records.simps [of tail])
next
  case (Cons r rs)
  then obtain b1 b2 where b: "write_rec r = Ok b1" "write_all_frames write_rec rs = Ok b2" "b = b1 @ b2"
    by (auto simp: bindR_eq_Ok_iff)
  have "read_record (b @ tail) = Ok (r, b2 @ tail)" using tls_records.rd_wr [OF b(1)] b(3) by simp
  moreover have "b1 \<noteq> []" using write_rec_length [OF b(1)] by auto
  ultimately show ?case using Cons.IH [OF b(2) Cons.prems(2)] b(3)
    by (subst complete_records.simps) simp
qed

lemma write_all_snoc:
  "write_all_frames wr (ms @ [m]) = bindR (write_all_frames wr ms) (\<lambda>b. bindR (wr m) (\<lambda>c. Ok (b @ c)))"
proof (induction ms)
  case Nil
  then show ?case by (cases "wr m") simp_all
next
  case (Cons a ms)
  then show ?case by (cases "wr a"; cases "write_all_frames wr ms"; cases "wr m") simp_all
qed

section \<open>The records of a connection\<close>

definition is_media :: "Record \<Rightarrow> bool" where
  "is_media r \<longleftrightarrow> record_type r = RECORD_RTP \<or> record_type r = RECORD_GAP"

text \<open>The record that carries a media message.\<close>

definition media_record :: "Msg \<Rightarrow> Record" where
  "media_record m =
     (if msg_type m = RTP
      then \<lparr>record_type = RECORD_RTP, record_flags = 0, record_payload = encode_rtp_tls (msg_stream_id m) (msg_payload m)\<rparr>
      else \<lparr>record_type = RECORD_GAP, record_flags = 0, record_payload = msg_payload m\<rparr>)"

definition media_type :: "Msg \<Rightarrow> bool" where
  "media_type m \<longleftrightarrow> msg_type m = RTP \<or> msg_type m = GAP"

text \<open>
  The bytes of a connection are the records \<open>rs\<close> and possibly a cut-off one; a healthy connection
  has no cut-off record. The first record is the greeting, and the media records among them are
  those of \<open>ms\<close>.
\<close>

definition carries :: "uplink_conn \<Rightarrow> Msg list \<Rightarrow> bool" where
  "carries c ms \<longleftrightarrow>
     (\<exists>rs b tail. cn_wire c = b @ tail \<and> write_all_frames write_rec rs = Ok b \<and> cut_off tail
        \<and> (\<not> cn_broken c \<longrightarrow> tail = [])
        \<and> (rs \<noteq> [] \<longrightarrow> record_type (hd rs) = RECORD_HELLO)
        \<and> filter is_media rs = map media_record ms)"

definition conn_done :: "uplink_conn \<Rightarrow> Msg list \<Rightarrow> bool" where
  "conn_done c ms \<longleftrightarrow> (\<exists>k \<le> 1. carries c (take (length ms - k) ms))"

lemma carries_done: "carries c ms \<Longrightarrow> conn_done c ms"
  unfolding conn_done_def by (rule exI [of _ 0]) simp

lemma record_distinct:
  "RECORD_PING \<noteq> RECORD_RTP" "RECORD_PING \<noteq> RECORD_GAP" "RECORD_EVENT \<noteq> RECORD_RTP" "RECORD_EVENT \<noteq> RECORD_GAP"
  "RECORD_HELLO \<noteq> RECORD_RTP" "RECORD_HELLO \<noteq> RECORD_GAP" "RTP \<noteq> GAP"
  by (simp_all add: RECORD_PING_def RECORD_RTP_def RECORD_GAP_def RECORD_EVENT_def RECORD_HELLO_def RTP_def GAP_def)

abbreviation rec_of :: "u8 \<Rightarrow> bytes \<Rightarrow> Record" where
  "rec_of t p \<equiv> \<lparr>record_type = t, record_flags = 0, record_payload = p\<rparr>"

text \<open>
  Sending on a connection: success appends the record; failure leaves at most a prefix of it, and
  if that happens to be all of it the server reads the record although the sender counts it lost.
\<close>

lemma send_record_carries:
  assumes "carries c ms" "send_record t p fault c = (ok, c')" "cn_wire c \<noteq> [] \<or> t = RECORD_HELLO"
    and "is_media (rec_of t p) \<longrightarrow> rec_of t p = media_record m"
  shows "ok \<Longrightarrow> \<not> cn_broken c \<and> \<not> cn_broken c' \<and> carries c' (if is_media (rec_of t p) then ms @ [m] else ms)"
    and "\<not> ok \<Longrightarrow> carries c' ms \<or> is_media (rec_of t p) \<and> carries c' (ms @ [m])"
proof -
  let ?r = "rec_of t p"
  obtain rs b tail where c: "cn_wire c = b @ tail" "write_all_frames write_rec rs = Ok b" "cut_off tail"
    "\<not> cn_broken c \<longrightarrow> tail = []" "rs \<noteq> [] \<longrightarrow> record_type (hd rs) = RECORD_HELLO"
    "filter is_media rs = map media_record ms"
    using assms(1) unfolding carries_def by blast
  have w: "write_rec ?r = write_record t 0 p" by (simp add: write_rec_def)
  have rs: "rs \<noteq> [] \<or> t = RECORD_HELLO" if "\<not> cn_broken c" using that c assms(3) by (cases rs) auto
  have hd: "record_type (hd (rs @ [?r])) = RECORD_HELLO" if "\<not> cn_broken c"
    using rs [OF that] c(5) by (cases rs) auto
  have media: "filter is_media (rs @ [?r]) = map media_record (if is_media ?r then ms @ [m] else ms)"
    using c(6) assms(4) by auto
  have app: "carries c' (if is_media ?r then ms @ [m] else ms)"
    if "write_record t 0 p = Ok a" "cn_wire c' = cn_wire c @ a" "\<not> cn_broken c" for a
    unfolding carries_def
  proof (intro exI conjI)
    show "write_all_frames write_rec (rs @ [?r]) = Ok (b @ a)" using that c(2) w by (simp add: write_all_snoc)
    show "cn_wire c' = (b @ a) @ []" using that c(1,4) by simp
  qed (use hd [OF that(3)] media in \<open>simp_all add: cut_off_def\<close>)
  have cut: "carries c' ms"
    if "write_record t 0 p = Ok a" "cn_wire c' = cn_wire c @ take n a" "n < length a" "cn_broken c'" "\<not> cn_broken c" for a n
    unfolding carries_def
    by (rule exI [of _ rs], rule exI [of _ b], rule exI [of _ "take n a"])
       (use that c w in \<open>auto simp: cut_off_def\<close>)
  show "ok \<Longrightarrow> \<not> cn_broken c \<and> \<not> cn_broken c' \<and> carries c' (if is_media ?r then ms @ [m] else ms)"
    using assms(2) app by (auto simp: send_record_def split: rust.splits if_splits option.splits)
  assume "\<not> ok"
  with assms(2) consider "c' = c"
    | a n where "write_record t 0 p = Ok a" "\<not> cn_broken c" "c' = c\<lparr>cn_wire := cn_wire c @ take n a, cn_broken := True\<rparr>"
    by (auto simp: send_record_def split: rust.splits if_splits option.splits)
  then show "carries c' ms \<or> is_media ?r \<and> carries c' (ms @ [m])"
  proof cases
    case 1
    then show ?thesis using assms(1) by simp
  next
    case 2
    then show ?thesis using app [of a] cut [of a n] by (cases "n < length a") (auto split: if_splits)
  qed
qed

section \<open>Every state of the uplink\<close>

definition linked :: "uplink \<Rightarrow> bool" where
  "linked u \<longleftrightarrow>
     list_all2 conn_done (up_conns u) (up_taken u) \<and> list_all media_type (up_media_rx u)
     \<and> (up_phase u = Connected \<longrightarrow> up_conns u \<noteq> [] \<and> carries (hd (up_conns u)) (hd (up_taken u))
           \<and> cn_wire (hd (up_conns u)) \<noteq> [])"

lemma linked_phase: "linked u \<Longrightarrow> p \<noteq> Connected \<Longrightarrow> linked (u\<lparr>up_phase := p\<rparr>)"
  by (simp add: linked_def)

lemma linked_simps [simp]:
  "linked (u\<lparr>up_stats := s\<rparr>) = linked u" "linked (u\<lparr>up_backoff := d\<rparr>) = linked u"
  "linked (u\<lparr>up_motion_rx := q\<rparr>) = linked u" "linked (u\<lparr>up_cancelled := k\<rparr>) = linked u"
  "linked (u\<lparr>up_parameter_sets := e\<rparr>) = linked u"
  by (simp_all add: linked_def)

lemma uplink_disconnect_linked: "list_all2 conn_done (up_conns u) (up_taken u) \<Longrightarrow> list_all media_type (up_media_rx u)
    \<Longrightarrow> linked (uplink_disconnect u)"
  by (simp add: uplink_disconnect_def linked_def)

text \<open>Writing a record that is not media, and writing the record of the message just taken.\<close>

lemma send_record_wire: "send_record t p fault c = (ok, c') \<Longrightarrow> prefix (cn_wire c) (cn_wire c')"
  by (auto simp: send_record_def split: rust.splits if_splits option.splits)

lemma write_other_linked:
  assumes "linked u" "up_phase u = Connected" "\<not> is_media (rec_of t p)" "uplink_write t p fault u = (ok, u')"
  shows "linked u'"
proof -
  obtain c cs ms mss where e: "up_conns u = c # cs" "up_taken u = ms # mss"
    using assms(1,2) by (cases "up_conns u"; cases "up_taken u") (auto simp: linked_def)
  with assms have k: "carries c ms" "list_all2 conn_done cs mss" "list_all media_type (up_media_rx u)" "cn_wire c \<noteq> []"
    by (auto simp: linked_def)
  obtain c' where c': "send_record t p fault c = (ok, c')" "u' = u\<lparr>up_conns := c' # cs\<rparr>"
    using assms(4) e by (cases "send_record t p fault c") (simp add: uplink_write_def)
  have "carries c' ms" using send_record_carries [OF k(1) c'(1)] k(4) assms(3) by (cases ok) auto
  with c' e k send_record_wire [OF c'(1)] show ?thesis by (auto simp: linked_def carries_done)
qed

lemma write_media_linked:
  assumes "up_conns u = c # cs" "up_taken u = (ms @ [m]) # mss" "carries c ms" "list_all2 conn_done cs mss"
    and "cn_wire c \<noteq> []" and "list_all media_type (up_media_rx u)" "rec_of t p = media_record m" "is_media (rec_of t p)"
    and "uplink_write t p fault u = (ok, u')"
  shows "ok \<Longrightarrow> linked u'" "\<not> ok \<Longrightarrow> linked (uplink_disconnect u')"
proof -
  obtain c' where c': "send_record t p fault c = (ok, c')" "u' = u\<lparr>up_conns := c' # cs\<rparr>"
    using assms(1,9) by (cases "send_record t p fault c") (simp add: uplink_write_def)
  note send = send_record_carries [OF assms(3) c'(1), of m]
  show "linked u'" if ok
    using send(1) that assms c'(2) send_record_wire [OF c'(1)] by (auto simp: linked_def carries_done)
  show "linked (uplink_disconnect u')" if "\<not> ok"
  proof (rule uplink_disconnect_linked)
    have "conn_done c' (ms @ [m])"
      using send(2) that assms(5,7) carries_done unfolding conn_done_def
      by (metis append_eq_conv_conj diff_Suc_1 le_numeral_extra(4) length_append_singleton)
    then show "list_all2 conn_done (up_conns u') (up_taken u')" using assms c'(2) by simp
  qed (use assms c'(2) in simp)
qed

lemma uplink_on_record_linked:
  assumes "linked u" "up_phase u = Connected"
  shows "linked (uplink_on_record r fault u)"
proof -
  have d: "linked (uplink_disconnect u)" using assms(1) by (intro uplink_disconnect_linked) (simp_all add: linked_def)
  have "\<not> is_media (rec_of RECORD_PING [])" by (simp add: is_media_def record_distinct)
  then have "linked (snd (uplink_write RECORD_PING [] fault u))"
    using write_other_linked [OF assms] by (metis prod.collapse)
  with d assms show ?thesis by (simp add: uplink_on_record_def split: sum.splits)
qed

lemma uplink_on_motion_linked:
  assumes "linked u" "up_phase u = Connected"
  shows "linked (uplink_on_motion env msg now_ms fault u)"
proof (cases "ue_event_json env (build_event_payload env msg now_ms)")
  case None
  with assms show ?thesis by (simp add: uplink_on_motion_def)
next
  case (Some p)
  obtain ok u' where w: "uplink_write RECORD_EVENT p fault u = (ok, u')" by fastforce
  have "\<not> is_media (rec_of RECORD_EVENT p)" by (simp add: is_media_def record_distinct)
  then have "linked u'" using write_other_linked [OF assms _ w] by blast
  with Some w show ?thesis
    by (auto simp: uplink_on_motion_def linked_def uplink_disconnect_def)
qed

lemma uplink_on_ping_linked:
  assumes "linked u" "up_phase u = Connected"
  shows "linked (uplink_on_ping fault u)"
proof -
  obtain ok u' where w: "uplink_write RECORD_PING [] fault u = (ok, u')" by fastforce
  have "\<not> is_media (rec_of RECORD_PING [])" by (simp add: is_media_def record_distinct)
  then have "linked u'" using write_other_linked [OF assms _ w] by blast
  with w show ?thesis by (auto simp: uplink_on_ping_def linked_def uplink_disconnect_def)
qed

lemma uplink_on_media_linked:
  assumes "linked u" "up_phase u = Connected" "up_media_rx u = m # rest"
  shows "linked (uplink_on_media m fault (u\<lparr>up_media_rx := rest,
    up_taken := (hd (up_taken u) @ [m]) # tl (up_taken u)\<rparr>))" (is "linked (uplink_on_media m fault ?u)")
proof -
  obtain c cs ms mss where e: "up_conns u = c # cs" "up_taken u = ms # mss"
    using assms(1,2) by (cases "up_conns u"; cases "up_taken u") (auto simp: linked_def)
  with assms have k: "carries c ms" "list_all2 conn_done cs mss" "list_all media_type rest" "media_type m"
    "cn_wire c \<noteq> []"
    by (auto simp: linked_def)
  have u: "up_conns ?u = c # cs" "up_taken ?u = (ms @ [m]) # mss" "list_all media_type (up_media_rx ?u)"
    using e k by simp_all
  note wr = write_media_linked [OF u(1,2) k(1,2,5) u(3)]
  consider "msg_type m = RTP" | "msg_type m = GAP" using k(4) by (auto simp: media_type_def)
  then show ?thesis
  proof cases
    case 1
    obtain ok u' where w: "uplink_write RECORD_RTP (encode_rtp_tls (msg_stream_id m) (msg_payload m)) fault ?u = (ok, u')"
      by fastforce
    with 1 wr [OF _ _ w] show ?thesis by (cases ok) (auto simp: uplink_on_media_def media_record_def is_media_def)
  next
    case 2
    obtain ok u' where w: "uplink_write RECORD_GAP (msg_payload m) fault ?u = (ok, u')" by fastforce
    with 2 wr [OF _ _ w] record_distinct(7) show ?thesis
      by (cases ok) (auto simp: uplink_on_media_def media_record_def is_media_def)
  qed
qed

lemma uplink_poll_linked:
  assumes "linked u" "up_phase u = Connected"
  shows "linked (uplink_poll env incoming ping_due now_ms fault u)"
  unfolding uplink_poll_def
  by (auto split: option.split list.split simp: linked_phase assms
      intro!: uplink_on_record_linked uplink_on_motion_linked uplink_on_media_linked uplink_on_ping_linked assms)

lemma fresh_carries: "carries \<lparr>cn_wire = [], cn_broken = False\<rparr> []"
  unfolding carries_def by (rule exI [of _ "[]"]) (simp add: cut_off_def)

lemma uplink_attempt_linked:
  assumes "linked u"
  shows "linked (uplink_attempt env cfg outcome u)"
proof (cases "\<not> up_cancelled u \<and> (\<exists>nonce now fault reply payload. outcome = TlsConnected nonce now fault reply
    \<and> ue_hello_json env (hello_payload env cfg (up_parameter_sets u) nonce now) = Some payload)")
  case False
  with assms show ?thesis
    by (auto simp: uplink_attempt_def Let_def linked_phase split: connect_outcome.split option.split)
next
  case True
  then obtain nonce now fault reply payload where o: "outcome = TlsConnected nonce now fault reply" "\<not> up_cancelled u"
    "ue_hello_json env (hello_payload env cfg (up_parameter_sets u) nonce now) = Some payload" by blast
  obtain ok c where c: "send_record RECORD_HELLO payload fault \<lparr>cn_wire = [], cn_broken = False\<rparr> = (ok, c)" by fastforce
  have "\<not> is_media (rec_of RECORD_HELLO payload)" by (simp add: is_media_def record_distinct)
  then have k: "carries c []" using send_record_carries [OF fresh_carries c] by (cases ok) auto
  have "ok \<Longrightarrow> cn_wire c \<noteq> []" using c
    by (auto simp: send_record_def write_record_def Let_def split: if_splits option.splits)
  with assms o c k show ?thesis by (simp add: uplink_attempt_def Let_def linked_def carries_done)
qed

lemma uplink_step_linked:
  assumes "linked u"
  shows "linked (uplink_step env cfg ev u)"
proof (cases ev)
  case (Polled incoming ping_due now_ms fault)
  then show ?thesis using assms uplink_poll_linked by (simp add: uplink_step_def)
next
  case (Attempt outcome)
  then show ?thesis using assms uplink_attempt_linked by (simp add: uplink_step_def)
next
  case Slept
  then show ?thesis using assms
    by (simp add: uplink_step_def uplink_slept_def linked_phase split: uplink_phase.split)
qed (use assms in \<open>auto simp: uplink_step_def send_rtp_def send_gap_def try_send_def send_motion_def rtp_msg_def gap_msg_def
    set_stream_h264_parameter_sets_def uplink_shutdown_def linked_def media_type_def\<close>)

interpretation uplink_link: machine "uplink_step env cfg" linked for env cfg
  by unfold_locales (rule uplink_step_linked)

lemma linked_init: "linked (uplink_init sets)"
  by (simp add: linked_def uplink_init_def)

section \<open>Accounting\<close>

text \<open>The media messages that the calls of a run offer to the channel.\<close>

fun offered :: "uplink_event \<Rightarrow> Msg list" where
  "offered (SendRtp sid rtp_bytes) = [rtp_msg sid rtp_bytes]"
| "offered (SendGap sid last_seq new_seq) = [gap_msg sid last_seq new_seq]"
| "offered _ = []"

definition accepted :: "uplink \<Rightarrow> Msg list" where
  "accepted u = concat (rev (up_taken u)) @ up_media_rx u"

definition accounted :: "Msg list \<Rightarrow> uplink \<Rightarrow> bool" where
  "accounted ms u \<longleftrightarrow>
     subseq (accepted u) ms \<and> us_dropped (up_stats u) = of_nat (length ms - length (accepted u))
     \<and> length (up_media_rx u) \<le> 4096 \<and> (up_phase u = Connected \<longrightarrow> up_taken u \<noteq> [])"

text \<open>What the writes of the task leave alone.\<close>

lemma uplink_write_same:
  assumes "uplink_write t p fault u = (ok, u')"
  shows "up_media_rx u' = up_media_rx u" "up_taken u' = up_taken u" "up_stats u' = up_stats u"
    "up_phase u' = up_phase u" "up_cancelled u' = up_cancelled u" "up_backoff u' = up_backoff u"
  using assms by (auto simp: uplink_write_def Let_def split: prod.splits)

lemma handlers_same:
  "us_dropped (up_stats (uplink_on_record r fault u)) = us_dropped (up_stats u)"
  "accepted (uplink_on_record r fault u) = accepted u"
  "up_media_rx (uplink_on_record r fault u) = up_media_rx u" "up_taken (uplink_on_record r fault u) = up_taken u"
  "us_dropped (up_stats (uplink_on_motion env msg now_ms fault u)) = us_dropped (up_stats u)"
  "accepted (uplink_on_motion env msg now_ms fault u) = accepted u"
  "up_media_rx (uplink_on_motion env msg now_ms fault u) = up_media_rx u"
  "up_taken (uplink_on_motion env msg now_ms fault u) = up_taken u"
  "us_dropped (up_stats (uplink_on_media m fault u)) = us_dropped (up_stats u)"
  "accepted (uplink_on_media m fault u) = accepted u"
  "up_media_rx (uplink_on_media m fault u) = up_media_rx u" "up_taken (uplink_on_media m fault u) = up_taken u"
  "us_dropped (up_stats (uplink_on_ping fault u)) = us_dropped (up_stats u)"
  "accepted (uplink_on_ping fault u) = accepted u"
  "up_media_rx (uplink_on_ping fault u) = up_media_rx u" "up_taken (uplink_on_ping fault u) = up_taken u"
  by (auto simp: uplink_on_record_def uplink_on_motion_def uplink_on_media_def uplink_on_ping_def uplink_disconnect_def
      accepted_def Let_def uplink_write_def split: sum.splits option.splits prod.splits)

lemma subseq_snoc:
  "subseq xs ys \<Longrightarrow> subseq xs (ys @ [y])" "subseq xs ys \<Longrightarrow> subseq (xs @ [y]) (ys @ [y])"
  using list_emb_append_mono [of "(=)" xs ys "[]" "[y]"] by simp_all

lemma accepted_simps [simp]:
  "accepted (u\<lparr>up_phase := p\<rparr>) = accepted u" "accepted (u\<lparr>up_stats := s\<rparr>) = accepted u"
  "accepted (u\<lparr>up_motion_rx := q\<rparr>) = accepted u" "accepted (u\<lparr>up_media_rx := up_media_rx u @ [m]\<rparr>) = accepted u @ [m]"
  by (simp_all add: accepted_def)

lemma try_send_accounted:
  assumes "accounted ms u"
  shows "accounted (ms @ [m]) (try_send m u)"
proof -
  have l: "length (accepted u) \<le> length ms" using assms by (auto simp: accounted_def dest: list_emb_length)
  then have "of_nat (length (ms @ [m]) - length (accepted u)) = (of_nat (length ms - length (accepted u)) + 1 :: 64 word)"
    by (simp add: Suc_diff_le)
  with assms show ?thesis
    by (auto simp: accounted_def try_send_def up_closed_def subseq_snoc)
qed

lemma uplink_poll_accounted:
  assumes "accounted ms u" "up_phase u = Connected"
  shows "accounted ms (uplink_poll env incoming ping_due now_ms fault u)"
proof -
  obtain t ts where t: "up_taken u = t # ts" using assms by (cases "up_taken u") (auto simp: accounted_def)
  have taken: "accepted (u\<lparr>up_media_rx := rest, up_taken := (t @ [m]) # ts\<rparr>) = accepted u"
    if "up_media_rx u = m # rest" for m rest
    using that t by (simp add: accepted_def)
  show ?thesis
  proof (cases "up_cancelled u \<or> incoming \<noteq> None \<or> up_motion_rx u \<noteq> [] \<or> up_media_rx u = []")
    case True
    then show ?thesis
      using assms t
      by (auto simp: uplink_poll_def accounted_def handlers_same split: option.splits list.splits)
  next
    case False
    then obtain m rest where "up_media_rx u = m # rest" by (cases "up_media_rx u") auto
    with False assms t taken show ?thesis
      by (simp add: uplink_poll_def accounted_def handlers_same)
  qed
qed

lemma uplink_step_accounted:
  assumes "accounted ms u"
  shows "accounted (ms @ offered ev) (uplink_step env cfg ev u)"
proof (cases ev)
  case (Polled incoming ping_due now_ms fault)
  then show ?thesis using assms uplink_poll_accounted by (simp add: uplink_step_def)
next
  case (Attempt outcome)
  have "accepted (u\<lparr>up_backoff := d, up_conns := cs, up_taken := [] # up_taken u, up_phase := p\<rparr>) = accepted u" for d cs p
    by (simp add: accepted_def)
  with Attempt assms show ?thesis
    by (auto simp: uplink_step_def uplink_attempt_def accounted_def accepted_def Let_def
        split: connect_outcome.splits option.splits prod.splits)
next
  case Slept
  then show ?thesis using assms
    by (auto simp: uplink_step_def uplink_slept_def accounted_def accepted_def split: uplink_phase.split)
qed (use assms try_send_accounted in \<open>auto simp: uplink_step_def send_rtp_def send_gap_def send_motion_def
    set_stream_h264_parameter_sets_def uplink_shutdown_def accounted_def accepted_def\<close>)

lemma run_accounted:
  "accounted ms u \<Longrightarrow> accounted (ms @ concat (map offered evs)) (fold (uplink_step env cfg) evs u)"
proof (induction evs arbitrary: u ms)
  case (Cons ev evs)
  from Cons.IH [OF uplink_step_accounted [OF Cons.prems, of ev env cfg]] show ?case by simp
qed simp

section \<open>After shutdown, and what keeps the task alive\<close>

lemma cancelled_step:
  "up_cancelled u \<Longrightarrow> up_cancelled (uplink_step env cfg ev u) \<and> up_conns (uplink_step env cfg ev u) = up_conns u"
  by (cases ev) (auto simp: uplink_step_def send_rtp_def send_gap_def try_send_def send_motion_def
    set_stream_h264_parameter_sets_def uplink_shutdown_def uplink_attempt_def uplink_slept_def uplink_poll_def
    split: uplink_phase.split)

lemma cancelled_run: "up_cancelled u \<Longrightarrow> up_conns (fold (uplink_step env cfg) evs u) = up_conns u"
  by (induction evs arbitrary: u) (auto simp: cancelled_step)

definition backoff_ok :: "uplink \<Rightarrow> bool" where
  "backoff_ok u \<longleftrightarrow> from_secs 1 \<le> up_backoff u \<and> up_backoff u \<le> from_secs 30"

definition ping_ok :: "uplink_env \<Rightarrow> bool" where
  "ping_ok env \<longleftrightarrow> (\<forall>b ok. ue_hello_ok env b = Some ok \<longrightarrow> ho_ping_interval_sec ok \<noteq> 0)"

lemma after_hello_alive: "ping_ok env \<Longrightarrow> after_hello env reply \<in> {Connected, Pausing False}"
  unfolding after_hello_def ping_ok_def by (cases reply) (auto split: option.split, metis less_irrefl)

text \<open>The task is in its loop, unless it was told to stop.\<close>

definition alive :: "uplink \<Rightarrow> bool" where
  "alive u \<longleftrightarrow> up_phase u \<noteq> Crashed \<and> (up_cancelled u \<or> up_phase u \<noteq> Stopped) \<and> backoff_ok u"

lemma handlers_phase:
  "up_phase (uplink_on_record r fault u) \<in> {up_phase u, up_phase (uplink_disconnect u)}"
  "up_phase (uplink_on_motion env msg now_ms fault u) \<in> {up_phase u, up_phase (uplink_disconnect u)}"
  "up_phase (uplink_on_media m fault u) \<in> {up_phase u, up_phase (uplink_disconnect u)}"
  "up_phase (uplink_on_ping fault u) \<in> {up_phase u, up_phase (uplink_disconnect u)}"
  by (auto simp: uplink_on_record_def uplink_on_motion_def uplink_on_media_def uplink_on_ping_def uplink_disconnect_def
      Let_def uplink_write_def split: sum.splits option.splits prod.splits)

lemma handlers_control:
  "up_cancelled (uplink_on_record r fault u) = up_cancelled u" "up_backoff (uplink_on_record r fault u) = up_backoff u"
  "up_cancelled (uplink_on_motion env msg now_ms fault u) = up_cancelled u"
  "up_backoff (uplink_on_motion env msg now_ms fault u) = up_backoff u"
  "up_cancelled (uplink_on_media m fault u) = up_cancelled u" "up_backoff (uplink_on_media m fault u) = up_backoff u"
  "up_cancelled (uplink_on_ping fault u) = up_cancelled u" "up_backoff (uplink_on_ping fault u) = up_backoff u"
  by (auto simp: uplink_on_record_def uplink_on_motion_def uplink_on_media_def uplink_on_ping_def uplink_disconnect_def
      Let_def uplink_write_def split: sum.splits option.splits prod.splits)

lemma alive_simps [simp]:
  "alive (u\<lparr>up_motion_rx := q\<rparr>) = alive u" "alive (u\<lparr>up_media_rx := r, up_taken := t\<rparr>) = alive u"
  by (simp_all add: alive_def backoff_ok_def)

lemma handlers_alive:
  assumes "alive u"
  shows "alive (uplink_on_record r fault u)" "alive (uplink_on_motion env msg now_ms fault u)"
    "alive (uplink_on_media m fault u)" "alive (uplink_on_ping fault u)"
proof -
  have k: "alive v" if "up_phase v \<in> {up_phase u, up_phase (uplink_disconnect u)}"
    "up_cancelled v = up_cancelled u" "up_backoff v = up_backoff u" for v
    using that assms by (auto simp: alive_def backoff_ok_def uplink_disconnect_def)
  show "alive (uplink_on_record r fault u)" "alive (uplink_on_motion env msg now_ms fault u)"
    "alive (uplink_on_media m fault u)" "alive (uplink_on_ping fault u)"
    by (rule k [OF handlers_phase(1)] k [OF handlers_phase(2)] k [OF handlers_phase(3)] k [OF handlers_phase(4)];
        simp only: handlers_control)+
qed

lemma uplink_poll_alive:
  assumes "alive u"
  shows "alive (uplink_poll env incoming ping_due now_ms fault u)"
proof (cases "up_cancelled u")
  case True
  with assms show ?thesis by (simp add: uplink_poll_def alive_def backoff_ok_def)
next
  case False
  with assms show ?thesis
    by (auto simp: uplink_poll_def split: option.splits list.splits intro!: handlers_alive)
qed

lemma uplink_step_alive:
  assumes "ping_ok env" "alive u"
  shows "alive (uplink_step env cfg ev u)"
proof (cases ev)
  case (Polled incoming ping_due now_ms fault)
  then show ?thesis using assms uplink_poll_alive by (simp add: uplink_step_def)
next
  case (Attempt outcome)
  have "after_hello env reply \<noteq> Crashed \<and> after_hello env reply \<noteq> Stopped" for reply
    using after_hello_alive [OF assms(1), of reply] by auto
  with Attempt assms(2) show ?thesis
    by (auto simp: uplink_step_def uplink_attempt_def alive_def backoff_ok_def from_secs_def Let_def
        split: connect_outcome.splits option.splits prod.splits)
next
  case Slept
  then show ?thesis using assms(2)
    by (auto simp: uplink_step_def uplink_slept_def alive_def backoff_ok_def from_secs_def split: uplink_phase.split)
qed (use assms(2) in \<open>auto simp: uplink_step_def send_rtp_def send_gap_def try_send_def send_motion_def
    set_stream_h264_parameter_sets_def uplink_shutdown_def alive_def backoff_ok_def\<close>)

lemma uplink_run_alive:
  assumes "ping_ok env" "alive u"
  shows "alive (fold (uplink_step env cfg) evs u)"
proof -
  have "machine (uplink_step env cfg) alive" by unfold_locales (rule uplink_step_alive [OF assms(1)])
  then show ?thesis using assms(2) by (rule machine.run_inv)
qed

lemma not_cancelled_step:
  assumes "ev \<noteq> Shutdown"
  shows "up_cancelled (uplink_step env cfg ev u) = up_cancelled u"
proof (cases ev)
  case (Polled incoming ping_due now_ms fault)
  then show ?thesis
    by (simp add: uplink_step_def uplink_poll_def handlers_control split: option.split list.split)
next
  case (Attempt outcome)
  then show ?thesis
    by (simp add: uplink_step_def uplink_attempt_def Let_def case_prod_beta split: connect_outcome.split option.split)
qed (use assms in \<open>simp_all add: uplink_step_def send_rtp_def send_gap_def try_send_def send_motion_def
    set_stream_h264_parameter_sets_def uplink_slept_def split: uplink_phase.split\<close>)

lemma not_cancelled_run:
  "Shutdown \<notin> set evs \<Longrightarrow> up_cancelled (fold (uplink_step env cfg) evs u) = up_cancelled u"
proof (induction evs arbitrary: u)
  case (Cons ev evs)
  then have n: "ev \<noteq> Shutdown" "Shutdown \<notin> set evs" by auto
  from Cons.IH [OF n(2), of "uplink_step env cfg ev u"] show ?case
    by (simp only: fold_simps not_cancelled_step [OF n(1)])
qed simp

text \<open>The server accepts the greeting.\<close>

definition welcomes :: "uplink_env \<Rightarrow> hello_reply \<Rightarrow> bool" where
  "welcomes env reply \<longleftrightarrow> after_hello env reply = Connected"

definition greets :: "uplink_env \<Rightarrow> bool" where
  "greets env \<longleftrightarrow> (\<forall>p. \<exists>b. ue_hello_json env p = Some b \<and> length b \<le> MAX_PAYLOAD)"

lemma attempt_connects:
  assumes "greets env" "welcomes env reply" "\<not> up_cancelled u" "up_phase u = Idle"
  shows "up_phase (uplink_step env cfg (Attempt (TlsConnected nonce now None reply)) u) = Connected"
proof -
  obtain b where "ue_hello_json env (hello_payload env cfg (up_parameter_sets u) nonce now) = Some b"
    "length b \<le> MAX_PAYLOAD"
    using assms(1) unfolding greets_def by blast
  with assms show ?thesis
    by (simp add: uplink_step_def uplink_attempt_def send_record_def write_record_def welcomes_def Let_def)
qed

lemma pause_ends:
  assumes "\<not> up_cancelled u" "up_phase u \<notin> {Stopped, Crashed}"
  shows "up_phase (fold (uplink_step env cfg) [Polled (Some (Inl RecordEof)) False 0 None, Slept] u) = Idle"
  using assms by (cases "up_phase u")
    (simp_all add: uplink_step_def uplink_poll_def uplink_on_record_def uplink_disconnect_def uplink_slept_def)

section \<open>A sample agent\<close>

definition sample_uplink_env :: "nat \<Rightarrow> uplink_env" where
  "sample_uplink_env ping = \<lparr>ue_b64 = (\<lambda>_. ''x''), ue_hello_json = (\<lambda>_. Some [1, 2]),
     ue_event_json = (\<lambda>_. Some [3]),
     ue_hello_ok = (\<lambda>_. Some \<lparr>ho_session_id = ''s'', ho_max_payload = 9, ho_ping_interval_sec = ping\<rparr>),
     ue_rfc3339_millis = (\<lambda>_. None)\<rparr>"

definition sample_uplink_config :: uplink_config where
  "sample_uplink_config = \<lparr>uc_token = ''t'', uc_agent_id = ''a'', uc_stream_map = [(2, ''s2''), (1, ''s1'')],
     uc_stream_camera_map = [], uc_stream_ingest = None\<rparr>"

definition sample_welcome :: hello_reply where
  "sample_welcome = Reply \<lparr>record_type = RECORD_HELLO_OK, record_flags = 0, record_payload = [7]\<rparr>"

section \<open>Properties\<close>

text \<open>
  C23. No media message is lost unaccounted: whatever the cameras, the network and the server do,
  the messages taken from the channel followed by those still in it are, in order, the messages
  offered except those counted as dropped, and the channel never holds more than its capacity.
\<close>

theorem uplink_accounts_for_media:
  "let u = connect_and_run env cfg sets evs; ms = concat (map offered evs);
       kept = concat (rev (up_taken u)) @ up_media_rx u in
   subseq kept ms \<and> us_dropped (up_stats u) = of_nat (length ms - length kept) \<and> length (up_media_rx u) \<le> 4096"
proof -
  have "accounted [] (uplink_init sets)"
    by (simp add: accounted_def accepted_def uplink_init_def UplinkStats_default_def)
  from run_accounted [OF this, of evs env cfg] show ?thesis
    by (simp add: accounted_def accepted_def connect_and_run_def Let_def)
qed

text \<open>
  C9. What reaches the server: on every connection, whatever bytes a failing write leaves behind,
  the complete records the server reads start with the greeting, and the RTP and GAP records among
  them are exactly those of the messages taken on that connection, in order, except that the last
  one may be missing.
\<close>

theorem uplink_wire_in_order:
  "list_all2 (\<lambda>c ms. let rs = complete_records (cn_wire c) in
       (rs = [] \<or> record_type (hd rs) = RECORD_HELLO)
       \<and> (\<exists>k \<le> 1. filter is_media rs = map media_record (take (length ms - k) ms)))
     (up_conns (connect_and_run env cfg sets evs)) (up_taken (connect_and_run env cfg sets evs))"
proof -
  have "linked (connect_and_run env cfg sets evs)"
    unfolding connect_and_run_def by (rule uplink_link.run_inv [OF linked_init])
  then have "list_all2 conn_done (up_conns (connect_and_run env cfg sets evs)) (up_taken (connect_and_run env cfg sets evs))"
    by (simp add: linked_def)
  then show ?thesis
  proof (rule list_all2_mono)
    fix c ms assume "conn_done c ms"
    then obtain k where k: "k \<le> 1" "carries c (take (length ms - k) ms)" unfolding conn_done_def by blast
    then obtain rs b tail where c: "cn_wire c = b @ tail" "write_all_frames write_rec rs = Ok b" "cut_off tail"
      "rs \<noteq> [] \<longrightarrow> record_type (hd rs) = RECORD_HELLO" "filter is_media rs = map media_record (take (length ms - k) ms)"
      unfolding carries_def by blast
    from complete_records_frames [OF c(2,3)] c(1) have "complete_records (cn_wire c) = rs" by simp
    with c(4,5) k(1) show "let rs = complete_records (cn_wire c) in (rs = [] \<or> record_type (hd rs) = RECORD_HELLO)
       \<and> (\<exists>k \<le> 1. filter is_media rs = map media_record (take (length ms - k) ms))"
      by (auto simp: Let_def)
  qed
qed

theorem uplink_wire_in_order_witness:
  "list_all2 (\<lambda>c ms. let rs = complete_records (cn_wire c) in
       (rs = [] \<or> record_type (hd rs) = RECORD_HELLO)
       \<and> (\<exists>k \<le> 1. filter is_media rs = map media_record (take (length ms - k) ms)))
     (up_conns (connect_and_run (sample_uplink_env 10) sample_uplink_config []
       [Attempt (TlsConnected ''n'' 0 None sample_welcome), SendRtp 1 [0x80], SendGap 1 3 9,
        Polled None False 0 None, Polled None False 0 (Some 3)]))
     (up_taken (connect_and_run (sample_uplink_env 10) sample_uplink_config []
       [Attempt (TlsConnected ''n'' 0 None sample_welcome), SendRtp 1 [0x80], SendGap 1 3 9,
        Polled None False 0 None, Polled None False 0 (Some 3)]))"
  by (rule uplink_wire_in_order)

text \<open>
  Shutdown is final: after it has been requested, nothing more is written on any connection,
  whatever else happens.
\<close>

theorem uplink_shutdown_silences:
  "up_conns (connect_and_run env cfg sets (evs @ Shutdown # evs')) = up_conns (connect_and_run env cfg sets evs)"
  unfolding connect_and_run_def
  by (simp add: uplink_step_def [of _ _ Shutdown] uplink_shutdown_def cancelled_run)



text \<open>
  A welcome with a ping interval of zero ends the uplink for good: the task panics when it
  creates the timer, and from then on every packet is dropped.
\<close>

theorem uplink_zero_ping_kills:
  assumes "ue_hello_json env (hello_payload env cfg (up_parameter_sets u) nonce now) = Some b" "length b \<le> MAX_PAYLOAD"
    and "ue_hello_ok env p = Some ok" "ho_ping_interval_sec ok = 0" "up_phase u = Idle" "\<not> up_cancelled u"
  shows "let u' = fold (uplink_step env cfg) (Attempt (TlsConnected nonce now None
             (Reply \<lparr>record_type = RECORD_HELLO_OK, record_flags = f, record_payload = p\<rparr>)) # evs) u in
     up_phase u' = Crashed \<and> up_media_rx u' = up_media_rx u
     \<and> us_dropped (up_stats u') = us_dropped (up_stats u) + of_nat (length (concat (map offered evs)))"
proof -
  let ?u = "uplink_step env cfg (Attempt (TlsConnected nonce now None
     (Reply \<lparr>record_type = RECORD_HELLO_OK, record_flags = f, record_payload = p\<rparr>))) u"
  have u: "up_phase ?u = Crashed" "up_media_rx ?u = up_media_rx u" "us_dropped (up_stats ?u) = us_dropped (up_stats u)"
    using assms by (simp_all add: uplink_step_def uplink_attempt_def send_record_def write_record_def after_hello_def Let_def)
  have "up_phase (fold (uplink_step env cfg) evs v) = Crashed \<and> up_media_rx (fold (uplink_step env cfg) evs v) = up_media_rx v
      \<and> us_dropped (up_stats (fold (uplink_step env cfg) evs v))
        = us_dropped (up_stats v) + of_nat (length (concat (map offered evs)))" if "up_phase v = Crashed" for v
    using that
  proof (induction evs arbitrary: v)
    case (Cons ev evs)
    have "up_phase (uplink_step env cfg ev v) = Crashed \<and> up_media_rx (uplink_step env cfg ev v) = up_media_rx v
        \<and> us_dropped (up_stats (uplink_step env cfg ev v)) = us_dropped (up_stats v) + of_nat (length (offered ev))"
      using Cons.prems by (cases ev) (auto simp: uplink_step_def send_rtp_def send_gap_def try_send_def send_motion_def
          set_stream_h264_parameter_sets_def uplink_shutdown_def up_closed_def)
    with Cons.IH [of "uplink_step env cfg ev v"] show ?case by (simp add: add.assoc)
  qed simp
  from this [OF u(1)] u show ?thesis by (simp add: Let_def)
qed

theorem uplink_zero_ping_kills_witness:
  "let u' = fold (uplink_step (sample_uplink_env 0) sample_uplink_config) (Attempt (TlsConnected ''n'' 0 None
             (Reply \<lparr>record_type = RECORD_HELLO_OK, record_flags = 0, record_payload = [7]\<rparr>)) # [SendRtp 1 [0x80], Slept])
             (uplink_init []) in
     up_phase u' = Crashed \<and> up_media_rx u' = up_media_rx (uplink_init [])
     \<and> us_dropped (up_stats u') = us_dropped (up_stats (uplink_init []))
         + of_nat (length (concat (map offered [SendRtp 1 [0x80], Slept])))"
  by (rule uplink_zero_ping_kills [where b = "[1, 2]"
        and ok = "\<lparr>ho_session_id = ''s'', ho_max_payload = 9, ho_ping_interval_sec = 0\<rparr>"])
     (simp_all add: sample_uplink_env_def uplink_init_def MAX_PAYLOAD_def)

text \<open>
  The back-off does not grow while the server rejects the greeting: after any number of
  rejections the agent still retries every second, while unreachable servers are retried at
  intervals that double up to 30 seconds.
\<close>

theorem uplink_rejection_backoff:
  assumes "greets env" "record_type rec \<noteq> RECORD_HELLO_OK"
  shows "up_backoff (connect_and_run env cfg sets
           (concat (replicate n [Attempt (TlsConnected nonce now None (Reply rec)), Slept]))) = from_secs 1
    \<and> up_backoff (connect_and_run env cfg sets (concat (replicate n [Attempt ConnectFailed, Slept])))
           = min (from_secs (2 ^ n)) (from_secs 30)"
proof -
  have 1: "up_phase u = Idle \<Longrightarrow> \<not> up_cancelled u \<Longrightarrow> up_backoff u = from_secs 1 \<Longrightarrow>
      up_backoff (fold (uplink_step env cfg) (concat (replicate n [Attempt (TlsConnected nonce now None (Reply rec)), Slept])) u)
        = from_secs 1" for u
  proof (induction n arbitrary: u)
    case (Suc n)
    obtain b where "ue_hello_json env (hello_payload env cfg (up_parameter_sets u) nonce now) = Some b"
      "length b \<le> MAX_PAYLOAD"
      using assms(1) unfolding greets_def by blast
    with Suc assms(2) show ?case
      by (simp add: uplink_step_def uplink_attempt_def send_record_def write_record_def after_hello_def uplink_slept_def Let_def)
  qed simp
  have r: "up_backoff (connect_and_run env cfg sets
       (concat (replicate n [Attempt (TlsConnected nonce now None (Reply rec)), Slept]))) = from_secs 1"
    unfolding connect_and_run_def by (rule 1) (simp_all add: uplink_init_def)
  have 2: "up_phase u = Idle \<Longrightarrow> \<not> up_cancelled u \<Longrightarrow> up_backoff u \<le> from_secs 30 \<Longrightarrow>
      up_backoff (fold (uplink_step env cfg) (concat (replicate n [Attempt ConnectFailed, Slept])) u)
        = min (2 ^ n * up_backoff u) (from_secs 30)" for u
  proof (induction n arbitrary: u)
    case (Suc n)
    have "min (2 ^ n * min (x * 2) y) y = min (2 * 2 ^ n * x) y" for x y :: nat
    proof (cases "x * 2 \<le> y")
      case True
      then show ?thesis by (simp add: min_absorb1 mult.assoc mult.commute)
    next
      case False
      moreover have "y \<le> 2 ^ n * y" "x * 2 \<le> 2 ^ n * (x * 2)" by simp_all
      ultimately have "min (x * 2) y = y" "y \<le> 2 ^ n * y" "y \<le> 2 * 2 ^ n * x" by linarith+
      then show ?thesis by (simp add: min_absorb2)
    qed
    with Suc show ?case by (simp add: uplink_step_def uplink_attempt_def uplink_slept_def mult.commute)
  qed (simp add: min_absorb1)
  have "up_backoff (connect_and_run env cfg sets (concat (replicate n [Attempt ConnectFailed, Slept])))
       = min (from_secs (2 ^ n)) (from_secs 30)"
    unfolding connect_and_run_def by (subst 2) (simp_all add: uplink_init_def from_secs_def)
  with r show ?thesis ..
qed

theorem uplink_rejection_backoff_witness:
  "up_backoff (connect_and_run (sample_uplink_env 10) sample_uplink_config []
     (concat (replicate 7 [Attempt (TlsConnected ''n'' 0 None (Reply \<lparr>record_type = RECORD_ERROR, record_flags = 0,
        record_payload = []\<rparr>)), Slept]))) = from_secs 1"
  by (rule conjunct1 [OF uplink_rejection_backoff])
     (simp_all add: greets_def sample_uplink_env_def MAX_PAYLOAD_def RECORD_ERROR_def RECORD_HELLO_OK_def)

end
