(* ===== verification/Utils.thy ===== *)
theory Utils
  imports Storage
begin

text \<open>
  \<^verbatim>\<open>src/utils/retry_helper.rs\<close>: HTTP requests with exponential back-off. \<^verbatim>\<open>src/utils/disk_cleanup.rs\<close>:
  the task that deletes the oldest clips while the disk is short of space.

  Parameters: the answers to the requests (\<open>reqwest\<close>) and the result of \<open>statvfs\<close> for a state of
  the file system.
\<close>

section \<open>Retrying requests\<close>

record RetryCfg =
  rt_max_attempts :: usize
  rt_base_delay :: duration
  rt_max_delay :: duration

definition RetryCfg_default :: RetryCfg where
  "RetryCfg_default = \<lparr>rt_max_attempts = 5, rt_base_delay = from_millis 200, rt_max_delay = from_secs 3\<rparr>"

record response =
  rs_status :: nat
  rs_body :: string

text \<open>What the code asks of a \<open>reqwest::Error\<close>.\<close>

record request_error =
  rq_is_timeout :: bool
  rq_is_connect :: bool
  rq_is_request :: bool
  rq_message :: string

datatype retry_error = RetryableStatus nat | RequestError request_error | FailedAfterRetries

definition is_retryable_status :: "nat \<Rightarrow> bool" where
  "is_retryable_status s \<longleftrightarrow> s = 429 \<or> (500 \<le> s \<and> s < 600)"

fun contains :: "string \<Rightarrow> string \<Rightarrow> bool" where
  "contains [] pat = (pat = [])"
| "contains (c # s) pat = (take (length pat) (c # s) = pat \<or> contains s pat)"

definition is_retryable_reqwest_err :: "request_error \<Rightarrow> bool" where
  "is_retryable_reqwest_err e \<longleftrightarrow>
     rq_is_timeout e \<or> rq_is_connect e \<or> rq_is_request e
     \<or> contains (rq_message e) ''Connection refused''
     \<or> contains (rq_message e) ''os error 61''
     \<or> contains (rq_message e) ''connection reset''"

text \<open>\<open>Duration::saturating_mul\<close>: the largest duration is \<open>u64::MAX\<close> seconds and 999999999 ns.\<close>

definition duration_max :: duration where
  "duration_max = u64_max * 1000000000 + 999999999"

definition exp_backoff :: "usize \<Rightarrow> duration \<Rightarrow> duration \<Rightarrow> duration" where
  "exp_backoff attempt base mx =
     (let mul = 2 ^ (min attempt 20);
          d = min (base * mul) duration_max in
      if d > mx then mx else d)"

text \<open>
  \<open>answers n\<close> is the outcome of the \<open>n\<close>-th request. The result comes with the pauses made, one
  for each request that is to be retried.
\<close>

function retry_loop ::
    "RetryCfg \<Rightarrow> (nat \<Rightarrow> request_error + response) \<Rightarrow> nat \<Rightarrow> retry_error option
       \<Rightarrow> (retry_error, response) rust \<times> duration list" where
  "retry_loop cfg answers attempt last_err =
     (if attempt < rt_max_attempts cfg then
        let delay = exp_backoff attempt (rt_base_delay cfg) (rt_max_delay cfg) in
        (case answers attempt of
           Inr r \<Rightarrow>
             if is_retryable_status (rs_status r) then
               let (res, ds) = retry_loop cfg answers (attempt + 1) (Some (RetryableStatus (rs_status r))) in
               (res, delay # ds)
             else (Ok r, [])
         | Inl e \<Rightarrow>
             if is_retryable_reqwest_err e then
               let (res, ds) = retry_loop cfg answers (attempt + 1) (Some (RequestError e)) in
               (res, delay # ds)
             else (Err (RequestError e), []))
      else (Err (unwrap_or last_err FailedAfterRetries), []))"
  by pat_completeness auto
termination
  by (relation "measure (\<lambda>(cfg, answers, attempt, last_err). rt_max_attempts cfg - attempt)") auto

declare retry_loop.simps [simp del]

definition retry_request ::
    "RetryCfg \<Rightarrow> (nat \<Rightarrow> request_error + response) \<Rightarrow> (retry_error, response) rust \<times> duration list" where
  "retry_request cfg answers = retry_loop cfg answers 0 None"

section \<open>Disk space\<close>

record DiskCleanupConfig =
  dc_clips_dir :: string
  dc_min_free_bytes :: u64
  dc_check_interval :: duration

definition DiskCleanupConfig_default :: DiskCleanupConfig where
  "DiskCleanupConfig_default =
     \<lparr>dc_clips_dir = ''clips'', dc_min_free_bytes = 1000000000, dc_check_interval = from_secs 60\<rparr>"

record statvfs =
  f_frsize :: u64
  f_bsize :: u64
  f_bavail :: u64

definition get_available_space :: "(world \<Rightarrow> statvfs option) \<Rightarrow> u64 io" where
  "get_available_space stat w =
     (case stat w of
        None \<Rightarrow> (Err IoFailed, w)
      | Some st \<Rightarrow>
          let block_size = (if f_frsize st > 0 then f_frsize st else f_bsize st) in
          if f_bavail st * block_size > u64_max then (Panic, w) else (Ok (f_bavail st * block_size), w))"

text \<open>The scan for the oldest clip; entries without metadata are skipped.\<close>

definition clip_mtime :: "string \<Rightarrow> ((string \<times> datetime) option) io" where
  "clip_mtime path =
     (if extension path \<noteq> Some ''h264'' then returnIO None
      else bindIO (attemptIO (fs_metadata path)) (\<lambda>m.
        returnIO (case m of Inl _ \<Rightarrow> None | Inr md \<Rightarrow> Some (path, f_mtime md))))"

definition note_oldest :: "(string \<times> datetime) option \<Rightarrow> string \<times> datetime \<Rightarrow> (string \<times> datetime) option" where
  "note_oldest oldest e =
     (case oldest of
        None \<Rightarrow> Some e
      | Some (_, old_time) \<Rightarrow> if snd e < old_time then Some e else oldest)"

definition find_oldest :: "string \<Rightarrow> ((string \<times> datetime) option) io" where
  "find_oldest dir =
     bindIO (fs_read_dir dir) (\<lambda>paths.
     bindIO (collectIO paths clip_mtime) (\<lambda>es. returnIO (foldl note_oldest None es)))"

text \<open>
  One round: \<open>None\<close> when the loop ends, \<open>Some p\<close> when the clip \<open>p\<close> has been deleted. A clip that
  cannot be deleted ends the loop without an error.
\<close>

definition cleanup_round :: "(world \<Rightarrow> statvfs option) \<Rightarrow> string \<Rightarrow> u64 \<Rightarrow> (string option) io" where
  "cleanup_round stat clips_dir min_free_bytes =
     bindIO (get_available_space stat) (\<lambda>available.
       if available \<ge> min_free_bytes then returnIO None
       else bindIO (find_oldest clips_dir) (\<lambda>oldest. case oldest of
         None \<Rightarrow> returnIO None
       | Some (oldest_path, _) \<Rightarrow>
           bindIO (attemptIO (fs_remove oldest_path)) (\<lambda>r. case r of
             Inl _ \<Rightarrow> returnIO None
           | Inr _ \<Rightarrow>
               bindIO (attemptIO (fs_remove (with_extension oldest_path ''json''))) (\<lambda>_.
               returnIO (Some oldest_path)))))"

text \<open>Every round that goes on has removed a file, so the number of files bounds the rounds.\<close>

function cleanup_loop ::
    "(world \<Rightarrow> statvfs option) \<Rightarrow> string \<Rightarrow> u64 \<Rightarrow> usize \<Rightarrow> usize io" where
  "cleanup_loop stat clips_dir min_free_bytes deleted w =
     (case cleanup_round stat clips_dir min_free_bytes w of
        (Ok (Some p), w') \<Rightarrow>
          if length (w_files w') < length (w_files w)
          then cleanup_loop stat clips_dir min_free_bytes (deleted + 1) w' else (Panic, w')
      | (Ok None, w') \<Rightarrow> (Ok deleted, w')
      | (Err e, w') \<Rightarrow> (Err e, w')
      | (Panic, w') \<Rightarrow> (Panic, w'))"
  by pat_completeness auto
termination
  by (relation "measure (\<lambda>(stat, clips_dir, min_free_bytes, deleted, w). length (w_files w))") auto

declare cleanup_loop.simps [simp del]

definition cleanup_until_space_available ::
    "(world \<Rightarrow> statvfs option) \<Rightarrow> string \<Rightarrow> u64 \<Rightarrow> usize io" where
  "cleanup_until_space_available stat clips_dir min_free_bytes =
     cleanup_loop stat clips_dir min_free_bytes 0"

text \<open>One check of \<open>run_disk_cleanup\<close>: failures are logged only.\<close>

definition disk_check :: "(world \<Rightarrow> statvfs option) \<Rightarrow> DiskCleanupConfig \<Rightarrow> unit io" where
  "disk_check stat cfg =
     bindIO (attemptIO (get_available_space stat)) (\<lambda>r. case r of
       Inl _ \<Rightarrow> returnIO ()
     | Inr available \<Rightarrow>
         if available < dc_min_free_bytes cfg
         then bindIO (attemptIO (cleanup_until_space_available stat (dc_clips_dir cfg) (dc_min_free_bytes cfg)))
                (\<lambda>_. returnIO ())
         else returnIO ())"

text \<open>The task runs forever; \<open>ts\<close> are the times of its checks so far.\<close>

definition run_disk_cleanup ::
    "(world \<Rightarrow> statvfs option) \<Rightarrow> DiskCleanupConfig \<Rightarrow> (instant \<times> datetime \<times> unit) list \<Rightarrow> unit io" where
  "run_disk_cleanup stat cfg ts =
     bindIO (fs_create_dir_all (dc_clips_dir cfg)) (\<lambda>_.
     event_loop (\<lambda>_ _. disk_check stat cfg) () ts)"

section \<open>Retries end\<close>

text \<open>Whether an answer is to be retried, and what the caller gets otherwise.\<close>

definition retryable :: "request_error + response \<Rightarrow> bool" where
  "retryable a = (case a of Inr r \<Rightarrow> is_retryable_status (rs_status r) | Inl e \<Rightarrow> is_retryable_reqwest_err e)"

definition final_answer :: "request_error + response \<Rightarrow> (retry_error, response) rust" where
  "final_answer a = (case a of Inr r \<Rightarrow> Ok r | Inl e \<Rightarrow> Err (RequestError e))"

definition retry_reason :: "request_error + response \<Rightarrow> retry_error" where
  "retry_reason a = (case a of Inr r \<Rightarrow> RetryableStatus (rs_status r) | Inl e \<Rightarrow> RequestError e)"

lemma retry_loop_step:
  "retry_loop cfg answers attempt last_err =
     (if attempt < rt_max_attempts cfg then
        if retryable (answers attempt)
        then (let (res, ds) = retry_loop cfg answers (attempt + 1) (Some (retry_reason (answers attempt))) in
              (res, exp_backoff attempt (rt_base_delay cfg) (rt_max_delay cfg) # ds))
        else (final_answer (answers attempt), [])
      else (Err (unwrap_or last_err FailedAfterRetries), []))"
  by (subst retry_loop.simps)
     (auto simp: retryable_def final_answer_def retry_reason_def Let_def split: sum.splits)

lemma retry_loop_first:
  assumes "\<forall>i. k \<le> i \<and> i < n \<longrightarrow> retryable (answers i)" "\<not> retryable (answers n)" "k \<le> n" "n < rt_max_attempts cfg"
  shows "retry_loop cfg answers k last_err
    = (final_answer (answers n), map (\<lambda>i. exp_backoff i (rt_base_delay cfg) (rt_max_delay cfg)) [k ..< n])"
  using assms
proof (induction "n - k" arbitrary: k last_err)
  case 0
  then show ?case by (subst retry_loop_step) simp
next
  case (Suc d)
  then have "k < n" "retryable (answers k)" by auto
  with Suc show ?case by (subst retry_loop_step) (simp add: upt_conv_Cons)
qed

lemma retry_loop_exhausted:
  assumes "\<forall>i. k \<le> i \<and> i < rt_max_attempts cfg \<longrightarrow> retryable (answers i)" "k \<le> rt_max_attempts cfg"
  shows "retry_loop cfg answers k last_err
    = (Err (if k < rt_max_attempts cfg then retry_reason (answers (rt_max_attempts cfg - 1))
            else unwrap_or last_err FailedAfterRetries),
       map (\<lambda>i. exp_backoff i (rt_base_delay cfg) (rt_max_delay cfg)) [k ..< rt_max_attempts cfg])"
  using assms
proof (induction "rt_max_attempts cfg - k" arbitrary: k last_err)
  case 0
  then show ?case by (subst retry_loop_step) simp
next
  case (Suc d)
  then have k: "k < rt_max_attempts cfg" "retryable (answers k)" by auto
  have "\<not> Suc k < rt_max_attempts cfg \<Longrightarrow> rt_max_attempts cfg - 1 = k" using k(1) by auto
  with Suc k show ?case by (subst retry_loop_step) (auto simp: upt_conv_Cons)
qed

lemma exp_backoff_min: "exp_backoff attempt base mx = min (min (base * 2 ^ min attempt 20) duration_max) mx"
  by (auto simp: exp_backoff_def Let_def min_def)

lemma exp_backoff_bounds:
  "exp_backoff attempt base mx \<le> mx"
  "m \<le> n \<Longrightarrow> exp_backoff m base mx \<le> exp_backoff n base mx"
proof -
  show "exp_backoff attempt base mx \<le> mx" unfolding exp_backoff_min by (rule min.cobounded2)
  assume "m \<le> n"
  then have "base * 2 ^ (min m 20) \<le> base * 2 ^ (min n 20)" by (intro mult_le_mono power_increasing) auto
  then show "exp_backoff m base mx \<le> exp_backoff n base mx"
    unfolding exp_backoff_min by (intro min.mono) simp_all
qed

section \<open>The oldest clip\<close>

lemma foldl_oldest:
  "foldl note_oldest (Some e) es = Some m \<Longrightarrow> m \<in> set (e # es) \<and> (\<forall>x \<in> set (e # es). snd m \<le> snd x)"
  "\<exists>m. foldl note_oldest (Some e) es = Some m"
proof (induction es arbitrary: e)
  case (Cons a es)
  {
    case 1
    then show ?case using Cons.IH(1) [of a] Cons.IH(1) [of e]
      by (cases "snd a < snd e") (auto simp: note_oldest_def split: prod.splits intro: order_trans)
  next
    case 2
    then show ?case using Cons.IH(2) by (auto simp: note_oldest_def split: prod.splits)
  }
qed auto

text \<open>The clips of a directory.\<close>

definition clip_set :: "string \<Rightarrow> world \<Rightarrow> string set" where
  "clip_set dir w = {p. parent_dir p = dir \<and> extension p = Some ''h264'' \<and> map_of (w_files w) p \<noteq> None}"

definition mtime_of :: "world \<Rightarrow> string \<Rightarrow> datetime" where
  "mtime_of w p = f_mtime (the (map_of (w_files w) p))"

lemma collect_clips:
  assumes "w_faults w = []" "\<forall>p \<in> set ps. map_of (w_files w) p \<noteq> None"
  shows "collectIO ps clip_mtime w
    = (Ok (map (\<lambda>p. (p, mtime_of w p)) (filter (\<lambda>p. extension p = Some ''h264'') ps)), w)"
  using assms(2)
proof (induction ps)
  case (Cons p ps)
  then obtain f where f: "map_of (w_files w) p = Some f" by auto
  then have m: "fs_metadata p w = (Ok f, w)" using assms(1) by (simp add: fs_metadata_def)
  have "clip_mtime p w = (Ok (if extension p = Some ''h264'' then Some (p, mtime_of w p) else None), w)"
    using m f by (simp add: clip_mtime_def bindIO_def attemptIO_def mtime_of_def)
  with Cons show ?case by (simp add: bindIO_def)
qed simp

lemma find_oldest_spec:
  assumes "w_faults w = []"
  obtains "clip_set dir w = {}" "find_oldest dir w = (Ok None, w)"
    | p where "p \<in> clip_set dir w" "\<forall>q \<in> clip_set dir w. mtime_of w p \<le> mtime_of w q"
        "find_oldest dir w = (Ok (Some (p, mtime_of w p)), w)"
proof -
  let ?ps = "filter (\<lambda>p. parent_dir p = dir) (map fst (w_files w))"
  let ?cs = "filter (\<lambda>p. extension p = Some ''h264'') ?ps"
  let ?es = "map (\<lambda>p. (p, mtime_of w p)) ?cs"
  have cs: "set ?cs = clip_set dir w" by (auto simp: clip_set_def map_of_eq_None_iff)
  have "fs_read_dir dir w = (Ok ?ps, w)" using assms by (simp add: fs_read_dir_def)
  moreover have "\<forall>p \<in> set ?ps. map_of (w_files w) p \<noteq> None" by (auto simp: map_of_eq_None_iff)
  note collect_clips [OF assms this]
  ultimately have f: "find_oldest dir w = (Ok (foldl note_oldest None ?es), w)"
    by (simp add: find_oldest_def bindIO_def)
  show ?thesis
  proof (cases ?cs)
    case Nil
    then have "clip_set dir w = {}" "find_oldest dir w = (Ok None, w)" using cs f by simp_all
    then show ?thesis by (rule that)
  next
    case (Cons c cs')
    then have "foldl note_oldest None ?es = foldl note_oldest (Some (c, mtime_of w c)) (map (\<lambda>p. (p, mtime_of w p)) cs')"
      by (simp add: note_oldest_def)
    then obtain m where m: "foldl note_oldest None ?es = Some m" "m \<in> set ?es" "\<forall>x \<in> set ?es. snd m \<le> snd x"
      using foldl_oldest(2) foldl_oldest(1) Cons by (metis (no_types, lifting) list.simps(9))
    then obtain p where p: "p \<in> clip_set dir w" "m = (p, mtime_of w p)" using cs by auto
    moreover have "\<forall>q \<in> set ?cs. mtime_of w p \<le> mtime_of w q" using m(3) p(2) by auto
    ultimately show ?thesis using m(1) f unfolding cs by (intro that(2)) simp_all
  qed
qed

text \<open>Whatever fails, a round that goes on has removed a file: the guard of the loop always holds.\<close>

lemma delete_length: "length (AList.delete q xs) \<le> length xs" "map_of xs q \<noteq> None \<Longrightarrow> length (AList.delete q xs) < length xs"
proof -
  show "length (AList.delete q xs) \<le> length xs" by (simp add: AList.delete_eq)
  assume "map_of xs q \<noteq> None"
  then have "q \<in> fst ` set xs" by (simp add: map_of_eq_None_iff)
  then show "length (AList.delete q xs) < length xs"
    unfolding AList.delete_eq by (metis (mono_tags, lifting) case_prod_beta imageE length_filter_less)
qed

lemma remove_files:
  "fs_remove q w = (r, w') \<Longrightarrow> length (w_files w') \<le> length (w_files w)"
  "fs_remove q w = (Ok (), w') \<Longrightarrow> length (w_files w') < length (w_files w)"
  by (auto simp: fs_remove_def bindIO_def next_fault_def delete_length split: list.splits option.splits)

lemma collect_files: "collectIO ps clip_mtime w = (r, w') \<Longrightarrow> w_files w' = w_files w"
proof (induction ps arbitrary: w r w')
  case (Cons p ps)
  obtain r1 w1 where 1: "clip_mtime p w = (r1, w1)" by fastforce
  then have "w_files w1 = w_files w" "\<exists>x. r1 = Ok x"
    by (auto simp: clip_mtime_def bindIO_def attemptIO_def fs_metadata_def next_fault_def
        split: if_splits list.splits option.splits)
  moreover obtain r2 w2 where 2: "collectIO ps clip_mtime w1 = (r2, w2)" by fastforce
  ultimately show ?case
    using Cons.prems 1 Cons.IH [OF 2] by (cases r2) (auto simp: bindIO_def)
qed simp

lemma find_oldest_files: "find_oldest dir w = (r, w') \<Longrightarrow> w_files w' = w_files w"
  by (auto simp: find_oldest_def fs_read_dir_def bindIO_def next_fault_def dest!: collect_files
      split: list.splits option.splits prod.splits rust.splits)

lemma cleanup_round_shrinks:
  assumes "cleanup_round stat dir mn w = (Ok (Some p), w')"
  shows "length (w_files w') < length (w_files w)"
proof -
  obtain available where a: "get_available_space stat w = (Ok available, w)" "\<not> available \<ge> mn"
    using assms by (auto simp: cleanup_round_def get_available_space_def bindIO_def Let_def
        split: option.splits if_splits)
  obtain q t w1 where f: "find_oldest dir w = (Ok (Some (q, t)), w1)"
    using assms a by (auto simp: cleanup_round_def bindIO_def split: prod.splits rust.splits option.splits)
  obtain w2 where r: "fs_remove q w1 = (Ok (), w2)"
    using assms a f by (auto simp: cleanup_round_def bindIO_def attemptIO_def split: prod.splits rust.splits sum.splits)
  obtain r3 w3 where j: "fs_remove (with_extension q ''json'') w2 = (r3, w3)" by fastforce
  have "w' = w3" using assms a f r j
    by (auto simp: cleanup_round_def bindIO_def attemptIO_def split: prod.splits rust.splits)
  with remove_files(1) [OF j] remove_files(2) [OF r] find_oldest_files [OF f] show ?thesis by simp
qed

lemma cleanup_loop_unfold:
  "cleanup_loop stat dir mn deleted =
     bindIO (cleanup_round stat dir mn) (\<lambda>r. case r of
       Some p \<Rightarrow> cleanup_loop stat dir mn (deleted + 1)
     | None \<Rightarrow> returnIO deleted)"
proof
  fix w
  show "cleanup_loop stat dir mn deleted w =
     bindIO (cleanup_round stat dir mn) (\<lambda>r. case r of
       Some p \<Rightarrow> cleanup_loop stat dir mn (deleted + 1)
     | None \<Rightarrow> returnIO deleted) w"
    using cleanup_round_shrinks [of stat dir mn w]
    by (subst cleanup_loop.simps) (auto simp: bindIO_def split: prod.splits rust.splits option.splits)
qed

text \<open>Deleting a clip with its sidecar, when no call fails.\<close>

definition without_clip :: "string \<Rightarrow> world \<Rightarrow> world" where
  "without_clip p w = w\<lparr>w_files := AList.delete (with_extension p ''json'') (AList.delete p (w_files w))\<rparr>"

lemma remove_or_not:
  "w_faults w = [] \<Longrightarrow> \<exists>r. attemptIO (fs_remove p) w = (Ok r, w\<lparr>w_files := AList.delete p (w_files w)\<rparr>)"
proof -
  have "map_of (w_files w) p = None \<Longrightarrow> AList.delete p (w_files w) = w_files w"
    unfolding AList.delete_eq by (rule filter_True) (force simp: map_of_eq_None_iff)
  then show "w_faults w = [] \<Longrightarrow> ?thesis"
    by (cases "map_of (w_files w) p") (simp_all add: attemptIO_def fs_remove_def)
qed

lemma without_clip_shrinks:
  assumes "map_of (w_files w) p \<noteq> None"
  shows "length (w_files (without_clip p w)) < length (w_files w)"
  using delete_length(1) [where xs = "AList.delete p (w_files w)" and q = "with_extension p ''json''"] delete_length(2) [OF assms]
  by (simp add: without_clip_def)

lemma cleanup_round_spec:
  assumes "w_faults w = []" "get_available_space stat w = (Ok available, w)"
  obtains "available \<ge> mn \<or> clip_set dir w = {}" "cleanup_round stat dir mn w = (Ok None, w)"
    | p where "available < mn" "p \<in> clip_set dir w" "\<forall>q \<in> clip_set dir w. mtime_of w p \<le> mtime_of w q"
        "cleanup_round stat dir mn w = (Ok (Some p), without_clip p w)"
proof (cases "available \<ge> mn")
  case True
  with assms have "cleanup_round stat dir mn w = (Ok None, w)" by (simp add: cleanup_round_def bindIO_def)
  with True show ?thesis using that(1) by blast
next
  case False
  show ?thesis
  proof (cases rule: find_oldest_spec [OF assms(1), of dir])
    case 1
    with assms(2) False have "cleanup_round stat dir mn w = (Ok None, w)" by (simp add: cleanup_round_def bindIO_def)
    with 1 show ?thesis using that(1) by blast
  next
    case o: (2 p)
    let ?w = "w\<lparr>w_files := AList.delete p (w_files w)\<rparr>"
    obtain f where "map_of (w_files w) p = Some f" using o(1) by (auto simp: clip_set_def)
    then have r: "attemptIO (fs_remove p) w = (Ok (Inr ()), ?w)"
      using assms(1) by (simp add: attemptIO_def fs_remove_def)
    obtain r' where "attemptIO (fs_remove (with_extension p ''json'')) ?w
        = (Ok r', ?w\<lparr>w_files := AList.delete (with_extension p ''json'') (w_files ?w)\<rparr>)"
      using remove_or_not [of ?w "with_extension p ''json''"] assms(1) by auto
    with assms(2) False o r have "cleanup_round stat dir mn w = (Ok (Some p), without_clip p w)"
      by (simp add: cleanup_round_def bindIO_def without_clip_def)
    with False o show ?thesis using that(2) by simp
  qed
qed

lemma split_on_single: "split_on c s = [p] \<Longrightarrow> p = s"
  by (induction s arbitrary: p) (auto split: if_splits list.splits)

lemma last_split_suffix: "\<exists>a. s = a @ last (split_on c s)"
proof (induction s)
  case (Cons x s)
  then obtain a where a: "s = a @ last (split_on c s)" by blast
  show ?case
  proof (cases "split_on c s")
    case Nil
    then show ?thesis by simp
  next
    case (Cons p ps)
    show ?thesis
    proof (cases "x = c \<or> ps \<noteq> []")
      case True
      with Cons have "last (split_on c (x # s)) = last (split_on c s)" by auto
      with a show ?thesis by (metis append_Cons)
    next
      case False
      with Cons split_on_single [of c s p] show ?thesis by auto
    qed
  qed
qed simp

lemma extension_suffix: "extension p = Some e \<Longrightarrow> \<exists>a. p = a @ e"
proof -
  assume "extension p = Some e"
  then have "e = last (split_on (CHR ''.'') (file_name p))" by (auto simp: extension_def Let_def split: if_splits)
  moreover obtain a where "file_name p = a @ last (split_on (CHR ''.'') (file_name p))" using last_split_suffix by blast
  moreover obtain b where "p = b @ file_name p" unfolding file_name_def using last_split_suffix by blast
  ultimately show ?thesis by (metis append_assoc)
qed

lemma json_not_clip: "with_extension p ''json'' \<notin> clip_set dir w"
proof
  assume "with_extension p ''json'' \<in> clip_set dir w"
  then have "extension (with_extension p ''json'') = Some ''h264''" by (simp add: clip_set_def)
  then obtain a where "with_extension p ''json'' = a @ ''h264''" using extension_suffix by blast
  then have "last (with_extension p ''json'') = CHR ''4''" by simp
  moreover have "last (with_extension p ''json'') = CHR ''n''"
    by (auto simp: with_extension_def split: option.splits)
  ultimately show False by simp
qed

lemma without_clip_simps:
  "clip_set dir (without_clip p w) = clip_set dir w - {p}" "w_faults (without_clip p w) = w_faults w"
  "q \<noteq> p \<Longrightarrow> q \<noteq> with_extension p ''json'' \<Longrightarrow> map_of (w_files (without_clip p w)) q = map_of (w_files w) q"
proof -
  show m: "map_of (w_files (without_clip p w)) q = map_of (w_files w) q"
    if "q \<noteq> p" "q \<noteq> with_extension p ''json''" for q
    using that by (simp add: without_clip_def AList.delete_conv')
  show "w_faults (without_clip p w) = w_faults w" by (simp add: without_clip_def)
  have n: "p \<notin> clip_set dir (without_clip p w)"
    by (simp add: clip_set_def without_clip_def AList.delete_conv')
  have e: "q \<in> clip_set dir (without_clip p w) \<longleftrightarrow> q \<in> clip_set dir w" if "q \<noteq> p" for q
  proof (cases "q = with_extension p ''json''")
    case True
    then show ?thesis using json_not_clip by simp
  next
    case False
    then show ?thesis using m [OF that False] by (simp add: clip_set_def)
  qed
  show "clip_set dir (without_clip p w) = clip_set dir w - {p}"
  proof (rule set_eqI)
    show "q \<in> clip_set dir (without_clip p w) \<longleftrightarrow> q \<in> clip_set dir w - {p}" for q
      using n e [of q] by (cases "q = p") auto
  qed
qed

lemma finite_clip_set [simp]: "finite (clip_set dir w)"
proof (rule finite_subset)
  show "clip_set dir w \<subseteq> fst ` set (w_files w)" by (auto simp: clip_set_def map_of_eq_None_iff)
qed simp

text \<open>\<open>statvfs\<close> answers in every state.\<close>

definition stat_ok :: "(world \<Rightarrow> statvfs option) \<Rightarrow> bool" where
  "stat_ok stat \<longleftrightarrow> (\<forall>w. \<exists>n. get_available_space stat w = (Ok n, w))"

definition space :: "(world \<Rightarrow> statvfs option) \<Rightarrow> world \<Rightarrow> nat" where
  "space stat w = (case get_available_space stat w of (Ok n, _) \<Rightarrow> n | _ \<Rightarrow> 0)"

text \<open>What deleting the oldest clips one by one leaves.\<close>

definition pruned :: "string \<Rightarrow> world \<Rightarrow> world \<Rightarrow> bool" where
  "pruned dir w w' \<longleftrightarrow>
     clip_set dir w' \<subseteq> clip_set dir w
     \<and> (\<forall>p \<in> clip_set dir w - clip_set dir w'. \<forall>q \<in> clip_set dir w'. mtime_of w p \<le> mtime_of w q)
     \<and> (\<forall>q. q \<notin> clip_set dir w - clip_set dir w'
          \<and> q \<notin> (\<lambda>p. with_extension p ''json'') ` (clip_set dir w - clip_set dir w')
          \<longrightarrow> map_of (w_files w') q = map_of (w_files w) q)"

lemma pruned_refl: "pruned dir w w"
  by (simp add: pruned_def)

lemma pruned_step:
  assumes p: "p \<in> clip_set dir w" "\<forall>q \<in> clip_set dir w. mtime_of w p \<le> mtime_of w q"
    and r: "pruned dir (without_clip p w) w'"
  shows "pruned dir w w'" "clip_set dir w - clip_set dir w' = insert p (clip_set dir (without_clip p w) - clip_set dir w')"
proof -
  let ?v = "without_clip p w"
  have sub: "clip_set dir w' \<subseteq> clip_set dir w - {p}" using r by (simp add: pruned_def without_clip_simps)
  show gone: "clip_set dir w - clip_set dir w' = insert p (clip_set dir ?v - clip_set dir w')"
    using p(1) sub by (auto simp: without_clip_simps)
  have mt: "mtime_of ?v q = mtime_of w q" if "q \<in> clip_set dir w - {p}" for q
  proof -
    have "q \<noteq> with_extension p ''json''" using that json_not_clip by blast
    then show ?thesis using that by (simp add: mtime_of_def without_clip_simps(3))
  qed
  show "pruned dir w w'"
    unfolding pruned_def
  proof (intro conjI ballI allI impI)
    show "clip_set dir w' \<subseteq> clip_set dir w" using sub by blast
    fix x q assume x: "x \<in> clip_set dir w - clip_set dir w'" and q: "q \<in> clip_set dir w'"
    show "mtime_of w x \<le> mtime_of w q"
    proof (cases "x = p")
      case False
      then have "mtime_of ?v x \<le> mtime_of ?v q" using r x q gone by (auto simp: pruned_def)
      moreover have "q \<in> clip_set dir w - {p}" "x \<in> clip_set dir w - {p}" using x q False sub by auto
      ultimately show ?thesis using mt by simp
    qed (use p(2) q sub in auto)
  next
    fix q assume q: "q \<notin> clip_set dir w - clip_set dir w'
      \<and> q \<notin> (\<lambda>p. with_extension p ''json'') ` (clip_set dir w - clip_set dir w')"
    then have "map_of (w_files w') q = map_of (w_files ?v) q" using r gone by (simp add: pruned_def)
    also have "\<dots> = map_of (w_files w) q" using q gone by (intro without_clip_simps(3)) auto
    finally show "map_of (w_files w') q = map_of (w_files w) q" .
  qed
qed

lemma cleanup_loop_spec:
  assumes "stat_ok stat" "w_faults w = []"
  shows "ensures (cleanup_loop stat dir mn deleted) w (\<lambda>n w'. w_faults w' = [] \<and> pruned dir w w'
    \<and> n = deleted + card (clip_set dir w - clip_set dir w') \<and> (space stat w' \<ge> mn \<or> clip_set dir w' = {}))"
  using assms(2)
proof (induction "length (w_files w)" arbitrary: w deleted rule: less_induct)
  case less
  obtain available where a: "get_available_space stat w = (Ok available, w)" using assms(1) by (auto simp: stat_ok_def)
  show ?case
  proof (cases rule: cleanup_round_spec [OF less.prems a, of mn dir])
    case 1
    then show ?thesis
      using a less.prems by (subst ensures_def, subst cleanup_loop.simps) (auto simp: space_def pruned_refl)
  next
    case r: (2 p)
    let ?v = "without_clip p w"
    have s: "length (w_files ?v) < length (w_files w)"
      using r(2) by (intro without_clip_shrinks) (simp add: clip_set_def)
    have step: "cleanup_loop stat dir mn deleted w = cleanup_loop stat dir mn (deleted + 1) ?v"
      using r(4) s by (subst cleanup_loop.simps) simp
    have "w_faults ?v = []" using less.prems by (simp add: without_clip_simps)
    from less.hyps [OF s this, of "deleted + 1"] show ?thesis
      unfolding ensures_def step
    proof (elim exE conjE)
      fix n w' assume n: "cleanup_loop stat dir mn (deleted + 1) ?v = (Ok n, w')" "pruned dir ?v w'" "w_faults w' = []"
        "n = deleted + 1 + card (clip_set dir ?v - clip_set dir w')" "mn \<le> space stat w' \<or> clip_set dir w' = {}"
      note g = pruned_step [OF r(2,3) n(2)]
      have "card (clip_set dir w - clip_set dir w') = Suc (card (clip_set dir ?v - clip_set dir w'))"
        unfolding g(2) by (subst card_insert_disjoint) (simp_all add: without_clip_simps)
      with n g(1) show "\<exists>x w'. cleanup_loop stat dir mn (deleted + 1) ?v = (Ok x, w') \<and> w_faults w' = []
        \<and> pruned dir w w' \<and> x = deleted + card (clip_set dir w - clip_set dir w')
        \<and> (mn \<le> space stat w' \<or> clip_set dir w' = {})" by auto
    qed
  qed
qed

section \<open>Properties\<close>

text \<open>
  Retrying a request: the caller gets the first answer that is not to be retried if there is
  one within the allowed attempts, otherwise the reason of the last retry (or a fixed error when
  no attempt is allowed); the pauses are the back-off of each retried attempt, they never decrease
  and never exceed the limit.
\<close>

theorem retry_request_first_answer:
  "let (res, pauses) = retry_request cfg answers;
       tried = takeWhile (\<lambda>i. retryable (answers i)) [0 ..< rt_max_attempts cfg];
       n = length tried in
   res = (if n < rt_max_attempts cfg then final_answer (answers n)
          else if n = 0 then Err FailedAfterRetries else Err (retry_reason (answers (n - 1))))
   \<and> pauses = map (\<lambda>i. exp_backoff i (rt_base_delay cfg) (rt_max_delay cfg)) [0 ..< n]
   \<and> sorted pauses \<and> list_all (\<lambda>d. d \<le> rt_max_delay cfg) pauses"
proof -
  let ?m = "rt_max_attempts cfg" and ?P = "\<lambda>i. retryable (answers i)"
  let ?n = "length (takeWhile ?P [0 ..< ?m])"
  let ?ds = "map (\<lambda>i. exp_backoff i (rt_base_delay cfg) (rt_max_delay cfg)) [0 ..< ?n]"
  have le: "?n \<le> ?m" using length_takeWhile_le [of ?P "[0 ..< ?m]"] by simp
  have all: "?P i" if "i < ?n" for i
    using nth_mem [OF that] takeWhile_nth [OF that] set_takeWhileD [of _ ?P "[0 ..< ?m]"] le that by fastforce
  have d: "sorted ?ds" "list_all (\<lambda>d. d \<le> rt_max_delay cfg) ?ds"
    by (auto simp: sorted_iff_nth_mono exp_backoff_bounds list_all_iff)
  have "retry_request cfg answers = ((if ?n < ?m then final_answer (answers ?n)
          else if ?n = 0 then Err FailedAfterRetries else Err (retry_reason (answers (?n - 1)))), ?ds)"
  proof (cases "?n < ?m")
    case True
    then have "\<not> ?P ?n" using nth_length_takeWhile [of ?P "[0 ..< ?m]"] by simp
    with True all retry_loop_first [of 0 ?n answers cfg None] show ?thesis by (simp add: retry_request_def)
  next
    case False
    with le have n: "?n = ?m" by simp
    have "\<forall>i. 0 \<le> i \<and> i < ?m \<longrightarrow> ?P i" using all unfolding n by blast
    from retry_loop_exhausted [OF this, of None] show ?thesis unfolding n by (simp add: retry_request_def)
  qed
  with d show ?thesis by (simp only: Let_def prod.case simp_thms)
qed

text \<open>
  C38. Making room: on a working disk the cleanup ends, with enough space or with no clip left; it
  deletes the oldest clips first, nothing but clips of the directory and their sidecars, and
  reports how many it deleted.
\<close>

theorem disk_cleanup_frees_oldest_first:
  assumes "stat_ok stat" "w_faults w = []"
  shows "ensures (cleanup_until_space_available stat dir min_free) w (\<lambda>n w'.
      (space stat w' \<ge> min_free \<or> clip_set dir w' = {})
      \<and> n = card (clip_set dir w - clip_set dir w') \<and> pruned dir w w')"
  unfolding cleanup_until_space_available_def
  by (rule ensures_mono [OF cleanup_loop_spec [OF assms]]) simp

theorem disk_cleanup_frees_oldest_first_witness:
  "let stat = (\<lambda>w. Some \<lparr>f_frsize = 0, f_bsize = 10, f_bavail = 4 - length (w_files w)\<rparr>);
       w = empty_world\<lparr>w_files := [(''d/b.h264'', \<lparr>f_data = [], f_mtime = 2\<rparr>), (''d/a.h264'', \<lparr>f_data = [], f_mtime = 1\<rparr>),
                              (''d/a.json'', \<lparr>f_data = [], f_mtime = 5\<rparr>), (''d/x'', \<lparr>f_data = [], f_mtime = 0\<rparr>)]\<rparr> in
   ensures (cleanup_until_space_available stat ''d'' 20) w (\<lambda>n w'.
      (space stat w' \<ge> 20 \<or> clip_set ''d'' w' = {})
      \<and> n = card (clip_set ''d'' w - clip_set ''d'' w') \<and> pruned ''d'' w w')"
  unfolding Let_def
  by (rule disk_cleanup_frees_oldest_first)
     (auto simp: stat_ok_def get_available_space_def u64_max_def empty_world_def)

end
