(* ===== verification/Config.thy ===== *)
theory Config
  imports Storage
begin

text \<open>
  \<^verbatim>\<open>src/config/agent_config.rs\<close>: the JSON configuration of the agent, how a remote update is merged
  into it, and the table of runtime variables the other components read.

  Parameters (\<open>config_env\<close>): URL parsing (\<open>url\<close>), JSON printing and parsing (\<open>serde_json\<close>) and the
  environment. A JSON object is an association list; \<open>json_ok\<close> says that its keys are distinct. The
  global table of overrides is an explicit argument, an association list that stands for a
  \<open>HashMap\<close>. A floating point number is kept as its printed text.
\<close>

section \<open>JSON values\<close>

datatype Number = PosInt nat | NegInt int | Float string

datatype json =
    JNull
  | JBool bool
  | JNumber Number
  | JString string
  | JArray "json list"
  | JObject "(string \<times> json) list"

definition get :: "json \<Rightarrow> string \<Rightarrow> json option" where
  "get v key = (case v of JObject m \<Rightarrow> map_of m key | _ \<Rightarrow> None)"

definition as_str :: "json \<Rightarrow> string option" where
  "as_str v = (case v of JString s \<Rightarrow> Some s | _ \<Rightarrow> None)"

definition as_bool :: "json \<Rightarrow> bool option" where
  "as_bool v = (case v of JBool b \<Rightarrow> Some b | _ \<Rightarrow> None)"

definition as_u64 :: "json \<Rightarrow> u64 option" where
  "as_u64 v = (case v of JNumber (PosInt n) \<Rightarrow> Some n | _ \<Rightarrow> None)"

definition as_array :: "json \<Rightarrow> json list option" where
  "as_array v = (case v of JArray xs \<Rightarrow> Some xs | _ \<Rightarrow> None)"

fun json_ok :: "json \<Rightarrow> bool" where
  "json_ok (JArray xs) = list_all json_ok xs"
| "json_ok (JObject m) = (distinct (map fst m) \<and> list_all (\<lambda>(k, v). json_ok v) m)"
| "json_ok _ = True"

definition get_str :: "json \<Rightarrow> string \<Rightarrow> string option" where
  "get_str v key = Option.bind (get v key) as_str"

definition section_of :: "json \<Rightarrow> string \<Rightarrow> json" where
  "section_of v key = unwrap_or (get v key) JNull"

definition nonblank :: "string option \<Rightarrow> string option" where
  "nonblank s = (case s of None \<Rightarrow> None | Some t \<Rightarrow> if trim t = [] then None else Some t)"

section \<open>Parameters\<close>

datatype Host = Domain string | Ipv4 nat nat nat nat | Ipv6 "nat list"

record Url =
  url_scheme :: string
  url_host :: "Host option"
  url_host_str :: "string option"
  url_port :: "nat option"
  url_port_or_known_default :: "nat option"
  url_path :: string
  url_text :: string

record config_env =
  ce_url_parse :: "string \<Rightarrow> string + Url"
  ce_env_var :: "string \<Rightarrow> string option"
  ce_to_string_pretty :: "json \<Rightarrow> string option"
  ce_to_string :: "json \<Rightarrow> string option"
  ce_from_str :: "string \<Rightarrow> json option"

definition url_ok :: "config_env \<Rightarrow> string \<Rightarrow> Url option" where
  "url_ok env s = (case ce_url_parse env s of Inl _ \<Rightarrow> None | Inr u \<Rightarrow> Some u)"

section \<open>Merging\<close>

text \<open>The update wins at every leaf; objects are merged key by key.\<close>

fun merge_value :: "json \<Rightarrow> json \<Rightarrow> json"
  and merge_entries :: "(string \<times> json) list \<Rightarrow> (string \<times> json) list \<Rightarrow> (string \<times> json) list" where
  "merge_value (JObject base_map) (JObject update_map) = JObject (merge_entries base_map update_map)"
| "merge_value base update = update"
| "merge_entries base_map [] = base_map"
| "merge_entries base_map ((key, val) # rest) =
     merge_entries
       (case map_of base_map key of
          Some existing \<Rightarrow> AList.update key (merge_value existing val) base_map
        | None \<Rightarrow> AList.update key val base_map) rest"

definition has_canonical_cameras :: "json \<Rightarrow> bool" where
  "has_canonical_cameras v \<longleftrightarrow> Option.bind (get v ''cameras'') as_array \<noteq> None"

definition legacy_keys :: "string list" where
  "legacy_keys =
     [''camera_id'', ''user'', ''pass'', ''stream_id'', ''transport'', ''motion'', ''motion_enabled'', ''features'',
      ''local_clip_enabled'', ''rtsp_receiver_enabled'', ''rtsp'', ''rtsp_url'', ''rtsp_host'', ''rtsp_port'',
      ''rtsp_path'', ''rtsp_user'', ''rtsp_pass'', ''rtp_port'', ''rtcp_port'', ''onvif'', ''onvif_url'', ''onvif_host'',
      ''onvif_port'', ''onvif_user'', ''onvif_pass'', ''onvif_debug'', ''onvif_dump_xml'', ''onvif_sub_termination'',
      ''onvif_renew_every_secs'', ''onvif_pull_timeout'', ''onvif_pull_limit'', ''onvif_resubscribe_after_errors'',
      ''onvif_min_poll_gap_ms'', ''onvif_after_sub_delay_ms'', ''onvif_connrefused_retries'',
      ''onvif_connrefused_backoff_ms'', ''cam1_camera_id'', ''cam1_stream_id'', ''cam1_transport'', ''cam1_rtsp_url'',
      ''cam1_rtsp_user'', ''cam1_rtsp_pass'', ''cam1_rtp_port'', ''cam1_rtcp_port'', ''cam2_camera_id'',
      ''cam2_stream_id'', ''cam2_transport'', ''cam2_rtsp_url'', ''cam2_rtsp_user'', ''cam2_rtsp_pass'',
      ''cam2_rtp_port'', ''cam2_rtcp_port'']"

definition strip_top_level_legacy_camera_fields :: "json \<Rightarrow> json" where
  "strip_top_level_legacy_camera_fields v =
     (case v of
        JObject m \<Rightarrow> JObject (filter (\<lambda>(key, _). to_lowercase key \<notin> set legacy_keys) m)
      | _ \<Rightarrow> v)"

fun has_non_null :: "json \<Rightarrow> bool" where
  "has_non_null JNull = False"
| "has_non_null (JArray items) = list_ex has_non_null items"
| "has_non_null (JObject m) = list_ex (\<lambda>(k, v). has_non_null v) m"
| "has_non_null _ = True"

section \<open>The server address\<close>

definition parse_bool :: "string \<Rightarrow> bool option" where
  "parse_bool v =
     (if trim v \<in> {''1'', ''true'', ''TRUE'', ''yes'', ''YES''} then Some True
      else if trim v \<in> {''0'', ''false'', ''FALSE'', ''no'', ''NO''} then Some False
      else None)"

type_synonym overrides = "(string \<times> string) list"

definition runtime_var :: "overrides \<Rightarrow> string \<Rightarrow> string option" where
  "runtime_var ov key = map_of ov key"

definition runtime_bool :: "overrides \<Rightarrow> string \<Rightarrow> bool \<Rightarrow> bool" where
  "runtime_bool ov key d = unwrap_or (Option.bind (runtime_var ov key) parse_bool) d"

definition runtime_u64 :: "overrides \<Rightarrow> string \<Rightarrow> u64 \<Rightarrow> u64" where
  "runtime_u64 ov key d = unwrap_or (Option.bind (runtime_var ov key) (parse_uint u64_max)) d"

definition runtime_u64_nonzero :: "overrides \<Rightarrow> string \<Rightarrow> u64 \<Rightarrow> u64" where
  "runtime_u64_nonzero ov key d =
     (case Option.bind (runtime_var ov key) (parse_uint u64_max) of
        Some v \<Rightarrow> if v > 0 then v else d
      | None \<Rightarrow> d)"

definition allow_insecure_server_http :: "config_env \<Rightarrow> overrides \<Rightarrow> bool" where
  "allow_insecure_server_http env ov =
     unwrap_or
       (or_else (Option.bind (runtime_var ov ''ALLOW_INSECURE_SERVER_HTTP'') parse_bool)
         (Option.bind (ce_env_var env ''ALLOW_INSECURE_SERVER_HTTP'') parse_bool)) False"

text \<open>\<open>is_loopback\<close>: 127.0.0.0/8 and \<open>::1\<close>.\<close>

definition is_local_server_host :: "Host \<Rightarrow> bool" where
  "is_local_server_host h =
     (case h of
        Domain domain \<Rightarrow> eq_ignore_ascii_case domain ''localhost''
      | Ipv4 a b c d \<Rightarrow> a = 127
      | Ipv6 segs \<Rightarrow> segs = [0, 0, 0, 0, 0, 0, 0, 1])"

datatype url_error = EmptyValue | InvalidUrl string | MissingHost | InsecureHttp | UnsupportedScheme string

definition validate_server_base_url :: "config_env \<Rightarrow> string \<Rightarrow> bool \<Rightarrow> url_error + string" where
  "validate_server_base_url env base_url allow_insecure_http =
     (let trimmed = trim base_url in
      if trimmed = [] then Inl EmptyValue
      else case ce_url_parse env trimmed of
        Inl e \<Rightarrow> Inl (InvalidUrl e)
      | Inr parsed \<Rightarrow>
          (case url_host parsed of
             None \<Rightarrow> Inl MissingHost
           | Some host \<Rightarrow>
               if url_scheme parsed = ''https'' then Inr (url_text parsed)
               else if url_scheme parsed = ''http'' then
                 if allow_insecure_http \<or> is_local_server_host host then Inr (url_text parsed) else Inl InsecureHttp
               else Inl (UnsupportedScheme (url_scheme parsed))))"

datatype config_error = InvalidBaseUrl url_error | MissingBearerToken

definition validate_server_base_url_in_config_value ::
    "config_env \<Rightarrow> overrides \<Rightarrow> json \<Rightarrow> (config_error, unit) rust" where
  "validate_server_base_url_in_config_value env ov v =
     (case nonblank (Option.bind (get v ''server'') (\<lambda>s. get_str s ''base_url'')) of
        None \<Rightarrow> Ok ()
      | Some base_url \<Rightarrow>
          (case validate_server_base_url env (trim base_url) (allow_insecure_server_http env ov) of
             Inl e \<Rightarrow> Err (InvalidBaseUrl e)
           | Inr _ \<Rightarrow> Ok ()))"

section \<open>The configuration record\<close>

record MotionConfig =
  mo_enabled :: bool

record ServerConfig =
  sv_enabled :: bool
  sv_base_url :: string
  sv_bearer_token :: string
  sv_retry_interval_secs :: u64
  sv_max_retries :: u32

definition base_url_prefix :: "ServerConfig \<Rightarrow> string" where
  "base_url_prefix c = trim_end_matches (CHR ''/'') (sv_base_url c)"

record CleanupConfig =
  cl_interval_secs :: u64
  cl_min_free_bytes :: u64

record AgentConfig =
  ag_camera_id :: string
  ag_motion :: MotionConfig
  ag_server :: ServerConfig
  ag_cleanup :: CleanupConfig

definition AgentConfig_default :: AgentConfig where
  "AgentConfig_default =
     \<lparr>ag_camera_id = ''unknown-camera'', ag_motion = \<lparr>mo_enabled = True\<rparr>,
      ag_server = \<lparr>sv_enabled = False, sv_base_url = ''http://127.0.0.1:8080'', sv_bearer_token = ''devtoken'',
        sv_retry_interval_secs = 2, sv_max_retries = 5\<rparr>,
      ag_cleanup = \<lparr>cl_interval_secs = 30, cl_min_free_bytes = 2000000000\<rparr>\<rparr>"

definition retry_interval :: "AgentConfig \<Rightarrow> duration" where
  "retry_interval c = from_secs (sv_retry_interval_secs (ag_server c))"

definition cleanup_interval :: "AgentConfig \<Rightarrow> duration" where
  "cleanup_interval c = from_secs (cl_interval_secs (ag_cleanup c))"

text \<open>\<open>as u32\<close> keeps the low 32 bits.\<close>

definition from_env :: "config_env \<Rightarrow> overrides \<Rightarrow> (config_error, AgentConfig) rust" where
  "from_env env ov =
     (let camera_id = unwrap_or (or_else (runtime_var ov ''CAMERA_ID'') (runtime_var ov ''ONVIF_HOST'')) ''unknown-camera'';
          url = unwrap_or (runtime_var ov ''SERVER_BASE_URL'') ''http://127.0.0.1:8080'' in
      case validate_server_base_url env url (allow_insecure_server_http env ov) of
        Inl e \<Rightarrow> Err (InvalidBaseUrl e)
      | Inr base_url \<Rightarrow>
          (case runtime_var ov ''SERVER_BEARER_TOKEN'' of
             None \<Rightarrow> Err MissingBearerToken
           | Some token \<Rightarrow>
               Ok \<lparr>ag_camera_id = camera_id,
                   ag_motion = \<lparr>mo_enabled = runtime_bool ov ''MOTION_ENABLED'' True\<rparr>,
                   ag_server = \<lparr>sv_enabled = runtime_bool ov ''SERVER_ENABLED'' False, sv_base_url = base_url,
                     sv_bearer_token = token,
                     sv_retry_interval_secs = runtime_u64 ov ''SERVER_RETRY_INTERVAL_SECS'' 2,
                     sv_max_retries = of_nat (runtime_u64 ov ''SERVER_MAX_RETRIES'' 5)\<rparr>,
                   ag_cleanup = \<lparr>cl_interval_secs = runtime_u64 ov ''CLIP_CLEANUP_INTERVAL_SECS'' 30,
                     cl_min_free_bytes = runtime_u64 ov ''CLIP_MIN_FREE_BYTES'' 2000000000\<rparr>\<rparr>))"

definition merge_string :: "json \<Rightarrow> string \<Rightarrow> string \<Rightarrow> string" where
  "merge_string v key d = unwrap_or (nonblank (get_str v key)) d"

definition merge_bool :: "json \<Rightarrow> string \<Rightarrow> bool \<Rightarrow> bool" where
  "merge_bool v key d = unwrap_or (Option.bind (get v key) as_bool) d"

definition merge_u64 :: "json \<Rightarrow> string \<Rightarrow> u64 \<Rightarrow> u64" where
  "merge_u64 v key d = unwrap_or (Option.bind (get v key) as_u64) d"

definition first_camera :: "json \<Rightarrow> json option" where
  "first_camera v =
     (case Option.bind (get v ''cameras'') as_array of Some (first # _) \<Rightarrow> Some first | _ \<Rightarrow> None)"

definition merge_camera_id :: "json \<Rightarrow> string \<Rightarrow> string" where
  "merge_camera_id v d =
     (let direct = merge_string v ''camera_id'' d in
      if direct \<noteq> d then direct
      else unwrap_or (Option.bind (first_camera v) (\<lambda>first. nonblank (get_str first ''id''))) direct)"

definition motion_enabled_value :: "json \<Rightarrow> bool option" where
  "motion_enabled_value v =
     or_else (Option.bind (get v ''motion'') (\<lambda>m. Option.bind (get m ''enabled'') as_bool))
       (Option.bind (get v ''motion_enabled'') as_bool)"

definition merge_motion_enabled :: "json \<Rightarrow> bool \<Rightarrow> bool" where
  "merge_motion_enabled v d =
     unwrap_or (or_else (motion_enabled_value v) (Option.bind (first_camera v) motion_enabled_value)) d"

definition merge_with_defaults :: "config_env \<Rightarrow> overrides \<Rightarrow> json \<Rightarrow> (config_error, AgentConfig) rust" where
  "merge_with_defaults env ov v =
     (let d = AgentConfig_default;
          motion_val = section_of v ''motion'';
          server_val = section_of v ''server'';
          cleanup_val = section_of v ''cleanup'';
          motion_enabled = merge_motion_enabled v (mo_enabled (ag_motion d)) in
      case validate_server_base_url env (merge_string server_val ''base_url'' (sv_base_url (ag_server d)))
             (allow_insecure_server_http env ov) of
        Inl e \<Rightarrow> Err (InvalidBaseUrl e)
      | Inr base_url \<Rightarrow>
          Ok \<lparr>ag_camera_id = merge_camera_id v (ag_camera_id d),
              ag_motion = \<lparr>mo_enabled = merge_bool motion_val ''enabled'' motion_enabled\<rparr>,
              ag_server = \<lparr>sv_enabled = merge_bool server_val ''enabled'' (sv_enabled (ag_server d)),
                sv_base_url = base_url,
                sv_bearer_token = merge_string server_val ''bearer_token'' (sv_bearer_token (ag_server d)),
                sv_retry_interval_secs = merge_u64 server_val ''retry_interval_secs'' (sv_retry_interval_secs (ag_server d)),
                sv_max_retries = of_nat (merge_u64 server_val ''max_retries'' (unat (sv_max_retries (ag_server d))))\<rparr>,
              ag_cleanup = \<lparr>cl_interval_secs = merge_u64 cleanup_val ''interval_secs'' (cl_interval_secs (ag_cleanup d)),
                cl_min_free_bytes = merge_u64 cleanup_val ''min_free_bytes'' (cl_min_free_bytes (ag_cleanup d))\<rparr>\<rparr>)"

definition merge_server_camera_configs ::
    "config_env \<Rightarrow> overrides \<Rightarrow> json \<Rightarrow> json \<Rightarrow> (config_error, json) rust" where
  "merge_server_camera_configs env ov camera_value server_value =
     bindR (validate_server_base_url_in_config_value env ov server_value) (\<lambda>_.
       Ok (case get server_value ''server'' of
             Some server_section \<Rightarrow>
               if has_non_null server_section
               then (case camera_value of
                       JObject m \<Rightarrow> JObject (AList.update ''server'' server_section m)
                     | _ \<Rightarrow> camera_value)
               else camera_value
           | None \<Rightarrow> camera_value))"

section \<open>Default files\<close>

definition nulls :: "string list \<Rightarrow> json" where
  "nulls keys = JObject (map (\<lambda>k. (k, JNull)) keys)"

definition default_server_section :: json where
  "default_server_section = nulls [''enabled'', ''base_url'', ''bearer_token'', ''retry_interval_secs'', ''max_retries'']"

definition default_cleanup_section :: json where
  "default_cleanup_section = nulls [''interval_secs'', ''min_free_bytes'']"

definition default_ingest_section :: json where
  "default_ingest_section =
     nulls [''clip_dir'', ''clip_pre_secs'', ''clip_post_secs'', ''clip_ring_secs'', ''clip_stale_part_secs'',
            ''clip_max_secs'', ''clip_write_timeout_ms'', ''clip_write_retry_count'', ''clip_write_retry_backoff_ms'']"

definition default_forward_section :: json where
  "default_forward_section =
     nulls [''mode'', ''server_addr'', ''motion_merge_secs'', ''heartbeat_interval_secs'', ''config_pull_interval_secs'']"

definition default_camera :: json where
  "default_camera =
     JObject [(''id'', JNull), (''user'', JNull), (''pass'', JNull), (''transport'', JNull),
         (''motion'', JObject [(''enabled'', JNull)]),
         (''features'', JObject [(''local_clip_enabled'', JNull), (''rtsp_receiver_enabled'', JNull)]),
         (''rtsp'', JObject [(''url'', JNull), (''stream_id'', JNull)]),
         (''onvif'', JObject
           [(''url'', JNull), (''debug'', JNull), (''dump_xml'', JNull), (''sub_termination'', JNull),
            (''renew_every_secs'', JNull), (''pull_timeout'', JNull), (''pull_limit'', JNull),
            (''resubscribe_after_errors'', JNull), (''min_poll_gap_ms'', JNull), (''after_sub_delay_ms'', JNull),
            (''connrefused_retries'', JNull), (''connrefused_backoff_ms'', JNull),
            (''night_vision'', JObject [(''mode'', JNull)])])]"

definition default_server_json :: json where
  "default_server_json = JObject [(''server'', default_server_section)]"

definition default_camera_json :: json where
  "default_camera_json =
     JObject [(''cameras'', JArray [default_camera]), (''cleanup'', default_cleanup_section),
       (''ingest'', default_ingest_section), (''forward_agent'', default_forward_section),
       (''logging'', nulls [''rust_log'']), (''version'', nulls [''sentinel_version''])]"

definition default_empty_json :: json where
  "default_empty_json =
     JObject [(''server'', default_server_section), (''cleanup'', default_cleanup_section),
       (''ingest'', default_ingest_section), (''forward_agent'', default_forward_section),
       (''cameras'', JArray [default_camera]), (''logging'', nulls [''rust_log'']),
       (''version'', nulls [''sentinel_version''])]"

section \<open>Configuration files\<close>

text \<open>\<open>fs::read_to_string\<close> fails on bytes that are not UTF-8.\<close>

definition read_to_string :: "string \<Rightarrow> string io" where
  "read_to_string path =
     bindIO (fs_metadata path) (\<lambda>f.
       if utf8_lossy (f_data f) = f_data f then returnIO (to_str (f_data f)) else failIO (OtherError ''invalid utf-8''))"

definition pretty_or_empty :: "config_env \<Rightarrow> json \<Rightarrow> bytes" where
  "pretty_or_empty env v = as_bytes (unwrap_or (ce_to_string_pretty env v) ''{}'')"

definition write_json_file :: "config_env \<Rightarrow> string \<Rightarrow> json \<Rightarrow> unit io" where
  "write_json_file env path v =
     bindIO (fs_create_dir_all (parent_dir path)) (\<lambda>_. fs_write path (pretty_or_empty env v))"

definition load_json_value_with_default :: "config_env \<Rightarrow> string \<Rightarrow> json \<Rightarrow> json io" where
  "load_json_value_with_default env path d =
     bindIO (attemptIO (fs_metadata path)) (\<lambda>m.
     bindIO (case m of Inl _ \<Rightarrow> write_json_file env path d | Inr _ \<Rightarrow> returnIO ()) (\<lambda>_.
     bindIO (read_to_string path) (\<lambda>raw.
     returnIO (unwrap_or (ce_from_str env raw) (JObject [])))))"

definition load_json_value :: "config_env \<Rightarrow> string \<Rightarrow> json io" where
  "load_json_value env path = load_json_value_with_default env path default_empty_json"

definition from_json_file :: "config_env \<Rightarrow> overrides \<Rightarrow> string \<Rightarrow> AgentConfig io" where
  "from_json_file env ov path =
     bindIO (load_json_value env path) (\<lambda>v.
       case merge_with_defaults env ov v of
         Ok c \<Rightarrow> returnIO c
       | _ \<Rightarrow> failIO (OtherError ''Invalid server.base_url in config''))"

definition load_camera_json :: "config_env \<Rightarrow> string \<Rightarrow> json io" where
  "load_camera_json env path = load_json_value_with_default env path default_camera_json"

definition load_server_json :: "config_env \<Rightarrow> overrides \<Rightarrow> string \<Rightarrow> json io" where
  "load_server_json env ov path =
     bindIO (load_json_value_with_default env path default_server_json) (\<lambda>v.
       case validate_server_base_url_in_config_value env ov v of
         Ok _ \<Rightarrow> returnIO v
       | _ \<Rightarrow> failIO (OtherError ''Invalid server.base_url in config''))"

definition merge_json_file_with_default :: "config_env \<Rightarrow> string \<Rightarrow> json \<Rightarrow> json \<Rightarrow> unit io" where
  "merge_json_file_with_default env path update d =
     bindIO (load_json_value_with_default env path d) (\<lambda>current.
     write_json_file env path (merge_value current update))"

definition merge_json_file :: "config_env \<Rightarrow> string \<Rightarrow> json \<Rightarrow> unit io" where
  "merge_json_file env path update = merge_json_file_with_default env path update default_empty_json"

definition merge_remote_camera_json :: "config_env \<Rightarrow> string \<Rightarrow> json \<Rightarrow> unit io" where
  "merge_remote_camera_json env path update =
     bindIO (load_json_value_with_default env path default_camera_json) (\<lambda>current.
       let (current, update) =
             (if has_canonical_cameras update
              then (strip_top_level_legacy_camera_fields current, strip_top_level_legacy_camera_fields update)
              else (current, update)) in
       write_json_file env path (merge_value current update))"

section \<open>Camera addresses\<close>

definition show_number :: "Number \<Rightarrow> string" where
  "show_number n = (case n of PosInt k \<Rightarrow> show_nat k | NegInt i \<Rightarrow> show_int i | Float s \<Rightarrow> s)"

definition value_to_string :: "json \<Rightarrow> string option" where
  "value_to_string v =
     (case v of
        JNull \<Rightarrow> None
      | JString s \<Rightarrow> if trim s = [] then None else Some s
      | JNumber n \<Rightarrow> Some (show_number n)
      | JBool b \<Rightarrow> Some (if b then ''1'' else ''0'')
      | _ \<Rightarrow> None)"

definition bool_to_runtime_string :: "bool \<Rightarrow> string" where
  "bool_to_runtime_string b = (if b then ''1'' else ''0'')"

definition build_rtsp_url :: "json \<Rightarrow> string option" where
  "build_rtsp_url rtsp =
     or_else (nonblank (get_str rtsp ''url''))
       (case get_str rtsp ''host'' of
          None \<Rightarrow> None
        | Some host \<Rightarrow>
            if trim host = [] then None
            else
              let port = unwrap_or (Option.bind (get rtsp ''port'') as_u64) 554;
                  path = unwrap_or (get_str rtsp ''path'') [];
                  path = (if path = [] then [] else if starts_with path ''/'' then path else CHR ''/'' # path) in
              Some (''rtsp://'' @ host @ '':'' @ show_nat port @ path))"

definition rtsp_host :: "config_env \<Rightarrow> json \<Rightarrow> string option" where
  "rtsp_host env rtsp =
     or_else (nonblank (get_str rtsp ''host''))
       (Option.bind (build_rtsp_url rtsp) (\<lambda>url. Option.bind (url_ok env url) url_host_str))"

definition rtsp_port :: "config_env \<Rightarrow> json \<Rightarrow> string option" where
  "rtsp_port env rtsp =
     or_else (Option.bind (get rtsp ''port'') value_to_string)
       (Option.bind (build_rtsp_url rtsp) (\<lambda>url. Option.bind (url_ok env url) (\<lambda>u.
         Some (show_nat (unwrap_or (url_port u) 554)))))"

definition rtsp_path :: "config_env \<Rightarrow> json \<Rightarrow> string option" where
  "rtsp_path env rtsp =
     or_else (nonblank (get_str rtsp ''path''))
       (Option.bind (build_rtsp_url rtsp) (\<lambda>url. Option.bind (url_ok env url) (\<lambda>u. nonblank (Some (url_path u)))))"

definition onvif_host :: "config_env \<Rightarrow> json \<Rightarrow> string option" where
  "onvif_host env onvif =
     or_else (nonblank (get_str onvif ''host''))
       (Option.bind (get_str onvif ''url'') (\<lambda>url. Option.bind (url_ok env url) url_host_str))"

definition onvif_port :: "config_env \<Rightarrow> json \<Rightarrow> string option" where
  "onvif_port env onvif =
     or_else (Option.bind (get onvif ''port'') value_to_string)
       (Option.bind (get_str onvif ''url'') (\<lambda>url. Option.bind (url_ok env url) (\<lambda>u.
         Some (show_nat (unwrap_or (url_port_or_known_default u) 2020)))))"

definition compact_json_string :: "config_env \<Rightarrow> json \<Rightarrow> string option" where
  "compact_json_string env v = ce_to_string env v"

section \<open>Runtime variables\<close>

definition set_text :: "string \<Rightarrow> string option \<Rightarrow> overrides \<Rightarrow> overrides" where
  "set_text key v m = (case v of None \<Rightarrow> m | Some s \<Rightarrow> AList.update key s m)"

text \<open>
  An entry of the table: whether it is set only when the key is not set yet, the key, and the
  text to set. \<open>of_value\<close>, \<open>of_bool\<close> and \<open>nonblank\<close> are the three ways the code gets the text.
\<close>

type_synonym entry = "bool \<times> string \<times> string option"

definition of_value :: "json option \<Rightarrow> string option" where
  "of_value v = Option.bind v value_to_string"

definition of_flag :: "bool option \<Rightarrow> string option" where
  "of_flag b = map_option bool_to_runtime_string b"

definition set_entry :: "entry \<Rightarrow> overrides \<Rightarrow> overrides" where
  "set_entry = (\<lambda>(if_unset, key, v) m. if if_unset \<and> map_of m key \<noteq> None then m else set_text key v m)"

definition field :: "json \<Rightarrow> string \<Rightarrow> string option" where
  "field v key = of_value (get v key)"

definition general_entries :: "json \<Rightarrow> entry list" where
  "general_entries v =
     (let server = section_of v ''server''; cleanup = section_of v ''cleanup'' in
     [(False, ''CAMERA_ID'', field v ''camera_id''), (False, ''AGENT_ID'', field v ''agent_id''),
      (False, ''SERVER_ENABLED'', field server ''enabled''), (False, ''SERVER_BASE_URL'', field server ''base_url''),
      (False, ''SERVER_BEARER_TOKEN'', field server ''bearer_token''),
      (True, ''AGENT_TOKEN'', field server ''bearer_token''), (True, ''SERVER_TOKEN'', field server ''bearer_token''),
      (False, ''SERVER_RETRY_INTERVAL_SECS'', field server ''retry_interval_secs''),
      (False, ''SERVER_MAX_RETRIES'', field server ''max_retries''),
      (False, ''CLIP_CLEANUP_INTERVAL_SECS'', field cleanup ''interval_secs''),
      (False, ''CLIP_MIN_FREE_BYTES'', field cleanup ''min_free_bytes'')])"

definition ingest_entries :: "json \<Rightarrow> entry list" where
  "ingest_entries v =
     (let ingest = section_of v ''ingest'' in
     [(True, ''CLIP_DIR'', field ingest ''clip_dir''), (False, ''CLIP_PRE_SECS'', field ingest ''clip_pre_secs''),
      (False, ''CLIP_POST_SECS'', field ingest ''clip_post_secs''), (False, ''CLIP_RING_SECS'', field ingest ''clip_ring_secs''),
      (True, ''CLIP_STALE_PART_SECS'', field ingest ''clip_stale_part_secs''),
      (True, ''CLIP_MAX_SECS'', field ingest ''clip_max_secs''),
      (True, ''CLIP_WRITE_TIMEOUT_MS'', field ingest ''clip_write_timeout_ms''),
      (True, ''CLIP_WRITE_RETRY_COUNT'', field ingest ''clip_write_retry_count''),
      (True, ''CLIP_WRITE_RETRY_BACKOFF_MS'', field ingest ''clip_write_retry_backoff_ms''),
      (False, ''LIVE_PIPELINE_VERSION'', field ingest ''live_pipeline_version''),
      (False, ''LIVE_HLS_SEGMENT_SECS'', field ingest ''live_hls_segment_secs''),
      (False, ''LIVE_HLS_WINDOW_SECS'', field ingest ''live_hls_window_secs'')])"

definition forward_entries :: "json \<Rightarrow> entry list" where
  "forward_entries v =
     (let forward = section_of v ''forward_agent'' in
     [(False, ''AGENT_MODE'', field forward ''mode''), (False, ''SERVER_ADDR'', field forward ''server_addr''),
      (False, ''MOTION_MERGE_SECS'', field forward ''motion_merge_secs''),
      (False, ''HEARTBEAT_INTERVAL_SECS'', field forward ''heartbeat_interval_secs''),
      (False, ''CONFIG_PULL_INTERVAL_SECS'', field forward ''config_pull_interval_secs''),
      (False, ''RUST_LOG'', field (section_of v ''logging'') ''rust_log''),
      (False, ''SENTINEL_VERSION'', field (section_of v ''version'') ''sentinel_version'')])"

definition cam_id_of :: "json \<Rightarrow> json option" where
  "cam_id_of cam = or_else (get cam ''camera_id'') (get cam ''id'')"

definition region_points :: "config_env \<Rightarrow> json \<Rightarrow> string option" where
  "region_points env onvif =
     Option.bind (get onvif ''motion_detection'') (\<lambda>d. Option.bind (get d ''region'') (\<lambda>r.
       Option.bind (get r ''points'') (compact_json_string env)))"

text \<open>The variables of one camera, without the prefix \<open>CAM<slot>_\<close>.\<close>

definition camera_vars :: "config_env \<Rightarrow> json \<Rightarrow> (string \<times> string option) list" where
  "camera_vars env cam =
     (let user = field cam ''user''; pass = field cam ''pass''; rtsp = section_of cam ''rtsp'';
          onvif = section_of cam ''onvif''; features = section_of cam ''features'' in
     [(''CAMERA_ID'', of_value (cam_id_of cam)), (''AGENT_ID'', of_value (or_else (get cam ''agent_id'') (cam_id_of cam))),
      (''STREAM_ID'', of_value (or_else (get rtsp ''stream_id'') (get cam ''stream_id''))),
      (''TRANSPORT'', of_value (or_else (get cam ''transport'') (get rtsp ''transport''))),
      (''RTSP_URL'', nonblank (build_rtsp_url rtsp)), (''RTSP_HOST'', nonblank (rtsp_host env rtsp)),
      (''RTSP_PORT'', nonblank (rtsp_port env rtsp)), (''RTSP_PATH'', nonblank (rtsp_path env rtsp)),
      (''RTSP_USER'', user), (''RTSP_PASS'', pass),
      (''ONVIF_HOST'', nonblank (onvif_host env onvif)), (''ONVIF_PORT'', nonblank (onvif_port env onvif)),
      (''ONVIF_USER'', user), (''ONVIF_PASS'', pass),
      (''ONVIF_DEBUG'', field onvif ''debug''), (''ONVIF_DUMP_XML'', field onvif ''dump_xml''),
      (''ONVIF_SUB_TERMINATION'', field onvif ''sub_termination''),
      (''ONVIF_RENEW_EVERY_SECS'', field onvif ''renew_every_secs''),
      (''ONVIF_PULL_TIMEOUT'', field onvif ''pull_timeout''), (''ONVIF_PULL_LIMIT'', field onvif ''pull_limit''),
      (''ONVIF_RESUBSCRIBE_AFTER_ERRORS'', field onvif ''resubscribe_after_errors''),
      (''ONVIF_MIN_POLL_GAP_MS'', field onvif ''min_poll_gap_ms''),
      (''ONVIF_AFTER_SUB_DELAY_MS'', field onvif ''after_sub_delay_ms''),
      (''ONVIF_CONNREFUSED_RETRIES'', field onvif ''connrefused_retries''),
      (''ONVIF_CONNREFUSED_BACKOFF_MS'', field onvif ''connrefused_backoff_ms''),
      (''ONVIF_NIGHT_VISION_MODE'', of_value (Option.bind (get onvif ''night_vision'') (\<lambda>v. get v ''mode''))),
      (''ONVIF_MOTION_DETECTION_ENABLED'', of_value (Option.bind (get onvif ''motion_detection'') (\<lambda>v. get v ''enabled''))),
      (''ONVIF_MOTION_REGION_POINTS'', nonblank (region_points env onvif)),
      (''MOTION_ENABLED'', of_flag (motion_enabled_value cam)),
      (''LOCAL_CLIP_ENABLED'', field features ''local_clip_enabled''),
      (''RTSP_RECEIVER_ENABLED'', field features ''rtsp_receiver_enabled'')])"

definition cam_key :: "nat \<Rightarrow> string \<Rightarrow> string" where
  "cam_key slot name = ''CAM'' @ show_nat slot @ ''_'' @ name"

definition camera_entries :: "config_env \<Rightarrow> nat \<Rightarrow> json \<Rightarrow> entry list" where
  "camera_entries env slot cam = map (\<lambda>(name, v). (False, cam_key slot name, v)) (camera_vars env cam)"

text \<open>The first camera also provides the variables without a slot, where they are not set yet.\<close>

definition first_entries :: "config_env \<Rightarrow> json \<Rightarrow> entry list" where
  "first_entries env first =
     (let user = field first ''user''; pass = field first ''pass''; rtsp = section_of first ''rtsp'';
          onvif = section_of first ''onvif''; features = section_of first ''features'' in
     map (\<lambda>(key, v). (True, key, v))
     [(''CAMERA_ID'', of_value (cam_id_of first)),
      (''AGENT_ID'', of_value (or_else (get first ''agent_id'') (cam_id_of first))),
      (''MOTION_ENABLED'', of_flag (motion_enabled_value first)),
      (''LOCAL_CLIP_ENABLED'', field features ''local_clip_enabled''),
      (''RTSP_RECEIVER_ENABLED'', field features ''rtsp_receiver_enabled''),
      (''RTSP_URL'', nonblank (build_rtsp_url rtsp)), (''RTSP_HOST'', nonblank (rtsp_host env rtsp)),
      (''RTSP_PORT'', nonblank (rtsp_port env rtsp)), (''RTSP_PATH'', nonblank (rtsp_path env rtsp)),
      (''CAM1_STREAM_ID'', field rtsp ''stream_id''), (''RTSP_USER'', user), (''RTSP_PASS'', pass),
      (''ONVIF_HOST'', nonblank (onvif_host env onvif)), (''ONVIF_PORT'', nonblank (onvif_port env onvif)),
      (''ONVIF_USER'', user), (''ONVIF_PASS'', pass),
      (''ONVIF_DEBUG'', field onvif ''debug''), (''ONVIF_DUMP_XML'', field onvif ''dump_xml''),
      (''ONVIF_SUB_TERMINATION'', field onvif ''sub_termination''),
      (''ONVIF_RENEW_EVERY_SECS'', field onvif ''renew_every_secs''),
      (''ONVIF_PULL_TIMEOUT'', field onvif ''pull_timeout''), (''ONVIF_PULL_LIMIT'', field onvif ''pull_limit''),
      (''ONVIF_RESUBSCRIBE_AFTER_ERRORS'', field onvif ''resubscribe_after_errors''),
      (''ONVIF_MIN_POLL_GAP_MS'', field onvif ''min_poll_gap_ms''),
      (''ONVIF_AFTER_SUB_DELAY_MS'', field onvif ''after_sub_delay_ms''),
      (''ONVIF_CONNREFUSED_RETRIES'', field onvif ''connrefused_retries''),
      (''ONVIF_CONNREFUSED_BACKOFF_MS'', field onvif ''connrefused_backoff_ms''),
      (''ONVIF_NIGHT_VISION_MODE'', of_value (Option.bind (get onvif ''night_vision'') (\<lambda>v. get v ''mode''))),
      (''ONVIF_MOTION_DETECTION_ENABLED'', of_value (Option.bind (get onvif ''motion_detection'') (\<lambda>v. get v ''enabled''))),
      (''ONVIF_MOTION_REGION_POINTS'', nonblank (region_points env onvif))])"

definition config_cameras :: "json \<Rightarrow> json list" where
  "config_cameras v = unwrap_or (Option.bind (get v ''cameras'') as_array) []"

definition override_entries :: "config_env \<Rightarrow> json \<Rightarrow> entry list" where
  "override_entries env v =
     general_entries v @ ingest_entries v @ forward_entries v
     @ concat (map (\<lambda>(idx, cam). camera_entries env (idx + 1) cam) (enumerate 0 (config_cameras v)))
     @ (case config_cameras v of [] \<Rightarrow> [] | first # _ \<Rightarrow> first_entries env first)"

definition install_runtime_overrides :: "config_env \<Rightarrow> json \<Rightarrow> overrides" where
  "install_runtime_overrides env v = fold set_entry (override_entries env v) []"

section \<open>What a merge keeps\<close>

fun at_path :: "json \<Rightarrow> string list \<Rightarrow> json option" where
  "at_path v [] = Some v"
| "at_path v (k # ks) = Option.bind (get v k) (\<lambda>w. at_path w ks)"

text \<open>The update does not mention a path: an object on the way has no entry for the next key.\<close>

fun unmentioned :: "json \<Rightarrow> string list \<Rightarrow> bool" where
  "unmentioned (JObject m) (k # ks) = (case map_of m k of None \<Rightarrow> True | Some v \<Rightarrow> unmentioned v ks)"
| "unmentioned _ _ = False"

lemma merge_entries_lookup:
  "distinct (map fst us) \<Longrightarrow> map_of (merge_entries m us) k =
     (case map_of us k of
        None \<Rightarrow> map_of m k
      | Some v \<Rightarrow> Some (case map_of m k of None \<Rightarrow> v | Some e \<Rightarrow> merge_value e v))"
proof (induction us arbitrary: m)
  case (Cons u us)
  obtain key val where u: "u = (key, val)" by (cases u)
  with Cons.prems have d: "distinct (map fst us)" "map_of us key = None"
    by (auto simp: map_of_eq_None_iff)
  show ?case
    using Cons.IH [OF d(1)] d(2) u
    by (cases "map_of m key") (auto simp: AList.update_conv' split: option.splits)
qed simp

lemma json_ok_get: "json_ok v \<Longrightarrow> get v k = Some w \<Longrightarrow> json_ok w"
  by (cases v) (auto simp: get_def list_all_iff dest!: map_of_SomeD)

lemma unmentioned_path: "unmentioned u ks \<Longrightarrow> at_path u ks = None"
  by (induction u ks rule: unmentioned.induct) (auto simp: get_def split: option.splits)

lemma merge_unmentioned:
  "json_ok u \<Longrightarrow> unmentioned u ks \<Longrightarrow> at_path (merge_value b u) ks = at_path b ks"
proof (induction u ks arbitrary: b rule: unmentioned.induct)
  case (1 us k ks)
  show ?case
  proof (cases "\<exists>m. b = JObject m")
    case True
    then obtain m where b: "b = JObject m" by blast
    have d: "distinct (map fst us)" using "1.prems"(1) by simp
    show ?thesis
    proof (cases "map_of us k")
      case None
      then show ?thesis using b merge_entries_lookup [OF d, of m k] by (simp add: get_def)
    next
      case (Some v)
      then have v: "json_ok v" "unmentioned v ks"
        using "1.prems" json_ok_get [of "JObject us" k v] by (simp_all add: get_def)
      show ?thesis
        using b Some merge_entries_lookup [OF d, of m k] "1.IH" [OF Some v] unmentioned_path [OF v(2)]
        by (cases "map_of m k") (simp_all add: get_def)
    qed
  next
    case False
    then have m: "merge_value b (JObject us) = JObject us" and g: "get b k = None" by (cases b; simp add: get_def)+
    show ?thesis using unmentioned_path [OF "1.prems"(2)] g by (simp only: m at_path.simps(2)) simp
  qed
qed simp_all

lemma merge_leaf:
  "json_ok u \<Longrightarrow> at_path u ks = Some v \<Longrightarrow> \<not> (\<exists>m. v = JObject m) \<Longrightarrow> at_path (merge_value b u) ks = Some v"
proof (induction ks arbitrary: b u)
  case Nil
  then show ?case by (cases u; cases b) auto
next
  case (Cons k ks)
  then obtain us w where u: "u = JObject us" "map_of us k = Some w" "at_path w ks = Some v"
    by (cases u) (auto simp: get_def bind_eq_Some_conv)
  then have w: "json_ok w" "distinct (map fst us)"
    using Cons.prems(1) json_ok_get [of u k w] by (simp_all add: get_def)
  show ?case
  proof (cases b)
    case (JObject m)
    then show ?thesis
      using u merge_entries_lookup [OF w(2), of m k] Cons.IH [OF w(1) u(3) Cons.prems(3)]
      by (cases "map_of m k") (simp_all add: get_def)
  qed (use u in \<open>simp_all add: get_def\<close>)
qed

section \<open>What the table holds\<close>

lemma set_entry_other: "key \<noteq> fst (snd e) \<Longrightarrow> map_of (set_entry e m) key = map_of m key"
  by (auto simp: set_entry_def set_text_def AList.update_conv' split: option.splits prod.splits)

lemma fold_other:
  "key \<notin> set (map (fst \<circ> snd) es) \<Longrightarrow> map_of (fold set_entry es m) key = map_of m key"
  by (induction es arbitrary: m) (auto simp: set_entry_other)

lemma set_entry_same: "map_of m key = None \<Longrightarrow> map_of (set_entry (u, key, v) m) key = v"
  by (auto simp: set_entry_def set_text_def AList.update_conv' split: option.splits)

text \<open>A key that occurs once in the table has the value of its entry.\<close>

lemma fold_once:
  assumes "es = as @ (u, key, v) # bs" "key \<notin> set (map (fst \<circ> snd) as)" "map_of m key = None"
    and "key \<notin> set (map (fst \<circ> snd) bs)"
  shows "map_of (fold set_entry es m) key = v"
  using assms fold_other [of key as m] fold_other [of key bs] by (simp add: set_entry_same)

text \<open>The keys of a slot differ from all other keys.\<close>

lemma cam_key_inj: "cam_key i n = cam_key j k \<longleftrightarrow> i = j \<and> n = k"
proof
  assume "cam_key i n = cam_key j k"
  then have e: "show_nat i @ CHR ''_'' # n = show_nat j @ CHR ''_'' # k" by (simp add: cam_key_def)
  have d: "CHR ''_'' \<notin> set (show_nat x)" for x using show_nat_digits [of "CHR ''_''" x] by auto
  have t: "takeWhile (\<lambda>c. c \<noteq> CHR ''_'') (show_nat x @ CHR ''_'' # y) = show_nat x"
    "dropWhile (\<lambda>c. c \<noteq> CHR ''_'') (show_nat x @ CHR ''_'' # y) = CHR ''_'' # y" for x y
    using d [of x] by (simp_all add: takeWhile_append dropWhile_append)
  from e t have s: "show_nat i = show_nat j" "n = k" by (metis, metis list.inject)
  from arg_cong [OF s(1), of "parse_digits 0"] s(2) show "i = j \<and> n = k" by (simp add: parse_digits_show)
qed simp

definition slot_key :: "string \<Rightarrow> bool" where
  "slot_key key \<longleftrightarrow> 3 < length key \<and> take 3 key = ''CAM'' \<and> digit_val (key ! 3) \<noteq> None"

lemma slot_key_cam_key: "slot_key (cam_key i n)"
proof -
  obtain c cs where c: "show_nat i = c # cs" by (cases "show_nat i") auto
  then show ?thesis using show_nat_digits [of c i] by (simp add: slot_key_def cam_key_def digit_val_def Let_def)
qed

lemma table_keys:
  "list_all (\<lambda>e. \<not> slot_key (fst (snd e))) (general_entries v)"
  "list_all (\<lambda>e. \<not> slot_key (fst (snd e))) (ingest_entries v)"
  "list_all (\<lambda>e. \<not> slot_key (fst (snd e))) (forward_entries v)"
  "list_all (\<lambda>e. slot_key (fst (snd e)) \<longrightarrow> e = (True, ''CAM1_STREAM_ID'', field (section_of first ''rtsp'') ''stream_id''))
     (first_entries env first)"
  by (simp_all add: general_entries_def ingest_entries_def forward_entries_def first_entries_def Let_def slot_key_def
      digit_val_def)

lemma not_in_general: "slot_key key \<Longrightarrow> key \<notin> set (map (fst \<circ> snd) (general_entries v @ ingest_entries v @ forward_entries v))"
  using table_keys(1-3) [of v] by (auto simp: list_all_iff)

lemma camera_names_distinct: "distinct (map fst (camera_vars env cam))"
  by (simp add: camera_vars_def Let_def)

lemma camera_entries_keys: "map (fst \<circ> snd) (camera_entries env slot cam) = map (cam_key slot \<circ> fst) (camera_vars env cam)"
  by (simp add: camera_entries_def case_prod_beta)

lemma other_slots:
  assumes "\<forall>(i, c) \<in> set ics. i + 1 \<noteq> slot"
  shows "cam_key slot n \<notin> set (map (fst \<circ> snd) (concat (map (\<lambda>(idx, cam). camera_entries env (idx + 1) cam) ics)))"
proof -
  have "cam_key slot n \<notin> set (map (fst \<circ> snd) (camera_entries env (i + 1) c))" if "(i, c) \<in> set ics" for i c
    using assms that unfolding camera_entries_keys by (auto simp: cam_key_inj)
  then show ?thesis by fastforce
qed

lemma first_stream_id:
  assumes "map_of m ''CAM1_STREAM_ID'' = of_value (or_else (get (section_of first ''rtsp'') ''stream_id'') (get first ''stream_id''))"
  shows "map_of (set_entry (True, ''CAM1_STREAM_ID'', field (section_of first ''rtsp'') ''stream_id'') m) ''CAM1_STREAM_ID''
    = map_of m ''CAM1_STREAM_ID''"
  using assms by (cases "get (section_of first ''rtsp'') ''stream_id''")
    (auto simp: set_entry_def field_def of_value_def set_text_def AList.update_conv' split: option.splits)

lemma fold_first_entries:
  assumes "\<And>e m. e \<in> set es \<Longrightarrow> fst (snd e) = key \<Longrightarrow> map_of m key = x \<Longrightarrow> map_of (set_entry e m) key = x"
  shows "map_of m key = x \<Longrightarrow> map_of (fold set_entry es m) key = x"
  using assms
proof (induction es arbitrary: m)
  case (Cons e es)
  have "map_of (set_entry e m) key = x"
    using Cons.prems set_entry_other [of key e m] by (cases "key = fst (snd e)") auto
  with Cons show ?case by simp
qed simp

lemma slot_value:
  assumes "idx < length (config_cameras v)" "(name, val) \<in> set (camera_vars env (config_cameras v ! idx))"
  shows "map_of (install_runtime_overrides env v) (cam_key (idx + 1) name) = val"
proof -
  let ?cs = "config_cameras v" and ?key = "cam_key (idx + 1) name"
  let ?f = "\<lambda>(idx, cam). camera_entries env (idx + 1) cam" and ?g = "\<lambda>(name, v). (False, cam_key (idx + 1) name, v)"
  let ?ics = "enumerate 0 ?cs" and ?pre = "general_entries v @ ingest_entries v @ forward_entries v"
  have ics: "?ics = take idx ?ics @ (idx, ?cs ! idx) # drop (Suc idx) ?ics"
    using assms(1) by (subst id_take_nth_drop [of idx ?ics]) (simp_all add: nth_enumerate_eq)
  have d: "distinct (map fst ?ics)" by simp
  have others: "\<forall>(i, c) \<in> set (take idx ?ics). i + 1 \<noteq> idx + 1" "\<forall>(i, c) \<in> set (drop (Suc idx) ?ics). i + 1 \<noteq> idx + 1"
    using d by (subst (asm) ics, force)+
  obtain xs ys where xy: "camera_vars env (?cs ! idx) = xs @ (name, val) # ys" using split_list [OF assms(2)] by blast
  then have n: "name \<notin> fst ` set xs" "name \<notin> fst ` set ys" using camera_names_distinct [of env "?cs ! idx"] by auto
  have k: "?key \<notin> set (map (fst \<circ> snd) (map ?g zs))" if "name \<notin> fst ` set zs" for zs :: "(string \<times> string option) list"
    using that by (force simp: cam_key_inj)
  define fs where "fs = (case ?cs of [] \<Rightarrow> [] | first # _ \<Rightarrow> first_entries env first)"
  define as where "as = ?pre @ concat (map ?f (take idx ?ics)) @ map ?g xs"
  define bs where "bs = map ?g ys @ concat (map ?f (drop (Suc idx) ?ics))"
  have es: "override_entries env v = (as @ (False, ?key, val) # bs) @ fs"
    unfolding override_entries_def as_def bs_def fs_def by (subst ics) (simp add: camera_entries_def xy)
  have kas: "?key \<notin> set (map (fst \<circ> snd) as)"
    using not_in_general [OF slot_key_cam_key] other_slots [OF others(1)] k [OF n(1)] unfolding as_def by auto
  have kbs: "?key \<notin> set (map (fst \<circ> snd) bs)"
    using other_slots [OF others(2)] k [OF n(2)] unfolding bs_def by auto
  have m: "map_of (fold set_entry (as @ (False, ?key, val) # bs) []) ?key = val"
    by (rule fold_once [OF refl kas _ kbs]) simp
  have "map_of (fold set_entry fs (fold set_entry (as @ (False, ?key, val) # bs) [])) ?key = val"
  proof (rule fold_first_entries [OF _ m])
    fix e m' assume e: "e \<in> set fs" "fst (snd e) = ?key" "map_of m' ?key = val"
    obtain first rest where cs: "?cs = first # rest" using assms(1) by (cases ?cs) auto
    have "e = (True, ''CAM1_STREAM_ID'', field (section_of first ''rtsp'') ''stream_id'')"
      using table_keys(4) [of first env] e(1,2) slot_key_cam_key [of "idx + 1" name] cs
      by (auto simp: fs_def list_all_iff)
    note e1 = this
    have "''CAM1_STREAM_ID'' = cam_key 1 ''STREAM_ID''"
      by code_simp
    then have i: "idx = 0" "name = ''STREAM_ID''" using e(2) e1 by (simp_all add: cam_key_inj)
    have "val = of_value (or_else (get (section_of first ''rtsp'') ''stream_id'') (get first ''stream_id''))"
      using assms(2) unfolding i cs by (simp add: camera_vars_def Let_def)
    then show "map_of (set_entry e m') ?key = val"
      using first_stream_id [of m' first] e e1 by simp
  qed
  then show ?thesis by (simp add: install_runtime_overrides_def es)
qed

section \<open>Sample configuration\<close>

definition sample_config_env :: config_env where
  "sample_config_env =
     \<lparr>ce_url_parse = (\<lambda>s. Inr \<lparr>url_scheme = ''https'', url_host = Some (Domain ''h''), url_host_str = Some ''h'',
        url_port = None, url_port_or_known_default = Some 443, url_path = ''/'', url_text = s\<rparr>),
      ce_env_var = (\<lambda>_. None), ce_to_string_pretty = (\<lambda>_. Some ''{}''), ce_to_string = (\<lambda>_. Some ''[]''),
      ce_from_str = (\<lambda>_. None)\<rparr>"

definition sample_config :: json where
  "sample_config =
     JObject [(''cameras'', JArray
       [JObject [(''id'', JString ''front''), (''rtsp'', JObject [(''url'', JString ''rtsp://a/1''), (''stream_id'', JNumber (PosInt 1))])],
        JObject [(''id'', JString ''back''), (''stream_id'', JNumber (PosInt 2)),
          (''rtsp'', JObject [(''host'', JString ''b''), (''path'', JString ''x'')])]])]"

section \<open>Properties\<close>

text \<open>
  Merging an update into the configuration: every value the update gives at a path, other
  than an object, is what the merged configuration has there, and every path the update does not
  mention keeps what it had.
\<close>

theorem merge_value_paths:
  assumes "json_ok update"
  shows "(\<forall>ks v. at_path update ks = Some v \<and> \<not> (\<exists>m. v = JObject m) \<longrightarrow> at_path (merge_value base update) ks = Some v)
    \<and> (\<forall>ks. unmentioned update ks \<longrightarrow> at_path (merge_value base update) ks = at_path base ks)"
  using merge_leaf [OF assms] merge_unmentioned [OF assms] by blast

theorem merge_value_paths_witness:
  "at_path (merge_value (JObject [(''a'', JObject [(''x'', JNull), (''y'', JBool True)])])
      (JObject [(''a'', JObject [(''x'', JBool False)])])) [''a'', ''x''] = Some (JBool False)
   \<and> at_path (merge_value (JObject [(''a'', JObject [(''x'', JNull), (''y'', JBool True)])])
      (JObject [(''a'', JObject [(''x'', JBool False)])])) [''a'', ''y''] = Some (JBool True)"
proof -
  let ?u = "JObject [(''a'', JObject [(''x'', JBool False)])]"
  have "json_ok ?u" by simp
  note m = merge_value_paths [OF this, of "JObject [(''a'', JObject [(''x'', JNull), (''y'', JBool True)])]"]
  have "at_path ?u [''a'', ''x''] = Some (JBool False)" "unmentioned ?u [''a'', ''y'']" by (simp_all add: get_def)
  with m show ?thesis by (auto simp: get_def)
qed

text \<open>
  Cameras do not mix: after the runtime variables are installed from a configuration, every
  variable of the \<open>n\<close>-th camera slot holds exactly what the \<open>n\<close>-th entry of \<open>cameras\<close> says, and is
  unset where that entry says nothing, whatever the other cameras and sections contain.
\<close>

theorem camera_slot_variables:
  assumes "idx < length (config_cameras v)" "(name, val) \<in> set (camera_vars env (config_cameras v ! idx))"
  shows "runtime_var (install_runtime_overrides env v) (cam_key (idx + 1) name) = val"
  unfolding runtime_var_def by (rule slot_value [OF assms])

theorem camera_slot_variables_witness:
  "runtime_var (install_runtime_overrides sample_config_env sample_config) (cam_key (1 + 1) ''STREAM_ID'') = Some ''2''"
proof (rule camera_slot_variables)
  have c: "config_cameras sample_config ! 1
      = JObject [(''id'', JString ''back''), (''stream_id'', JNumber (PosInt 2)),
          (''rtsp'', JObject [(''host'', JString ''b''), (''path'', JString ''x'')])]"
    by (simp add: config_cameras_def sample_config_def get_def as_array_def)
  show "1 < length (config_cameras sample_config)"
    by (simp add: config_cameras_def sample_config_def get_def as_array_def)
  show "(''STREAM_ID'', Some ''2'') \<in> set (camera_vars sample_config_env (config_cameras sample_config ! 1))"
  proof -
    have two: "show_nat 2 = ''2''" by code_simp
    show ?thesis unfolding c
      by (simp add: camera_vars_def Let_def of_value_def value_to_string_def get_def section_of_def show_number_def two)
  qed
qed

text \<open>
  C33. No plain HTTP to a remote server: a configuration that loads, from JSON or from the runtime
  variables, has a server address that parsed as HTTPS, or as HTTP to this machine, unless
  insecure HTTP was explicitly allowed.
\<close>

theorem server_url_is_safe:
  assumes "merge_with_defaults env ov v = Ok c \<or> from_env env ov = Ok c"
  shows "\<exists>s u host. ce_url_parse env s = Inr u \<and> url_host u = Some host \<and> sv_base_url (ag_server c) = url_text u
    \<and> (url_scheme u = ''https''
       \<or> url_scheme u = ''http'' \<and> (is_local_server_host host \<or> allow_insecure_server_http env ov))"
proof -
  have v: "\<exists>s u host. ce_url_parse env s = Inr u \<and> url_host u = Some host \<and> r = url_text u
      \<and> (url_scheme u = ''https'' \<or> url_scheme u = ''http'' \<and> (is_local_server_host host \<or> allow))"
    if "validate_server_base_url env raw allow = Inr r" for raw allow r
    using that by (auto simp: validate_server_base_url_def Let_def split: if_splits sum.splits option.splits)
  from assms obtain raw where "validate_server_base_url env raw (allow_insecure_server_http env ov) = Inr (sv_base_url (ag_server c))"
    by (auto simp: merge_with_defaults_def from_env_def Let_def split: sum.splits option.splits)
  from v [OF this] show ?thesis .
qed

theorem server_url_is_safe_witness:
  "\<exists>s u host. ce_url_parse sample_config_env s = Inr u \<and> url_host u = Some host
    \<and> sv_base_url (ag_server (AgentConfig_default\<lparr>ag_camera_id := ''front''\<rparr>)) = url_text u
    \<and> (url_scheme u = ''https''
       \<or> url_scheme u = ''http'' \<and> (is_local_server_host host \<or> allow_insecure_server_http sample_config_env []))"
proof (rule server_url_is_safe [of _ _ sample_config])
  have "merge_with_defaults sample_config_env [] sample_config = Ok (AgentConfig_default\<lparr>ag_camera_id := ''front''\<rparr>)"
    by code_simp
  then show "merge_with_defaults sample_config_env [] sample_config = Ok (AgentConfig_default\<lparr>ag_camera_id := ''front''\<rparr>)
      \<or> from_env sample_config_env [] = Ok (AgentConfig_default\<lparr>ag_camera_id := ''front''\<rparr>)" ..
qed

end
