(* ===== verification/Soap.thy ===== *)
theory Soap
  imports Utils Config
begin

text \<open>
  What the ONVIF clients under \<^verbatim>\<open>src/onvif/\<close> share: escaping, the WS-Security header, SOAP
  envelopes, and requests to a device.

  Parameters: SHA-1, Base64, the nonces and time stamps drawn, the text of a status code, the
  answers of the device (any function of the requests sent so far), and both XML parsers:
  \<open>quick_xml\<close> as the list of events before the end of the document or the first error, and
  \<open>xmltree\<close> as a tree.
\<close>

section \<open>XML\<close>

text \<open>
  Attribute values and texts come unescaped, \<open>None\<close> where that fails; malformed attributes, which
  \<open>flatten\<close> drops, are not listed.
\<close>

datatype xml_event =
    XStart bytes "(bytes \<times> string option) list"
  | XEmpty bytes "(bytes \<times> string option) list"
  | XEnd bytes
  | XText "string option"
  | XOther

datatype xml_node =
    XElement (el_name: string) (el_attributes: "(string \<times> string) list") (el_children: "xml_node list")
  | XTextNode string
  | XOtherNode

definition byte_colon :: byte where
  "byte_colon = 0x3A"

definition local_name :: "bytes \<Rightarrow> string" where
  "local_name qname = from_utf8_lossy (rev (takeWhile (\<lambda>b. b \<noteq> byte_colon) (rev qname)))"

definition replace_char :: "char \<Rightarrow> string \<Rightarrow> string \<Rightarrow> string" where
  "replace_char c r s = concat (map (\<lambda>x. if x = c then r else [x]) s)"

definition xml_escape :: "string \<Rightarrow> string" where
  "xml_escape s =
     replace_char (CHR 0x27) ''&apos;''
       (replace_char (CHR 0x22) ''&quot;''
         (replace_char (CHR ''>'') ''&gt;''
           (replace_char (CHR ''<'') ''&lt;''
             (replace_char (CHR ''&'') ''&amp;'' s))))"

section \<open>Requests and answers\<close>

record soap_request =
  sq_url :: string
  sq_headers :: "(string \<times> string) list"
  sq_body :: string

text \<open>\<open>send\<close> fails, or there is a status and a body that may fail to arrive.\<close>

datatype soap_answer = SendFailed request_error | Answered nat "string + string"

datatype soap_error = Reqwest request_error | Anyhow string

definition error_text :: "soap_error \<Rightarrow> string" where
  "error_text e = (case e of Reqwest r \<Rightarrow> rq_message r | Anyhow m \<Rightarrow> m)"

record soap_env =
  so_sha1 :: "bytes \<Rightarrow> bytes"
  so_base64 :: "bytes \<Rightarrow> string"
  so_nonce :: "nat \<Rightarrow> bytes"
  so_created :: "nat \<Rightarrow> string"
  so_status_text :: "nat \<Rightarrow> string"
  so_answer :: "soap_request list \<Rightarrow> soap_answer"
  so_events :: "string \<Rightarrow> xml_event list"
  so_parse :: "string \<Rightarrow> string + xml_node"

text \<open>The requests sent so far, and the time slept.\<close>

record soap_world =
  sw_sent :: "soap_request list"
  sw_slept :: duration

type_synonym 'a soap = "soap_world \<Rightarrow> (soap_error + 'a) \<times> soap_world"

definition returnS :: "'a \<Rightarrow> 'a soap" where
  "returnS x w = (Inr x, w)"

definition failS :: "soap_error \<Rightarrow> 'a soap" where
  "failS e w = (Inl e, w)"

definition bindS :: "'a soap \<Rightarrow> ('a \<Rightarrow> 'b soap) \<Rightarrow> 'b soap" where
  "bindS a f w = (case a w of (Inr x, w') \<Rightarrow> f x w' | (Inl e, w') \<Rightarrow> (Inl e, w'))"

definition attemptS :: "'a soap \<Rightarrow> (soap_error + 'a) soap" where
  "attemptS a w = (case a w of (r, w') \<Rightarrow> (Inr r, w'))"

definition sleepS :: "duration \<Rightarrow> unit soap" where
  "sleepS d w = (Inr (), w\<lparr>sw_slept := sw_slept w + d\<rparr>)"

lemma returnS_run [simp]: "returnS x w = (Inr x, w)" "failS e w = (Inl e, w)"
  by (simp_all add: returnS_def failS_def)

lemma bindS_returnS [simp]: "bindS (returnS x) f = f x" "bindS a returnS = a"
  by (rule ext, simp add: bindS_def split: prod.splits sum.splits)+

lemma bindS_assoc: "bindS (bindS a f) g = bindS a (\<lambda>x. bindS (f x) g)"
  by (rule ext) (simp add: bindS_def split: prod.splits sum.splits)

section \<open>Security header and envelope\<close>

definition quoted :: "string \<Rightarrow> string" where
  "quoted s = CHR 0x22 # s @ [CHR 0x22]"

fun join_lines :: "string list \<Rightarrow> string" where
  "join_lines [] = []"
| "join_lines [l] = l"
| "join_lines (l # ls) = l @ newline # join_lines ls"

definition wsse_password_digest :: "soap_env \<Rightarrow> bytes \<Rightarrow> string \<Rightarrow> string \<Rightarrow> string" where
  "wsse_password_digest env nonce_raw created password =
     so_base64 env (so_sha1 env (nonce_raw @ as_bytes created @ as_bytes password))"

definition wss :: "string \<Rightarrow> string" where
  "wss s = ''http://docs.oasis-open.org/wss/2004/01/oasis-200401-wss-'' @ s"

text \<open>\<open>n\<close> counts the headers made before: each draws its own nonce and reads the clock.\<close>

definition wsse_header :: "soap_env \<Rightarrow> nat \<Rightarrow> string \<Rightarrow> string \<Rightarrow> string" where
  "wsse_header env n username password =
     (let nonce = so_nonce env n;
          created = so_created env n;
          digest = wsse_password_digest env nonce created password;
          nonce_b64 = so_base64 env nonce in
      join_lines
        [''<wsse:Security SOAP-ENV:mustUnderstand='' @ quoted ''1'',
         ''  xmlns:wsse='' @ quoted (wss ''wssecurity-secext-1.0.xsd''),
         ''  xmlns:wsu='' @ quoted (wss ''wssecurity-utility-1.0.xsd'') @ ''>'',
         ''  <wsse:UsernameToken>'',
         ''    <wsse:Username>'' @ xml_escape username @ ''</wsse:Username>'',
         ''    <wsse:Password Type='' @ quoted (wss ''username-token-profile-1.0#PasswordDigest'') @ ''>''
           @ xml_escape digest @ ''</wsse:Password>'',
         ''    <wsse:Nonce EncodingType='' @ quoted (wss ''soap-message-security-1.0#Base64Binary'') @ ''>''
           @ xml_escape nonce_b64 @ ''</wsse:Nonce>'',
         ''    <wsu:Created>'' @ xml_escape created @ ''</wsu:Created>'',
         ''  </wsse:UsernameToken>'',
         ''</wsse:Security>''])"

definition envelope_open :: "(string \<times> string) list \<Rightarrow> string \<Rightarrow> string \<Rightarrow> string list" where
  "envelope_open namespaces action to =
     [''<?xml version='' @ quoted ''1.0'' @ '' encoding='' @ quoted ''UTF-8'' @ ''?>'',
      ''<SOAP-ENV:Envelope'']
     @ map (\<lambda>(p, ns). ''  xmlns:'' @ p @ ''='' @ quoted ns) (butlast namespaces)
     @ map (\<lambda>(p, ns). ''  xmlns:'' @ p @ ''='' @ quoted ns @ ''>'') [last namespaces]
     @ [''  <SOAP-ENV:Header>'',
        ''    <wsa:Action SOAP-ENV:mustUnderstand='' @ quoted ''1'' @ ''>'' @ xml_escape action @ ''</wsa:Action>'',
        ''    <wsa:To SOAP-ENV:mustUnderstand='' @ quoted ''1'' @ ''>'' @ xml_escape to @ ''</wsa:To>'']"

definition soap_namespaces :: "(string \<times> string) list" where
  "soap_namespaces =
     [(''SOAP-ENV'', ''http://www.w3.org/2003/05/soap-envelope''),
      (''wsa'', ''http://www.w3.org/2005/08/addressing'')]"

definition soap_headers :: "string \<Rightarrow> (string \<times> string) list" where
  "soap_headers action =
     [(''Content-Type'', ''application/soap+xml; charset=utf-8; action='' @ quoted action),
      (''SOAPAction'', quoted action), (''Connection'', ''close'')]"

text \<open>Sending one request; the answer depends on all requests up to and with this one.\<close>

definition send :: "soap_env \<Rightarrow> string \<Rightarrow> string \<Rightarrow> string \<Rightarrow> (nat \<times> (string + string)) soap" where
  "send env url action xml w =
     (let sent = sw_sent w @ [\<lparr>sq_url = url, sq_headers = soap_headers action, sq_body = xml\<rparr>];
          w' = w\<lparr>sw_sent := sent\<rparr> in
      case so_answer env sent of
        SendFailed e \<Rightarrow> (Inl (Reqwest e), w')
      | Answered status text \<Rightarrow> (Inr (status, text), w'))"

definition is_success :: "nat \<Rightarrow> bool" where
  "is_success status \<longleftrightarrow> 200 \<le> status \<and> status < 300"

definition http_error :: "soap_env \<Rightarrow> nat \<Rightarrow> string \<Rightarrow> soap_error" where
  "http_error env status text = Anyhow (''SOAP HTTP '' @ so_status_text env status @ '': '' @ text)"

definition soap_post :: "soap_env \<Rightarrow> string \<Rightarrow> string \<Rightarrow> string \<Rightarrow> string soap" where
  "soap_post env url action xml =
     bindS (send env url action xml) (\<lambda>(status, text).
       let text = (case text of Inr t \<Rightarrow> t | Inl e \<Rightarrow> ''<<failed to read body: '' @ e @ ''>>'') in
       if \<not> is_success status then failS (http_error env status text) else returnS text)"

text \<open>The number of security headers made is the number of requests sent.\<close>

definition with_security :: "soap_env \<Rightarrow> string \<Rightarrow> string \<Rightarrow> (string \<Rightarrow> 'a soap) \<Rightarrow> 'a soap" where
  "with_security env username password f w = f (wsse_header env (length (sw_sent w)) username password) w"

section \<open>Text of elements\<close>

fun first_text :: "string \<Rightarrow> bool \<Rightarrow> xml_event list \<Rightarrow> string option" where
  "first_text wanted in_wanted [] = None"
| "first_text wanted in_wanted (ev # evs) =
     (case ev of
        XStart name _ \<Rightarrow> first_text wanted (local_name name = wanted) evs
      | XText t \<Rightarrow> if in_wanted then t else first_text wanted in_wanted evs
      | XEnd _ \<Rightarrow> first_text wanted False evs
      | _ \<Rightarrow> first_text wanted in_wanted evs)"

definition extract_first_text :: "soap_env \<Rightarrow> string \<Rightarrow> string \<Rightarrow> string option" where
  "extract_first_text env xml wanted_local = first_text wanted_local False (so_events env xml)"

section \<open>Escaping is reversible\<close>

text \<open>The reference: the five predefined entities of XML.\<close>

definition entities :: "(string \<times> char) list" where
  "entities = [(''amp;'', CHR ''&''), (''lt;'', CHR ''<''), (''gt;'', CHR ''>''), (''quot;'', CHR 0x22), (''apos;'', CHR 0x27)]"

definition entity_at :: "string \<Rightarrow> (char \<times> string) option" where
  "entity_at s =
     (case filter (\<lambda>(n, c). starts_with s n) entities of
        [] \<Rightarrow> None | (n, c) # _ \<Rightarrow> Some (c, drop (length n) s))"

lemma entity_at_length: "entity_at s = Some (c, r) \<Longrightarrow> length r \<le> length s"
  by (auto simp: entity_at_def split: list.splits)

function xml_unescape :: "string \<Rightarrow> string" where
  "xml_unescape [] = []"
| "xml_unescape (x # s) =
     (if x = CHR ''&'' then (case entity_at s of Some (c, r) \<Rightarrow> c # xml_unescape r | None \<Rightarrow> x # xml_unescape s)
      else x # xml_unescape s)"
  by pat_completeness auto
termination
  by (relation "measure length") (auto dest: entity_at_length)

definition escape_char :: "char \<Rightarrow> string" where
  "escape_char c =
     (if c = CHR ''&'' then ''&amp;'' else if c = CHR ''<'' then ''&lt;'' else if c = CHR ''>'' then ''&gt;''
      else if c = CHR 0x22 then ''&quot;'' else if c = CHR 0x27 then ''&apos;'' else [c])"

lemma replace_char_append: "replace_char c r (a @ b) = replace_char c r a @ replace_char c r b"
  by (simp add: replace_char_def)

lemma xml_escape_Cons: "xml_escape (c # s) = escape_char c @ xml_escape s"
proof -
  have split: "xml_escape (c # s) = xml_escape [c] @ xml_escape s"
    by (simp add: xml_escape_def replace_char_append [symmetric] flip: append_Cons)
       (simp add: replace_char_def)
  have "xml_escape [c] = escape_char c"
    by (simp add: xml_escape_def replace_char_def escape_char_def)
  with split show ?thesis by simp
qed

lemma xml_escape_Nil [simp]: "xml_escape [] = []"
  by (simp add: xml_escape_def replace_char_def)

lemma entity_at_escape:
  "c \<in> {CHR ''&'', CHR ''<'', CHR ''>'', CHR 0x22, CHR 0x27} \<Longrightarrow> entity_at (tl (escape_char c) @ s) = Some (c, s)"
  by (auto simp: entity_at_def entities_def starts_with_def escape_char_def)

lemma unescape_escape_char: "xml_unescape (escape_char c @ s) = c # xml_unescape s"
proof (cases "c \<in> {CHR ''&'', CHR ''<'', CHR ''>'', CHR 0x22, CHR 0x27}")
  case True
  then obtain r where r: "escape_char c = CHR ''&'' # r" by (auto simp: escape_char_def)
  with entity_at_escape [OF True, of s] show ?thesis by simp
next
  case False
  then show ?thesis by (auto simp: escape_char_def)
qed

lemma escape_char_safe: "set (escape_char c) \<inter> {CHR ''<'', CHR ''>'', CHR 0x22, CHR 0x27} = {}"
  by (simp add: escape_char_def)

text \<open>
  Escaping for XML loses nothing and cannot be broken out of: decoding the five predefined
  entities gives the text back, and the escaped text has no angle bracket and no quote, whatever
  user name, password or token it holds.
\<close>

theorem xml_escape_roundtrip:
  "xml_unescape (xml_escape s) = s \<and> set (xml_escape s) \<inter> {CHR ''<'', CHR ''>'', CHR 0x22, CHR 0x27} = {}"
  by (induction s) (use escape_char_safe in \<open>auto simp: xml_escape_Cons unescape_escape_char\<close>)

end
