(* ===== verification/OnvifMotion.thy ===== *)
theory OnvifMotion
  imports Soap Events
begin

text \<open>
  \<^verbatim>\<open>src/onvif/onvif_motion.rs\<close>: the poller that subscribes to the motion events of a camera
  (\<open>CreatePullPointSubscription\<close>), pulls them, and turns them into edges on the event bus and into
  the motion state the recorder watches.

  The poller is a fold of \<open>poller_step\<close> over the branches its \<open>select!\<close> takes, in any order; a
  step may end the task with an error. Identifiers (\<open>ulid\<close>), the time of an event, and how long a
  request takes are parameters, as is everything \<open>Soap\<close> lists. The events are those given to
  \<open>EventBus::publish\<close>, in order; logging and the XML dumps of \<open>ONVIF_DUMP_XML\<close> are left out.
\<close>

section \<open>Settings\<close>

definition env_u32 :: "overrides \<Rightarrow> string \<Rightarrow> nat \<Rightarrow> nat" where
  "env_u32 ov key d = unwrap_or (Option.bind (runtime_var ov key) (parse_uint 4294967295)) d"

definition env_string :: "overrides \<Rightarrow> string \<Rightarrow> string \<Rightarrow> string" where
  "env_string ov key d = unwrap_or (runtime_var ov key) d"

definition motion_enabled_for_slot :: "overrides \<Rightarrow> nat \<Rightarrow> bool \<times> bool" where
  "motion_enabled_for_slot ov slot =
     (let slot_key = ''CAM'' @ show_nat slot @ ''_MOTION_ENABLED'';
          inferred = (runtime_var ov slot_key = None \<and> runtime_var ov ''MOTION_ENABLED'' = None) in
      (runtime_bool ov slot_key (runtime_bool ov ''MOTION_ENABLED'' True), inferred))"

definition global_motion_enabled_with_inference :: "overrides \<Rightarrow> bool \<times> bool" where
  "global_motion_enabled_with_inference ov =
     (runtime_bool ov ''MOTION_ENABLED'' True, runtime_var ov ''MOTION_ENABLED'' = None)"

record OnvifSettings =
  os_sub_termination :: string
  os_renew_every_secs :: u64
  os_pull_timeout :: string
  os_pull_limit :: nat
  os_resub_after :: nat
  os_min_poll_gap :: duration
  os_after_sub_delay :: duration
  os_connrefused_retries :: nat
  os_connrefused_backoff :: duration

record OnvifCameraConfig =
  oc_camera_id :: string
  oc_host :: string
  oc_port :: nat
  oc_user :: string
  oc_pass :: string

definition load_settings :: "overrides \<Rightarrow> OnvifSettings" where
  "load_settings ov =
     \<lparr>os_sub_termination = env_string ov ''ONVIF_SUB_TERMINATION'' ''PT10M'',
      os_renew_every_secs = runtime_u64 ov ''ONVIF_RENEW_EVERY_SECS'' 300,
      os_pull_timeout = env_string ov ''ONVIF_PULL_TIMEOUT'' ''PT30S'',
      os_pull_limit = env_u32 ov ''ONVIF_PULL_LIMIT'' 10,
      os_resub_after = env_u32 ov ''ONVIF_RESUBSCRIBE_AFTER_ERRORS'' 3,
      os_min_poll_gap = from_millis (runtime_u64 ov ''ONVIF_MIN_POLL_GAP_MS'' 800),
      os_after_sub_delay = from_millis (runtime_u64 ov ''ONVIF_AFTER_SUB_DELAY_MS'' 300),
      os_connrefused_retries = env_u32 ov ''ONVIF_CONNREFUSED_RETRIES'' 1,
      os_connrefused_backoff = from_millis (runtime_u64 ov ''ONVIF_CONNREFUSED_BACKOFF_MS'' 250)\<rparr>"

section \<open>Cameras\<close>

datatype onvif_error = MissingUser string | MissingPass string

definition onvif_port_of :: "overrides \<Rightarrow> string \<Rightarrow> nat" where
  "onvif_port_of ov key = unwrap_or (Option.bind (runtime_var ov key) (parse_uint 65535)) 2020"

text \<open>User and password under a prefix: both are required.\<close>

definition credentials :: "overrides \<Rightarrow> string \<Rightarrow> onvif_error + string \<times> string" where
  "credentials ov pre =
     (case runtime_var ov (pre @ ''USER'') of
        None \<Rightarrow> Inl (MissingUser pre)
      | Some user \<Rightarrow>
          (case runtime_var ov (pre @ ''PASS'') of
             None \<Rightarrow> Inl (MissingPass pre)
           | Some pass \<Rightarrow> Inr (user, pass)))"

definition slot_prefix :: "nat \<Rightarrow> string" where
  "slot_prefix i = ''CAM'' @ show_nat i @ ''_ONVIF_''"

definition slot_camera_id :: "overrides \<Rightarrow> nat \<Rightarrow> string" where
  "slot_camera_id ov i =
     unwrap_or (runtime_var ov (''CAM'' @ show_nat i @ ''_CAMERA_ID'')) (''cam-'' @ show_nat i)"

definition slot_host :: "overrides \<Rightarrow> nat \<Rightarrow> string option" where
  "slot_host ov i =
     (case runtime_var ov (slot_prefix i @ ''HOST'') of
        Some v \<Rightarrow> if trim v \<noteq> [] then Some v else None | None \<Rightarrow> None)"

text \<open>The loop over the slots: whether a slot is configured, and the cameras with motion enabled.\<close>

fun load_onvif_slots :: "overrides \<Rightarrow> nat list \<Rightarrow> onvif_error + bool \<times> OnvifCameraConfig list" where
  "load_onvif_slots ov [] = Inr (False, [])"
| "load_onvif_slots ov (i # is) =
     (case slot_host ov i of
        None \<Rightarrow> load_onvif_slots ov is
      | Some host \<Rightarrow>
          if \<not> fst (motion_enabled_for_slot ov i)
          then (case load_onvif_slots ov is of Inl e \<Rightarrow> Inl e | Inr (_, cams) \<Rightarrow> Inr (True, cams))
          else
            (case credentials ov (slot_prefix i) of
               Inl e \<Rightarrow> Inl e
             | Inr (user, pass) \<Rightarrow>
                 (case load_onvif_slots ov is of
                    Inl e \<Rightarrow> Inl e
                  | Inr (_, cams) \<Rightarrow>
                      Inr (True,
                        \<lparr>oc_camera_id = slot_camera_id ov i, oc_host = host,
                         oc_port = onvif_port_of ov (slot_prefix i @ ''PORT''), oc_user = user, oc_pass = pass\<rparr> # cams))))"

definition load_onvif_cameras_from_env :: "overrides \<Rightarrow> onvif_error + OnvifCameraConfig list" where
  "load_onvif_cameras_from_env ov =
     (case load_onvif_slots ov [1, 2, 3, 4] of
        Inl e \<Rightarrow> Inl e
      | Inr (saw_configured_slot, cams) \<Rightarrow>
          if saw_configured_slot then Inr cams
          else
            let host = env_string ov ''ONVIF_HOST'' ''192.168.1.187'' in
            if \<not> fst (global_motion_enabled_with_inference ov) then Inr []
            else
              (case credentials ov ''ONVIF_'' of
                 Inl e \<Rightarrow> Inl e
               | Inr (user, pass) \<Rightarrow>
                   let camera_id =
                         unwrap_or (or_else (runtime_var ov ''CAMERA_ID'')
                           (or_else (runtime_var ov ''CAM1_CAMERA_ID'') (runtime_var ov ''ONVIF_HOST''))) ''unknown-camera'' in
                   Inr [\<lparr>oc_camera_id = camera_id, oc_host = host, oc_port = onvif_port_of ov ''ONVIF_PORT'',
                         oc_user = user, oc_pass = pass\<rparr>]))"

section \<open>Requests\<close>

definition ACTION_CREATE_PULLPOINT_REQ :: string where
  "ACTION_CREATE_PULLPOINT_REQ = ''http://www.onvif.org/ver10/events/wsdl/EventPortType/CreatePullPointSubscriptionRequest''"

definition ACTION_PULLMESSAGES_REQ :: string where
  "ACTION_PULLMESSAGES_REQ = ''http://www.onvif.org/ver10/events/wsdl/PullPointSubscription/PullMessagesRequest''"

definition ACTION_RENEW_REQ :: string where
  "ACTION_RENEW_REQ = ''http://www.onvif.org/ver10/events/wsdl/PullPointSubscription/RenewRequest''"

definition soap_envelope :: "string \<Rightarrow> string \<Rightarrow> string \<Rightarrow> string \<Rightarrow> string \<Rightarrow> string" where
  "soap_envelope to action security body extra_headers_xml =
     join_lines
       (envelope_open (soap_namespaces @ [(''tev'', ''http://www.onvif.org/ver10/events/wsdl''),
          (''wsnt'', ''http://docs.oasis-open.org/wsn/b-2''), (''tns1'', ''http://www.onvif.org/ver10/topics'')]) action to
        @ [''    '' @ security, ''    '' @ extra_headers_xml, ''  </SOAP-ENV:Header>'', ''  <SOAP-ENV:Body>'',
           ''    '' @ body, ''  </SOAP-ENV:Body>'', ''</SOAP-ENV:Envelope>''])"

definition create_pullpoint_body_motion_only :: "string \<Rightarrow> string" where
  "create_pullpoint_body_motion_only sub_termination =
     join_lines
       [''<tev:CreatePullPointSubscription>'', ''  <tev:Filter>'',
        ''    <wsnt:TopicExpression Dialect='' @ quoted ''http://www.onvif.org/ver10/tev/topicExpression/ConcreteSet''
          @ ''>tns1:RuleEngine/CellMotionDetector/Motion</wsnt:TopicExpression>'',
        ''  </tev:Filter>'',
        ''  <tev:InitialTerminationTime>'' @ xml_escape sub_termination @ ''</tev:InitialTerminationTime>'',
        ''</tev:CreatePullPointSubscription>'']"

definition pull_messages_body :: "string \<Rightarrow> nat \<Rightarrow> string" where
  "pull_messages_body timeout limit =
     join_lines
       [''<tev:PullMessages>'', ''  <tev:Timeout>'' @ xml_escape timeout @ ''</tev:Timeout>'',
        ''  <tev:MessageLimit>'' @ show_nat limit @ ''</tev:MessageLimit>'', ''</tev:PullMessages>'']"

definition renew_body :: "string \<Rightarrow> string" where
  "renew_body termination_time =
     join_lines
       [''<wsnt:Renew xmlns:wsnt='' @ quoted ''http://docs.oasis-open.org/wsn/b-2'' @ ''>'',
        ''  <wsnt:TerminationTime>'' @ xml_escape termination_time @ ''</wsnt:TerminationTime>'', ''</wsnt:Renew>'']"

definition subscription_id_header :: "string option \<Rightarrow> string" where
  "subscription_id_header sub_id =
     (case sub_id of
        Some i \<Rightarrow> ''<SubscriptionId xmlns='' @ quoted ''http://www.onvif.org/ver10/events/wsdl'' @ ''>''
                  @ xml_escape i @ ''</SubscriptionId>''
      | None \<Rightarrow> [])"

text \<open>The poller's copy of the security header stands between line breaks.\<close>

definition motion_security :: "string \<Rightarrow> string" where
  "motion_security header = newline # header @ [newline]"

definition is_connectish_error :: "soap_error \<Rightarrow> bool" where
  "is_connectish_error e \<longleftrightarrow>
     (case e of Reqwest r \<Rightarrow> rq_is_connect r | Anyhow _ \<Rightarrow> False)
     \<or> contains (error_text e) ''Connection refused'' \<or> contains (error_text e) ''os error 61''
     \<or> contains (error_text e) ''os error 111''"

section \<open>Motion events in an answer\<close>

text \<open>The last attribute with the name wins; one that cannot be unescaped does not count.\<close>

definition item_attr :: "string \<Rightarrow> (bytes \<times> string option) list \<Rightarrow> string option" where
  "item_attr wanted attrs =
     fold (\<lambda>(k, v) acc. if local_name k = wanted then or_else v acc else acc) attrs None"

fun motion_items :: "string option \<Rightarrow> xml_event list \<Rightarrow> (string option \<times> bool) list" where
  "motion_items current_rule [] = []"
| "motion_items current_rule (ev # evs) =
     (case (case ev of XStart name attrs \<Rightarrow> Some (name, attrs) | XEmpty name attrs \<Rightarrow> Some (name, attrs) | _ \<Rightarrow> None) of
        Some (name, attrs) \<Rightarrow>
          if local_name name = ''SimpleItem'' then
            (case (item_attr ''Name'' attrs, item_attr ''Value'' attrs) of
               (Some n, Some v) \<Rightarrow>
                 if n = ''Rule'' then motion_items (Some v) evs
                 else if n = ''IsMotion''
                 then (current_rule, eq_ignore_ascii_case v ''true'' \<or> v = ''1'') # motion_items current_rule evs
                 else motion_items current_rule evs
             | _ \<Rightarrow> motion_items current_rule evs)
          else motion_items current_rule evs
      | None \<Rightarrow> motion_items current_rule evs)"

definition extract_motion_events :: "soap_env \<Rightarrow> string \<Rightarrow> (string option \<times> bool) list" where
  "extract_motion_events env xml = motion_items None (so_events env xml)"

section \<open>Subscriptions\<close>

definition create_subscription ::
    "soap_env \<Rightarrow> string \<Rightarrow> string \<Rightarrow> string \<Rightarrow> string \<Rightarrow> (string \<times> string option) soap" where
  "create_subscription env onvif_service user pass sub_termination =
     with_security env user pass (\<lambda>sec.
     bindS (soap_post env onvif_service ACTION_CREATE_PULLPOINT_REQ
              (soap_envelope onvif_service ACTION_CREATE_PULLPOINT_REQ (motion_security sec)
                 (create_pullpoint_body_motion_only sub_termination) [])) (\<lambda>resp_xml.
       case extract_first_text env resp_xml ''Address'' of
         None \<Rightarrow> failS (Anyhow ''No SubscriptionReference/Address found in CreatePullPointSubscription response'')
       | Some sub_addr \<Rightarrow> returnS (sub_addr, extract_first_text env resp_xml ''SubscriptionId'')))"

definition renew_subscription ::
    "soap_env \<Rightarrow> string \<Rightarrow> string option \<Rightarrow> string \<Rightarrow> string \<Rightarrow> string \<Rightarrow> unit soap" where
  "renew_subscription env sub_addr sub_id user pass sub_termination =
     with_security env user pass (\<lambda>sec.
     bindS (soap_post env sub_addr ACTION_RENEW_REQ
              (soap_envelope sub_addr ACTION_RENEW_REQ (motion_security sec) (renew_body sub_termination)
                 (subscription_id_header sub_id))) (\<lambda>_. returnS ()))"

fun subscribe_loop ::
    "soap_env \<Rightarrow> string \<Rightarrow> OnvifCameraConfig \<Rightarrow> OnvifSettings \<Rightarrow> nat \<Rightarrow> (string \<times> string option) soap" where
  "subscribe_loop env onvif_service cam settings retries_left w =
     (case create_subscription env onvif_service (oc_user cam) (oc_pass cam) (os_sub_termination settings) w of
        (Inr subscription, w') \<Rightarrow> bindS (sleepS (os_after_sub_delay settings)) (\<lambda>_. returnS subscription) w'
      | (Inl e, w') \<Rightarrow>
          if is_connectish_error e \<and> retries_left > 0
          then subscribe_loop env onvif_service cam settings (retries_left - 1)
                 (snd (sleepS (os_connrefused_backoff settings) w'))
          else (Inl e, w'))"

declare subscribe_loop.simps [simp del]

definition create_subscription_with_retry ::
    "soap_env \<Rightarrow> string \<Rightarrow> OnvifCameraConfig \<Rightarrow> OnvifSettings \<Rightarrow> (string \<times> string option) soap" where
  "create_subscription_with_retry env onvif_service cam settings =
     subscribe_loop env onvif_service cam settings (os_connrefused_retries settings)"

section \<open>The poller\<close>

record poller_env =
  pe_soap :: soap_env
  pe_ulid :: "nat \<Rightarrow> string"
  pe_utc :: "nat \<Rightarrow> datetime"
  pe_request_time :: "nat \<Rightarrow> duration"

record poller =
  pl_sub_addr :: string
  pl_sub_id :: "string option"
  pl_state :: "(string \<times> bool) list"
  pl_event_ids :: "(string \<times> string) list"
  pl_motion_state :: MotionState
  pl_published :: "MotionEvent list"
  pl_ulids :: nat
  pl_consecutive_errors :: nat
  pl_last_pull_done :: "duration option"
  pl_pull_attempt :: nat
  pl_net :: soap_world

text \<open>The monotonic clock: the time slept and the time the requests took.\<close>

definition poller_now :: "poller_env \<Rightarrow> soap_world \<Rightarrow> duration" where
  "poller_now env w = sw_slept w + sum_list (map (pe_request_time env) [0..<length (sw_sent w)])"

definition new_id :: "poller_env \<Rightarrow> poller \<Rightarrow> string \<times> poller" where
  "new_id env p = (pe_ulid env (pl_ulids p), p\<lparr>pl_ulids := pl_ulids p + 1\<rparr>)"

definition reset_motion_tracking :: "string \<Rightarrow> poller \<Rightarrow> poller" where
  "reset_motion_tracking camera_id p =
     p\<lparr>pl_state := [], pl_event_ids := [],
       pl_motion_state := snd (MotionStateBus_clear_camera (pl_motion_state p) camera_id)\<rparr>"

text \<open>An identifier for an edge: a new one at the start, the one of the start at the end.\<close>

definition edge_id :: "poller_env \<Rightarrow> string \<Rightarrow> bool \<Rightarrow> poller \<Rightarrow> string \<times> poller" where
  "edge_id env rule is_motion p =
     (if is_motion then
        let (i, p) = new_id env p in (i, p\<lparr>pl_event_ids := AList.update rule i (pl_event_ids p)\<rparr>)
      else
        (case map_of (pl_event_ids p) rule of
           Some i \<Rightarrow> (i, p\<lparr>pl_event_ids := AList.delete rule (pl_event_ids p)\<rparr>)
         | None \<Rightarrow> new_id env p))"

definition on_motion_item :: "poller_env \<Rightarrow> OnvifCameraConfig \<Rightarrow> string option \<times> bool \<Rightarrow> poller \<Rightarrow> poller" where
  "on_motion_item env cam item p =
     (let rule = unwrap_or (fst item) ''<unknown-rule>'';
          is_motion = snd item;
          prev = unwrap_or (map_of (pl_state p) rule) False in
      if prev = is_motion then p
      else
        let (event_id, p) = edge_id env rule is_motion (p\<lparr>pl_state := AList.update rule is_motion (pl_state p)\<rparr>);
            metadata = (if is_motion then Some \<lparr>mm_camera_id = oc_camera_id cam, mm_event_id = event_id\<rparr> else None) in
        p\<lparr>pl_motion_state := snd (MotionStateBus_set (pl_motion_state p) rule is_motion metadata),
          pl_published := pl_published p @
            [\<lparr>me_rule = rule, me_active = is_motion, me_ts = pe_utc env (length (pl_published p)),
              me_camera_id = oc_camera_id cam, me_event_id = event_id\<rparr>]\<rparr>)"

text \<open>The task polls, has ended with an error (and what it had published stays), or has panicked.\<close>

datatype poller_task = Polling poller | Stopped soap_error poller | Crashed

text \<open>A new subscription replaces the old one; when it cannot be made the task ends.\<close>

definition resubscribe ::
    "poller_env \<Rightarrow> string \<Rightarrow> OnvifCameraConfig \<Rightarrow> OnvifSettings \<Rightarrow> poller \<Rightarrow> poller_task" where
  "resubscribe env onvif_service cam settings p =
     (case create_subscription_with_retry (pe_soap env) onvif_service cam settings (pl_net p) of
        (Inl e, w) \<Rightarrow> Stopped e (p\<lparr>pl_net := w\<rparr>)
      | (Inr (addr, i), w) \<Rightarrow>
          Polling (p\<lparr>pl_net := w, pl_sub_addr := addr, pl_sub_id := i, pl_consecutive_errors := 0,
                     pl_last_pull_done := None\<rparr>))"

definition on_renew_tick ::
    "poller_env \<Rightarrow> string \<Rightarrow> OnvifCameraConfig \<Rightarrow> OnvifSettings \<Rightarrow> poller \<Rightarrow> poller_task" where
  "on_renew_tick env onvif_service cam settings p =
     (case renew_subscription (pe_soap env) (pl_sub_addr p) (pl_sub_id p) (oc_user cam) (oc_pass cam)
             (os_sub_termination settings) (pl_net p) of
        (Inr _, w) \<Rightarrow> Polling (p\<lparr>pl_net := w\<rparr>)
      | (Inl _, w) \<Rightarrow>
          resubscribe env onvif_service cam settings (reset_motion_tracking (oc_camera_id cam) (p\<lparr>pl_net := w\<rparr>)))"

definition poll_pause :: "poller_env \<Rightarrow> OnvifSettings \<Rightarrow> poller \<Rightarrow> poller" where
  "poll_pause env settings p =
     (case pl_last_pull_done p of
        None \<Rightarrow> p
      | Some t \<Rightarrow>
          let elapsed = poller_now env (pl_net p) - t in
          if elapsed < os_min_poll_gap settings
          then p\<lparr>pl_net := snd (sleepS (os_min_poll_gap settings - elapsed) (pl_net p))\<rparr> else p)"

definition pull_messages :: "poller_env \<Rightarrow> OnvifCameraConfig \<Rightarrow> OnvifSettings \<Rightarrow> poller \<Rightarrow> string soap" where
  "pull_messages env cam settings p =
     with_security (pe_soap env) (oc_user cam) (oc_pass cam) (\<lambda>sec.
       soap_post (pe_soap env) (pl_sub_addr p) ACTION_PULLMESSAGES_REQ
         (soap_envelope (pl_sub_addr p) ACTION_PULLMESSAGES_REQ (motion_security sec)
            (pull_messages_body (os_pull_timeout settings) (os_pull_limit settings)) (subscription_id_header (pl_sub_id p))))"

definition on_pull_error ::
    "poller_env \<Rightarrow> string \<Rightarrow> OnvifCameraConfig \<Rightarrow> OnvifSettings \<Rightarrow> soap_error \<Rightarrow> poller \<Rightarrow> poller_task" where
  "on_pull_error env onvif_service cam settings e p =
     (if pl_consecutive_errors p + 1 > 4294967295 then Crashed
      else
        let p = p\<lparr>pl_consecutive_errors := pl_consecutive_errors p + 1\<rparr> in
        if is_connectish_error e \<or> os_resub_after settings \<le> pl_consecutive_errors p
        then resubscribe env onvif_service cam settings (reset_motion_tracking (oc_camera_id cam) p)
        else Polling (p\<lparr>pl_net := snd (sleepS (from_secs 1) (pl_net p))\<rparr>))"

definition on_pull ::
    "poller_env \<Rightarrow> string \<Rightarrow> OnvifCameraConfig \<Rightarrow> OnvifSettings \<Rightarrow> poller \<Rightarrow> poller_task" where
  "on_pull env onvif_service cam settings p =
     (let p = (poll_pause env settings p)\<lparr>pl_pull_attempt := pl_pull_attempt p + 1\<rparr> in
      case pull_messages env cam settings p (pl_net p) of
        (Inr pm_xml, w) \<Rightarrow>
          Polling (fold (on_motion_item env cam) (extract_motion_events (pe_soap env) pm_xml)
            (p\<lparr>pl_net := w, pl_consecutive_errors := 0, pl_last_pull_done := Some (poller_now env w)\<rparr>))
      | (Inl e, w) \<Rightarrow>
          on_pull_error env onvif_service cam settings e
            (p\<lparr>pl_net := w, pl_last_pull_done := Some (poller_now env w)\<rparr>))"

datatype poller_event = RenewTick | PullReady

definition poller_step ::
    "poller_env \<Rightarrow> string \<Rightarrow> OnvifCameraConfig \<Rightarrow> OnvifSettings \<Rightarrow> poller_event \<Rightarrow> poller_task \<Rightarrow> poller_task" where
  "poller_step env onvif_service cam settings ev t =
     (case t of
        Polling p \<Rightarrow>
          (case ev of
             RenewTick \<Rightarrow> on_renew_tick env onvif_service cam settings p
           | PullReady \<Rightarrow> on_pull env onvif_service cam settings p)
      | _ \<Rightarrow> t)"

definition onvif_service_url :: "OnvifCameraConfig \<Rightarrow> string" where
  "onvif_service_url cam = ''http://'' @ oc_host cam @ '':'' @ show_nat (oc_port cam) @ ''/onvif/service''"

definition poller_init :: "soap_world \<Rightarrow> poller" where
  "poller_init w =
     \<lparr>pl_sub_addr = [], pl_sub_id = None, pl_state = [], pl_event_ids = [], pl_motion_state = [], pl_published = [],
      pl_ulids = 0, pl_consecutive_errors = 0, pl_last_pull_done = None, pl_pull_attempt = 0, pl_net = w\<rparr>"

text \<open>\<open>tokio::time::interval\<close> panics on a period of zero.\<close>

definition start_poller :: "poller_env \<Rightarrow> OnvifCameraConfig \<Rightarrow> OnvifSettings \<Rightarrow> poller_task" where
  "start_poller env cam settings =
     (case resubscribe env (onvif_service_url cam) cam settings (poller_init \<lparr>sw_sent = [], sw_slept = 0\<rparr>) of
        Polling p \<Rightarrow> if os_renew_every_secs settings = 0 then Crashed else Polling p
      | t \<Rightarrow> t)"

definition run_onvif_motion_poller_for_camera ::
    "poller_env \<Rightarrow> OnvifCameraConfig \<Rightarrow> OnvifSettings \<Rightarrow> poller_event list \<Rightarrow> poller_task" where
  "run_onvif_motion_poller_for_camera env cam settings evs =
     fold (poller_step env (onvif_service_url cam) cam settings) evs (start_poller env cam settings)"

text \<open>One task for each camera, all with the same settings.\<close>

definition run_onvif_motion_poller ::
    "overrides \<Rightarrow> onvif_error + (OnvifCameraConfig \<times> OnvifSettings) list" where
  "run_onvif_motion_poller ov =
     (case load_onvif_cameras_from_env ov of
        Inl e \<Rightarrow> Inl e | Inr cams \<Rightarrow> Inr (map (\<lambda>cam. (cam, load_settings ov)) cams))"

section \<open>What the poller has published\<close>

definition task_published :: "poller_task \<Rightarrow> MotionEvent list" where
  "task_published t = (case t of Polling p \<Rightarrow> pl_published p | Stopped _ p \<Rightarrow> pl_published p | Crashed \<Rightarrow> [])"

definition last_edge :: "string \<Rightarrow> MotionEvent list \<Rightarrow> MotionEvent option" where
  "last_edge rule es =
     (let fs = filter (\<lambda>e. me_rule e = rule) es in if fs = [] then None else Some (last fs))"

text \<open>Every end follows a start of the same rule and carries its id.\<close>

definition pairs_up :: "MotionEvent list \<Rightarrow> MotionEvent \<Rightarrow> bool" where
  "pairs_up earlier e \<longleftrightarrow>
     me_active e \<or> (case last_edge (me_rule e) earlier of
                      Some s \<Rightarrow> me_active s \<and> me_event_id s = me_event_id e | None \<Rightarrow> False)"

definition ends_paired :: "MotionEvent list \<Rightarrow> bool" where
  "ends_paired es \<longleftrightarrow> (\<forall>i < length es. pairs_up (take i es) (es ! i))"

lemma last_edge_snoc [simp]:
  "last_edge r (es @ [e]) = (if me_rule e = r then Some e else last_edge r es)"
  by (simp add: last_edge_def)

lemma ends_paired_snoc [simp]: "ends_paired (es @ [e]) \<longleftrightarrow> ends_paired es \<and> pairs_up es e"
  by (auto simp: ends_paired_def nth_append less_Suc_eq)

lemma ends_paired_Nil [simp]: "ends_paired []"
  by (simp add: ends_paired_def)

section \<open>The tracking invariant\<close>

definition tracking_inv :: "OnvifCameraConfig \<Rightarrow> poller \<Rightarrow> bool" where
  "tracking_inv cam p \<longleftrightarrow>
     (\<forall>r. map_of (pl_event_ids p) r \<noteq> None \<longleftrightarrow> map_of (pl_state p) r = Some True)
     \<and> (\<forall>r i. map_of (pl_event_ids p) r = Some i \<longrightarrow>
          (\<exists>s. last_edge r (pl_published p) = Some s \<and> me_active s \<and> me_event_id s = i))
     \<and> (\<forall>r. map_of (pl_motion_state p) r
           = map_option (\<lambda>i. \<lparr>mm_camera_id = oc_camera_id cam, mm_event_id = i\<rparr>) (map_of (pl_event_ids p) r))
     \<and> (\<forall>(r, m) \<in> set (pl_motion_state p). mm_camera_id m = oc_camera_id cam)
     \<and> ends_paired (pl_published p)"

lemma tracking_ids: "tracking_inv cam p \<Longrightarrow> map_of (pl_event_ids p) r = None \<longleftrightarrow> map_of (pl_state p) r \<noteq> Some True"
  unfolding tracking_inv_def by blast

lemma tracking_last:
  "tracking_inv cam p \<Longrightarrow> map_of (pl_event_ids p) r = Some i \<Longrightarrow>
     \<exists>s. last_edge r (pl_published p) = Some s \<and> me_active s \<and> me_event_id s = i"
  unfolding tracking_inv_def by blast

lemma tracking_motion:
  "tracking_inv cam p \<Longrightarrow> map_of (pl_motion_state p) r
     = map_option (\<lambda>i. \<lparr>mm_camera_id = oc_camera_id cam, mm_event_id = i\<rparr>) (map_of (pl_event_ids p) r)"
  unfolding tracking_inv_def by blast

lemma tracking_camera: "tracking_inv cam p \<Longrightarrow> (r, m) \<in> set (pl_motion_state p) \<Longrightarrow> mm_camera_id m = oc_camera_id cam"
  unfolding tracking_inv_def by blast

lemma tracking_paired: "tracking_inv cam p \<Longrightarrow> ends_paired (pl_published p)"
  unfolding tracking_inv_def by blast

lemma tracking_invI:
  assumes "\<And>r. map_of (pl_event_ids p) r = None \<longleftrightarrow> map_of (pl_state p) r \<noteq> Some True"
    and "\<And>r i. map_of (pl_event_ids p) r = Some i \<Longrightarrow>
      \<exists>s. last_edge r (pl_published p) = Some s \<and> me_active s \<and> me_event_id s = i"
    and "\<And>r. map_of (pl_motion_state p) r
      = map_option (\<lambda>i. \<lparr>mm_camera_id = oc_camera_id cam, mm_event_id = i\<rparr>) (map_of (pl_event_ids p) r)"
    and "\<And>r m. (r, m) \<in> set (pl_motion_state p) \<Longrightarrow> mm_camera_id m = oc_camera_id cam"
    and "ends_paired (pl_published p)"
  shows "tracking_inv cam p"
  using assms unfolding tracking_inv_def by (auto simp del: not_None_eq)

lemma set_update_subset: "x \<in> set (AList.update k v xs) \<Longrightarrow> x = (k, v) \<or> x \<in> set xs"
  by (induction xs) (auto split: if_splits)

text \<open>The poller after a start and after an end, as records.\<close>

definition motion_event :: "poller_env \<Rightarrow> OnvifCameraConfig \<Rightarrow> string \<Rightarrow> bool \<Rightarrow> string \<Rightarrow> poller \<Rightarrow> MotionEvent" where
  "motion_event env cam rule active i p =
     \<lparr>me_rule = rule, me_active = active, me_ts = pe_utc env (length (pl_published p)),
      me_camera_id = oc_camera_id cam, me_event_id = i\<rparr>"

lemma on_start_eq:
  assumes "tracking_inv cam p" "map_of (pl_state p) r \<noteq> Some True" "r = unwrap_or ro ''<unknown-rule>''"
  shows "on_motion_item env cam (ro, True) p =
    p\<lparr>pl_state := AList.update r True (pl_state p), pl_event_ids := AList.update r (pe_ulid env (pl_ulids p)) (pl_event_ids p),
      pl_ulids := pl_ulids p + 1,
      pl_motion_state := AList.update r \<lparr>mm_camera_id = oc_camera_id cam, mm_event_id = pe_ulid env (pl_ulids p)\<rparr> (pl_motion_state p),
      pl_published := pl_published p @ [motion_event env cam r True (pe_ulid env (pl_ulids p)) p]\<rparr>"
proof -
  have "unwrap_or (map_of (pl_state p) r) False = False"
    using assms(2) by (cases "map_of (pl_state p) r") (auto simp: unwrap_or_def)
  moreover have "map_of (pl_motion_state p) r = None"
    using tracking_motion [OF assms(1), of r] tracking_ids [OF assms(1), of r] assms(2) by simp
  ultimately show ?thesis
    unfolding assms(3) by (simp add: on_motion_item_def edge_id_def new_id_def Let_def MotionStateBus_set_def motion_event_def)
qed

lemma on_end_eq:
  assumes "tracking_inv cam p" "map_of (pl_event_ids p) r = Some i" "r = unwrap_or ro ''<unknown-rule>''"
  shows "on_motion_item env cam (ro, False) p =
    p\<lparr>pl_state := AList.update r False (pl_state p), pl_event_ids := AList.delete r (pl_event_ids p),
      pl_motion_state := AList.delete r (pl_motion_state p),
      pl_published := pl_published p @ [motion_event env cam r False i p]\<rparr>"
proof -
  have "map_of (pl_state p) r = Some True" using tracking_ids [OF assms(1), of r] assms(2) by simp
  then show ?thesis
    using assms(2) unfolding assms(3)
    by (simp add: on_motion_item_def edge_id_def Let_def MotionStateBus_set_def motion_event_def unwrap_or_def)
qed

lemma on_motion_item_same:
  "unwrap_or (map_of (pl_state p) (unwrap_or r ''<unknown-rule>'')) False = b \<Longrightarrow> on_motion_item env cam (r, b) p = p"
  by (simp add: on_motion_item_def)

lemma tracking_item:
  assumes inv: "tracking_inv cam p"
  shows "tracking_inv cam (on_motion_item env cam item p)"
proof -
  obtain ro b where item: "item = (ro, b)" by (cases item)
  define r where "r = unwrap_or ro ''<unknown-rule>''"
  consider (same) "unwrap_or (map_of (pl_state p) r) False = b"
    | (start) "b" "map_of (pl_state p) r \<noteq> Some True"
    | (stop) i where "\<not> b" "map_of (pl_event_ids p) r = Some i"
    using tracking_ids [OF inv, of r] by (cases "map_of (pl_state p) r"; cases b) (auto simp: unwrap_or_def)
  then show ?thesis
  proof cases
    case same
    then show ?thesis using inv by (simp add: item on_motion_item_same r_def)
  next
    case start
    show ?thesis
      unfolding item on_start_eq [OF inv start(2) r_def] iffD2 [OF eq_True start(1)]
    proof (rule tracking_invI, goal_cases)
      case (1 r') then show ?case using tracking_ids [OF inv] by (simp add: AList.update_conv')
    next
      case (2 r' i) then show ?case using tracking_last [OF inv] by (auto simp: AList.update_conv' motion_event_def split: if_splits)
    next
      case (3 r') then show ?case using tracking_motion [OF inv] by (simp add: AList.update_conv')
    next
      case (4 r' m) then show ?case using tracking_camera [OF inv] by (auto dest!: set_update_subset)
    next
      case 5 then show ?case using tracking_paired [OF inv] by (simp add: pairs_up_def motion_event_def)
    qed
  next
    case stop
    show ?thesis
      unfolding item on_end_eq [OF inv stop(2) r_def] iffD2 [OF eq_False stop(1)]
    proof (rule tracking_invI, goal_cases)
      case (1 r') then show ?case using tracking_ids [OF inv] by (simp add: AList.update_conv' AList.delete_conv')
    next
      case (2 r' i) then show ?case using tracking_last [OF inv] by (auto simp: AList.delete_conv' motion_event_def split: if_splits)
    next
      case (3 r') then show ?case using tracking_motion [OF inv] by (simp add: AList.delete_conv')
    next
      case (4 r' m) then show ?case using tracking_camera [OF inv] by (auto simp: AList.delete_eq)
    next
      case 5 then show ?case using tracking_paired [OF inv] tracking_last [OF inv stop(2)] by (auto simp: pairs_up_def motion_event_def)
    qed
  qed
qed

text \<open>What the poller tracks does not depend on the subscription, the counters and the network.\<close>

lemma tracking_cong:
  assumes "pl_state q = pl_state p" "pl_event_ids q = pl_event_ids p" "pl_motion_state q = pl_motion_state p"
    and "pl_published q = pl_published p"
  shows "tracking_inv cam q \<longleftrightarrow> tracking_inv cam p"
  using assms by (simp add: tracking_inv_def)

lemma tracking_net [simp]:
  "tracking_inv cam (p\<lparr>pl_net := w\<rparr>) \<longleftrightarrow> tracking_inv cam p"
  "tracking_inv cam (p\<lparr>pl_consecutive_errors := n\<rparr>) \<longleftrightarrow> tracking_inv cam p"
  "tracking_inv cam (p\<lparr>pl_last_pull_done := t\<rparr>) \<longleftrightarrow> tracking_inv cam p"
  "tracking_inv cam (p\<lparr>pl_pull_attempt := n\<rparr>) \<longleftrightarrow> tracking_inv cam p"
  "tracking_inv cam (p\<lparr>pl_sub_addr := a\<rparr>) \<longleftrightarrow> tracking_inv cam p"
  "tracking_inv cam (p\<lparr>pl_sub_id := i\<rparr>) \<longleftrightarrow> tracking_inv cam p"
  "tracking_inv cam (poll_pause env settings p) \<longleftrightarrow> tracking_inv cam p"
  by (rule tracking_cong; simp add: poll_pause_def Let_def split: option.splits)+

lemma tracking_reset:
  assumes "tracking_inv cam p"
  shows "tracking_inv cam (reset_motion_tracking (oc_camera_id cam) p)"
proof -
  have "filter (\<lambda>(_, m). mm_camera_id m \<noteq> oc_camera_id cam) (pl_motion_state p) = []"
    using tracking_camera [OF assms] by (auto simp: filter_empty_conv)
  then show ?thesis
    using tracking_paired [OF assms]
    by (intro tracking_invI) (simp_all add: reset_motion_tracking_def MotionStateBus_clear_camera_def)
qed

definition task_inv :: "(poller \<Rightarrow> bool) \<Rightarrow> poller_task \<Rightarrow> bool" where
  "task_inv P t = (case t of Polling p \<Rightarrow> P p | Stopped _ p \<Rightarrow> P p | Crashed \<Rightarrow> True)"

lemma task_inv_simps [simp]:
  "task_inv P (Polling p) = P p" "task_inv P (Stopped e p) = P p" "task_inv P Crashed"
  by (simp_all add: task_inv_def)

lemma tracking_resubscribe: "tracking_inv cam p \<Longrightarrow> task_inv (tracking_inv cam) (resubscribe env svc cam settings p)"
  by (simp add: resubscribe_def split: prod.splits sum.splits)

lemma tracking_items: "tracking_inv cam p \<Longrightarrow> tracking_inv cam (fold (on_motion_item env cam) items p)"
  by (induction items arbitrary: p) (simp_all add: tracking_item)

lemma tracking_step:
  assumes "task_inv (tracking_inv cam) t"
  shows "task_inv (tracking_inv cam) (poller_step env svc cam settings ev t)"
proof (cases t)
  case (Polling p)
  with assms have inv: "tracking_inv cam p" by simp
  have renew: "task_inv (tracking_inv cam) (on_renew_tick env svc cam settings p)"
    using inv by (auto simp: on_renew_tick_def intro!: tracking_resubscribe tracking_reset split: prod.splits sum.splits)
  have err: "tracking_inv cam q \<Longrightarrow> task_inv (tracking_inv cam) (on_pull_error env svc cam settings e q)" for e q
    by (auto simp: on_pull_error_def Let_def intro!: tracking_resubscribe tracking_reset)
  have pull: "task_inv (tracking_inv cam) (on_pull env svc cam settings p)"
    using inv by (auto simp: on_pull_def Let_def intro!: tracking_items err split: prod.splits sum.splits)
  show ?thesis using renew pull by (simp add: poller_step_def Polling split: poller_event.splits)
qed (use assms in \<open>simp_all add: poller_step_def\<close>)

lemma tracking_init: "tracking_inv cam (poller_init w)"
  by (rule tracking_invI) (simp_all add: poller_init_def)

lemma tracking_start: "task_inv (tracking_inv cam) (start_poller env cam settings)"
  using tracking_resubscribe [OF tracking_init [of cam "\<lparr>sw_sent = [], sw_slept = 0\<rparr>"], of env "onvif_service_url cam" settings]
  by (auto simp: start_poller_def split: poller_task.splits)

interpretation tracker: machine "poller_step env svc cam settings" "task_inv (tracking_inv cam)" for env svc cam settings
  by unfold_locales (rule tracking_step)

lemma tracking_run: "task_inv (tracking_inv cam) (run_onvif_motion_poller_for_camera env cam settings evs)"
  unfolding run_onvif_motion_poller_for_camera_def by (rule tracker.run_inv [OF tracking_start])

text \<open>
  C11. Whatever the camera answers and in whatever order the poller renews and pulls, every motion
  end it publishes follows a motion start of the same rule, with no other edge of the rule between
  them, and carries the event id of that start.
\<close>

theorem poller_ends_paired: "ends_paired (task_published (run_onvif_motion_poller_for_camera env cam settings evs))"
  using tracking_run [of cam env settings evs]
  by (auto simp: task_published_def tracking_paired split: poller_task.splits)

section \<open>A sample camera\<close>

text \<open>The first answer is a subscription; then motion is reported on and off in turn.\<close>

definition item_events :: "string \<Rightarrow> xml_event list" where
  "item_events v =
     [XEmpty (as_bytes ''tt:SimpleItem'') [(as_bytes ''Name'', Some ''Rule''), (as_bytes ''Value'', Some ''r'')],
      XEmpty (as_bytes ''tt:SimpleItem'') [(as_bytes ''Name'', Some ''IsMotion''), (as_bytes ''Value'', Some v)]]"

definition sample_soap :: soap_env where
  "sample_soap =
     \<lparr>so_sha1 = (\<lambda>b. b), so_base64 = to_str, so_nonce = (\<lambda>n. []), so_created = (\<lambda>n. ''t''), so_status_text = show_nat,
      so_answer = (\<lambda>reqs. Answered 200 (Inr (if length reqs = 1 then ''sub'' else if even (length reqs) then ''on'' else ''off''))),
      so_events = (\<lambda>xml. if xml = ''sub'' then [XStart (as_bytes ''wsa:Address'') [], XText (Some ''http://c/1'')]
                        else item_events (if xml = ''on'' then ''true'' else ''false'')),
      so_parse = (\<lambda>xml. Inl [])\<rparr>"

definition sample_poller_env :: poller_env where
  "sample_poller_env =
     \<lparr>pe_soap = sample_soap, pe_ulid = (\<lambda>n. ''id'' @ show_nat n), pe_utc = int, pe_request_time = (\<lambda>n. 5)\<rparr>"

definition sample_onvif_camera :: OnvifCameraConfig where
  "sample_onvif_camera = \<lparr>oc_camera_id = ''front'', oc_host = ''c'', oc_port = 2020, oc_user = ''u'', oc_pass = ''p''\<rparr>"

lemma sample_local_names:
  "local_name (as_bytes ''wsa:Address'') = ''Address''" "local_name (as_bytes ''tt:SimpleItem'') = ''SimpleItem''"
  "local_name (as_bytes ''Name'') = ''Name''" "local_name (as_bytes ''Value'') = ''Value''"
  by code_simp+

lemma sample_items: "motion_items None (item_events v) = [(Some ''r'', eq_ignore_ascii_case v ''true'' \<or> v = ''1'')]"
  by (simp add: item_events_def sample_local_names item_attr_def or_else_def)

lemma sample_run:
  "\<exists>p. run_onvif_motion_poller_for_camera sample_poller_env sample_onvif_camera (load_settings []) [PullReady] = Polling p
     \<and> pl_state p = [(''r'', True)]"
  by (simp add: run_onvif_motion_poller_for_camera_def start_poller_def resubscribe_def create_subscription_with_retry_def
      subscribe_loop.simps create_subscription_def with_security_def soap_post_def send_def bindS_def Let_def sample_poller_env_def
      sample_soap_def is_success_def extract_first_text_def sample_local_names load_settings_def runtime_u64_def runtime_var_def
      unwrap_or_def sleepS_def poller_step_def on_pull_def poll_pause_def pull_messages_def poller_init_def extract_motion_events_def
      sample_items on_motion_item_def edge_id_def new_id_def eq_ignore_ascii_case_def)

text \<open>
  The recorder sees what the poller tracks: while it runs, the motion state has an entry for
  exactly the rules last reported active since the subscription was made, with the camera and the
  event id of the published start.
\<close>

theorem poller_motion_state:
  assumes "run_onvif_motion_poller_for_camera env cam settings evs = Polling p"
  shows "(map_of (pl_motion_state p) rule = None \<longleftrightarrow> map_of (pl_state p) rule \<noteq> Some True)
    \<and> (\<forall>m. map_of (pl_motion_state p) rule = Some m \<longrightarrow> mm_camera_id m = oc_camera_id cam
         \<and> (\<exists>s. last_edge rule (pl_published p) = Some s \<and> me_active s \<and> me_event_id s = mm_event_id m))"
proof -
  have inv: "tracking_inv cam p" using tracking_run [of cam env settings evs] assms by simp
  then show ?thesis
    using tracking_motion [OF inv, of rule] tracking_ids [OF inv, of rule] tracking_last [OF inv, of rule] by auto
qed

theorem poller_motion_state_witness:
  "\<exists>p m. run_onvif_motion_poller_for_camera sample_poller_env sample_onvif_camera (load_settings []) [PullReady] = Polling p
     \<and> map_of (pl_motion_state p) ''r'' = Some m \<and> mm_camera_id m = ''front''"
proof -
  obtain p where p: "run_onvif_motion_poller_for_camera sample_poller_env sample_onvif_camera (load_settings []) [PullReady]
      = Polling p" "pl_state p = [(''r'', True)]"
    using sample_run by blast
  then show ?thesis using poller_motion_state [OF p(1), of "''r''"] by (auto simp: sample_onvif_camera_def)
qed

section \<open>Subscribing again\<close>

lemma send_sent: "length (sw_sent (snd (send env url action xml w))) = length (sw_sent w) + 1"
  by (simp add: send_def Let_def split: soap_answer.splits)

lemma soap_post_sent [simp]: "length (sw_sent (snd (soap_post env url action xml w))) = length (sw_sent w) + 1"
  using send_sent [of env url action xml w]
  by (auto simp: soap_post_def bindS_def Let_def split: prod.splits sum.splits)

lemma bindS_pure_sent:
  assumes "\<And>x w. snd (f x w) = w"
  shows "snd (bindS a f w) = snd (a w)"
  using assms by (simp add: bindS_def split: prod.splits sum.splits)

lemma create_subscription_sent [simp]:
  "length (sw_sent (snd (create_subscription env svc user pass st w))) = length (sw_sent w) + 1"
proof -
  have pure: "snd ((case extract_first_text env x ''Address'' of None \<Rightarrow> failS (Anyhow m)
      | Some a \<Rightarrow> returnS (a, extract_first_text env x ''SubscriptionId'')) w) = w" for x m w
    by (simp split: option.splits)
  show ?thesis by (simp add: create_subscription_def with_security_def bindS_pure_sent [OF pure])
qed

lemma sleepS_sent [simp]: "sw_sent (snd (sleepS d w)) = sw_sent w"
  by (simp add: sleepS_def)

lemma subscribe_loop_sent:
  "length (sw_sent (snd (subscribe_loop env svc cam st n w))) \<le> length (sw_sent w) + n + 1
   \<and> (\<forall>e. fst (subscribe_loop env svc cam st n w) = Inl e \<and> is_connectish_error e
        \<longrightarrow> length (sw_sent (snd (subscribe_loop env svc cam st n w))) = length (sw_sent w) + n + 1)"
proof (induction n arbitrary: w)
  case (0 w)
  obtain res w' where r: "create_subscription env svc (oc_user cam) (oc_pass cam) (os_sub_termination st) w = (res, w')"
    by (cases "create_subscription env svc (oc_user cam) (oc_pass cam) (os_sub_termination st) w")
  then have "length (sw_sent w') = length (sw_sent w) + 1"
    using create_subscription_sent [of env svc "oc_user cam" "oc_pass cam" "os_sub_termination st" w] by simp
  with r show ?case by (cases res) (simp_all add: subscribe_loop.simps [of _ _ _ _ _ w] bindS_def sleepS_def)
next
  case (Suc n w)
  obtain res w' where r: "create_subscription env svc (oc_user cam) (oc_pass cam) (os_sub_termination st) w = (res, w')"
    by (cases "create_subscription env svc (oc_user cam) (oc_pass cam) (os_sub_termination st) w")
  then have l: "length (sw_sent w') = length (sw_sent w) + 1"
    using create_subscription_sent [of env svc "oc_user cam" "oc_pass cam" "os_sub_termination st" w] by simp
  show ?case
  proof (cases res)
    case (Inr x)
    with r l show ?thesis by (simp add: subscribe_loop.simps [of _ _ _ _ _ w] bindS_def sleepS_def)
  next
    case (Inl e)
    have eq: "subscribe_loop env svc cam st (Suc n) w =
        (if is_connectish_error e
         then subscribe_loop env svc cam st n (snd (sleepS (os_connrefused_backoff st) w')) else (Inl e, w'))"
      using r Inl by (simp add: subscribe_loop.simps [of _ _ _ _ _ w])
    show ?thesis
      unfolding eq using Suc.IH [of "snd (sleepS (os_connrefused_backoff st) w')"] l by simp
  qed
qed

text \<open>
  Subscribing makes at most one request more than \<open>ONVIF_CONNREFUSED_RETRIES\<close>, and gives up
  with a connection error only after all of them.
\<close>

theorem subscription_attempts:
  assumes "create_subscription_with_retry env svc cam settings w = (res, w')"
  shows "length (sw_sent w') \<le> length (sw_sent w) + os_connrefused_retries settings + 1
    \<and> (\<forall>e. res = Inl e \<and> is_connectish_error e
         \<longrightarrow> length (sw_sent w') = length (sw_sent w) + os_connrefused_retries settings + 1)"
  using subscribe_loop_sent [of env svc cam settings "os_connrefused_retries settings" w] assms
  by (simp add: create_subscription_with_retry_def)

definition dead_soap :: soap_env where
  "dead_soap = sample_soap\<lparr>so_answer := (\<lambda>reqs. SendFailed
     \<lparr>rq_is_timeout = False, rq_is_connect = True, rq_is_request = False, rq_message = []\<rparr>)\<rparr>"

theorem subscription_attempts_witness:
  "length (sw_sent (snd (create_subscription_with_retry dead_soap ''u'' sample_onvif_camera (load_settings [])
     \<lparr>sw_sent = [], sw_slept = 0\<rparr>))) = 2"
proof -
  let ?e = "Reqwest \<lparr>rq_is_timeout = False, rq_is_connect = True, rq_is_request = False, rq_message = []\<rparr>"
  let ?run = "create_subscription_with_retry dead_soap ''u'' sample_onvif_camera (load_settings []) \<lparr>sw_sent = [], sw_slept = 0\<rparr>"
  have "?run = (fst ?run, snd ?run)" by simp
  note t = subscription_attempts [OF this]
  have r: "os_connrefused_retries (load_settings []) = 1"
    by (simp add: load_settings_def env_u32_def runtime_var_def unwrap_or_def)
  have "fst ?run = Inl ?e"
    by (simp add: create_subscription_with_retry_def subscribe_loop.simps create_subscription_def with_security_def soap_post_def
        send_def bindS_def Let_def dead_soap_def is_connectish_error_def r)
  with t show ?thesis by (simp add: r is_connectish_error_def)
qed

section \<open>The error count does not overflow\<close>

definition errors_inv :: "OnvifSettings \<Rightarrow> poller_task \<Rightarrow> bool" where
  "errors_inv settings t \<longleftrightarrow>
     (case t of
        Polling p \<Rightarrow> pl_consecutive_errors p \<le> os_resub_after settings - 1
      | Stopped _ p \<Rightarrow> True
      | Crashed \<Rightarrow> False)"

lemma errors_resubscribe: "errors_inv settings (resubscribe env svc cam settings p)"
  by (simp add: resubscribe_def errors_inv_def split: prod.splits sum.splits)

lemma on_motion_item_errors [simp]:
  "pl_consecutive_errors (on_motion_item env cam item p) = pl_consecutive_errors p"
  by (simp add: on_motion_item_def edge_id_def new_id_def Let_def split: option.splits prod.splits)

lemma on_motion_items_errors [simp]:
  "pl_consecutive_errors (fold (on_motion_item env cam) items p) = pl_consecutive_errors p"
  by (induction items arbitrary: p) simp_all

lemma errors_step:
  assumes "os_resub_after settings \<le> 4294967295" "errors_inv settings t"
  shows "errors_inv settings (poller_step env svc cam settings ev t)"
proof (cases t)
  case (Polling p)
  with assms(2) have e: "pl_consecutive_errors p \<le> os_resub_after settings - 1" by (simp add: errors_inv_def)
  have renew: "errors_inv settings (on_renew_tick env svc cam settings p)"
    using e errors_resubscribe by (auto simp: on_renew_tick_def errors_inv_def [of _ "Polling _"] split: prod.splits sum.splits)
  have pause: "pl_consecutive_errors (poll_pause env settings p) = pl_consecutive_errors p"
    by (simp add: poll_pause_def Let_def split: option.splits)
  have err: "pl_consecutive_errors q = pl_consecutive_errors p \<Longrightarrow> errors_inv settings (on_pull_error env svc cam settings er q)" for er q
    using e assms(1) errors_resubscribe by (auto simp: on_pull_error_def Let_def errors_inv_def [of _ "Polling _"])
  have pull: "errors_inv settings (on_pull env svc cam settings p)"
    by (auto simp: on_pull_def Let_def pause errors_inv_def [of _ "Polling _"] intro!: err split: prod.splits sum.splits)
  show ?thesis using renew pull by (simp add: poller_step_def Polling split: poller_event.splits)
qed (use assms in \<open>simp_all add: poller_step_def errors_inv_def\<close>)

lemma errors_run:
  assumes "os_resub_after settings \<le> 4294967295" "errors_inv settings t"
  shows "errors_inv settings (fold (poller_step env svc cam settings) evs t)"
  using assms(2) by (induction evs arbitrary: t) (simp_all add: errors_step [OF assms(1)])

lemma errors_start: "os_renew_every_secs settings \<noteq> 0 \<Longrightarrow> errors_inv settings (start_poller env cam settings)"
  using errors_resubscribe [of settings env "onvif_service_url cam" cam "poller_init \<lparr>sw_sent = [], sw_slept = 0\<rparr>"]
  by (auto simp: start_poller_def errors_inv_def split: poller_task.splits)

text \<open>
  The poller panics only on a renewal interval of zero: with settings loaded from the runtime
  variables and \<open>ONVIF_RENEW_EVERY_SECS\<close> other than 0 no answer of the camera and no order of
  events makes it panic; with 0 it panics as soon as it has a subscription.
\<close>

theorem poller_panics_iff:
  "run_onvif_motion_poller_for_camera env cam (load_settings ov) evs = Crashed \<longleftrightarrow>
     runtime_u64 ov ''ONVIF_RENEW_EVERY_SECS'' 300 = 0
     \<and> (\<exists>sub w. create_subscription_with_retry (pe_soap env) (onvif_service_url cam) cam (load_settings ov)
           \<lparr>sw_sent = [], sw_slept = 0\<rparr> = (Inr sub, w))"
proof -
  let ?st = "load_settings ov" and ?svc = "onvif_service_url cam" and ?w = "\<lparr>sw_sent = [], sw_slept = 0\<rparr>"
  have stuck: "fold (poller_step env ?svc cam ?st) evs t = t" if "\<forall>p. t \<noteq> Polling p" for t
    using that by (induction evs) (auto simp: poller_step_def split: poller_task.splits)
  show ?thesis
  proof (cases "os_renew_every_secs ?st = 0")
    case False
    have "os_resub_after ?st \<le> 4294967295"
      by (cases "runtime_var ov ''ONVIF_RESUBSCRIBE_AFTER_ERRORS''")
         (auto simp: load_settings_def env_u32_def unwrap_or_def dest: parse_uint_bound split: option.splits)
    then have "errors_inv ?st (run_onvif_motion_poller_for_camera env cam ?st evs)"
      unfolding run_onvif_motion_poller_for_camera_def by (rule errors_run) (rule errors_start [OF False])
    then have "run_onvif_motion_poller_for_camera env cam ?st evs \<noteq> Crashed" by (auto simp: errors_inv_def)
    with False show ?thesis by (simp add: load_settings_def)
  next
    case True
    obtain res w where r: "create_subscription_with_retry (pe_soap env) ?svc cam ?st ?w = (res, w)" by (rule prod.exhaust)
    have "start_poller env cam ?st = (case res of Inl e \<Rightarrow> Stopped e ((poller_init ?w)\<lparr>pl_net := w\<rparr>) | Inr _ \<Rightarrow> Crashed)"
      using r True by (simp add: start_poller_def resubscribe_def poller_init_def split: sum.splits prod.splits)
    then show ?thesis
      using True r stuck [of "start_poller env cam ?st"]
      by (cases res) (simp_all add: run_onvif_motion_poller_for_camera_def load_settings_def)
  qed
qed

section \<open>Motion across a new subscription\<close>

lemma reset_swallows_end: "on_motion_item env cam (r, False) (reset_motion_tracking c p) = reset_motion_tracking c p"
  by (rule on_motion_item_same) (simp add: reset_motion_tracking_def unwrap_or_def)

text \<open>
  A motion period that is going on when the subscription is lost never ends for the server.
  Tracking is reset, so the end the camera reports next is not an edge and is not published; the
  start of the next period follows the first start directly, and the forwarding task, which still
  holds the first period open, sends the new period under the old event id.
\<close>

theorem lost_subscription_merges_periods:
  assumes "tracking_inv cam p" "pl_published p = []" "map_of (pl_state p) rule \<noteq> Some True"
    and "q = fold (on_motion_item env cam) [(Some rule, False), (Some rule, True)]
           (reset_motion_tracking (oc_camera_id cam) (on_motion_item env cam (Some rule, True) p))"
  shows "map me_active (pl_published q) = [True, True]
    \<and> map me_event_id (pl_published q) = [pe_ulid env (pl_ulids p), pe_ulid env (pl_ulids p + 1)]
    \<and> map mc_event_id (forward_task any to_rfc3339 cam_map grace (pl_published q))
        = [pe_ulid env (pl_ulids p), pe_ulid env (pl_ulids p)]"
proof -
  define p1 where "p1 = reset_motion_tracking (oc_camera_id cam) (on_motion_item env cam (Some rule, True) p)"
  have r: "rule = unwrap_or (Some rule) ''<unknown-rule>''" by (simp add: unwrap_or_def)
  have inv: "tracking_inv cam p1" unfolding p1_def by (intro tracking_reset tracking_item assms(1))
  have p1: "pl_published p1 = [motion_event env cam rule True (pe_ulid env (pl_ulids p)) p]" "pl_ulids p1 = pl_ulids p + 1"
    "pl_state p1 = []"
    by (simp_all add: p1_def reset_motion_tracking_def on_start_eq [OF assms(1,3) r] assms(2))
  have q: "q = on_motion_item env cam (Some rule, True) p1"
    unfolding assms(4) p1_def by (simp add: reset_swallows_end)
  have pub: "pl_published q = [motion_event env cam rule True (pe_ulid env (pl_ulids p)) p,
      motion_event env cam rule True (pe_ulid env (pl_ulids p + 1)) p1]"
    unfolding q using on_start_eq [OF inv _ r] p1 by simp
  show ?thesis
    unfolding pub
    by (simp add: motion_event_def forward_task_def forward_motion_event_def normalize_event normalize_phase latch_key_def next_phase_def)
qed

theorem lost_subscription_merges_periods_witness:
  "map mc_event_id (forward_task (\<lambda>_. None) (\<lambda>_. ''t'') [] 0
     (pl_published (fold (on_motion_item sample_poller_env sample_onvif_camera) [(Some ''r'', False), (Some ''r'', True)]
        (reset_motion_tracking (oc_camera_id sample_onvif_camera)
          (on_motion_item sample_poller_env sample_onvif_camera (Some ''r'', True) (poller_init \<lparr>sw_sent = [], sw_slept = 0\<rparr>))))))
   = [''id0'', ''id0'']"
proof -
  have z: "show_nat 0 = ''0''" by code_simp
  have "pl_published (poller_init \<lparr>sw_sent = [], sw_slept = 0\<rparr>) = []"
    "map_of (pl_state (poller_init \<lparr>sw_sent = [], sw_slept = 0\<rparr>)) ''r'' \<noteq> Some True"
    by (simp_all add: poller_init_def)
  from lost_subscription_merges_periods [OF tracking_init [of sample_onvif_camera] this refl, of sample_poller_env "\<lambda>_. None" "\<lambda>_. ''t''" "[]" 0]
  show ?thesis by (simp add: sample_poller_env_def poller_init_def z)
qed

end
