(* ===== verification/OnvifRegion.thy ===== *)
theory OnvifRegion
  imports OnvifMotion
begin

text \<open>
  \<^verbatim>\<open>src/onvif/onvif_motion_region.rs\<close>: writing the motion region of the configuration into a camera.
  The polygon of a rule or analytics module is found in the camera's answer, its points are
  replaced, and the element is sent back.

  Parameters beside those of \<open>Soap\<close>: the type of floating point numbers with its formatting
  (\<open>{:.6}\<close>) and parsing, the JSON reader for points, and the XML writer.
\<close>

section \<open>Data\<close>

record 'f MotionRegionPoint =
  mp_x :: 'f
  mp_y :: 'f

record 'f OnvifMotionRegionCameraConfig =
  rc_camera_id :: string
  rc_service_url :: string
  rc_username :: string
  rc_password :: string
  rc_enabled :: bool
  rc_points :: "'f MotionRegionPoint list"

record OnvifMotionRegionSyncOutcome =
  ro_camera_id :: string
  ro_status :: string
  ro_error :: "string option"

datatype MediaFlavor = Media1 | Media2

record ServiceEndpoints =
  se_analytics_xaddr :: string
  se_media_xaddr :: string
  se_media_flavor :: MediaFlavor

datatype MotionRegionTargetKind = RuleTarget | AnalyticsModuleTarget

record MotionRegionTarget =
  mt_config_token :: string
  mt_kind :: MotionRegionTargetKind
  mt_fragment :: xml_node
  mt_target_name :: "string option"
  mt_target_type :: "string option"

record 'f region_env =
  re_soap :: soap_env
  re_fixed6 :: "'f \<Rightarrow> string"
  re_parse_f64 :: "string \<Rightarrow> 'f option"
  re_points_from_str :: "string \<Rightarrow> 'f MotionRegionPoint list option"
  re_write :: "xml_node \<Rightarrow> string + string"

section \<open>Cameras\<close>

text \<open>The slots in order; a slot may be skipped, and an error ends the loop.\<close>

fun collect_slots :: "(nat \<Rightarrow> 'e + 'c option) \<Rightarrow> nat list \<Rightarrow> 'e + 'c list" where
  "collect_slots f [] = Inr []"
| "collect_slots f (i # is) =
     (case f i of
        Inl e \<Rightarrow> Inl e
      | Inr None \<Rightarrow> collect_slots f is
      | Inr (Some c) \<Rightarrow> (case collect_slots f is of Inl e \<Rightarrow> Inl e | Inr cs \<Rightarrow> Inr (c # cs)))"

definition service_url_for :: "string \<Rightarrow> nat \<Rightarrow> string" where
  "service_url_for host port = ''http://'' @ host @ '':'' @ show_nat port @ ''/onvif/service''"

definition global_host :: "overrides \<Rightarrow> string option" where
  "global_host ov =
     (case runtime_var ov ''ONVIF_HOST'' of Some v \<Rightarrow> if trim v \<noteq> [] then Some v else None | None \<Rightarrow> None)"

definition global_camera_id :: "overrides \<Rightarrow> string" where
  "global_camera_id ov = unwrap_or (or_else (runtime_var ov ''CAMERA_ID'') (runtime_var ov ''CAM1_CAMERA_ID'')) ''unknown-camera''"

datatype region_load_error = RegionCredentials onvif_error | BadPoints

text \<open>A camera under a prefix, if it has a region.\<close>

definition region_camera ::
    "'f region_env \<Rightarrow> overrides \<Rightarrow> string \<Rightarrow> string option \<Rightarrow> string
       \<Rightarrow> region_load_error + 'f OnvifMotionRegionCameraConfig option" where
  "region_camera env ov pre host camera_id =
     (case (host, runtime_var ov (pre @ ''MOTION_REGION_POINTS'')) of
        (Some host, Some points_raw) \<Rightarrow>
          (case re_points_from_str env points_raw of
             None \<Rightarrow> Inl BadPoints
           | Some points \<Rightarrow>
               (case credentials ov pre of
                  Inl e \<Rightarrow> Inl (RegionCredentials e)
                | Inr (user, pass) \<Rightarrow>
                    Inr (Some \<lparr>rc_camera_id = camera_id, rc_service_url = service_url_for host (onvif_port_of ov (pre @ ''PORT'')),
                      rc_username = user, rc_password = pass,
                      rc_enabled = runtime_bool ov (pre @ ''MOTION_DETECTION_ENABLED'') False, rc_points = points\<rparr>)))
      | _ \<Rightarrow> Inr None)"

definition load_onvif_motion_region_cameras_from_env ::
    "'f region_env \<Rightarrow> overrides \<Rightarrow> region_load_error + 'f OnvifMotionRegionCameraConfig list" where
  "load_onvif_motion_region_cameras_from_env env ov =
     (case collect_slots (\<lambda>i. region_camera env ov (slot_prefix i) (slot_host ov i) (slot_camera_id ov i)) [1, 2, 3, 4] of
        Inl e \<Rightarrow> Inl e
      | Inr cameras \<Rightarrow>
          if cameras \<noteq> [] then Inr cameras
          else (case region_camera env ov ''ONVIF_'' (global_host ov) (global_camera_id ov) of
                  Inl e \<Rightarrow> Inl e | Inr None \<Rightarrow> Inr [] | Inr (Some c) \<Rightarrow> Inr [c]))"

section \<open>Searching the tree\<close>

definition node_local_name :: "string \<Rightarrow> string" where
  "node_local_name name = rev (takeWhile (\<lambda>c. c \<noteq> CHR '':'') (rev name))"

fun collect_descendants_named :: "string \<Rightarrow> xml_node \<Rightarrow> xml_node list" where
  "collect_descendants_named wanted (XElement name attrs cs) =
     (if node_local_name name = wanted then [XElement name attrs cs] else [])
     @ concat (map (collect_descendants_named wanted) cs)"
| "collect_descendants_named wanted (XTextNode t) = []"
| "collect_descendants_named wanted XOtherNode = []"

definition descendants_named :: "xml_node \<Rightarrow> string \<Rightarrow> xml_node list" where
  "descendants_named root wanted = collect_descendants_named wanted root"

definition node_text :: "xml_node list \<Rightarrow> string" where
  "node_text cs = concat (map (\<lambda>n. case n of XTextNode t \<Rightarrow> t | _ \<Rightarrow> []) cs)"

definition is_element_named :: "string \<Rightarrow> xml_node \<Rightarrow> bool" where
  "is_element_named wanted n \<longleftrightarrow>
     (case n of XElement name _ _ \<Rightarrow> node_local_name name = wanted | _ \<Rightarrow> False)"

definition children_of :: "xml_node \<Rightarrow> xml_node list" where
  "children_of n = (case n of XElement _ _ cs \<Rightarrow> cs | _ \<Rightarrow> [])"

definition attributes_of :: "xml_node \<Rightarrow> (string \<times> string) list" where
  "attributes_of n = (case n of XElement _ as _ \<Rightarrow> as | _ \<Rightarrow> [])"

definition first_child_text_by_local_name :: "xml_node \<Rightarrow> string \<Rightarrow> string option" where
  "first_child_text_by_local_name el wanted =
     (case filter (is_element_named wanted) (children_of el) of
        [] \<Rightarrow> None | c # _ \<Rightarrow> Some (trim (node_text (children_of c))))"

fun first_some :: "'a option list \<Rightarrow> 'a option" where
  "first_some [] = None"
| "first_some (x # xs) = (case x of Some _ \<Rightarrow> x | None \<Rightarrow> first_some xs)"

fun descendant_attr_by_local_name :: "string \<Rightarrow> string \<Rightarrow> xml_node \<Rightarrow> string option" where
  "descendant_attr_by_local_name wanted attr (XElement name attrs cs) =
     (case if node_local_name name = wanted then map_of attrs attr else None of
        Some v \<Rightarrow> Some v
      | None \<Rightarrow> first_some (map (descendant_attr_by_local_name wanted attr) cs))"
| "descendant_attr_by_local_name wanted attr (XTextNode t) = None"
| "descendant_attr_by_local_name wanted attr XOtherNode = None"

fun first_descendant_text_by_local_name :: "string \<Rightarrow> xml_node \<Rightarrow> string option" where
  "first_descendant_text_by_local_name wanted (XElement name attrs cs) =
     (if node_local_name name = wanted \<and> trim (node_text cs) \<noteq> [] then Some (trim (node_text cs))
      else first_some (map (first_descendant_text_by_local_name wanted) cs))"
| "first_descendant_text_by_local_name wanted (XTextNode t) = None"
| "first_descendant_text_by_local_name wanted XOtherNode = None"

definition soap_fault_reason :: "soap_env \<Rightarrow> string \<Rightarrow> string option" where
  "soap_fault_reason env xml =
     (case so_parse env xml of
        Inl _ \<Rightarrow> None
      | Inr root \<Rightarrow>
          (case descendants_named root ''Fault'' of
             [] \<Rightarrow> None
           | fault # _ \<Rightarrow>
               (let text = (\<lambda>wanted. case first_descendant_text_by_local_name wanted fault of
                              Some r \<Rightarrow> if trim r \<noteq> [] then Some (trim r) else None | None \<Rightarrow> None) in
                Some (unwrap_or (first_some [text ''Text'', text ''Reason'', text ''Value'']) ''unknown SOAP fault''))))"

definition parse_video_analytics_config_token :: "soap_env \<Rightarrow> string \<Rightarrow> soap_error + string" where
  "parse_video_analytics_config_token env xml =
     (case so_parse env xml of
        Inl e \<Rightarrow> Inl (Anyhow e)
      | Inr root \<Rightarrow>
          (let token = (\<lambda>el. case descendant_attr_by_local_name ''VideoAnalyticsConfiguration'' ''token'' el of
                          Some t \<Rightarrow> if trim t \<noteq> [] then Some t else None | None \<Rightarrow> None) in
           case first_some (map token (descendants_named root ''Profiles'') @ [token root]) of
             Some t \<Rightarrow> Inr t
           | None \<Rightarrow> Inl (Anyhow ''GetProfiles returned no VideoAnalyticsConfiguration token'')))"

section \<open>Services\<close>

definition note_service :: "xml_node \<Rightarrow> string option \<times> string option \<times> MediaFlavor \<Rightarrow> string option \<times> string option \<times> MediaFlavor" where
  "note_service service acc =
     (case (acc, first_child_text_by_local_name service ''Namespace'', first_child_text_by_local_name service ''XAddr'') of
        ((analytics, media, flavor), Some namespace, Some xaddr) \<Rightarrow>
          (let ns = to_lowercase namespace;
               analytics = (if contains ns ''/analytics/wsdl'' then Some xaddr else analytics) in
           if contains ns ''/ver20/media/wsdl'' then (analytics, Some xaddr, Media2)
           else if media = None \<and> contains ns ''/media/wsdl'' then (analytics, Some xaddr, Media1)
           else (analytics, media, flavor))
      | _ \<Rightarrow> acc)"

definition discover_services :: "soap_env \<Rightarrow> string \<Rightarrow> string \<Rightarrow> ServiceEndpoints" where
  "discover_services env xml service_url =
     (let (analytics, media, flavor) =
            (case so_parse env xml of
               Inl _ \<Rightarrow> (None, None, Media1)
             | Inr root \<Rightarrow> fold note_service (descendants_named root ''Service'') (None, None, Media1)) in
      \<lparr>se_analytics_xaddr = unwrap_or analytics service_url, se_media_xaddr = unwrap_or media service_url,
       se_media_flavor = flavor\<rparr>)"

section \<open>Polygons\<close>

function trim_zeros :: "string \<Rightarrow> string" where
  "trim_zeros s = (if CHR ''.'' \<in> set s \<and> ends_with s ''0'' then trim_zeros (butlast s) else s)"
  by pat_completeness auto
termination
  by (relation "measure length") (auto dest: length_pos_if_in_set)

declare trim_zeros.simps [simp del]

definition trim_float :: "'f region_env \<Rightarrow> 'f \<Rightarrow> string" where
  "trim_float env v =
     (let rendered = trim_zeros (re_fixed6 env v) in if ends_with rendered ''.'' then butlast rendered else rendered)"

fun read_points :: "'f region_env \<Rightarrow> xml_node list \<Rightarrow> 'f MotionRegionPoint list option" where
  "read_points env [] = Some []"
| "read_points env (c # cs) =
     (if is_element_named ''Point'' c then
        Option.bind (Option.bind (map_of (attributes_of c) ''x'') (re_parse_f64 env)) (\<lambda>x.
        Option.bind (Option.bind (map_of (attributes_of c) ''y'') (re_parse_f64 env)) (\<lambda>y.
        map_option (Cons \<lparr>mp_x = x, mp_y = y\<rparr>) (read_points env cs)))
      else read_points env cs)"

definition extract_polygon_points :: "'f region_env \<Rightarrow> xml_node \<Rightarrow> 'f MotionRegionPoint list option" where
  "extract_polygon_points env el =
     (case descendants_named el ''Polygon'' of
        [] \<Rightarrow> None
      | polygon # _ \<Rightarrow>
          (case read_points env (children_of polygon) of
             None \<Rightarrow> None | Some points \<Rightarrow> if points = [] then None else Some points))"

definition point_element :: "'f region_env \<Rightarrow> 'f MotionRegionPoint \<Rightarrow> xml_node" where
  "point_element env point =
     XElement ''tt:Point'' [(''x'', trim_float env (mp_x point)), (''y'', trim_float env (mp_y point))] []"

text \<open>\<open>None\<close> is the answer \<open>false\<close>: no polygon, and nothing is changed.\<close>

fun set_polygon_points :: "'f region_env \<Rightarrow> 'f MotionRegionPoint list \<Rightarrow> xml_node \<Rightarrow> xml_node option"
  and set_in_children :: "'f region_env \<Rightarrow> 'f MotionRegionPoint list \<Rightarrow> xml_node list \<Rightarrow> xml_node list option" where
  "set_polygon_points env points (XElement name attrs cs) =
     (if node_local_name name = ''Polygon'' then Some (XElement name attrs (map (point_element env) points))
      else map_option (XElement name attrs) (set_in_children env points cs))"
| "set_polygon_points env points (XTextNode t) = None"
| "set_polygon_points env points XOtherNode = None"
| "set_in_children env points [] = None"
| "set_in_children env points (c # cs) =
     (case set_polygon_points env points c of
        Some c' \<Rightarrow> Some (c' # cs)
      | None \<Rightarrow> map_option (Cons c) (set_in_children env points cs))"

section \<open>Targets\<close>

definition is_region_target :: "'f region_env \<Rightarrow> xml_node \<Rightarrow> bool" where
  "is_region_target env child \<longleftrightarrow>
     (case map_of (attributes_of child) ''Type'' of
        None \<Rightarrow> False
      | Some t \<Rightarrow> contains (to_lowercase t) ''motionregion'' \<and> extract_polygon_points env child \<noteq> None)"

definition target_of :: "string \<Rightarrow> MotionRegionTargetKind \<Rightarrow> xml_node \<Rightarrow> MotionRegionTarget" where
  "target_of config_token kind child =
     \<lparr>mt_config_token = config_token, mt_kind = kind, mt_fragment = child,
      mt_target_name = map_of (attributes_of child) ''Name'', mt_target_type = map_of (attributes_of child) ''Type''\<rparr>"

definition find_motion_region_rule_target ::
    "'f region_env \<Rightarrow> string \<Rightarrow> string \<Rightarrow> soap_error + MotionRegionTarget option" where
  "find_motion_region_rule_target env xml config_token =
     (case so_parse (re_soap env) xml of
        Inl e \<Rightarrow> Inl (Anyhow e)
      | Inr root \<Rightarrow>
          (case filter (is_region_target env) (descendants_named root ''Rule'') of
             child # _ \<Rightarrow> Inr (Some (target_of config_token RuleTarget child))
           | [] \<Rightarrow>
               (case filter (is_region_target env) (descendants_named root ''AnalyticsModule'') of
                  child # _ \<Rightarrow> Inr (Some (target_of config_token AnalyticsModuleTarget child))
                | [] \<Rightarrow> Inr None)))"

definition modify_tag :: "MotionRegionTargetKind \<Rightarrow> string" where
  "modify_tag kind = (case kind of RuleTarget \<Rightarrow> ''ModifyRules'' | AnalyticsModuleTarget \<Rightarrow> ''ModifyAnalyticsModules'')"

definition build_modify_motion_region_body ::
    "'f region_env \<Rightarrow> MotionRegionTarget \<Rightarrow> 'f MotionRegionPoint list \<Rightarrow> soap_error + string" where
  "build_modify_motion_region_body env target points =
     (case set_polygon_points env points (mt_fragment target) of
        None \<Rightarrow> Inl (Anyhow ''Motion region polygon not found in ONVIF target'')
      | Some fragment \<Rightarrow>
          (case re_write env fragment of
             Inl e \<Rightarrow> Inl (Anyhow e)
           | Inr fragment_xml \<Rightarrow>
               Inr (''<tan:'' @ modify_tag (mt_kind target) @ ''><tan:ConfigurationToken>'' @ xml_escape (mt_config_token target)
                 @ ''</tan:ConfigurationToken>'' @ fragment_xml @ ''</tan:'' @ modify_tag (mt_kind target) @ ''>'')))"

section \<open>The exchange with the camera\<close>

definition region_envelope :: "string \<Rightarrow> string \<Rightarrow> string \<Rightarrow> string \<Rightarrow> string" where
  "region_envelope to action security body =
     join_lines
       (envelope_open (soap_namespaces @ [(''tds'', ''http://www.onvif.org/ver10/device/wsdl''),
          (''trt'', ''http://www.onvif.org/ver10/media/wsdl''), (''tr2'', ''http://www.onvif.org/ver20/media/wsdl''),
          (''tan'', ''http://www.onvif.org/ver20/analytics/wsdl''), (''tt'', ''http://www.onvif.org/ver10/schema'')]) action to
        @ [''    '' @ security, ''  </SOAP-ENV:Header>'', ''  <SOAP-ENV:Body>'' @ body @ ''</SOAP-ENV:Body>'',
           ''</SOAP-ENV:Envelope>''])"

text \<open>A body that cannot be read counts as empty, and a fault is an error whatever the status.\<close>

definition soap_call_with ::
    "soap_env \<Rightarrow> (string \<Rightarrow> string option) \<Rightarrow> (string \<Rightarrow> string \<Rightarrow> string \<Rightarrow> string \<Rightarrow> string)
       \<Rightarrow> string \<Rightarrow> string \<Rightarrow> string \<Rightarrow> string \<Rightarrow> string \<Rightarrow> string soap" where
  "soap_call_with env fault envelope url username password action body =
     with_security env username password (\<lambda>security.
     bindS (send env url action (envelope url action security body)) (\<lambda>(status, text).
       let text = (case text of Inr t \<Rightarrow> t | Inl _ \<Rightarrow> []) in
       if \<not> is_success status then failS (http_error env status text)
       else (case fault text of
               Some reason \<Rightarrow> failS (Anyhow (''SOAP fault: '' @ reason))
             | None \<Rightarrow> returnS text)))"

definition region_soap_call ::
    "soap_env \<Rightarrow> string \<Rightarrow> string \<Rightarrow> string \<Rightarrow> string \<Rightarrow> string \<Rightarrow> string soap" where
  "region_soap_call env = soap_call_with env (soap_fault_reason env) region_envelope"

definition DEVICE_GET_SERVICES_ACTION :: string where
  "DEVICE_GET_SERVICES_ACTION = ''http://www.onvif.org/ver10/device/wsdl/GetServices''"

definition get_services_body :: string where
  "get_services_body = ''<tds:GetServices><tds:IncludeCapability>true</tds:IncludeCapability></tds:GetServices>''"

definition fetch_video_analytics_config_token ::
    "soap_env \<Rightarrow> ServiceEndpoints \<Rightarrow> string \<Rightarrow> string \<Rightarrow> string soap" where
  "fetch_video_analytics_config_token env endpoints username password =
     (let (action, body) =
            (case se_media_flavor endpoints of
               Media1 \<Rightarrow> (''http://www.onvif.org/ver10/media/wsdl/GetProfiles'', ''<trt:GetProfiles/>'')
             | Media2 \<Rightarrow> (''http://www.onvif.org/ver20/media/wsdl/GetProfiles'', ''<tr2:GetProfiles/>'')) in
      bindS (region_soap_call env (se_media_xaddr endpoints) username password action body) (\<lambda>xml.
        case parse_video_analytics_config_token env xml of Inl e \<Rightarrow> failS e | Inr t \<Rightarrow> returnS t))"

definition get_rules :: "soap_env \<Rightarrow> string \<Rightarrow> string \<Rightarrow> string \<Rightarrow> string \<Rightarrow> string soap" where
  "get_rules env analytics_xaddr username password config_token =
     region_soap_call env analytics_xaddr username password ''http://www.onvif.org/ver20/analytics/wsdl/GetRules''
       (''<tan:GetRules><tan:ConfigurationToken>'' @ xml_escape config_token @ ''</tan:ConfigurationToken></tan:GetRules>'')"

definition get_analytics_modules :: "soap_env \<Rightarrow> string \<Rightarrow> string \<Rightarrow> string \<Rightarrow> string \<Rightarrow> string soap" where
  "get_analytics_modules env analytics_xaddr username password config_token =
     region_soap_call env analytics_xaddr username password ''http://www.onvif.org/ver20/analytics/wsdl/GetAnalyticsModules''
       (''<tan:GetAnalyticsModules><tan:ConfigurationToken>'' @ xml_escape config_token
        @ ''</tan:ConfigurationToken></tan:GetAnalyticsModules>'')"

definition modify_action :: "MotionRegionTargetKind \<Rightarrow> string" where
  "modify_action kind = ''http://www.onvif.org/ver20/analytics/wsdl/'' @ modify_tag kind"

definition liftS :: "soap_error + 'a \<Rightarrow> 'a soap" where
  "liftS r = (case r of Inl e \<Rightarrow> failS e | Inr x \<Rightarrow> returnS x)"

text \<open>The rule is preferred; the analytics modules are asked only without one.\<close>

definition find_target ::
    "'f region_env \<Rightarrow> string \<Rightarrow> 'f OnvifMotionRegionCameraConfig \<Rightarrow> string \<Rightarrow> MotionRegionTarget soap" where
  "find_target env analytics_xaddr camera config_token =
     bindS (get_rules (re_soap env) analytics_xaddr (rc_username camera) (rc_password camera) config_token) (\<lambda>rules_xml.
     bindS (liftS (find_motion_region_rule_target env rules_xml config_token)) (\<lambda>found.
       case found of
         Some target \<Rightarrow> returnS target
       | None \<Rightarrow>
           bindS (get_analytics_modules (re_soap env) analytics_xaddr (rc_username camera) (rc_password camera) config_token) (\<lambda>modules_xml.
           bindS (liftS (find_motion_region_rule_target env modules_xml config_token)) (\<lambda>found.
             case found of
               Some target \<Rightarrow> returnS target
             | None \<Rightarrow> failS (Anyhow ''No ONVIF motion region polygon target found'')))))"

definition apply_motion_region :: "'f region_env \<Rightarrow> 'f OnvifMotionRegionCameraConfig \<Rightarrow> unit soap" where
  "apply_motion_region env camera =
     bindS (region_soap_call (re_soap env) (rc_service_url camera) (rc_username camera) (rc_password camera)
              DEVICE_GET_SERVICES_ACTION get_services_body) (\<lambda>services_xml.
     let endpoints = discover_services (re_soap env) services_xml (rc_service_url camera) in
     bindS (fetch_video_analytics_config_token (re_soap env) endpoints (rc_username camera) (rc_password camera)) (\<lambda>config_token.
     bindS (find_target env (se_analytics_xaddr endpoints) camera config_token) (\<lambda>target.
     bindS (liftS (build_modify_motion_region_body env target (rc_points camera))) (\<lambda>body.
     bindS (region_soap_call (re_soap env) (se_analytics_xaddr endpoints) (rc_username camera) (rc_password camera)
              (modify_action (mt_kind target)) body) (\<lambda>_. returnS ())))))"

section \<open>All cameras\<close>

text \<open>\<open>chars().take(n)\<close>: whole characters, on the UTF-8 bytes.\<close>

fun take_chars :: "nat \<Rightarrow> string \<Rightarrow> string" where
  "take_chars n [] = []"
| "take_chars n (c # s) =
     (if is_cont (of_nat (of_char c)) then c # take_chars n s
      else if n = 0 then [] else c # take_chars (n - 1) s)"

definition region_outcome :: "'f OnvifMotionRegionCameraConfig \<Rightarrow> soap_error + unit \<Rightarrow> OnvifMotionRegionSyncOutcome" where
  "region_outcome camera res =
     (case res of
        Inr _ \<Rightarrow> \<lparr>ro_camera_id = rc_camera_id camera, ro_status = ''success'', ro_error = None\<rparr>
      | Inl e \<Rightarrow> \<lparr>ro_camera_id = rc_camera_id camera, ro_status = ''failed'', ro_error = Some (take_chars 500 (error_text e))\<rparr>)"

fun sync_cameras ::
    "'f region_env \<Rightarrow> 'f OnvifMotionRegionCameraConfig list \<Rightarrow> soap_world \<Rightarrow> OnvifMotionRegionSyncOutcome list \<times> soap_world" where
  "sync_cameras env [] w = ([], w)"
| "sync_cameras env (camera # cameras) w =
     (let (res, w) = apply_motion_region env camera w;
          (outcomes, w) = sync_cameras env cameras w in
      (region_outcome camera res # outcomes, w))"

definition run_onvif_motion_region_sync_once ::
    "'f region_env \<Rightarrow> overrides \<Rightarrow> soap_world \<Rightarrow> OnvifMotionRegionSyncOutcome list \<times> soap_world" where
  "run_onvif_motion_region_sync_once env ov w =
     (case load_onvif_motion_region_cameras_from_env env ov of
        Inl _ \<Rightarrow> ([], w)
      | Inr cameras \<Rightarrow> sync_cameras env cameras w)"

section \<open>Setting and reading points\<close>

lemma descendants_concat:
  "concat (map (collect_descendants_named wanted) (cs @ ds))
     = concat (map (collect_descendants_named wanted) cs) @ concat (map (collect_descendants_named wanted) ds)"
  by simp

lemma set_polygon_none:
  "set_polygon_points env points n = None \<longleftrightarrow> collect_descendants_named ''Polygon'' n = []"
  "set_in_children env points cs = None \<longleftrightarrow> concat (map (collect_descendants_named ''Polygon'') cs) = []"
  by (induction n and cs rule: set_polygon_points_set_in_children.induct) (auto split: option.splits)

text \<open>The new points go into the first polygon, the one that is read.\<close>

lemma set_polygon_first:
  "set_polygon_points env points n = Some n' \<Longrightarrow>
     \<exists>name attrs rest. collect_descendants_named ''Polygon'' n' = XElement name attrs (map (point_element env) points) # rest"
  "set_in_children env points cs = Some cs' \<Longrightarrow>
     \<exists>name attrs rest. concat (map (collect_descendants_named ''Polygon'') cs')
       = XElement name attrs (map (point_element env) points) # rest"
proof (induction n and cs arbitrary: n' and cs' rule: set_polygon_points_set_in_children.induct)
  case (1 env points name attrs cs)
  then show ?case by (cases "node_local_name name = ''Polygon''") fastforce+
next
  case (5 env points c cs)
  show ?case
  proof (cases "set_polygon_points env points c")
    case (Some c')
    with 5 show ?thesis by fastforce
  next
    case None
    with 5 show ?thesis using set_polygon_none(1) [of env points c] by fastforce
  qed
qed simp_all

lemma point_element_named: "is_element_named ''Point'' (point_element env p)"
proof -
  have "node_local_name ''tt:Point'' = ''Point''" by code_simp
  then show ?thesis by (simp add: is_element_named_def point_element_def)
qed

lemma read_new_points:
  assumes "\<forall>p \<in> set points. re_parse_f64 env (trim_float env (mp_x p)) = Some (rnd (mp_x p))
      \<and> re_parse_f64 env (trim_float env (mp_y p)) = Some (rnd (mp_y p))"
  shows "read_points env (map (point_element env) points) = Some (map (\<lambda>p. \<lparr>mp_x = rnd (mp_x p), mp_y = rnd (mp_y p)\<rparr>) points)"
  using assms by (induction points) (simp_all add: point_element_named, simp add: point_element_def attributes_of_def)

text \<open>Reading and replacing the node at a path.\<close>

fun node_at :: "xml_node \<Rightarrow> nat list \<Rightarrow> xml_node option" where
  "node_at n [] = Some n"
| "node_at n (i # path) = (if i < length (children_of n) then node_at (children_of n ! i) path else None)"

fun replace_at :: "xml_node \<Rightarrow> nat list \<Rightarrow> xml_node \<Rightarrow> xml_node" where
  "replace_at n [] new = new"
| "replace_at (XElement name attrs cs) (i # path) new = XElement name attrs (cs[i := replace_at (cs ! i) path new])"
| "replace_at n (i # path) new = n"

lemma set_polygon_at:
  "set_polygon_points env points n = Some n' \<Longrightarrow>
     \<exists>path name attrs cs. node_at n path = Some (XElement name attrs cs) \<and> node_local_name name = ''Polygon''
       \<and> n' = replace_at n path (XElement name attrs (map (point_element env) points))"
  "set_in_children env points ns = Some ns' \<Longrightarrow>
     \<exists>i path name attrs cs. i < length ns \<and> node_at (ns ! i) path = Some (XElement name attrs cs)
       \<and> node_local_name name = ''Polygon''
       \<and> ns' = ns[i := replace_at (ns ! i) path (XElement name attrs (map (point_element env) points))]"
proof (induction n and ns arbitrary: n' and ns' rule: set_polygon_points_set_in_children.induct)
  case (1 env points name attrs cs)
  show ?case
  proof (cases "node_local_name name = ''Polygon''")
    case True
    with 1 show ?thesis by (intro exI [of _ "[]"] exI [of _ name] exI [of _ attrs] exI [of _ cs]) auto
  next
    case False
    then obtain cs' where cs': "set_in_children env points cs = Some cs'" "n' = XElement name attrs cs'"
      using "1.prems" by auto
    from "1.IH" [OF False cs'(1)] obtain i path nm as ds where
      "i < length cs" "node_at (cs ! i) path = Some (XElement nm as ds)" "node_local_name nm = ''Polygon''"
      "cs' = cs[i := replace_at (cs ! i) path (XElement nm as (map (point_element env) points))]" by blast
    with cs'(2) show ?thesis
      by (intro exI [of _ "i # path"] exI [of _ nm] exI [of _ as] exI [of _ ds]) (simp add: children_of_def)
  qed
next
  case (5 env points c cs)
  show ?case
  proof (cases "set_polygon_points env points c")
    case (Some c')
    with "5.IH"(1) "5.prems" show ?thesis by (intro exI [of _ 0]) auto
  next
    case None
    then obtain cs' where cs': "set_in_children env points cs = Some cs'" "ns' = c # cs'" using "5.prems" by auto
    from "5.IH"(2) [OF None cs'(1)] obtain i path nm as ds where
      "i < length cs" "node_at (cs ! i) path = Some (XElement nm as ds)" "node_local_name nm = ''Polygon''"
      "cs' = cs[i := replace_at (cs ! i) path (XElement nm as (map (point_element env) points))]" by blast
    with cs'(2) show ?thesis by (intro exI [of _ "Suc i"]) auto
  qed
qed simp_all

lemma found_target_region:
  assumes "find_motion_region_rule_target env xml tok = Inr (Some target)"
  shows "is_region_target env (mt_fragment target)" "mt_config_token target = tok"
proof -
  obtain root where "so_parse (re_soap env) xml = Inr root"
    using assms by (auto simp: find_motion_region_rule_target_def split: sum.splits)
  note p = this
  have mem: "filter P xs = c # cs \<Longrightarrow> P c" for P xs and c :: xml_node and cs
    by (auto simp: filter_eq_Cons_iff)
  obtain c k where "target = target_of tok k c" "is_region_target env c"
    using assms p by (auto simp: find_motion_region_rule_target_def dest: mem split: list.splits)
  then show "is_region_target env (mt_fragment target)" "mt_config_token target = tok"
    by (auto simp: target_of_def)
qed


section \<open>A sample camera with a region\<close>

definition sample_rule :: xml_node where
  "sample_rule =
     XElement ''Rule'' [(''Name'', ''r''), (''Type'', ''tt:MotionRegion'')]
       [XElement ''Polygon'' [] [XElement ''Point'' [(''x'', ''1''), (''y'', ''2'')] []]]"

definition sample_document :: xml_node where
  "sample_document =
     XElement ''Envelope'' []
       [XElement ''Profiles'' [] [XElement ''VideoAnalyticsConfiguration'' [(''token'', ''t'')] []], sample_rule]"

definition sample_region_env :: "nat region_env" where
  "sample_region_env =
     \<lparr>re_soap = sample_soap\<lparr>so_answer := (\<lambda>_. Answered 200 (Inr ''doc'')), so_parse := (\<lambda>_. Inr sample_document)\<rparr>,
      re_fixed6 = show_nat, re_parse_f64 = parse_uint 100, re_points_from_str = (\<lambda>_. Some []), re_write = (\<lambda>_. Inr ''xml'')\<rparr>"

lemma sample_node_names [simp]:
  "node_local_name ''Envelope'' = ''Envelope''" "node_local_name ''Profiles'' = ''Profiles''"
  "node_local_name ''VideoAnalyticsConfiguration'' = ''VideoAnalyticsConfiguration''" "node_local_name ''Rule'' = ''Rule''"
  "node_local_name ''Polygon'' = ''Polygon''" "node_local_name ''Point'' = ''Point''"
  by code_simp+

lemma sample_target:
  "find_motion_region_rule_target sample_region_env xml tok = Inr (Some (target_of tok RuleTarget sample_rule))"
proof -
  have "parse_uint 100 ''1'' = Some 1" "parse_uint 100 ''2'' = Some 2" "contains (to_lowercase ''tt:MotionRegion'') ''motionregion''"
    by code_simp+
  then have "is_region_target sample_region_env sample_rule"
    by (simp add: is_region_target_def sample_rule_def attributes_of_def extract_polygon_points_def descendants_named_def
        children_of_def is_element_named_def sample_region_env_def)
  then show ?thesis
    by (simp add: find_motion_region_rule_target_def sample_region_env_def descendants_named_def sample_document_def)
       (simp add: sample_rule_def)
qed

lemma sample_float: "n < 10 \<Longrightarrow> re_parse_f64 sample_region_env (trim_float sample_region_env n) = Some n"
proof -
  assume n: "n < 10"
  have d: "CHR ''.'' \<notin> set (show_nat n)" using show_nat_digits [of "CHR ''.''" n] by auto
  then have "ends_with (show_nat n) ''.'' = False"
    by (auto simp: ends_with_def dest!: arg_cong [of _ _ set] in_set_dropD)
  with n d show ?thesis
    by (simp add: trim_float_def sample_region_env_def trim_zeros.simps [of "show_nat n"] parse_show_nat)
qed


section \<open>What a success means\<close>

lemma bindS_Inr: "bindS a f w = (Inr y, w') \<longleftrightarrow> (\<exists>x w1. a w = (Inr x, w1) \<and> f x w1 = (Inr y, w'))"
  by (auto simp: bindS_def split: prod.splits sum.splits)

lemma liftS_Inr [simp]: "liftS r w = (Inr x, w') \<longleftrightarrow> r = Inr x \<and> w' = w"
  by (auto simp: liftS_def split: sum.splits)

text \<open>The text was the body of an answer with a success status to the last request.\<close>

definition answered_with :: "soap_env \<Rightarrow> soap_request list \<Rightarrow> string \<Rightarrow> bool" where
  "answered_with env sent text \<longleftrightarrow>
     (\<exists>status body. so_answer env sent = Answered status body \<and> is_success status
        \<and> text = (case body of Inr t \<Rightarrow> t | Inl _ \<Rightarrow> []))"

lemma soap_call_Inr:
  assumes "soap_call_with env fault envelope url user pass action body w = (Inr text, w')"
  shows "sw_sent w' = sw_sent w @ [\<lparr>sq_url = url, sq_headers = soap_headers action,
      sq_body = envelope url action (wsse_header env (length (sw_sent w)) user pass) body\<rparr>]"
    and "answered_with env (sw_sent w') text" "fault text = None"
proof -
  obtain status t w1 where s: "send env url action (envelope url action (wsse_header env (length (sw_sent w)) user pass) body) w
      = (Inr (status, t), w1)" "is_success status" "text = (case t of Inr t \<Rightarrow> t | Inl _ \<Rightarrow> [])" "fault text = None" "w' = w1"
    using assms by (auto simp: soap_call_with_def with_security_def bindS_Inr Let_def split: if_splits option.splits)
  then show "sw_sent w' = sw_sent w @ [\<lparr>sq_url = url, sq_headers = soap_headers action,
      sq_body = envelope url action (wsse_header env (length (sw_sent w)) user pass) body\<rparr>]"
    "answered_with env (sw_sent w') text" "fault text = None"
    by (auto simp: send_def Let_def answered_with_def split: soap_answer.splits)
qed

lemma region_call_Inr:
  assumes "region_soap_call env url user pass action body w = (Inr text, w')"
  shows "sw_sent w' = sw_sent w @ [\<lparr>sq_url = url, sq_headers = soap_headers action,
      sq_body = region_envelope url action (wsse_header env (length (sw_sent w)) user pass) body\<rparr>]"
    and "answered_with env (sw_sent w') text" "soap_fault_reason env text = None"
  using assms unfolding region_soap_call_def by (rule soap_call_Inr)+

lemma find_target_Inr:
  assumes "find_target env url camera tok w = (Inr target, w')"
  shows "\<exists>xml sent. prefix sent (sw_sent w') \<and> answered_with (re_soap env) sent xml
    \<and> find_motion_region_rule_target env xml tok = Inr (Some target)"
proof -
  obtain rules w1 found where r: "get_rules (re_soap env) url (rc_username camera) (rc_password camera) tok w = (Inr rules, w1)"
      "find_motion_region_rule_target env rules tok = Inr found"
      "(case found of Some target \<Rightarrow> returnS target
        | None \<Rightarrow> bindS (get_analytics_modules (re_soap env) url (rc_username camera) (rc_password camera) tok) (\<lambda>modules_xml.
           bindS (liftS (find_motion_region_rule_target env modules_xml tok)) (\<lambda>found.
             case found of Some target \<Rightarrow> returnS target
             | None \<Rightarrow> failS (Anyhow ''No ONVIF motion region polygon target found'')))) w1 = (Inr target, w')"
    using assms by (auto simp: find_target_def bindS_Inr)
  note a1 = region_call_Inr [OF r(1) [unfolded get_rules_def]]
  show ?thesis
  proof (cases found)
    case (Some t)
    with r a1 show ?thesis by auto
  next
    case None
    then obtain modules where m: "get_analytics_modules (re_soap env) url (rc_username camera) (rc_password camera) tok w1
        = (Inr modules, w')" "find_motion_region_rule_target env modules tok = Inr (Some target)"
      using r(3) by (auto simp: bindS_Inr split: option.splits)
    with region_call_Inr [OF m(1) [unfolded get_analytics_modules_def]] show ?thesis by blast
  qed
qed

text \<open>
  C20. A region counts as applied only when the camera has confirmed it: the last request carries,
  under the action for the kind of target, the element the camera itself returned with the points
  of the configuration in its polygon, and the camera answered it with a success status and no
  SOAP fault.
\<close>

theorem region_applied:
  assumes "apply_motion_region env camera w = (Inr (), w')"
  shows "\<exists>target fragment fragment_xml xml tok sent url n text.
    prefix sent (sw_sent w') \<and> answered_with (re_soap env) sent xml
    \<and> find_motion_region_rule_target env xml tok = Inr (Some target)
    \<and> set_polygon_points env (rc_points camera) (mt_fragment target) = Some fragment \<and> re_write env fragment = Inr fragment_xml
    \<and> last (sw_sent w') = \<lparr>sq_url = url, sq_headers = soap_headers (modify_action (mt_kind target)),
        sq_body = region_envelope url (modify_action (mt_kind target))
          (wsse_header (re_soap env) n (rc_username camera) (rc_password camera))
          (''<tan:'' @ modify_tag (mt_kind target) @ ''><tan:ConfigurationToken>'' @ xml_escape tok
           @ ''</tan:ConfigurationToken>'' @ fragment_xml @ ''</tan:'' @ modify_tag (mt_kind target) @ ''>'')\<rparr>
    \<and> answered_with (re_soap env) (sw_sent w') text \<and> soap_fault_reason (re_soap env) text = None"
proof -
  obtain url tok w2 target w3 body reply where
    t: "find_target env url camera tok w2 = (Inr target, w3)" and
    b: "build_modify_motion_region_body env target (rc_points camera) = Inr body" and
    c: "region_soap_call (re_soap env) url (rc_username camera) (rc_password camera) (modify_action (mt_kind target)) body w3 = (Inr reply, w')"
    using assms by (auto simp: apply_motion_region_def Let_def bindS_Inr)
  note c' = region_call_Inr [OF c]
  obtain xml sent where x: "prefix sent (sw_sent w3)" "answered_with (re_soap env) sent xml"
      "find_motion_region_rule_target env xml tok = Inr (Some target)"
    using find_target_Inr [OF t] by blast
  obtain fragment fx where f: "set_polygon_points env (rc_points camera) (mt_fragment target) = Some fragment" "re_write env fragment = Inr fx"
      "body = ''<tan:'' @ modify_tag (mt_kind target) @ ''><tan:ConfigurationToken>'' @ xml_escape tok
           @ ''</tan:ConfigurationToken>'' @ fx @ ''</tan:'' @ modify_tag (mt_kind target) @ ''>''"
    using b found_target_region(2) [OF x(3)]
    by (auto simp: build_modify_motion_region_body_def split: option.splits sum.splits)
  have "prefix sent (sw_sent w')" using x(1) c'(1) by (auto simp: prefix_def)
  with x(2,3) f c' show ?thesis by (intro exI conjI) (assumption | simp)+
qed

definition sample_region_camera :: "nat OnvifMotionRegionCameraConfig" where
  "sample_region_camera =
     \<lparr>rc_camera_id = ''front'', rc_service_url = ''http://c/s'', rc_username = ''u'', rc_password = ''p'', rc_enabled = True,
      rc_points = [\<lparr>mp_x = 3, mp_y = 4\<rparr>]\<rparr>"

lemma sample_region_call:
  "region_soap_call (re_soap sample_region_env) url user pass action body w
     = (Inr ''doc'', w\<lparr>sw_sent := sw_sent w @ [\<lparr>sq_url = url, sq_headers = soap_headers action,
         sq_body = region_envelope url action (wsse_header (re_soap sample_region_env) (length (sw_sent w)) user pass) body\<rparr>]\<rparr>)"
proof -
  have "soap_fault_reason (re_soap sample_region_env) ''doc'' = None"
    by (simp add: soap_fault_reason_def sample_region_env_def sample_document_def sample_rule_def descendants_named_def)
  then show ?thesis
    by (simp add: region_soap_call_def soap_call_with_def with_security_def bindS_def send_def Let_def is_success_def)
       (simp add: sample_region_env_def is_success_def)
qed

theorem region_applied_witness:
  "\<exists>w'. apply_motion_region sample_region_env sample_region_camera \<lparr>sw_sent = [], sw_slept = 0\<rparr> = (Inr (), w')
     \<and> (\<exists>url. sq_url (last (sw_sent w')) = url \<and> sq_headers (last (sw_sent w')) = soap_headers (modify_action RuleTarget))"
proof -
  have tok: "parse_video_analytics_config_token (re_soap sample_region_env) ''doc'' = Inr ''t''"
    by (simp add: parse_video_analytics_config_token_def sample_region_env_def sample_document_def sample_rule_def
        descendants_named_def trim_def trim_start_def trim_end_def is_ws_def)
  obtain fragment where "set_polygon_points sample_region_env (rc_points sample_region_camera) sample_rule = Some fragment"
    by (simp add: sample_rule_def)
  then have body: "\<exists>b. build_modify_motion_region_body sample_region_env (target_of ''t'' RuleTarget sample_rule)
      (rc_points sample_region_camera) = Inr b"
    by (simp add: build_modify_motion_region_body_def target_of_def sample_region_env_def)
  let ?w = "snd (apply_motion_region sample_region_env sample_region_camera \<lparr>sw_sent = [], sw_slept = 0\<rparr>)"
  have run: "apply_motion_region sample_region_env sample_region_camera \<lparr>sw_sent = [], sw_slept = 0\<rparr> = (Inr (), ?w)"
    using body
    by (auto simp: apply_motion_region_def find_target_def get_rules_def fetch_video_analytics_config_token_def bindS_def
        sample_region_call tok sample_target liftS_def Let_def split: MediaFlavor.splits)
  show ?thesis
  proof (intro exI conjI)
    show "sq_headers (last (sw_sent ?w)) = soap_headers (modify_action RuleTarget)"
      using region_applied [OF run] sample_target by (auto simp: target_of_def)
  qed (use run in simp_all)
qed

lemma soap_call_contacts:
  "sw_sent (snd (soap_call_with env fault envelope url user pass action body w)) = sw_sent w @ [\<lparr>sq_url = url,
     sq_headers = soap_headers action, sq_body = envelope url action (wsse_header env (length (sw_sent w)) user pass) body\<rparr>]"
  by (auto simp: soap_call_with_def with_security_def bindS_def send_def Let_def split: soap_answer.splits option.splits)

lemma bindS_keeps:
  assumes "\<And>x w. prefix (sw_sent w) (sw_sent (snd (f x w)))" "prefix ys (sw_sent (snd (a w)))"
  shows "prefix ys (sw_sent (snd (bindS a f w)))"
  using assms by (auto simp: bindS_def split: prod.splits sum.splits intro: prefix_order.trans)

lemma region_call_keeps [simp]: "prefix (sw_sent w) (sw_sent (snd (region_soap_call env url user pass action body w)))"
  by (simp add: region_soap_call_def soap_call_contacts)

lemma liftS_keeps [simp]: "sw_sent (snd (liftS r w)) = sw_sent w"
  by (simp add: liftS_def split: sum.splits)

lemma find_target_keeps: "prefix (sw_sent w) (sw_sent (snd (find_target env url camera tok w)))"
  unfolding find_target_def get_rules_def get_analytics_modules_def
  by (intro bindS_keeps region_call_keeps) (auto split: option.splits intro!: bindS_keeps)

lemma apply_contacts:
  "\<exists>r. prefix (sw_sent w @ [r]) (sw_sent (snd (apply_motion_region env camera w))) \<and> sq_url r = rc_service_url camera"
  unfolding apply_motion_region_def Let_def fetch_video_analytics_config_token_def
  by (intro exI conjI, rule bindS_keeps)
     (auto simp: region_soap_call_def soap_call_contacts intro!: bindS_keeps find_target_keeps
       split: prod.splits sum.splits)

lemma take_chars_subset: "length (filter (\<lambda>c. \<not> is_cont (of_nat (of_char c))) (take_chars n s)) \<le> n"
  by (induction n s rule: take_chars.induct) auto

lemma sync_keeps: "prefix (sw_sent w) (sw_sent (snd (sync_cameras env cams w)))"
proof (induction cams arbitrary: w)
  case (Cons c cams)
  obtain r where "prefix (sw_sent w @ [r]) (sw_sent (snd (apply_motion_region env c w)))"
    using apply_contacts [of w env c] by blast
  then have "prefix (sw_sent w) (sw_sent (snd (apply_motion_region env c w)))"
    by (meson append_prefixD)
  then show ?case
    using Cons [of "snd (apply_motion_region env c w)"]
    by (auto simp: Let_def split: prod.splits intro: prefix_order.trans)
qed simp

lemma sync_cameras_Cons:
  "sync_cameras env (c # cams) w =
     (region_outcome c (fst (apply_motion_region env c w)) # fst (sync_cameras env cams (snd (apply_motion_region env c w))),
      snd (sync_cameras env cams (snd (apply_motion_region env c w))))"
  by (simp add: Let_def split: prod.splits)

lemma sync_contacts:
  "c \<in> set cams \<Longrightarrow> \<exists>r \<in> set (sw_sent (snd (sync_cameras env cams w))). sq_url r = rc_service_url c"
proof (induction cams arbitrary: w)
  case (Cons d cams)
  show ?case
  proof (cases "c = d")
    case True
    obtain r where r: "prefix (sw_sent w @ [r]) (sw_sent (snd (apply_motion_region env d w)))" "sq_url r = rc_service_url d"
      using apply_contacts [of w env d] by blast
    then have "r \<in> set (sw_sent (snd (sync_cameras env (d # cams) w)))"
      using set_mono_prefix [OF r(1)] set_mono_prefix [OF sync_keeps [of "snd (apply_motion_region env d w)" env cams]]
      by (auto simp: sync_cameras_Cons simp del: sync_cameras.simps)
    with r True show ?thesis by blast
  next
    case False
    with Cons show ?thesis by (simp add: sync_cameras_Cons del: sync_cameras.simps)
  qed
qed simp

definition char_count :: "string \<Rightarrow> nat" where
  "char_count s = length (filter (\<lambda>c. \<not> is_cont (of_nat (of_char c))) s)"

lemma region_outcome_fields:
  "ro_camera_id (region_outcome c res) = rc_camera_id c"
  "ro_error (region_outcome c res) = None \<longleftrightarrow> ro_status (region_outcome c res) = ''success''"
  "ro_error (region_outcome c res) = Some e \<Longrightarrow> char_count e \<le> 500"
  using take_chars_subset [of 500] by (auto simp: region_outcome_def char_count_def split: sum.splits)

lemma sync_outcomes:
  "map ro_camera_id (fst (sync_cameras env cams w)) = map rc_camera_id cams
   \<and> (\<forall>out \<in> set (fst (sync_cameras env cams w)). (ro_error out = None \<longleftrightarrow> ro_status out = ''success'')
        \<and> (\<forall>e. ro_error out = Some e \<longrightarrow> char_count e \<le> 500))"
proof (induction cams arbitrary: w)
  case (Cons c cams)
  then show ?case
    by (auto simp: sync_cameras_Cons region_outcome_fields simp del: sync_cameras.simps)
qed simp

text \<open>
  One camera's failure does not touch the others: a synchronisation asks every camera's service,
  gives one outcome for each camera in the order of the configuration, with an error text exactly
  for the failed ones, and that text is at most 500 characters long.
\<close>

theorem region_sync_all_cameras:
  assumes "load_onvif_motion_region_cameras_from_env env ov = Inr cameras"
    and "run_onvif_motion_region_sync_once env ov w = (outcomes, w')"
  shows "map ro_camera_id outcomes = map rc_camera_id cameras
    \<and> (\<forall>c \<in> set cameras. \<exists>r \<in> set (sw_sent w'). sq_url r = rc_service_url c)
    \<and> (\<forall>out \<in> set outcomes. (ro_error out = None \<longleftrightarrow> ro_status out = ''success'')
         \<and> (\<forall>e. ro_error out = Some e \<longrightarrow> char_count e \<le> 500))"
proof -
  have "sync_cameras env cameras w = (outcomes, w')"
    using assms by (simp add: run_onvif_motion_region_sync_once_def)
  then show ?thesis
    using sync_outcomes [of env cameras w] sync_contacts [of _ cameras env w] by auto
qed

theorem region_sync_all_cameras_witness:
  "\<exists>outcomes w'. run_onvif_motion_region_sync_once sample_region_env
       [(''ONVIF_HOST'', ''c''), (''ONVIF_MOTION_REGION_POINTS'', ''[]''), (''ONVIF_USER'', ''u''), (''ONVIF_PASS'', ''p'')]
       \<lparr>sw_sent = [], sw_slept = 0\<rparr> = (outcomes, w')
     \<and> map ro_camera_id outcomes = [''unknown-camera'']"
proof -
  let ?ov = "[(''ONVIF_HOST'', ''c''), (''ONVIF_MOTION_REGION_POINTS'', ''[]''), (''ONVIF_USER'', ''u''), (''ONVIF_PASS'', ''p'')]"
  obtain outcomes w' where r: "run_onvif_motion_region_sync_once sample_region_env ?ov \<lparr>sw_sent = [], sw_slept = 0\<rparr> = (outcomes, w')"
    by (rule prod.exhaust)
  have t: "trim ''c'' = ''c''" by code_simp
  have slots: "slot_host ?ov i = None" for i
    by (simp add: slot_host_def runtime_var_def slot_prefix_def)
  have "load_onvif_motion_region_cameras_from_env sample_region_env ?ov =
      Inr [\<lparr>rc_camera_id = ''unknown-camera'', rc_service_url = service_url_for ''c'' 2020, rc_username = ''u'', rc_password = ''p'',
        rc_enabled = False, rc_points = []\<rparr>]"
    by (simp add: load_onvif_motion_region_cameras_from_env_def region_camera_def slots global_host_def global_camera_id_def
        runtime_var_def t sample_region_env_def credentials_def onvif_port_of_def unwrap_or_def or_else_def runtime_bool_def)
  from region_sync_all_cameras [OF this r] r show ?thesis by auto
qed

end
