(* ===== verification/OnvifNight.thy ===== *)
theory OnvifNight
  imports OnvifRegion
begin

text \<open>
  \<^verbatim>\<open>src/onvif/onvif_night_vision.rs\<close>: setting the infrared cut filter of a camera. The answers are
  read as a stream of XML events, with the state of each reader as the arguments of a recursive
  function over the stream.
\<close>

section \<open>Modes and cameras\<close>

datatype NightVisionMode = NvAuto | NvDay | NvNight

definition from_runtime_value :: "string \<Rightarrow> NightVisionMode option" where
  "from_runtime_value v =
     (if trim v = ''auto'' then Some NvAuto else if trim v = ''day'' then Some NvDay
      else if trim v = ''night'' then Some NvNight else None)"

definition as_ir_cut_filter :: "NightVisionMode \<Rightarrow> string" where
  "as_ir_cut_filter m = (case m of NvAuto \<Rightarrow> ''Auto'' | NvDay \<Rightarrow> ''Off'' | NvNight \<Rightarrow> ''On'')"

definition as_config_value :: "NightVisionMode \<Rightarrow> string" where
  "as_config_value m = (case m of NvAuto \<Rightarrow> ''auto'' | NvDay \<Rightarrow> ''day'' | NvNight \<Rightarrow> ''night'')"

record OnvifNightVisionCameraConfig =
  nv_camera_id :: string
  nv_service_url :: string
  nv_username :: string
  nv_password :: string
  nv_mode :: NightVisionMode

definition night_camera ::
    "overrides \<Rightarrow> string \<Rightarrow> string option \<Rightarrow> string \<Rightarrow> onvif_error + OnvifNightVisionCameraConfig option" where
  "night_camera ov pre host camera_id =
     (case (host, Option.bind (runtime_var ov (pre @ ''NIGHT_VISION_MODE'')) from_runtime_value) of
        (Some host, Some mode) \<Rightarrow>
          (case credentials ov pre of
             Inl e \<Rightarrow> Inl e
           | Inr (user, pass) \<Rightarrow>
               Inr (Some \<lparr>nv_camera_id = camera_id, nv_service_url = service_url_for host (onvif_port_of ov (pre @ ''PORT'')),
                 nv_username = user, nv_password = pass, nv_mode = mode\<rparr>))
      | _ \<Rightarrow> Inr None)"

definition load_onvif_night_vision_cameras_from_env ::
    "overrides \<Rightarrow> onvif_error + OnvifNightVisionCameraConfig list" where
  "load_onvif_night_vision_cameras_from_env ov =
     (case collect_slots (\<lambda>i. night_camera ov (slot_prefix i) (slot_host ov i) (slot_camera_id ov i)) [1, 2, 3, 4] of
        Inl e \<Rightarrow> Inl e
      | Inr cameras \<Rightarrow>
          if cameras \<noteq> [] then Inr cameras
          else (case night_camera ov ''ONVIF_'' (global_host ov) (global_camera_id ov) of
                  Inl e \<Rightarrow> Inl e | Inr None \<Rightarrow> Inr [] | Inr (Some c) \<Rightarrow> Inr [c]))"

section \<open>Reading answers\<close>

definition service_matches :: "string option \<Rightarrow> string \<Rightarrow> bool" where
  "service_matches namespace kind \<longleftrightarrow>
     (case namespace of
        None \<Rightarrow> False
      | Some ns \<Rightarrow>
          (if kind = ''imaging'' then contains (to_lowercase ns) ''/imaging/wsdl''
           else if kind = ''media'' then contains (to_lowercase ns) ''/media/wsdl'' else False))"

text \<open>A text that cannot be unescaped inside a service ends the search.\<close>

fun service_endpoint ::
    "string \<Rightarrow> bool \<Rightarrow> string option \<Rightarrow> string option \<Rightarrow> string option \<Rightarrow> xml_event list \<Rightarrow> string option" where
  "service_endpoint kind in_service tag namespace xaddr [] = None"
| "service_endpoint kind in_service tag namespace xaddr (ev # evs) =
     (case ev of
        XStart name _ \<Rightarrow>
          if local_name name = ''Service'' then service_endpoint kind True tag None None evs
          else if in_service then service_endpoint kind in_service (Some (local_name name)) namespace xaddr evs
          else service_endpoint kind in_service tag namespace xaddr evs
      | XText t \<Rightarrow>
          if \<not> in_service then service_endpoint kind in_service tag namespace xaddr evs
          else (case t of
                  None \<Rightarrow> None
                | Some v \<Rightarrow>
                    if tag = Some ''Namespace'' then service_endpoint kind in_service tag (Some v) xaddr evs
                    else if tag = Some ''XAddr'' then service_endpoint kind in_service tag namespace (Some v) evs
                    else service_endpoint kind in_service tag namespace xaddr evs)
      | XEnd name \<Rightarrow>
          if local_name name = ''Service'' then
            (if service_matches namespace kind
             then (case xaddr of Some v \<Rightarrow> if trim v \<noteq> [] then Some v else None | None \<Rightarrow> None)
             else service_endpoint kind False None None None evs)
          else service_endpoint kind in_service None namespace xaddr evs
      | _ \<Rightarrow> service_endpoint kind in_service tag namespace xaddr evs)"

definition parse_service_endpoint :: "soap_env \<Rightarrow> string \<Rightarrow> string \<Rightarrow> string option" where
  "parse_service_endpoint env xml kind = service_endpoint kind False None None None (so_events env xml)"

fun source_token :: "bool \<Rightarrow> xml_event list \<Rightarrow> string option" where
  "source_token capture [] = None"
| "source_token capture (ev # evs) =
     (case ev of
        XStart name _ \<Rightarrow> source_token (local_name name = ''SourceToken'') evs
      | XText t \<Rightarrow>
          if capture then
            (case t of None \<Rightarrow> None | Some v \<Rightarrow> if trim v \<noteq> [] then Some (trim v) else source_token capture evs)
          else source_token capture evs
      | XEnd _ \<Rightarrow> source_token False evs
      | _ \<Rightarrow> source_token capture evs)"

definition parse_first_video_source_token :: "soap_env \<Rightarrow> string \<Rightarrow> string option" where
  "parse_first_video_source_token env xml = source_token False (so_events env xml)"

fun fault_reason ::
    "bool \<Rightarrow> string option \<Rightarrow> string option \<Rightarrow> string option \<Rightarrow> xml_event list \<Rightarrow> string option" where
  "fault_reason in_fault tag reason code [] = None"
| "fault_reason in_fault tag reason code (ev # evs) =
     (case ev of
        XStart name _ \<Rightarrow>
          (let in_fault = (in_fault \<or> local_name name = ''Fault'') in
           fault_reason in_fault (if in_fault then Some (local_name name) else tag) reason code evs)
      | XText t \<Rightarrow>
          if \<not> in_fault then fault_reason in_fault tag reason code evs
          else (case t of
                  None \<Rightarrow> None
                | Some v \<Rightarrow>
                    if trim v = [] then fault_reason in_fault tag reason code evs
                    else if tag \<in> {Some ''Text'', Some ''faultstring''} \<and> reason = None
                    then fault_reason in_fault tag (Some v) code evs
                    else if tag \<in> {Some ''Value'', Some ''faultcode''} \<and> code = None
                    then fault_reason in_fault tag reason (Some v) evs
                    else fault_reason in_fault tag reason code evs)
      | XEnd name \<Rightarrow>
          if local_name name = ''Fault'' then Some (unwrap_or (or_else reason code) ''unknown SOAP fault'')
          else fault_reason in_fault None reason code evs
      | _ \<Rightarrow> fault_reason in_fault tag reason code evs)"

definition night_fault_reason :: "soap_env \<Rightarrow> string \<Rightarrow> string option" where
  "night_fault_reason env xml = fault_reason False None None None (so_events env xml)"

section \<open>The exchange with the camera\<close>

definition night_envelope :: "string \<Rightarrow> string \<Rightarrow> string \<Rightarrow> string \<Rightarrow> string" where
  "night_envelope to action security body =
     join_lines
       (envelope_open (soap_namespaces @ [(''tds'', ''http://www.onvif.org/ver10/device/wsdl''),
          (''trt'', ''http://www.onvif.org/ver10/media/wsdl''), (''timg'', ''http://www.onvif.org/ver20/imaging/wsdl''),
          (''tt'', ''http://www.onvif.org/ver10/schema'')]) action to
        @ [''    '' @ security, ''  </SOAP-ENV:Header>'', ''  <SOAP-ENV:Body>'' @ body @ ''</SOAP-ENV:Body>'',
           ''</SOAP-ENV:Envelope>''])"

definition night_soap_call :: "soap_env \<Rightarrow> string \<Rightarrow> string \<Rightarrow> string \<Rightarrow> string \<Rightarrow> string \<Rightarrow> string soap" where
  "night_soap_call env = soap_call_with env (night_fault_reason env) night_envelope"

definition build_set_imaging_settings_body :: "string \<Rightarrow> NightVisionMode \<Rightarrow> string" where
  "build_set_imaging_settings_body token mode =
     ''<timg:SetImagingSettings><timg:VideoSourceToken>'' @ xml_escape token
     @ ''</timg:VideoSourceToken><timg:ImagingSettings><tt:IrCutFilter>'' @ as_ir_cut_filter mode
     @ ''</tt:IrCutFilter></timg:ImagingSettings><timg:ForcePersistence>true</timg:ForcePersistence></timg:SetImagingSettings>''"

definition MEDIA_GET_PROFILES_ACTION :: string where
  "MEDIA_GET_PROFILES_ACTION = ''http://www.onvif.org/ver10/media/wsdl/GetProfiles''"

definition IMAGING_SET_IMAGING_SETTINGS_ACTION :: string where
  "IMAGING_SET_IMAGING_SETTINGS_ACTION = ''http://www.onvif.org/ver20/imaging/wsdl/SetImagingSettings''"

definition apply_night_vision_mode :: "soap_env \<Rightarrow> OnvifNightVisionCameraConfig \<Rightarrow> unit soap" where
  "apply_night_vision_mode env camera =
     bindS (night_soap_call env (nv_service_url camera) (nv_username camera) (nv_password camera)
              DEVICE_GET_SERVICES_ACTION get_services_body) (\<lambda>services_xml.
     let media_url = unwrap_or (parse_service_endpoint env services_xml ''media'') (nv_service_url camera);
         imaging_url = unwrap_or (parse_service_endpoint env services_xml ''imaging'') (nv_service_url camera) in
     bindS (night_soap_call env media_url (nv_username camera) (nv_password camera)
              MEDIA_GET_PROFILES_ACTION ''<trt:GetProfiles/>'') (\<lambda>profiles_xml.
     case parse_first_video_source_token env profiles_xml of
       None \<Rightarrow> failS (Anyhow ''GetProfiles returned no VideoSourceConfiguration SourceToken'')
     | Some token \<Rightarrow>
         bindS (night_soap_call env imaging_url (nv_username camera) (nv_password camera)
                  IMAGING_SET_IMAGING_SETTINGS_ACTION (build_set_imaging_settings_body token (nv_mode camera))) (\<lambda>_. returnS ())))"

text \<open>A camera that fails is logged and the next one is tried.\<close>

definition run_onvif_night_vision_sync_once ::
    "soap_env \<Rightarrow> overrides \<Rightarrow> soap_world \<Rightarrow> (onvif_error + unit) \<times> soap_world" where
  "run_onvif_night_vision_sync_once env ov w =
     (case load_onvif_night_vision_cameras_from_env ov of
        Inl e \<Rightarrow> (Inl e, w)
      | Inr cameras \<Rightarrow> (Inr (), fold (\<lambda>camera w. snd (apply_night_vision_mode env camera w)) cameras w))"

section \<open>Service lists\<close>

text \<open>The events of one service entry, for any qualified names, and of a list of entries.\<close>

definition service_names :: "(bytes \<times> bytes \<times> bytes) \<Rightarrow> bool" where
  "service_names q \<longleftrightarrow>
     (case q of (s, n, x) \<Rightarrow> local_name s = ''Service'' \<and> local_name n = ''Namespace'' \<and> local_name x = ''XAddr'')"

definition service_events :: "(bytes \<times> bytes \<times> bytes) \<Rightarrow> string \<times> string \<Rightarrow> xml_event list" where
  "service_events q entry =
     (case (q, entry) of ((s, n, x), (ns, xa)) \<Rightarrow>
        [XStart s [], XStart n [], XText (Some ns), XEnd n, XStart x [], XText (Some xa), XEnd x, XEnd s])"

lemma service_endpoint_entry:
  assumes "service_names q"
  shows "service_endpoint kind False None None None (service_events q (ns, xa) @ evs) =
    (if service_matches (Some ns) kind then (if trim xa \<noteq> [] then Some xa else None)
     else service_endpoint kind False None None None evs)"
proof -
  obtain s n x where q: "q = (s, n, x)" by (cases q)
  show ?thesis using assms by (simp add: service_events_def service_names_def q)
qed

lemma service_endpoint_list:
  assumes "service_names q"
  shows "service_endpoint kind False None None None (concat (map (service_events q) entries)) =
    (case filter (\<lambda>(ns, _). service_matches (Some ns) kind) entries of
       [] \<Rightarrow> None | (_, xa) # _ \<Rightarrow> if trim xa \<noteq> [] then Some xa else None)"
proof (induction entries)
  case (Cons e es)
  obtain ns xa where "e = (ns, xa)" by (cases e)
  with Cons show ?case by (simp add: service_endpoint_entry [OF assms])
qed simp

text \<open>
  From a list of services, under whatever prefixes, the address taken for a kind of service is
  the one of the first entry whose namespace matches, and none if that address is blank or no entry
  matches.
\<close>

theorem service_endpoint_first_match:
  assumes "service_names q" "so_events env xml = concat (map (service_events q) entries)"
  shows "parse_service_endpoint env xml kind =
    (case filter (\<lambda>(ns, _). service_matches (Some ns) kind) entries of
       [] \<Rightarrow> None | (_, xa) # _ \<Rightarrow> if trim xa \<noteq> [] then Some xa else None)"
  by (simp add: parse_service_endpoint_def assms(2) service_endpoint_list [OF assms(1)])

definition sample_service_names :: "bytes \<times> bytes \<times> bytes" where
  "sample_service_names = (as_bytes ''tds:Service'', as_bytes ''tds:Namespace'', as_bytes ''tds:XAddr'')"

lemma sample_service_names: "service_names sample_service_names"
  by code_simp

definition sample_night_soap :: soap_env where
  "sample_night_soap = sample_soap\<lparr>so_events := (\<lambda>_. concat (map (service_events sample_service_names)
     [(''http://www.onvif.org/ver10/events/wsdl'', ''http://c/e''), (''http://www.onvif.org/ver20/imaging/wsdl'', ''http://c/i'')]))\<rparr>"

theorem service_endpoint_first_match_witness:
  "parse_service_endpoint sample_night_soap ''x'' ''imaging'' = Some ''http://c/i''"
proof -
  have e: "so_events sample_night_soap ''x'' = concat (map (service_events sample_service_names)
     [(''http://www.onvif.org/ver10/events/wsdl'', ''http://c/e''), (''http://www.onvif.org/ver20/imaging/wsdl'', ''http://c/i'')])"
    by (simp add: sample_night_soap_def)
  have "\<not> service_matches (Some ''http://www.onvif.org/ver10/events/wsdl'') ''imaging''"
    "service_matches (Some ''http://www.onvif.org/ver20/imaging/wsdl'') ''imaging''" "trim ''http://c/i'' = ''http://c/i''"
    by code_simp+
  then show ?thesis using service_endpoint_first_match [OF sample_service_names e, of "''imaging''"] by simp
qed

end
