(* ===== verification/Ingest.thy ===== *)
theory Ingest
  imports Proto LiveV2 Config
begin

text \<open>
  \<^verbatim>\<open>src/bin/server_ingest.rs\<close>: the ingest server. It accepts connections, checks the token of the
  greeting, and hands every message to the pipeline of its stream, which it starts when there is
  none. The streams are shared by all connections and by the pipeline tasks, which remove their own
  entry when they end.

  A pipeline task and its channel have one number, their position in \<open>sv_tasks\<close>. What the pipelines
  do with the messages is in \<open>Pipeline\<close> and \<open>LiveV2\<close>; here a task starts, takes messages, returns
  (its receiver is dropped and the channel closes) and cleans up, at any moments. Parameters: Base64,
  the JSON readers generated by \<open>serde\<close>, and the parser of socket addresses.
\<close>

section \<open>Settings\<close>

definition ingest_var :: "overrides \<Rightarrow> string \<Rightarrow> string option" where
  "ingest_var ov name =
     (case runtime_var ov name of Some v \<Rightarrow> if trim v \<noteq> [] then Some v else None | None \<Rightarrow> None)"

definition ingest_opt_u64 :: "overrides \<Rightarrow> string \<Rightarrow> u64 option" where
  "ingest_opt_u64 ov name = Option.bind (ingest_var ov name) (parse_uint u64_max)"

definition ingest_u64 :: "overrides \<Rightarrow> string \<Rightarrow> u64 \<Rightarrow> u64" where
  "ingest_u64 ov name d = unwrap_or (ingest_opt_u64 ov name) d"

definition resolved_server_bind :: "string option \<Rightarrow> string" where
  "resolved_server_bind b = unwrap_or b ''127.0.0.1:9000''"

datatype ingest_error =
    TokenMissing | TokenInsecure | FirstNotHello | BadHello | InvalidToken | ReadFailed proto_error

definition validate_server_token :: "string option \<Rightarrow> ingest_error + string" where
  "validate_server_token token =
     (case token of
        None \<Rightarrow> Inl TokenMissing
      | Some t \<Rightarrow> if t = ''devtoken'' then Inl TokenInsecure else Inr t)"

text \<open>\<open>is_loopback\<close> is \<open>None\<close> for a text that is not a socket address.\<close>

definition bind_scope :: "(string \<Rightarrow> bool option) \<Rightarrow> string \<Rightarrow> string" where
  "bind_scope is_loopback b = (if is_loopback b = Some True then ''loopback-only'' else ''network-exposed'')"

datatype LivePipelineVersion = V1 | V2

definition runtime_live_pipeline_version :: "overrides \<Rightarrow> LivePipelineVersion" where
  "runtime_live_pipeline_version ov =
     (if to_lowercase (trim (unwrap_or (ingest_var ov ''LIVE_PIPELINE_VERSION'') ''v1'')) = ''v2'' then V2 else V1)"

record ingest_config =
  ig_token :: string
  ig_bind :: string
  ig_clip_dir :: string
  ig_ring_secs :: u64
  ig_pre_secs :: u64
  ig_post_secs :: u64
  ig_stale_part_secs :: u64
  ig_max_clip_secs :: "u64 option"
  ig_clip_write_timeout_ms :: u64
  ig_clip_write_retry_count :: u64
  ig_clip_write_retry_backoff_ms :: u64
  ig_stale_secs :: u64
  ig_stream_stats_log_secs :: u64
  ig_live_pipeline_version :: LivePipelineVersion
  ig_live_hls_segment_secs :: u64
  ig_live_hls_window_secs :: u64

text \<open>The start of \<open>main\<close>: the server refuses to start without a token of its own.\<close>

definition load_ingest_config :: "overrides \<Rightarrow> ingest_error + ingest_config" where
  "load_ingest_config ov =
     (case validate_server_token (ingest_var ov ''SERVER_TOKEN'') of
        Inl e \<Rightarrow> Inl e
      | Inr token \<Rightarrow>
          (let pre_secs = ingest_u64 ov ''CLIP_PRE_SECS'' 3 in
           Inr \<lparr>ig_token = token, ig_bind = resolved_server_bind (ingest_var ov ''SERVER_BIND''),
             ig_clip_dir = unwrap_or (ingest_var ov ''CLIP_DIR'') ''clips'',
             ig_ring_secs = ingest_u64 ov ''CLIP_RING_SECS'' pre_secs, ig_pre_secs = pre_secs,
             ig_post_secs = ingest_u64 ov ''CLIP_POST_SECS'' 5,
             ig_stale_part_secs = ingest_u64 ov ''CLIP_STALE_PART_SECS'' (24 * 60 * 60),
             ig_max_clip_secs = ingest_opt_u64 ov ''CLIP_MAX_SECS'',
             ig_clip_write_timeout_ms = ingest_u64 ov ''CLIP_WRITE_TIMEOUT_MS'' 5000,
             ig_clip_write_retry_count = ingest_u64 ov ''CLIP_WRITE_RETRY_COUNT'' 2,
             ig_clip_write_retry_backoff_ms = ingest_u64 ov ''CLIP_WRITE_RETRY_BACKOFF_MS'' 250,
             ig_stale_secs = ingest_u64 ov ''STREAM_STALE_SECS'' 15,
             ig_stream_stats_log_secs = ingest_u64 ov ''STREAM_STATS_LOG_SECS'' 60,
             ig_live_pipeline_version = runtime_live_pipeline_version ov,
             ig_live_hls_segment_secs = ingest_u64 ov ''LIVE_HLS_SEGMENT_SECS'' 2,
             ig_live_hls_window_secs = ingest_u64 ov ''LIVE_HLS_WINDOW_SECS'' 12\<rparr>))"

section \<open>Payloads\<close>

record IngestHelloStream =
  ih_stream_id :: u32
  ih_name :: string
  ih_h264_sps_b64 :: "string option"
  ih_h264_pps_b64 :: "string option"

record IngestHello =
  ih_agent_id :: string
  ih_token :: string
  ih_streams :: "IngestHelloStream list"

record MotionPayload =
  mo_active :: bool
  mo_rule :: "string option"
  mo_ts :: "string option"

record ingest_env =
  ie_b64_decode :: "string \<Rightarrow> bytes option"
  ie_hello :: "bytes \<Rightarrow> IngestHello option"
  ie_json :: "bytes \<Rightarrow> json option"
  ie_motion :: "json \<Rightarrow> MotionPayload option"

datatype seed_error = InvalidBase64 string | EmptySet string | PpsMissing | SpsMissing

definition decode_set :: "ingest_env \<Rightarrow> string \<Rightarrow> string \<Rightarrow> seed_error + bytes" where
  "decode_set env label v =
     (case ie_b64_decode env v of
        None \<Rightarrow> Inl (InvalidBase64 label)
      | Some raw \<Rightarrow> if raw = [] then Inl (EmptySet label) else Inr raw)"

definition decode_h264_sync_seed :: "ingest_env \<Rightarrow> IngestHelloStream \<Rightarrow> seed_error + H264SyncSeed option" where
  "decode_h264_sync_seed env stream =
     (case (ih_h264_sps_b64 stream, ih_h264_pps_b64 stream) of
        (None, None) \<Rightarrow> Inr None
      | (Some _, None) \<Rightarrow> Inl PpsMissing
      | (None, Some _) \<Rightarrow> Inl SpsMissing
      | (Some sps_b64, Some pps_b64) \<Rightarrow>
          (case decode_set env ''h264_sps_b64'' sps_b64 of
             Inl e \<Rightarrow> Inl e
           | Inr sps_raw \<Rightarrow>
               (case decode_set env ''h264_pps_b64'' pps_b64 of
                  Inl e \<Rightarrow> Inl e
                | Inr pps_raw \<Rightarrow>
                    Inr (Some \<lparr>sd_sps_annexb = annexb_from_raw_nal sps_raw, sd_pps_annexb = annexb_from_raw_nal pps_raw\<rparr>))))"

definition parse_motion_msg :: "ingest_env \<Rightarrow> bytes \<Rightarrow> StreamMsg option" where
  "parse_motion_msg env payload =
     (case ie_json env payload of
        None \<Rightarrow> None
      | Some v \<Rightarrow>
          if (case get v ''active'' of Some (JBool _) \<Rightarrow> False | _ \<Rightarrow> True) then None
          else (case ie_motion env v of
                  None \<Rightarrow> None
                | Some parsed \<Rightarrow>
                    Some (MotionMsg (unwrap_or (mo_rule parsed) ''motion'') (mo_active parsed) (unwrap_or (mo_ts parsed) []))))"

section \<open>Streams and their pipelines\<close>

datatype task_phase = Spawned | Running | Returned | Finished

record stream_task =
  tk_stream :: u32
  tk_generation :: u64
  tk_queue :: "StreamMsg list"
  tk_phase :: task_phase
  tk_cfg :: StreamConfig
  tk_v2_cfg :: LivePipelineV2Config

record StreamHandle =
  sh_tx :: nat
  sh_generation :: u64

record server =
  sv_streams :: "(u32 \<times> StreamHandle) list"
  sv_tasks :: "stream_task list"
  sv_active_streams :: nat

definition server_empty :: server where
  "server_empty = \<lparr>sv_streams = [], sv_tasks = [], sv_active_streams = 0\<rparr>"

text \<open>\<open>Sender::is_closed\<close>: the receiver, which the pipeline owns, is gone.\<close>

definition is_closed :: "server \<Rightarrow> nat \<Rightarrow> bool" where
  "is_closed s tx \<longleftrightarrow> tk_phase (sv_tasks s ! tx) \<in> {Returned, Finished}"

definition stream_cfg :: "ingest_config \<Rightarrow> u32 \<Rightarrow> StreamConfig" where
  "stream_cfg cfg sid =
     \<lparr>st_stream_id = unat sid, st_clip_dir = ig_clip_dir cfg, st_ring_secs = ig_ring_secs cfg, st_pre_secs = ig_pre_secs cfg,
      st_post_secs = ig_post_secs cfg, st_stale_part_secs = ig_stale_part_secs cfg, st_max_clip_secs = ig_max_clip_secs cfg,
      st_clip_write_timeout_ms = ig_clip_write_timeout_ms cfg, st_clip_write_retry_count = ig_clip_write_retry_count cfg,
      st_clip_write_retry_backoff_ms = ig_clip_write_retry_backoff_ms cfg, st_stale_secs = ig_stale_secs cfg,
      st_stats_log_secs = ig_stream_stats_log_secs cfg\<rparr>"

definition live_cfg :: "ingest_config \<Rightarrow> u32 \<Rightarrow> H264SyncSeed option \<Rightarrow> LivePipelineV2Config" where
  "live_cfg cfg sid seed =
     \<lparr>lc_stream_id = unat sid, lc_output_root = join_path (join_path (ig_clip_dir cfg) ''hls_v2'') (show_nat (unat sid)),
      lc_health_dir = ig_clip_dir cfg, lc_stale_secs = ig_stale_secs cfg, lc_stats_log_secs = ig_stream_stats_log_secs cfg,
      lc_segment_secs = ig_live_hls_segment_secs cfg, lc_window_secs = ig_live_hls_window_secs cfg, lc_h264_sync_seed = seed\<rparr>"

definition spawn_stream :: "ingest_config \<Rightarrow> u32 \<Rightarrow> H264SyncSeed option \<Rightarrow> server \<Rightarrow> nat \<times> server" where
  "spawn_stream cfg sid seed s =
     (let generation = (case map_of (sv_streams s) sid of None \<Rightarrow> 1 | Some h \<Rightarrow> saturating_add (sh_generation h) 1);
          tx = length (sv_tasks s) in
      (tx, s\<lparr>sv_streams := AList.update sid \<lparr>sh_tx = tx, sh_generation = generation\<rparr> (sv_streams s),
             sv_tasks := sv_tasks s @ [\<lparr>tk_stream = sid, tk_generation = generation, tk_queue = [], tk_phase = Spawned,
               tk_cfg = stream_cfg cfg sid, tk_v2_cfg = live_cfg cfg sid seed\<rparr>]\<rparr>))"

definition ensure_stream :: "ingest_config \<Rightarrow> u32 \<Rightarrow> H264SyncSeed option \<Rightarrow> server \<Rightarrow> nat \<times> server" where
  "ensure_stream cfg sid seed s =
     (case map_of (sv_streams s) sid of
        Some h \<Rightarrow> if \<not> is_closed s (sh_tx h) then (sh_tx h, s) else spawn_stream cfg sid seed s
      | None \<Rightarrow> spawn_stream cfg sid seed s)"

definition CHANNEL_CAPACITY :: nat where
  "CHANNEL_CAPACITY = 4096"

text \<open>The message comes back when the channel is closed; when it is full the message is dropped.\<close>

definition try_send_stream_msg :: "nat \<Rightarrow> StreamMsg \<Rightarrow> server \<Rightarrow> StreamMsg option \<times> server" where
  "try_send_stream_msg tx msg s =
     (if is_closed s tx then (Some msg, s)
      else if CHANNEL_CAPACITY \<le> length (tk_queue (sv_tasks s ! tx)) then (None, s)
      else (None, s\<lparr>sv_tasks := (sv_tasks s)[tx := (sv_tasks s ! tx)\<lparr>tk_queue := tk_queue (sv_tasks s ! tx) @ [msg]\<rparr>]\<rparr>))"

definition evict_stream_if_same_sender :: "u32 \<Rightarrow> nat \<Rightarrow> server \<Rightarrow> server" where
  "evict_stream_if_same_sender sid tx s =
     (if (case map_of (sv_streams s) sid of Some h \<Rightarrow> sh_tx h = tx | None \<Rightarrow> False)
      then s\<lparr>sv_streams := AList.delete sid (sv_streams s)\<rparr> else s)"

definition send_or_recreate_stream_msg :: "ingest_config \<Rightarrow> nat \<Rightarrow> u32 \<Rightarrow> StreamMsg \<Rightarrow> server \<Rightarrow> server" where
  "send_or_recreate_stream_msg cfg tx sid msg s =
     (case try_send_stream_msg tx msg s of
        (None, s) \<Rightarrow> s
      | (Some msg, s) \<Rightarrow>
          (let (fresh_tx, s) = ensure_stream cfg sid None (evict_stream_if_same_sender sid tx s) in
           snd (try_send_stream_msg fresh_tx msg s)))"

section \<open>One connection\<close>

definition stream_msg_of :: "ingest_env \<Rightarrow> Msg \<Rightarrow> StreamMsg option" where
  "stream_msg_of env m =
     (if msg_type m = RTP then Some (RtpMsg (msg_payload m))
      else if msg_type m = GAP then (case decode_gap (msg_payload m) of Ok (l, n) \<Rightarrow> Some (GapMsg l n) | _ \<Rightarrow> None)
      else if msg_type m = MOTION then parse_motion_msg env (msg_payload m)
      else None)"

definition handle_msg :: "ingest_env \<Rightarrow> ingest_config \<Rightarrow> Msg \<Rightarrow> server \<Rightarrow> server" where
  "handle_msg env cfg m s =
     (let (tx, s) = ensure_stream cfg (msg_stream_id m) None s in
      case stream_msg_of env m of
        None \<Rightarrow> s
      | Some msg \<Rightarrow> send_or_recreate_stream_msg cfg tx (msg_stream_id m) msg s)"

definition seed_or_none :: "ingest_env \<Rightarrow> IngestHelloStream \<Rightarrow> H264SyncSeed option" where
  "seed_or_none env st = (case decode_h264_sync_seed env st of Inr seed \<Rightarrow> seed | Inl _ \<Rightarrow> None)"

definition greet_stream :: "ingest_env \<Rightarrow> ingest_config \<Rightarrow> IngestHelloStream \<Rightarrow> server \<Rightarrow> server" where
  "greet_stream env cfg st s = snd (ensure_stream cfg (ih_stream_id st) (seed_or_none env st) s)"

lemma read_msg_shorter: "read_msg r = Ok (m, r') \<Longrightarrow> length r' < length r"
  by (auto simp: read_msg_def read_exact_def bindR_eq_Ok_iff Let_def split: if_splits)

text \<open>\<open>bytes\<close> is what the peer sends before it closes; the loop ends with the error of a read.\<close>

function conn_loop :: "ingest_env \<Rightarrow> ingest_config \<Rightarrow> bytes \<Rightarrow> server \<Rightarrow> ingest_error option \<times> server" where
  "conn_loop env cfg r s =
     (case read_msg r of
        Ok (m, r') \<Rightarrow> conn_loop env cfg r' (handle_msg env cfg m s)
      | Err e \<Rightarrow> (Some (ReadFailed e), s)
      | Panic \<Rightarrow> (None, s))"
  by pat_completeness auto
termination
  by (relation "measure (\<lambda>(env, cfg, r, s). length r)") (auto dest: read_msg_shorter)

declare conn_loop.simps [simp del]

definition handle_conn :: "ingest_env \<Rightarrow> ingest_config \<Rightarrow> bytes \<Rightarrow> server \<Rightarrow> ingest_error option \<times> server" where
  "handle_conn env cfg r s =
     (case read_msg r of
        Err e \<Rightarrow> (Some (ReadFailed e), s)
      | Panic \<Rightarrow> (None, s)
      | Ok (hello, r') \<Rightarrow>
          if msg_type hello \<noteq> HELLO then (Some FirstNotHello, s)
          else (case ie_hello env (msg_payload hello) of
                  None \<Rightarrow> (Some BadHello, s)
                | Some h \<Rightarrow>
                    if ih_token h \<noteq> ig_token cfg then (Some InvalidToken, s)
                    else conn_loop env cfg r' (fold (greet_stream env cfg) (ih_streams h) s)))"

section \<open>Pipeline tasks\<close>

definition set_phase :: "nat \<Rightarrow> task_phase \<Rightarrow> server \<Rightarrow> server" where
  "set_phase t ph s = s\<lparr>sv_tasks := (sv_tasks s)[t := (sv_tasks s ! t)\<lparr>tk_phase := ph\<rparr>]\<rparr>"

definition start_task :: "nat \<Rightarrow> server \<Rightarrow> server" where
  "start_task t s = (set_phase t Running s)\<lparr>sv_active_streams := sv_active_streams s + 1\<rparr>"

text \<open>The pipeline function returns, for whatever reason.\<close>

definition return_task :: "nat \<Rightarrow> server \<Rightarrow> server" where
  "return_task t s = set_phase t Returned s"

text \<open>\<open>fetch_sub\<close> on 0 would wrap.\<close>

definition cleanup_task :: "nat \<Rightarrow> server \<Rightarrow> server" where
  "cleanup_task t s =
     (let task = sv_tasks s ! t;
          s' = (if (case map_of (sv_streams s) (tk_stream task) of
                      Some h \<Rightarrow> sh_generation h = tk_generation task | None \<Rightarrow> False)
                then s\<lparr>sv_streams := AList.delete (tk_stream task) (sv_streams s)\<rparr> else s) in
      (set_phase t Finished s')\<lparr>sv_active_streams :=
         (if sv_active_streams s = 0 then u64_max else sv_active_streams s - 1)\<rparr>)"

definition run_stream_pipeline :: "LivePipelineVersion \<Rightarrow> stream_task \<Rightarrow> StreamConfig + LivePipelineV2Config" where
  "run_stream_pipeline version task = (case version of V1 \<Rightarrow> Inl (tk_cfg task) | V2 \<Rightarrow> Inr (tk_v2_cfg task))"

section \<open>All connections and tasks together\<close>

text \<open>
  The lock on the streams is held inside \<open>ensure_stream\<close>, \<open>evict_stream_if_same_sender\<close> and the
  cleanup, so these and the sends are the atomic steps; between the steps of one connection the
  others and the tasks run. A connection is waiting for a message or at one of the steps of
  \<open>send_or_recreate_stream_msg\<close>.
\<close>

datatype conn =
    Ready
  | Sending u32 nat StreamMsg
  | Bounced u32 nat StreamMsg
  | Evicted u32 StreamMsg
  | Resending u32 nat StreamMsg

record node =
  nd_server :: server
  nd_conns :: "conn list"

datatype node_event =
    Greet IngestHelloStream
  | Receive nat Msg
  | Advance nat
  | StartTask nat
  | TakeMsg nat
  | ReturnTask nat
  | CleanupTask nat

definition conn_receive :: "ingest_env \<Rightarrow> ingest_config \<Rightarrow> Msg \<Rightarrow> conn \<Rightarrow> server \<Rightarrow> conn \<times> server" where
  "conn_receive env cfg m c s =
     (case c of
        Ready \<Rightarrow>
          (let (tx, s) = ensure_stream cfg (msg_stream_id m) None s in
           (case stream_msg_of env m of None \<Rightarrow> Ready | Some msg \<Rightarrow> Sending (msg_stream_id m) tx msg, s))
      | _ \<Rightarrow> (c, s))"

definition conn_advance :: "ingest_config \<Rightarrow> conn \<Rightarrow> server \<Rightarrow> conn \<times> server" where
  "conn_advance cfg c s =
     (case c of
        Ready \<Rightarrow> (Ready, s)
      | Sending sid tx msg \<Rightarrow>
          (case try_send_stream_msg tx msg s of
             (None, s) \<Rightarrow> (Ready, s) | (Some msg, s) \<Rightarrow> (Bounced sid tx msg, s))
      | Bounced sid tx msg \<Rightarrow> (Evicted sid msg, evict_stream_if_same_sender sid tx s)
      | Evicted sid msg \<Rightarrow> (let (tx, s) = ensure_stream cfg sid None s in (Resending sid tx msg, s))
      | Resending sid tx msg \<Rightarrow> (Ready, snd (try_send_stream_msg tx msg s)))"

definition take_msg :: "nat \<Rightarrow> server \<Rightarrow> server" where
  "take_msg t s = s\<lparr>sv_tasks := (sv_tasks s)[t := (sv_tasks s ! t)\<lparr>tk_queue := tl (tk_queue (sv_tasks s ! t))\<rparr>]\<rparr>"

definition in_phase :: "nat \<Rightarrow> task_phase \<Rightarrow> server \<Rightarrow> bool" where
  "in_phase t ph s \<longleftrightarrow> t < length (sv_tasks s) \<and> tk_phase (sv_tasks s ! t) = ph"

fun task_step :: "node_event \<Rightarrow> server \<Rightarrow> server" where
  "task_step (StartTask t) s = (if in_phase t Spawned s then start_task t s else s)"
| "task_step (TakeMsg t) s = (if in_phase t Running s then take_msg t s else s)"
| "task_step (ReturnTask t) s = (if in_phase t Running s then return_task t s else s)"
| "task_step (CleanupTask t) s = (if in_phase t Returned s then cleanup_task t s else s)"
| "task_step ev s = s"

definition on_conn :: "nat \<Rightarrow> (conn \<Rightarrow> server \<Rightarrow> conn \<times> server) \<Rightarrow> node \<Rightarrow> node" where
  "on_conn i f n =
     (if i < length (nd_conns n) then
        (let (c, s) = f (nd_conns n ! i) (nd_server n) in \<lparr>nd_server = s, nd_conns = (nd_conns n)[i := c]\<rparr>)
      else n)"

definition node_step :: "ingest_env \<Rightarrow> ingest_config \<Rightarrow> node_event \<Rightarrow> node \<Rightarrow> node" where
  "node_step env cfg ev n =
     (case ev of
        Greet st \<Rightarrow> n\<lparr>nd_server := greet_stream env cfg st (nd_server n)\<rparr>
      | Receive i m \<Rightarrow> on_conn i (conn_receive env cfg m) n
      | Advance i \<Rightarrow> on_conn i (conn_advance cfg) n
      | _ \<Rightarrow> n\<lparr>nd_server := task_step ev (nd_server n)\<rparr>)"

text \<open>Undisturbed, the steps of a connection are the code's function.\<close>

lemma conn_steps_refine:
  assumes "i < length (nd_conns n)" "nd_conns n ! i = Ready"
  shows "fold (node_step env cfg) [Receive i m, Advance i, Advance i, Advance i, Advance i] n
    = n\<lparr>nd_server := handle_msg env cfg m (nd_server n)\<rparr>"
proof -
  have same: "(nd_conns n)[i := Ready] = nd_conns n" using assms by (metis list_update_id)
  obtain tx s1 where e: "ensure_stream cfg (msg_stream_id m) None (nd_server n) = (tx, s1)" by (rule prod.exhaust)
  show ?thesis
  proof (cases "stream_msg_of env m")
    case None
    with assms e same show ?thesis
      by (simp add: node_step_def on_conn_def conn_receive_def conn_advance_def handle_msg_def)
  next
    case (Some msg)
    obtain bk s2 where t: "try_send_stream_msg tx msg s1 = (bk, s2)" by (rule prod.exhaust)
    obtain fresh s3 where f: "ensure_stream cfg (msg_stream_id m) None (evict_stream_if_same_sender (msg_stream_id m) tx s2) = (fresh, s3)"
      by (rule prod.exhaust)
    have bk: "bk \<in> {None, Some msg}" using t by (auto simp: try_send_stream_msg_def split: if_splits)
    with assms e same Some t f show ?thesis
      by (cases bk)
         (auto simp: node_step_def on_conn_def conn_receive_def conn_advance_def handle_msg_def send_or_recreate_stream_msg_def)
  qed
qed

section \<open>The registry invariant\<close>

definition task_ok :: "stream_task \<Rightarrow> bool" where
  "task_ok t \<longleftrightarrow> st_stream_id (tk_cfg t) = unat (tk_stream t) \<and> lc_stream_id (tk_v2_cfg t) = unat (tk_stream t)
     \<and> length (tk_queue t) \<le> CHANNEL_CAPACITY"

definition registry_ok :: "server \<Rightarrow> bool" where
  "registry_ok s \<longleftrightarrow>
     (\<forall>sid h. map_of (sv_streams s) sid = Some h \<longrightarrow>
        sh_tx h < length (sv_tasks s) \<and> tk_stream (sv_tasks s ! sh_tx h) = sid
        \<and> tk_generation (sv_tasks s ! sh_tx h) = sh_generation h)
     \<and> (\<forall>t \<in> set (sv_tasks s). task_ok t)
     \<and> sv_active_streams s = length (filter (\<lambda>t. tk_phase t \<in> {Running, Returned}) (sv_tasks s))"

text \<open>The server goes on: tasks are only added, and keep their stream.\<close>

definition extends :: "server \<Rightarrow> server \<Rightarrow> bool" where
  "extends s s' \<longleftrightarrow> length (sv_tasks s) \<le> length (sv_tasks s')
     \<and> (\<forall>t < length (sv_tasks s). tk_stream (sv_tasks s' ! t) = tk_stream (sv_tasks s ! t))"

definition points_to :: "server \<Rightarrow> u32 \<Rightarrow> nat \<Rightarrow> bool" where
  "points_to s sid tx \<longleftrightarrow> tx < length (sv_tasks s) \<and> tk_stream (sv_tasks s ! tx) = sid"

lemma extends_refl [simp]: "extends s s"
  by (simp add: extends_def)

lemma extends_trans: "extends a b \<Longrightarrow> extends b c \<Longrightarrow> extends a c"
  by (auto simp: extends_def)

lemma points_to_extends: "points_to s sid tx \<Longrightarrow> extends s s' \<Longrightarrow> points_to s' sid tx"
  by (auto simp: points_to_def extends_def)

lemma spawn_ok:
  assumes "registry_ok s"
  shows "registry_ok (snd (spawn_stream cfg sid seed s))" "extends s (snd (spawn_stream cfg sid seed s))"
    "points_to (snd (spawn_stream cfg sid seed s)) sid (fst (spawn_stream cfg sid seed s))"
  using assms
  by (auto simp: spawn_stream_def Let_def registry_ok_def extends_def points_to_def AList.update_conv' nth_append task_ok_def less_Suc_eq
      stream_cfg_def live_cfg_def CHANNEL_CAPACITY_def split: if_splits option.splits)

lemma ensure_ok:
  assumes "registry_ok s"
  shows "registry_ok (snd (ensure_stream cfg sid seed s))" "extends s (snd (ensure_stream cfg sid seed s))"
    "points_to (snd (ensure_stream cfg sid seed s)) sid (fst (ensure_stream cfg sid seed s))"
  using assms spawn_ok [OF assms, of cfg sid seed]
  by (auto simp: ensure_stream_def registry_ok_def points_to_def split: option.splits)

lemma count_update:
  "t < length xs \<Longrightarrow> length (filter P (xs[t := x])) + (if P (xs ! t) then 1 else 0) = length (filter P xs) + (if P x then 1 else 0)"
proof (induction xs arbitrary: t)
  case (Cons y ys)
  show ?case
  proof (cases t)
    case (Suc k)
    with Cons.prems have "k < length ys" by simp
    with Cons.IH [OF this] Suc show ?thesis by (cases "P y") simp_all
  qed simp
qed simp

lemma nth_update_same: "f x = f (xs ! t) \<Longrightarrow> f (xs[t := x] ! i) = f (xs ! i)"
  by (cases "t < length xs"; cases "i = t") (auto simp: list_update_beyond)

lemma update_task_ok:
  assumes "registry_ok s" "tk_stream t' = tk_stream (sv_tasks s ! t)" "tk_generation t' = tk_generation (sv_tasks s ! t)"
    and "tk_phase t' = tk_phase (sv_tasks s ! t)" "task_ok t'" "t < length (sv_tasks s)"
  shows "registry_ok (s\<lparr>sv_tasks := (sv_tasks s)[t := t']\<rparr>)" "extends s (s\<lparr>sv_tasks := (sv_tasks s)[t := t']\<rparr>)"
proof -
  have c: "length (filter P ((sv_tasks s)[t := t'])) = length (filter P (sv_tasks s))" if "P t' = P (sv_tasks s ! t)" for P
    using count_update [OF assms(6), of P t'] that by (auto split: if_splits)
  show "registry_ok (s\<lparr>sv_tasks := (sv_tasks s)[t := t']\<rparr>)"
    using assms(1,4,5) nth_update_same [of tk_stream, OF assms(2)] nth_update_same [of tk_generation, OF assms(3)]
    by (auto simp: registry_ok_def c dest!: set_update_subset_insert [THEN subsetD])
  show "extends s (s\<lparr>sv_tasks := (sv_tasks s)[t := t']\<rparr>)"
    using nth_update_same [of tk_stream, OF assms(2)] by (simp add: extends_def)
qed

lemma nth_task_ok: "registry_ok s \<Longrightarrow> t < length (sv_tasks s) \<Longrightarrow> task_ok (sv_tasks s ! t)"
  by (simp add: registry_ok_def)

lemma try_send_ok:
  assumes "registry_ok s" "tx < length (sv_tasks s)"
  shows "registry_ok (snd (try_send_stream_msg tx msg s))" "extends s (snd (try_send_stream_msg tx msg s))"
proof -
  let ?t = "(sv_tasks s ! tx)\<lparr>tk_queue := tk_queue (sv_tasks s ! tx) @ [msg]\<rparr>"
  have "length (tk_queue (sv_tasks s ! tx)) < CHANNEL_CAPACITY \<Longrightarrow> task_ok ?t"
    using nth_task_ok [OF assms] by (simp add: task_ok_def)
  then show "registry_ok (snd (try_send_stream_msg tx msg s))" "extends s (snd (try_send_stream_msg tx msg s))"
    using update_task_ok [OF assms(1) _ _ _ _ assms(2), of ?t] assms by (auto simp: try_send_stream_msg_def)
qed

lemma evict_ok:
  assumes "registry_ok s"
  shows "registry_ok (evict_stream_if_same_sender sid tx s)" "extends s (evict_stream_if_same_sender sid tx s)"
  using assms by (auto simp: evict_stream_if_same_sender_def registry_ok_def extends_def AList.delete_conv' split: if_splits)

lemma set_phase_ok:
  assumes "registry_ok s" "t < length (sv_tasks s)" "tk_phase (sv_tasks s ! t) = old"
    and "n + (if old \<in> {Running, Returned} then 1 else 0) = sv_active_streams s + (if ph \<in> {Running, Returned} then 1 else 0)"
    and "\<And>sid h. map_of streams sid = Some h \<Longrightarrow> map_of (sv_streams s) sid = Some h"
  shows "registry_ok (s\<lparr>sv_tasks := (sv_tasks s)[t := (sv_tasks s ! t)\<lparr>tk_phase := ph\<rparr>], sv_active_streams := n, sv_streams := streams\<rparr>)"
    and "extends s (s\<lparr>sv_tasks := (sv_tasks s)[t := (sv_tasks s ! t)\<lparr>tk_phase := ph\<rparr>], sv_active_streams := n, sv_streams := streams\<rparr>)"
proof -
  have ok: "task_ok ((sv_tasks s ! t)\<lparr>tk_phase := ph\<rparr>)" using nth_task_ok [OF assms(1,2)] by (simp add: task_ok_def)
  have "n = length (filter (\<lambda>t. tk_phase t \<in> {Running, Returned}) ((sv_tasks s)[t := (sv_tasks s ! t)\<lparr>tk_phase := ph\<rparr>]))"
    using count_update [OF assms(2), of "\<lambda>t. tk_phase t \<in> {Running, Returned}" "(sv_tasks s ! t)\<lparr>tk_phase := ph\<rparr>"] assms(1,3,4)
    by (simp add: registry_ok_def)
  then show "registry_ok (s\<lparr>sv_tasks := (sv_tasks s)[t := (sv_tasks s ! t)\<lparr>tk_phase := ph\<rparr>], sv_active_streams := n, sv_streams := streams\<rparr>)"
    using assms(1,5) ok by (auto simp: registry_ok_def nth_update_same dest!: set_update_subset_insert [THEN subsetD])
  show "extends s (s\<lparr>sv_tasks := (sv_tasks s)[t := (sv_tasks s ! t)\<lparr>tk_phase := ph\<rparr>], sv_active_streams := n, sv_streams := streams\<rparr>)"
    by (simp add: extends_def nth_update_same)
qed

lemma active_positive:
  assumes "registry_ok s" "in_phase t Returned s"
  shows "sv_active_streams s \<noteq> 0"
proof -
  have "sv_tasks s ! t \<in> set (filter (\<lambda>t. tk_phase t \<in> {Running, Returned}) (sv_tasks s))"
    using assms(2) by (simp add: in_phase_def)
  then show ?thesis using assms(1) by (auto simp: registry_ok_def simp del: set_filter)
qed

lemma task_step_ok:
  assumes "registry_ok s"
  shows "registry_ok (task_step ev s) \<and> extends s (task_step ev s)"
proof (cases ev)
  case (StartTask t)
  show ?thesis
  proof (cases "in_phase t Spawned s")
    case True
    have eq: "start_task t s = s\<lparr>sv_tasks := (sv_tasks s)[t := (sv_tasks s ! t)\<lparr>tk_phase := Running\<rparr>],
        sv_active_streams := sv_active_streams s + 1, sv_streams := sv_streams s\<rparr>"
      by (simp add: start_task_def set_phase_def)
    show ?thesis using True StartTask set_phase_ok [OF assms, of t Spawned "sv_active_streams s + 1" Running "sv_streams s"]
      by (simp add: eq in_phase_def)
  qed (use StartTask assms in simp)
next
  case (TakeMsg t)
  show ?thesis
  proof (cases "in_phase t Running s")
    case True
    then have t: "t < length (sv_tasks s)" by (simp add: in_phase_def)
    have "task_ok ((sv_tasks s ! t)\<lparr>tk_queue := tl (tk_queue (sv_tasks s ! t))\<rparr>)"
      using nth_task_ok [OF assms t] by (auto simp: task_ok_def)
    with update_task_ok [OF assms _ _ _ this t] True TakeMsg show ?thesis by (simp add: take_msg_def)
  qed (use TakeMsg assms in simp)
next
  case (ReturnTask t)
  show ?thesis
  proof (cases "in_phase t Running s")
    case True
    have eq: "return_task t s = s\<lparr>sv_tasks := (sv_tasks s)[t := (sv_tasks s ! t)\<lparr>tk_phase := Returned\<rparr>],
        sv_active_streams := sv_active_streams s, sv_streams := sv_streams s\<rparr>"
      by (simp add: return_task_def set_phase_def)
    show ?thesis using True ReturnTask set_phase_ok [OF assms, of t Running "sv_active_streams s" Returned "sv_streams s"]
      by (simp add: eq in_phase_def)
  qed (use ReturnTask assms in simp)
next
  case (CleanupTask t)
  show ?thesis
  proof (cases "in_phase t Returned s")
    case True
    let ?sid = "tk_stream (sv_tasks s ! t)"
    let ?streams = "if (case map_of (sv_streams s) ?sid of Some h \<Rightarrow> sh_generation h = tk_generation (sv_tasks s ! t) | None \<Rightarrow> False)
      then AList.delete ?sid (sv_streams s) else sv_streams s"
    have eq: "cleanup_task t s = s\<lparr>sv_tasks := (sv_tasks s)[t := (sv_tasks s ! t)\<lparr>tk_phase := Finished\<rparr>],
        sv_active_streams := sv_active_streams s - 1, sv_streams := ?streams\<rparr>"
      using active_positive [OF assms True] by (simp add: cleanup_task_def set_phase_def Let_def)
    have sub: "map_of ?streams sid = Some h \<Longrightarrow> map_of (sv_streams s) sid = Some h" for sid h
      by (auto simp: AList.delete_conv' split: if_splits)
    show ?thesis
      using True CleanupTask set_phase_ok [OF assms _ _ _ sub, of t Returned "sv_active_streams s - 1" Finished] active_positive [OF assms True]
      unfolding CleanupTask by (simp add: eq in_phase_def)
  qed (use CleanupTask assms in simp)
qed (use assms in simp_all)

text \<open>A connection that holds a sender for a stream holds one of that stream's pipelines.\<close>

fun conn_ok :: "server \<Rightarrow> conn \<Rightarrow> bool" where
  "conn_ok s (Sending sid tx msg) = points_to s sid tx"
| "conn_ok s (Bounced sid tx msg) = points_to s sid tx"
| "conn_ok s (Resending sid tx msg) = points_to s sid tx"
| "conn_ok s c = True"

definition node_inv :: "node \<Rightarrow> bool" where
  "node_inv n \<longleftrightarrow> registry_ok (nd_server n) \<and> (\<forall>c \<in> set (nd_conns n). conn_ok (nd_server n) c)"

lemma conn_ok_extends: "conn_ok s c \<Longrightarrow> extends s s' \<Longrightarrow> conn_ok s' c"
  by (cases c) (auto intro: points_to_extends)

lemma conn_receive_ok:
  assumes "registry_ok s" "conn_ok s c" "conn_receive env cfg m c s = (c', s')"
  shows "registry_ok s' \<and> extends s s' \<and> conn_ok s' c'"
proof (cases c)
  case Ready
  then show ?thesis
    using assms(3) ensure_ok [OF assms(1), of cfg "msg_stream_id m" None]
    by (auto simp: conn_receive_def split: prod.splits option.splits)
qed (use assms in \<open>auto simp: conn_receive_def\<close>)

lemma conn_advance_ok:
  assumes "registry_ok s" "conn_ok s c" "conn_advance cfg c s = (c', s')"
  shows "registry_ok s' \<and> extends s s' \<and> conn_ok s' c'"
proof (cases c)
  case (Sending sid tx msg)
  then have "tx < length (sv_tasks s)" using assms(2) by (simp add: points_to_def)
  from try_send_ok [OF assms(1) this, of msg] show ?thesis
    using assms(2,3) Sending by (auto simp: conn_advance_def intro: points_to_extends split: prod.splits option.splits)
next
  case (Bounced sid tx msg)
  then show ?thesis using assms evict_ok [OF assms(1), of sid tx] by (auto simp: conn_advance_def)
next
  case (Evicted sid msg)
  then show ?thesis
    using assms(3) ensure_ok [OF assms(1), of cfg sid None] by (auto simp: conn_advance_def split: prod.splits)
next
  case (Resending sid tx msg)
  then have "tx < length (sv_tasks s)" using assms(2) by (simp add: points_to_def)
  from try_send_ok [OF assms(1) this, of msg] show ?thesis
    using assms(3) Resending by (auto simp: conn_advance_def)
qed (use assms in \<open>simp_all add: conn_advance_def\<close>)

lemma on_conn_inv:
  assumes "node_inv n" "\<And>c c' s'. conn_ok (nd_server n) c \<Longrightarrow> f c (nd_server n) = (c', s') \<Longrightarrow>
      registry_ok s' \<and> extends (nd_server n) s' \<and> conn_ok s' c'"
  shows "node_inv (on_conn i f n)"
proof (cases "i < length (nd_conns n)")
  case True
  obtain c' s' where f: "f (nd_conns n ! i) (nd_server n) = (c', s')" by (rule prod.exhaust)
  have "conn_ok (nd_server n) (nd_conns n ! i)" using assms(1) True by (simp add: node_inv_def)
  from assms(2) [OF this f] assms(1) show ?thesis
    using True f by (auto simp: on_conn_def node_inv_def intro: conn_ok_extends dest!: set_update_subset_insert [THEN subsetD])
qed (use assms in \<open>simp add: on_conn_def\<close>)

lemma node_inv_step:
  assumes "node_inv n"
  shows "node_inv (node_step env cfg ev n)"
proof -
  have reg: "registry_ok (nd_server n)" using assms by (simp add: node_inv_def)
  have tasks: "node_inv (n\<lparr>nd_server := task_step ev (nd_server n)\<rparr>)"
    using assms task_step_ok [OF reg, of ev] by (auto simp: node_inv_def intro: conn_ok_extends)
  show ?thesis
  proof (cases ev)
    case (Greet st)
    then show ?thesis
      using assms ensure_ok [OF reg, of cfg "ih_stream_id st" "seed_or_none env st"]
      by (auto simp: node_step_def greet_stream_def node_inv_def intro: conn_ok_extends)
  next
    case (Receive i m)
    then show ?thesis using conn_receive_ok [OF reg] by (auto simp: node_step_def intro!: on_conn_inv [OF assms])
  next
    case (Advance i)
    then show ?thesis using conn_advance_ok [OF reg] by (auto simp: node_step_def intro!: on_conn_inv [OF assms])
  qed (use tasks in \<open>simp_all add: node_step_def\<close>)
qed

interpretation ingest: machine "node_step env cfg" node_inv for env cfg
  by unfold_locales (rule node_inv_step)

definition node_start :: "nat \<Rightarrow> node" where
  "node_start k = \<lparr>nd_server = server_empty, nd_conns = replicate k Ready\<rparr>"

lemma node_inv_start: "node_inv (node_start k)"
  by (simp add: node_inv_def node_start_def registry_ok_def server_empty_def)

lemmas node_inv_run = ingest.run_inv [OF node_inv_start]

text \<open>
  C16. Streams do not mix, however connections and pipelines interleave: a message that a connection
  is about to put into a channel was received for the very stream the pipeline at the other end
  records, and the stream table maps every stream to a pipeline of that stream; the count of active
  streams is the number of pipelines that have started and not cleaned up, so it never wraps, and
  no channel holds more messages than its capacity.
\<close>

theorem ingest_streams_do_not_mix:
  assumes "n = fold (node_step env cfg) evs (node_start k)"
  shows "(\<forall>c \<in> set (nd_conns n). \<forall>sid tx msg. c = Sending sid tx msg \<or> c = Resending sid tx msg \<longrightarrow>
       tx < length (sv_tasks (nd_server n)) \<and> st_stream_id (tk_cfg (sv_tasks (nd_server n) ! tx)) = unat sid
       \<and> lc_stream_id (tk_v2_cfg (sv_tasks (nd_server n) ! tx)) = unat sid)
    \<and> (\<forall>sid h. map_of (sv_streams (nd_server n)) sid = Some h \<longrightarrow>
         sh_tx h < length (sv_tasks (nd_server n)) \<and> tk_stream (sv_tasks (nd_server n) ! sh_tx h) = sid)
    \<and> sv_active_streams (nd_server n) = length (filter (\<lambda>t. tk_phase t \<in> {Running, Returned}) (sv_tasks (nd_server n)))
    \<and> (\<forall>t \<in> set (sv_tasks (nd_server n)). length (tk_queue t) \<le> CHANNEL_CAPACITY)"
proof -
  have inv: "node_inv n" using node_inv_run [of env cfg evs k] assms by simp
  then have reg: "registry_ok (nd_server n)" by (simp add: node_inv_def)
  have p: "points_to (nd_server n) sid tx \<Longrightarrow> tx < length (sv_tasks (nd_server n))
      \<and> st_stream_id (tk_cfg (sv_tasks (nd_server n) ! tx)) = unat sid
      \<and> lc_stream_id (tk_v2_cfg (sv_tasks (nd_server n) ! tx)) = unat sid" for sid tx
    using nth_task_ok [OF reg, of tx] by (auto simp: points_to_def task_ok_def)
  have conns: "\<forall>c \<in> set (nd_conns n). \<forall>sid tx msg. c = Sending sid tx msg \<or> c = Resending sid tx msg \<longrightarrow>
       tx < length (sv_tasks (nd_server n)) \<and> st_stream_id (tk_cfg (sv_tasks (nd_server n) ! tx)) = unat sid
       \<and> lc_stream_id (tk_v2_cfg (sv_tasks (nd_server n) ! tx)) = unat sid"
  proof (intro ballI allI impI)
    fix c sid tx msg assume c: "c \<in> set (nd_conns n)" "c = Sending sid tx msg \<or> c = Resending sid tx msg"
    then have "points_to (nd_server n) sid tx" using inv by (fastforce simp: node_inv_def)
    then show "tx < length (sv_tasks (nd_server n)) \<and> st_stream_id (tk_cfg (sv_tasks (nd_server n) ! tx)) = unat sid
       \<and> lc_stream_id (tk_v2_cfg (sv_tasks (nd_server n) ! tx)) = unat sid" by (rule p)
  qed
  have "\<forall>t \<in> set (sv_tasks (nd_server n)). length (tk_queue t) \<le> CHANNEL_CAPACITY"
    using reg by (simp add: registry_ok_def task_ok_def)
  with conns reg show ?thesis unfolding registry_ok_def by blast
qed

section \<open>A sample server\<close>

definition sample_ingest_env :: ingest_env where
  "sample_ingest_env =
     \<lparr>ie_b64_decode = (\<lambda>s. Some (as_bytes s)),
      ie_hello = (\<lambda>b. Some \<lparr>ih_agent_id = ''a'', ih_token = to_str b, ih_streams = []\<rparr>),
      ie_json = (\<lambda>_. None), ie_motion = (\<lambda>_. None)\<rparr>"

definition sample_ingest_config :: ingest_config where
  "sample_ingest_config =
     (case load_ingest_config [(''SERVER_TOKEN'', ''s'')] of Inr cfg \<Rightarrow> cfg | Inl _ \<Rightarrow> undefined)"

definition rtp_for :: "u32 \<Rightarrow> Msg" where
  "rtp_for sid = \<lparr>msg_type = RTP, msg_stream_id = sid, msg_payload = [1]\<rparr>"

theorem ingest_streams_do_not_mix_witness:
  "sv_active_streams (nd_server (fold (node_step sample_ingest_env sample_ingest_config)
     [Receive 0 (rtp_for 7), StartTask 0] (node_start 1))) = 1"
proof -
  let ?n = "fold (node_step sample_ingest_env sample_ingest_config) [Receive 0 (rtp_for 7), StartTask 0] (node_start 1)"
  have "map tk_phase (sv_tasks (nd_server ?n)) = [Running]"
    by (simp add: node_step_def on_conn_def node_start_def conn_receive_def ensure_stream_def spawn_stream_def server_empty_def
        rtp_for_def Let_def in_phase_def start_task_def set_phase_def)
  then obtain t where "sv_tasks (nd_server ?n) = [t]" "tk_phase t = Running" by auto
  with ingest_streams_do_not_mix [OF refl, of sample_ingest_env sample_ingest_config "[Receive 0 (rtp_for 7), StartTask 0]" 1]
  show ?thesis by simp
qed

text \<open>
  The cleanup of an old pipeline can remove the entry of its successor. Evicting a closed stream
  forgets its generation, so the next pipeline gets generation 1 again; when the old one, of
  generation 1 too, then cleans up, it removes the new entry, and the next message starts a third
  pipeline while the second is still running: two pipelines of one stream at the same time.
\<close>

theorem ingest_stale_cleanup:
  "map (\<lambda>t. (tk_stream t, tk_phase t)) (sv_tasks (nd_server (fold (node_step env cfg)
      [Receive 0 (rtp_for 7), Advance 0, StartTask 0, Receive 0 (rtp_for 7), ReturnTask 0, Advance 0, Advance 0, Advance 0, Advance 0,
       StartTask 1, CleanupTask 0, Receive 0 (rtp_for 7), StartTask 2] (node_start 1))))
   = [(7, Finished), (7, Running), (7, Running)]"
  by (simp add: node_step_def on_conn_def node_start_def conn_receive_def conn_advance_def ensure_stream_def spawn_stream_def
      server_empty_def rtp_for_def Let_def in_phase_def start_task_def set_phase_def return_task_def cleanup_task_def
      try_send_stream_msg_def evict_stream_if_same_sender_def is_closed_def stream_msg_of_def RTP_def CHANNEL_CAPACITY_def)

section \<open>The token\<close>

lemma read_msg_no_panic: "read_msg r \<noteq> Panic"
  by (auto simp: read_msg_def read_exact_def bindR_def Let_def split: rust.splits if_splits)

lemma conn_loop_ends: "\<exists>e. fst (conn_loop env cfg r s) = Some (ReadFailed e)"
proof (induction env cfg r s rule: conn_loop.induct)
  case (1 env cfg r s)
  show ?case
  proof (cases "read_msg r")
    case (Ok p)
    then show ?thesis using 1 by (subst conn_loop.simps) (auto split: prod.splits)
  qed (use read_msg_no_panic [of r] in \<open>simp_all add: conn_loop.simps [of env cfg r s]\<close>)
qed

text \<open>
  C24. Without the token nothing happens: the server does not start with a missing, blank or default
  token, and a connection whose first message is not a greeting with the configured token ends with
  an error and leaves all streams and pipelines as they were, whatever else it sends.
\<close>

theorem ingest_requires_token:
  assumes "load_ingest_config ov = Inr cfg"
    and "\<forall>m r' h. read_msg r = Ok (m, r') \<and> msg_type m = HELLO \<and> ie_hello env (msg_payload m) = Some h
           \<longrightarrow> ih_token h \<noteq> ig_token cfg"
  shows "snd (handle_conn env cfg r s) = s \<and> fst (handle_conn env cfg r s) \<noteq> None
    \<and> trim (ig_token cfg) \<noteq> [] \<and> ig_token cfg \<noteq> ''devtoken''"
proof -
  have "snd (handle_conn env cfg r s) = s \<and> fst (handle_conn env cfg r s) \<noteq> None"
    using assms(2) read_msg_no_panic [of r]
    by (cases "read_msg r") (auto simp: handle_conn_def split: option.splits)
  moreover have "trim (ig_token cfg) \<noteq> [] \<and> ig_token cfg \<noteq> ''devtoken''"
    using assms(1) by (auto simp: load_ingest_config_def validate_server_token_def ingest_var_def Let_def split: option.splits if_splits)
  ultimately show ?thesis by blast
qed

lemma sample_ingest_loads: "load_ingest_config [(''SERVER_TOKEN'', ''s'')] = Inr sample_ingest_config"
proof -
  have "trim ''s'' = ''s''" by code_simp
  then show ?thesis
    by (simp add: sample_ingest_config_def load_ingest_config_def ingest_var_def runtime_var_def validate_server_token_def Let_def)
qed

theorem ingest_requires_token_witness:
  "snd (handle_conn sample_ingest_env sample_ingest_config [0, 1, 2] server_empty) = server_empty"
proof -
  have "read_msg [0, 1, 2] = Err UnexpectedEof" by (simp add: read_msg_def read_exact_def)
  then have "\<forall>m r' h. read_msg [0, 1, 2] = Ok (m, r') \<and> msg_type m = HELLO \<and> ie_hello sample_ingest_env (msg_payload m) = Some h
      \<longrightarrow> ih_token h \<noteq> ig_token sample_ingest_config" by simp
  from ingest_requires_token [OF sample_ingest_loads this] show ?thesis by blast
qed

section \<open>Delivery\<close>

definition stream_queue :: "server \<Rightarrow> u32 \<Rightarrow> StreamMsg list" where
  "stream_queue s sid = (case map_of (sv_streams s) sid of Some h \<Rightarrow> tk_queue (sv_tasks s ! sh_tx h) | None \<Rightarrow> [])"

definition settled :: "server \<Rightarrow> bool" where
  "settled s \<longleftrightarrow> registry_ok s \<and> (\<forall>sid h. map_of (sv_streams s) sid = Some h \<longrightarrow> \<not> is_closed s (sh_tx h))"

lemma settled_handle:
  "settled s \<Longrightarrow> map_of (sv_streams s) sid = Some h \<Longrightarrow>
     sh_tx h < length (sv_tasks s) \<and> tk_stream (sv_tasks s ! sh_tx h) = sid \<and> \<not> is_closed s (sh_tx h)"
  by (simp add: settled_def registry_ok_def)

lemma spawn_settled:
  assumes "settled s" "map_of (sv_streams s) sid = None" "spawn_stream cfg sid seed s = (tx, s')"
  shows "settled s' \<and> (\<forall>k. stream_queue s' k = stream_queue s k) \<and> (\<exists>h. map_of (sv_streams s') sid = Some h \<and> sh_tx h = tx)"
proof -
  have reg: "registry_ok s'" using assms spawn_ok(1) [of s cfg sid seed] by (simp add: settled_def)
  have s': "sv_streams s' = AList.update sid \<lparr>sh_tx = length (sv_tasks s), sh_generation = 1\<rparr> (sv_streams s)" "tx = length (sv_tasks s)"
      "\<exists>t. sv_tasks s' = sv_tasks s @ [t] \<and> tk_phase t = Spawned \<and> tk_queue t = []"
    using assms(2,3) by (auto simp: spawn_stream_def Let_def)
  then obtain t where t: "sv_tasks s' = sv_tasks s @ [t]" "tk_phase t = Spawned" "tk_queue t = []" by blast
  have "\<not> is_closed s' (sh_tx h)" if "map_of (sv_streams s') k = Some h" for k h
    using that settled_handle [OF assms(1), of k h] s' t
    by (auto simp: is_closed_def AList.update_conv' nth_append split: if_splits)
  moreover have "stream_queue s' k = stream_queue s k" for k
    using settled_handle [OF assms(1), of k] s' t assms(2)
    by (auto simp: stream_queue_def AList.update_conv' nth_append split: option.splits)
  ultimately show ?thesis using reg s' by (simp add: settled_def AList.update_conv')
qed

lemma ensure_settled:
  assumes "settled s" "ensure_stream cfg sid seed s = (tx, s')"
  shows "settled s' \<and> (\<forall>k. stream_queue s' k = stream_queue s k) \<and> (\<exists>h. map_of (sv_streams s') sid = Some h \<and> sh_tx h = tx)"
proof (cases "map_of (sv_streams s) sid")
  case None
  with assms show ?thesis by (intro spawn_settled [of s sid cfg seed tx s']) (simp_all add: ensure_stream_def)
next
  case (Some h)
  with assms settled_handle [OF assms(1) Some] show ?thesis by (auto simp: ensure_stream_def)
qed

lemma send_settled:
  assumes "settled s" "map_of (sv_streams s) sid = Some h" "length (stream_queue s sid) < CHANNEL_CAPACITY"
    and "try_send_stream_msg (sh_tx h) msg s = (r, s')"
  shows "r = None \<and> settled s' \<and> (\<forall>k. stream_queue s' k = stream_queue s k @ (if k = sid then [msg] else []))"
proof -
  note h = settled_handle [OF assms(1,2)]
  have reg: "registry_ok s'" using try_send_ok(1) [of s "sh_tx h" msg] assms(1,4) h by (simp add: settled_def)
  have q: "stream_queue s sid = tk_queue (sv_tasks s ! sh_tx h)" using assms(2) by (simp add: stream_queue_def)
  have s': "s' = s\<lparr>sv_tasks := (sv_tasks s)[sh_tx h := (sv_tasks s ! sh_tx h)\<lparr>tk_queue := tk_queue (sv_tasks s ! sh_tx h) @ [msg]\<rparr>]\<rparr>" "r = None"
    using assms(3,4) h q by (auto simp: try_send_stream_msg_def)
  have open_: "\<not> is_closed s' (sh_tx g)" if "map_of (sv_streams s') k = Some g" for k g
    using settled_handle [OF assms(1), of k g] that s'(1) by (auto simp: is_closed_def nth_update_same)
  have "stream_queue s' k = stream_queue s k @ (if k = sid then [msg] else [])" for k
  proof (cases "map_of (sv_streams s) k")
    case (Some g)
    have "tk_stream (sv_tasks s ! sh_tx g) = k" "tk_stream (sv_tasks s ! sh_tx h) = sid"
      using settled_handle [OF assms(1) Some] h by blast+
    then have "sh_tx g = sh_tx h \<Longrightarrow> k = sid" by metis
    note tx = this
    show ?thesis
    proof (cases "k = sid")
      case True
      with Some assms(2) have "g = h" by simp
      with True Some h show ?thesis unfolding s'(1) by (simp add: stream_queue_def)
    next
      case False
      with tx have "sh_tx h \<noteq> sh_tx g" by metis
      with False Some show ?thesis unfolding s'(1) by (simp add: stream_queue_def)
    qed
  qed (use s'(1) assms(2) in \<open>auto simp: stream_queue_def\<close>)
  with reg open_ s'(2) show ?thesis unfolding settled_def by blast
qed

definition options :: "'a option \<Rightarrow> 'a list" where
  "options x = (case x of None \<Rightarrow> [] | Some y \<Rightarrow> [y])"

lemma handle_msg_settled:
  assumes "settled s" "length (stream_queue s (msg_stream_id m)) < CHANNEL_CAPACITY"
  shows "settled (handle_msg env cfg m s)
    \<and> (\<forall>k. stream_queue (handle_msg env cfg m s) k = stream_queue s k @ (if k = msg_stream_id m then options (stream_msg_of env m) else []))"
proof -
  obtain tx s1 where e: "ensure_stream cfg (msg_stream_id m) None s = (tx, s1)" by (rule prod.exhaust)
  from ensure_settled [OF assms(1) e] obtain h where h: "settled s1" "\<forall>k. stream_queue s1 k = stream_queue s k"
    "map_of (sv_streams s1) (msg_stream_id m) = Some h" "sh_tx h = tx" by blast
  show ?thesis
  proof (cases "stream_msg_of env m")
    case None
    with e h show ?thesis by (simp add: handle_msg_def options_def)
  next
    case (Some msg)
    obtain r s2 where t: "try_send_stream_msg (sh_tx h) msg s1 = (r, s2)" by (rule prod.exhaust)
    have "length (stream_queue s1 (msg_stream_id m)) < CHANNEL_CAPACITY" using assms(2) h(2) by simp
    from send_settled [OF h(1,3) this t] show ?thesis
      using e h t Some by (auto simp: handle_msg_def send_or_recreate_stream_msg_def options_def)
  qed
qed

lemma handle_msgs_settled:
  assumes "settled s" "\<forall>sid. length (stream_queue s sid) + length ms \<le> CHANNEL_CAPACITY"
  shows "settled (fold (handle_msg env cfg) ms s) \<and> (\<forall>k. stream_queue (fold (handle_msg env cfg) ms s) k
    = stream_queue s k @ concat (map (\<lambda>m. options (stream_msg_of env m)) (filter (\<lambda>m. msg_stream_id m = k) ms)))"
  using assms
proof (induction ms arbitrary: s)
  case (Cons m ms)
  have l: "length (stream_queue s (msg_stream_id m)) < CHANNEL_CAPACITY"
    using Cons.prems(2) [rule_format, of "msg_stream_id m"] by simp
  note h = handle_msg_settled [OF Cons.prems(1) l, of env cfg]
  have "length (options (stream_msg_of env m)) \<le> 1" by (simp add: options_def split: option.splits)
  then have "length (stream_queue (handle_msg env cfg m s) sid) \<le> length (stream_queue s sid) + 1" for sid
    using conjunct2 [OF h, rule_format, of sid] by simp
  then have "\<forall>sid. length (stream_queue (handle_msg env cfg m s) sid) + length ms \<le> CHANNEL_CAPACITY"
    using Cons.prems(2) by (metis (no_types, lifting) Suc_eq_plus1 add_Suc_shift add_le_mono1 length_Cons order_trans)
  from Cons.IH [OF conjunct1 [OF h] this] conjunct2 [OF h] show ?case by simp
qed simp

lemma greet_settled: "settled s \<Longrightarrow> settled (fold (greet_stream env cfg) hs s)
    \<and> (\<forall>k. stream_queue (fold (greet_stream env cfg) hs s) k = stream_queue s k)"
proof (induction hs arbitrary: s)
  case (Cons st hs)
  obtain tx s1 where "ensure_stream cfg (ih_stream_id st) (seed_or_none env st) s = (tx, s1)" by (rule prod.exhaust)
  with ensure_settled [OF Cons.prems this] Cons.IH [of s1] show ?case by (simp add: greet_stream_def)
qed simp

lemma conn_loop_frames:
  "write_all_frames write_msg ms = Ok b \<Longrightarrow>
     conn_loop env cfg b s = (Some (ReadFailed UnexpectedEof), fold (handle_msg env cfg) ms s)"
proof (induction ms arbitrary: b s)
  case Nil
  then show ?case by (simp add: conn_loop.simps [of env cfg "[]"] read_msg_def read_exact_def)
next
  case (Cons m ms)
  then obtain b1 b2 where b: "write_msg m = Ok b1" "write_all_frames write_msg ms = Ok b2" "b = b1 @ b2"
    by (auto simp: bindR_eq_Ok_iff)
  then show ?case
    using Cons.IH [OF b(2)] by (simp add: conn_loop.simps [of env cfg "b1 @ b2"] msg_frames.rd_wr)
qed



end
