(* ===== verification/ServerClient.thy ===== *)
theory ServerClient
  imports Utils Config
begin

text \<open>
  \<^verbatim>\<open>src/server/server_client.rs\<close>: telemetry, heartbeats, and the restart, shutdown and firmware jobs
  the server gives to the agent. The loop that runs them is in the theory \<open>Heartbeat\<close>.

  Parameters (\<open>agent_env\<close>): the answers of the HTTP server, any function of the requests made so far;
  the clock, read by number; the decoders of \<open>serde_json\<close>; the firmware updater, which may change the
  disk; the text of errors and status codes. Files are those of the theory \<open>Storage\<close>, with its
  schedule of faults.
\<close>

section \<open>Telemetry\<close>

datatype TelemetryStatus = Operational | Degraded | Suspended

definition TelemetryStatus_as_str :: "TelemetryStatus \<Rightarrow> string" where
  "TelemetryStatus_as_str s =
     (case s of Operational \<Rightarrow> ''operational'' | Degraded \<Rightarrow> ''degraded'' | Suspended \<Rightarrow> ''suspended'')"

record TelemetryCapabilities =
  tc_face_recognition :: bool
  tc_license_plate :: bool
  tc_object_tracking :: bool
  tc_anomalous_motion :: bool

definition TelemetryCapabilities_default :: TelemetryCapabilities where
  "TelemetryCapabilities_default =
     \<lparr>tc_face_recognition = False, tc_license_plate = False, tc_object_tracking = False, tc_anomalous_motion = False\<rparr>"

record HeartbeatTelemetry =
  ht_status :: string
  ht_cpu_load_pct :: "u64 option"
  ht_memory_used_mb :: "u64 option"
  ht_memory_total_mb :: "u64 option"
  ht_active_models :: "string list"
  ht_capabilities :: TelemetryCapabilities

text \<open>How \<open>json!\<close> renders optional values and integers.\<close>

definition json_of_option :: "('a \<Rightarrow> json) \<Rightarrow> 'a option \<Rightarrow> json" where
  "json_of_option f x = (case x of None \<Rightarrow> JNull | Some y \<Rightarrow> f y)"

definition json_of_int :: "int \<Rightarrow> json" where
  "json_of_int i = JNumber (if i < 0 then NegInt i else PosInt (nat i))"

abbreviation json_of_nat :: "nat \<Rightarrow> json" where
  "json_of_nat n \<equiv> JNumber (PosInt n)"

definition HeartbeatTelemetry_as_json :: "HeartbeatTelemetry \<Rightarrow> json" where
  "HeartbeatTelemetry_as_json t = JObject
     [(''status'', JString (ht_status t)),
      (''cpu_load_pct'', json_of_option json_of_nat (ht_cpu_load_pct t)),
      (''memory_used_mb'', json_of_option json_of_nat (ht_memory_used_mb t)),
      (''memory_total_mb'', json_of_option json_of_nat (ht_memory_total_mb t)),
      (''active_models'', JArray (map JString (ht_active_models t))),
      (''capabilities'', JObject
         [(''face_recognition'', JBool (tc_face_recognition (ht_capabilities t))),
          (''license_plate'', JBool (tc_license_plate (ht_capabilities t))),
          (''object_tracking'', JBool (tc_object_tracking (ht_capabilities t))),
          (''anomalous_motion'', JBool (tc_anomalous_motion (ht_capabilities t)))])]"

record MemoryUsageMb =
  mu_used_mb :: u64
  mu_total_mb :: u64

record CpuSample =
  cs_idle :: u64
  cs_total :: u64

record TelemetrySampler =
  ts_last_cpu_sample :: "CpuSample option"

fun sanitize_loop :: "string set \<Rightarrow> string list \<Rightarrow> string list" where
  "sanitize_loop seen [] = []"
| "sanitize_loop seen (m # ms) =
     (let trimmed = trim m in
      if trimmed = [] \<or> trimmed \<in> seen then sanitize_loop seen ms
      else trimmed # sanitize_loop (insert trimmed seen) ms)"

definition sanitize_active_models :: "string list \<Rightarrow> string list" where
  "sanitize_active_models ms = sanitize_loop {} ms"

definition collect_active_models :: "string list" where
  "collect_active_models = sanitize_active_models []"

definition detect_telemetry_capabilities :: TelemetryCapabilities where
  "detect_telemetry_capabilities = TelemetryCapabilities_default"

definition build_heartbeat_telemetry ::
    "TelemetryStatus \<Rightarrow> u64 option \<Rightarrow> MemoryUsageMb option \<Rightarrow> string list \<Rightarrow> TelemetryCapabilities \<Rightarrow> HeartbeatTelemetry" where
  "build_heartbeat_telemetry status cpu_load_pct mem active_models capabilities =
     \<lparr>ht_status = TelemetryStatus_as_str status,
      ht_cpu_load_pct = map_option (\<lambda>v. min v 100) cpu_load_pct,
      ht_memory_used_mb = map_option mu_used_mb mem,
      ht_memory_total_mb = map_option mu_total_mb mem,
      ht_active_models = sanitize_active_models active_models,
      ht_capabilities = capabilities\<rparr>"

subsection \<open>Kernel counters\<close>

text \<open>Addition of two \<open>u64\<close> with overflow checks.\<close>

definition add_u64 :: "u64 \<Rightarrow> u64 \<Rightarrow> ('e, u64) rust" where
  "add_u64 a b = (if a + b \<le> u64_max then Ok (a + b) else Panic)"

fun find_map :: "('a \<Rightarrow> 'b option) \<Rightarrow> 'a list \<Rightarrow> 'b option" where
  "find_map f [] = None"
| "find_map f (x # xs) = (case f x of Some y \<Rightarrow> Some y | None \<Rightarrow> find_map f xs)"

definition parse_meminfo_value_kb :: "string \<Rightarrow> string \<Rightarrow> u64 option" where
  "parse_meminfo_value_kb raw key =
     find_map (\<lambda>line.
       case strip_prefix line key of
         None \<Rightarrow> None
       | Some rest \<Rightarrow> (case split_whitespace rest of [] \<Rightarrow> None | w # _ \<Rightarrow> parse_uint u64_max w)) (str_lines raw)"

text \<open>The memory that is available on kernels without \<open>MemAvailable\<close>; each summand is read in turn.\<close>

definition available_from_parts :: "string \<Rightarrow> (unit, u64 option) rust" where
  "available_from_parts raw =
     (case parse_meminfo_value_kb raw ''MemFree:'' of
        None \<Rightarrow> Ok None
      | Some free \<Rightarrow>
          (case parse_meminfo_value_kb raw ''Buffers:'' of
             None \<Rightarrow> Ok None
           | Some buffers \<Rightarrow>
               bindR (add_u64 free buffers) (\<lambda>s.
                 case parse_meminfo_value_kb raw ''Cached:'' of
                   None \<Rightarrow> Ok None
                 | Some cached \<Rightarrow> bindR (add_u64 s cached) (\<lambda>t. Ok (Some t)))))"

text \<open>The argument of the two readers is the text of the file, \<open>None\<close> when it cannot be read.\<close>

definition read_memory_usage_mb_from_path :: "string option \<Rightarrow> (unit, MemoryUsageMb option) rust" where
  "read_memory_usage_mb_from_path content =
     (case content of
        None \<Rightarrow> Ok None
      | Some raw \<Rightarrow>
          (case parse_meminfo_value_kb raw ''MemTotal:'' of
             None \<Rightarrow> Ok None
           | Some total_kb \<Rightarrow>
               bindR (case parse_meminfo_value_kb raw ''MemAvailable:'' of
                        Some a \<Rightarrow> Ok (Some a)
                      | None \<Rightarrow> available_from_parts raw) (\<lambda>available.
                 case available of
                   None \<Rightarrow> Ok None
                 | Some a \<Rightarrow>
                     (let available_kb = min a total_kb in
                      Ok (Some \<lparr>mu_used_mb = (total_kb - available_kb) div 1024, mu_total_mb = total_kb div 1024\<rparr>)))))"

fun sum_u64 :: "u64 \<Rightarrow> u64 list \<Rightarrow> (unit, u64) rust" where
  "sum_u64 acc [] = Ok acc"
| "sum_u64 acc (v # vs) = bindR (add_u64 acc v) (\<lambda>acc. sum_u64 acc vs)"

fun parse_all_u64 :: "string list \<Rightarrow> u64 list option" where
  "parse_all_u64 [] = Some []"
| "parse_all_u64 (w # ws) =
     (case parse_uint u64_max w of None \<Rightarrow> None | Some v \<Rightarrow> map_option (Cons v) (parse_all_u64 ws))"

definition read_cpu_sample_from_path :: "string option \<Rightarrow> (unit, CpuSample option) rust" where
  "read_cpu_sample_from_path content =
     (case content of
        None \<Rightarrow> Ok None
      | Some raw \<Rightarrow>
          (case filter (\<lambda>line. starts_with line ''cpu '') (str_lines raw) of
             [] \<Rightarrow> Ok None
           | line # _ \<Rightarrow>
               (case parse_all_u64 (drop 1 (split_whitespace line)) of
                  None \<Rightarrow> Ok None
                | Some values \<Rightarrow>
                    if length values < 4 then Ok None
                    else bindR (add_u64 (values ! 3) (if 4 < length values then values ! 4 else 0)) (\<lambda>idle.
                         bindR (sum_u64 0 values) (\<lambda>total.
                         Ok (Some \<lparr>cs_idle = idle, cs_total = total\<rparr>))))))"

definition sample_cpu_load_pct :: "CpuSample option \<Rightarrow> string option \<Rightarrow> (unit, u64 option \<times> CpuSample option) rust" where
  "sample_cpu_load_pct last_sample content =
     bindR (read_cpu_sample_from_path content) (\<lambda>current.
       case current of
         None \<Rightarrow> Ok (None, last_sample)
       | Some cur \<Rightarrow>
           (let pct = (case last_sample of
                         None \<Rightarrow> None
                       | Some previous \<Rightarrow>
                           (let total_delta = cs_total cur - cs_total previous in
                            if total_delta = 0 then None
                            else let idle_delta = cs_idle cur - cs_idle previous;
                                     busy_delta = total_delta - idle_delta in
                                 Some (min (min (busy_delta * 100) u64_max div total_delta) 100))) in
            Ok (pct, Some cur)))"

definition TelemetrySampler_new :: "string option \<Rightarrow> (unit, TelemetrySampler) rust" where
  "TelemetrySampler_new content =
     bindR (read_cpu_sample_from_path content) (\<lambda>s. Ok \<lparr>ts_last_cpu_sample = s\<rparr>)"

definition TelemetrySampler_sample ::
    "string option \<Rightarrow> string option \<Rightarrow> TelemetryStatus \<Rightarrow> TelemetrySampler
       \<Rightarrow> (unit, HeartbeatTelemetry \<times> TelemetrySampler) rust" where
  "TelemetrySampler_sample stat meminfo status ts =
     bindR (sample_cpu_load_pct (ts_last_cpu_sample ts) stat) (\<lambda>(pct, last_sample).
     bindR (read_memory_usage_mb_from_path meminfo) (\<lambda>mem.
     Ok (build_heartbeat_telemetry status pct mem collect_active_models detect_telemetry_capabilities,
         ts\<lparr>ts_last_cpu_sample := last_sample\<rparr>)))"

section \<open>The world of the agent\<close>

datatype http_method = GET | POST

record http_request =
  hr_method :: http_method
  hr_url :: string
  hr_bearer :: string
  hr_json :: "json option"

text \<open>\<open>send\<close> fails, or there is a status and a body that may fail to arrive.\<close>

datatype http_answer = NoResponse string | Response nat "string + string"

record FirmwareJobCommand =
  fj_job_id :: int
  fj_action :: string
  fj_target_version :: "string option"
  fj_status :: string
  fj_start_after_update :: bool

record RestartJobCommand =
  rj_job_id :: int
  rj_action :: string
  rj_status :: string

record ShutdownJobCommand =
  sj_job_id :: int
  sj_action :: string
  sj_status :: string

record RestartJobMarker =
  rm_job_id :: int
  rm_started_at :: string

record OnvifProbeJobCommand =
  pj_job_id :: int
  pj_action :: string
  pj_camera_id :: string

record OnvifProbeCameraConfig =
  pc_camera_id :: string
  pc_service_url :: string
  pc_username :: string
  pc_password :: string

text \<open>A run of a command: whether it exited with success, the status as text, and its output.\<close>

datatype exec_outcome = ExecTimedOut | ExecFailed string | ExecDone bool string bytes bytes

text \<open>An attempt to connect: it succeeds after some milliseconds, fails, or takes too long.\<close>

datatype tcp_outcome = Connected nat | ConnectFailed string | ConnectTimedOut

record agent_env =
  ag_answer :: "http_request list \<Rightarrow> http_answer"
  ag_status_text :: "nat \<Rightarrow> string"
  ag_status_error :: "nat \<Rightarrow> string \<Rightarrow> string"
  ag_io_text :: "io_error \<Rightarrow> string"
  ag_now :: "nat \<Rightarrow> string"
  ag_nanos :: "nat \<Rightarrow> int"
  ag_pid :: nat
  ag_env_var :: "string \<Rightarrow> string option"
  ag_exec :: "nat \<Rightarrow> string \<Rightarrow> string list \<Rightarrow> world \<Rightarrow> exec_outcome \<times> world"
  ag_firmware_response :: "string \<Rightarrow> string + FirmwareJobCommand option"
  ag_restart_response :: "string \<Rightarrow> string + RestartJobCommand option"
  ag_shutdown_response :: "string \<Rightarrow> string + ShutdownJobCommand option"
  ag_probe_response :: "string \<Rightarrow> string + OnvifProbeJobCommand option"
  ag_marker_from_str :: "string \<Rightarrow> string + RestartJobMarker"
  ag_marker_to_string :: "RestartJobMarker \<Rightarrow> string"
  ag_from_str :: "string \<Rightarrow> json option"
  ag_url_parse :: "string \<Rightarrow> string + Url"
  ag_connect :: "nat \<Rightarrow> string \<Rightarrow> tcp_outcome"
  ag_proc :: "nat \<Rightarrow> string \<Rightarrow> string option"
  ag_probe :: "nat \<Rightarrow> OnvifProbeCameraConfig \<Rightarrow> string + json"

text \<open>
  What the agent has done: the requests it made, the commands it ran, how often it read the clock,
  and how often it used one of the other sources (connections, kernel counters, probes).
\<close>

record agent_world =
  aw_disk :: world
  aw_requests :: "http_request list"
  aw_commands :: "(string \<times> string list) list"
  aw_clock :: nat
  aw_uses :: nat

type_synonym 'a agent = "agent_world \<Rightarrow> (string, 'a) rust \<times> agent_world"

definition returnA :: "'a \<Rightarrow> 'a agent" where
  "returnA x w = (Ok x, w)"

definition failA :: "string \<Rightarrow> 'a agent" where
  "failA e w = (Err e, w)"

definition bindA :: "'a agent \<Rightarrow> ('a \<Rightarrow> 'b agent) \<Rightarrow> 'b agent" where
  "bindA m f w =
     (case m w of (Ok x, w') \<Rightarrow> f x w' | (Err e, w') \<Rightarrow> (Err e, w') | (Panic, w') \<Rightarrow> (Panic, w'))"

text \<open>The result of a call as a value, for \<open>match\<close> and \<open>if let\<close>.\<close>

definition attemptA :: "'a agent \<Rightarrow> (string + 'a) agent" where
  "attemptA m w =
     (case m w of (Ok x, w') \<Rightarrow> (Ok (Inr x), w') | (Err e, w') \<Rightarrow> (Ok (Inl e), w') | (Panic, w') \<Rightarrow> (Panic, w'))"

definition diskA :: "'a io \<Rightarrow> (io_error + 'a) agent" where
  "diskA m w =
     (case m (aw_disk w) of
        (Ok x, d) \<Rightarrow> (Ok (Inr x), w\<lparr>aw_disk := d\<rparr>)
      | (Err e, d) \<Rightarrow> (Ok (Inl e), w\<lparr>aw_disk := d\<rparr>)
      | (Panic, d) \<Rightarrow> (Panic, w\<lparr>aw_disk := d\<rparr>))"

definition utc_now :: "agent_env \<Rightarrow> string agent" where
  "utc_now env w = (Ok (ag_now env (aw_clock w)), w\<lparr>aw_clock := aw_clock w + 1\<rparr>)"

definition utc_nanos :: "agent_env \<Rightarrow> int agent" where
  "utc_nanos env w = (Ok (ag_nanos env (aw_clock w)), w\<lparr>aw_clock := aw_clock w + 1\<rparr>)"

definition use_source :: "(nat \<Rightarrow> 'a) \<Rightarrow> 'a agent" where
  "use_source f w = (Ok (f (aw_uses w)), w\<lparr>aw_uses := aw_uses w + 1\<rparr>)"

definition http_send :: "agent_env \<Rightarrow> http_request \<Rightarrow> (nat \<times> (string + string)) agent" where
  "http_send env req w =
     (let w' = w\<lparr>aw_requests := aw_requests w @ [req]\<rparr> in
      case ag_answer env (aw_requests w') of
        NoResponse e \<Rightarrow> (Err e, w')
      | Response status body \<Rightarrow> (Ok (status, body), w'))"

lemma agent_run [simp]:
  "returnA x w = (Ok x, w)" "failA e w = (Err e, w)"
  "bindA (returnA x) f = f x" "bindA (failA e) f = failA e"
  by (simp_all add: returnA_def failA_def bindA_def fun_eq_iff)

section \<open>Firmware state\<close>

record FirmwareHeartbeatState =
  fw_job_id :: "int option"
  fw_current_version :: "string option"
  fw_target_version :: "string option"
  fw_status :: "string option"
  fw_error :: "string option"
  fw_can_rollback :: "bool option"
  fw_started_at :: "string option"
  fw_finished_at :: "string option"

definition FirmwareHeartbeatState_default :: FirmwareHeartbeatState where
  "FirmwareHeartbeatState_default =
     \<lparr>fw_job_id = None, fw_current_version = None, fw_target_version = None, fw_status = None, fw_error = None,
      fw_can_rollback = None, fw_started_at = None, fw_finished_at = None\<rparr>"

definition is_terminal_firmware_status :: "string option \<Rightarrow> bool" where
  "is_terminal_firmware_status status \<longleftrightarrow>
     status \<in> {Some ''succeeded'', Some ''failed'', Some ''rollback_succeeded'', Some ''rollback_failed''}"

definition is_terminal :: "FirmwareHeartbeatState \<Rightarrow> bool" where
  "is_terminal s \<longleftrightarrow> is_terminal_firmware_status (fw_status s)"

definition FirmwareHeartbeatState_as_json :: "FirmwareHeartbeatState \<Rightarrow> json option" where
  "FirmwareHeartbeatState_as_json s =
     (if s = FirmwareHeartbeatState_default then None
      else Some (JObject
        [(''job_id'', json_of_option json_of_int (fw_job_id s)),
         (''current_version'', json_of_option JString (fw_current_version s)),
         (''target_version'', json_of_option JString (fw_target_version s)),
         (''status'', json_of_option JString (fw_status s)),
         (''error'', json_of_option JString (fw_error s)),
         (''can_rollback'', json_of_option JBool (fw_can_rollback s)),
         (''started_at'', json_of_option JString (fw_started_at s)),
         (''finished_at'', json_of_option JString (fw_finished_at s))]))"

record FirmwareJobMemory =
  fm_last_terminal_state :: "FirmwareHeartbeatState option"

definition duplicate_terminal_state ::
    "FirmwareJobMemory \<Rightarrow> int \<Rightarrow> string option \<Rightarrow> bool \<Rightarrow> FirmwareHeartbeatState option" where
  "duplicate_terminal_state m job_id current_version can_rollback =
     (case fm_last_terminal_state m of
        None \<Rightarrow> None
      | Some s \<Rightarrow>
          if fw_job_id s \<noteq> Some job_id \<or> \<not> is_terminal s then None
          else Some (s\<lparr>fw_current_version := or_else current_version (fw_current_version s), fw_can_rollback := Some can_rollback\<rparr>))"

definition remember_terminal_state :: "FirmwareJobMemory \<Rightarrow> FirmwareHeartbeatState \<Rightarrow> FirmwareJobMemory" where
  "remember_terminal_state m s = (if is_terminal s then m\<lparr>fm_last_terminal_state := Some s\<rparr> else m)"

definition pending_firmware_status :: "FirmwareJobCommand \<Rightarrow> string" where
  "pending_firmware_status job = (if fj_action job = ''rollback'' then ''rollback_pending'' else ''pending'')"

definition running_firmware_status :: "FirmwareJobCommand \<Rightarrow> string" where
  "running_firmware_status job = (if fj_action job = ''rollback'' then ''rollback_running'' else ''installing'')"

definition normalize_firmware_version :: "string \<Rightarrow> string option" where
  "normalize_firmware_version v =
     (let normalized = trim (trim_start_matches (CHR ''v'') (trim v)) in
      if normalized = [] then None else Some normalized)"

definition firmware_versions_match :: "string option \<Rightarrow> string option \<Rightarrow> bool" where
  "firmware_versions_match installed_version target_version =
     (case (installed_version, target_version) of
        (Some installed, Some target) \<Rightarrow> normalize_firmware_version installed = normalize_firmware_version target
      | _ \<Rightarrow> False)"

definition FIRMWARE_VERSION_PATH :: string where
  "FIRMWARE_VERSION_PATH = ''/etc/sentinel_rtp_cam/firmware-version''"

definition FIRMWARE_BACKUP_BINARY_PATH :: string where
  "FIRMWARE_BACKUP_BINARY_PATH = ''/usr/local/bin/sentinel-agent.prev''"

definition LEGACY_FIRMWARE_BACKUP_BINARY_PATH_ALT :: string where
  "LEGACY_FIRMWARE_BACKUP_BINARY_PATH_ALT = ''/usr/local/bin/agent_forward.prev''"

definition LEGACY_FIRMWARE_BACKUP_BINARY_PATH :: string where
  "LEGACY_FIRMWARE_BACKUP_BINARY_PATH = ''/usr/local/bin/sentinel_rtp_cam.prev''"

definition DEFAULT_FIRMWARE_UPDATER_CMD :: string where
  "DEFAULT_FIRMWARE_UPDATER_CMD = ''/usr/local/bin/sentinel-firmware-update''"

definition RESTART_JOB_MARKER_PATH :: string where
  "RESTART_JOB_MARKER_PATH = ''/var/lib/sentinel_rtp_cam/restart-job.json''"

definition RESTART_EXIT_CODE :: int where
  "RESTART_EXIT_CODE = 75"

definition path_exists :: "string \<Rightarrow> bool agent" where
  "path_exists path = bindA (diskA (fs_metadata path)) (\<lambda>r. returnA (case r of Inl _ \<Rightarrow> False | Inr _ \<Rightarrow> True))"

definition read_installed_firmware_version_from_path :: "string \<Rightarrow> (string option) agent" where
  "read_installed_firmware_version_from_path path =
     bindA (diskA (read_to_string path)) (\<lambda>r. returnA (case r of
       Inl _ \<Rightarrow> None
     | Inr raw \<Rightarrow> if trim raw = [] then None else Some (trim raw)))"

definition pick_installed_firmware_version :: "string option \<Rightarrow> string option \<Rightarrow> string option \<Rightarrow> string option" where
  "pick_installed_firmware_version file_version runtime_override env_override =
     or_else (nonblank file_version) (or_else (nonblank runtime_override) (nonblank env_override))"

definition read_installed_firmware_version :: "agent_env \<Rightarrow> overrides \<Rightarrow> (string option) agent" where
  "read_installed_firmware_version env ov =
     bindA (read_installed_firmware_version_from_path FIRMWARE_VERSION_PATH) (\<lambda>v.
     returnA (pick_installed_firmware_version v (runtime_var ov ''SENTINEL_VERSION'') (ag_env_var env ''SENTINEL_VERSION'')))"

definition build_idle_firmware_state :: "string option \<Rightarrow> bool \<Rightarrow> FirmwareHeartbeatState" where
  "build_idle_firmware_state current_version can_rollback =
     FirmwareHeartbeatState_default\<lparr>fw_current_version := current_version, fw_target_version := None,
       fw_status := Some ''idle'', fw_can_rollback := Some can_rollback\<rparr>"

fun backup_binary_exists :: "string list \<Rightarrow> bool agent" where
  "backup_binary_exists [] = returnA False"
| "backup_binary_exists (p # ps) = bindA (path_exists p) (\<lambda>e. if e then returnA True else backup_binary_exists ps)"

definition baseline_firmware_state :: "agent_env \<Rightarrow> overrides \<Rightarrow> FirmwareHeartbeatState agent" where
  "baseline_firmware_state env ov =
     bindA (read_installed_firmware_version env ov) (\<lambda>v.
     bindA (backup_binary_exists [FIRMWARE_BACKUP_BINARY_PATH, LEGACY_FIRMWARE_BACKUP_BINARY_PATH_ALT,
              LEGACY_FIRMWARE_BACKUP_BINARY_PATH]) (\<lambda>b.
     returnA (build_idle_firmware_state v b)))"

section \<open>Requests\<close>

datatype 'a FallbackOutcome = FallbackNotFound | FallbackSuccess 'a

fun try_fallback_paths :: "string list \<Rightarrow> (string \<Rightarrow> 'a FallbackOutcome agent) \<Rightarrow> ('a option) agent" where
  "try_fallback_paths [] attempt = returnA None"
| "try_fallback_paths (path # paths) attempt =
     bindA (attempt path) (\<lambda>r.
       case r of FallbackNotFound \<Rightarrow> try_fallback_paths paths attempt | FallbackSuccess v \<Rightarrow> returnA (Some v))"

definition error_for_status :: "agent_env \<Rightarrow> nat \<Rightarrow> string \<Rightarrow> unit agent" where
  "error_for_status env status url =
     (if 400 \<le> status \<and> status < 600 then failA (ag_status_error env status url) else returnA ())"

definition is_auth_failure_status :: "nat \<Rightarrow> bool" where
  "is_auth_failure_status status \<longleftrightarrow> status = 401 \<or> status = 403"

definition post_request :: "ServerConfig \<Rightarrow> json \<Rightarrow> string \<Rightarrow> http_request" where
  "post_request cfg payload path =
     \<lparr>hr_method = POST, hr_url = base_url_prefix cfg @ path, hr_bearer = sv_bearer_token cfg, hr_json = Some payload\<rparr>"

definition get_request :: "ServerConfig \<Rightarrow> string \<Rightarrow> http_request" where
  "get_request cfg path =
     \<lparr>hr_method = GET, hr_url = base_url_prefix cfg @ path, hr_bearer = sv_bearer_token cfg, hr_json = None\<rparr>"

definition auth_failed_text :: "agent_env \<Rightarrow> nat \<Rightarrow> string" where
  "auth_failed_text env status =
     ''AGENT_AUTH_FAILED: heartbeat rejected with '' @ ag_status_text env status @ ''. Update local server.json token and retry.''"

definition heartbeat_paths :: "string list" where
  "heartbeat_paths = [''/api/v1/heartbeat'', ''/api/heartbeat'']"

definition attempt_heartbeat :: "agent_env \<Rightarrow> ServerConfig \<Rightarrow> json \<Rightarrow> string \<Rightarrow> unit FallbackOutcome agent" where
  "attempt_heartbeat env cfg payload path =
     bindA (http_send env (post_request cfg payload path)) (\<lambda>(status, _).
       if is_auth_failure_status status then failA (auth_failed_text env status)
       else if status = 404 then returnA FallbackNotFound
       else bindA (error_for_status env status (base_url_prefix cfg @ path)) (\<lambda>_. returnA (FallbackSuccess ())))"

definition post_heartbeat :: "agent_env \<Rightarrow> ServerConfig \<Rightarrow> json \<Rightarrow> unit agent" where
  "post_heartbeat env cfg payload =
     bindA (try_fallback_paths heartbeat_paths (attempt_heartbeat env cfg payload)) (\<lambda>posted.
       case posted of Some _ \<Rightarrow> returnA () | None \<Rightarrow> failA ''No heartbeat endpoint available'')"

definition report_paths :: "string list" where
  "report_paths = [''/api/agent/onvif/report'', ''/api/v1/agent/onvif/report'']"

definition attempt_report :: "agent_env \<Rightarrow> ServerConfig \<Rightarrow> json \<Rightarrow> string \<Rightarrow> unit FallbackOutcome agent" where
  "attempt_report env cfg payload path =
     bindA (http_send env (post_request cfg payload path)) (\<lambda>(status, _).
       if status = 404 then returnA FallbackNotFound
       else bindA (error_for_status env status (base_url_prefix cfg @ path)) (\<lambda>_. returnA (FallbackSuccess ())))"

definition post_onvif_probe_report :: "agent_env \<Rightarrow> ServerConfig \<Rightarrow> json \<Rightarrow> unit agent" where
  "post_onvif_probe_report env cfg payload =
     bindA (try_fallback_paths report_paths (attempt_report env cfg payload)) (\<lambda>posted.
       case posted of Some _ \<Rightarrow> returnA () | None \<Rightarrow> failA ''No ONVIF probe report endpoint available'')"

text \<open>Asking for a job: the answer is decoded by \<open>response.json()\<close>.\<close>

definition attempt_fetch :: "agent_env \<Rightarrow> ServerConfig \<Rightarrow> (string \<Rightarrow> string + 'j) \<Rightarrow> string \<Rightarrow> 'j FallbackOutcome agent" where
  "attempt_fetch env cfg decode path =
     bindA (http_send env (get_request cfg path)) (\<lambda>(status, body).
       if status = 404 then returnA FallbackNotFound
       else bindA (error_for_status env status (base_url_prefix cfg @ path)) (\<lambda>_.
         case body of
           Inl e \<Rightarrow> failA e
         | Inr text \<Rightarrow> (case decode text of Inl e \<Rightarrow> failA e | Inr j \<Rightarrow> returnA (FallbackSuccess j))))"

definition fetch_job :: "agent_env \<Rightarrow> ServerConfig \<Rightarrow> (string \<Rightarrow> string + 'j option) \<Rightarrow> string list \<Rightarrow> ('j option) agent" where
  "fetch_job env cfg decode paths =
     bindA (try_fallback_paths paths (attempt_fetch env cfg decode)) (\<lambda>payload. returnA (Option.bind payload (\<lambda>j. j)))"

definition fetch_restart_job_command :: "agent_env \<Rightarrow> ServerConfig \<Rightarrow> (RestartJobCommand option) agent" where
  "fetch_restart_job_command env cfg =
     fetch_job env cfg (ag_restart_response env) [''/api/v1/agent/restart/job'', ''/api/agent/restart/job'']"

definition fetch_shutdown_job_command :: "agent_env \<Rightarrow> ServerConfig \<Rightarrow> (ShutdownJobCommand option) agent" where
  "fetch_shutdown_job_command env cfg =
     fetch_job env cfg (ag_shutdown_response env) [''/api/v1/agent/shutdown/job'', ''/api/agent/shutdown/job'']"

definition fetch_onvif_probe_job_command :: "agent_env \<Rightarrow> ServerConfig \<Rightarrow> (OnvifProbeJobCommand option) agent" where
  "fetch_onvif_probe_job_command env cfg =
     fetch_job env cfg (ag_probe_response env) [''/api/agent/onvif/job'', ''/api/v1/agent/onvif/job'']"

text \<open>The firmware job is fetched by a loop of its own.\<close>

fun fetch_firmware_from :: "agent_env \<Rightarrow> ServerConfig \<Rightarrow> string list \<Rightarrow> (FirmwareJobCommand option) agent" where
  "fetch_firmware_from env cfg [] = returnA None"
| "fetch_firmware_from env cfg (path # paths) =
     bindA (http_send env (get_request cfg path)) (\<lambda>(status, body).
       if status = 404 then fetch_firmware_from env cfg paths
       else bindA (error_for_status env status (base_url_prefix cfg @ path)) (\<lambda>_.
         case body of
           Inl e \<Rightarrow> failA e
         | Inr text \<Rightarrow> (case ag_firmware_response env text of Inl e \<Rightarrow> failA e | Inr j \<Rightarrow> returnA j)))"

definition fetch_firmware_job_command :: "agent_env \<Rightarrow> ServerConfig \<Rightarrow> (FirmwareJobCommand option) agent" where
  "fetch_firmware_job_command env cfg =
     fetch_firmware_from env cfg [''/api/agent/firmware/job'', ''/api/v1/agent/firmware/job'']"

section \<open>Restart jobs\<close>

record RestartHeartbeatState =
  rs_job_id :: "int option"
  rs_status :: "string option"
  rs_error :: "string option"
  rs_started_at :: "string option"
  rs_finished_at :: "string option"

definition RestartHeartbeatState_as_json :: "RestartHeartbeatState \<Rightarrow> json option" where
  "RestartHeartbeatState_as_json s =
     (if s = \<lparr>rs_job_id = None, rs_status = None, rs_error = None, rs_started_at = None, rs_finished_at = None\<rparr> then None
      else Some (JObject
        [(''job_id'', json_of_option json_of_int (rs_job_id s)),
         (''status'', json_of_option JString (rs_status s)),
         (''error'', json_of_option JString (rs_error s)),
         (''started_at'', json_of_option JString (rs_started_at s)),
         (''finished_at'', json_of_option JString (rs_finished_at s))]))"

record RestartJobMemory =
  rh_handled_job_ids :: "int set"

record ShutdownJobMemory =
  sh_handled_job_ids :: "int set"

datatype RestartProcessOutcome = Continue | ExitNonZero

datatype ShutdownProcessOutcome = KeepRunning | ExitZero

datatype RestartMarkerReportOutcome = Missing | Pending | Reported RestartHeartbeatState

definition exit_code :: "RestartProcessOutcome \<Rightarrow> int" where
  "exit_code o' = (case o' of Continue \<Rightarrow> 0 | ExitNonZero \<Rightarrow> RESTART_EXIT_CODE)"

definition restarting_state :: "int \<Rightarrow> string \<Rightarrow> RestartHeartbeatState" where
  "restarting_state job_id started_at =
     \<lparr>rs_job_id = Some job_id, rs_status = Some ''restarting'', rs_error = None,
      rs_started_at = Some started_at, rs_finished_at = None\<rparr>"

definition terminal_restart_state ::
    "int \<Rightarrow> string \<Rightarrow> string option \<Rightarrow> string option \<Rightarrow> string \<Rightarrow> RestartHeartbeatState" where
  "terminal_restart_state job_id status error started_at finished_at =
     \<lparr>rs_job_id = Some job_id, rs_status = Some status, rs_error = error,
      rs_started_at = started_at, rs_finished_at = Some finished_at\<rparr>"

text \<open>A write or a sync that meets a fault is an error.\<close>

definition write_all :: "string \<Rightarrow> bytes \<Rightarrow> unit io" where
  "write_all path d = bindIO (fs_append path d) (\<lambda>f. case f of None \<Rightarrow> returnIO () | Some _ \<Rightarrow> failIO IoFailed)"

definition sync_all :: "unit io" where
  "sync_all = bindIO next_fault (\<lambda>f. case f of None \<Rightarrow> returnIO () | Some _ \<Rightarrow> failIO IoFailed)"

definition marker_dir :: "string \<Rightarrow> string" where
  "marker_dir path = (if CHR ''/'' \<in> set path then parent_dir path else ''.'')"

definition marker_tmp_path :: "string \<Rightarrow> nat \<Rightarrow> int \<Rightarrow> string" where
  "marker_tmp_path path pid nanos =
     join_path (marker_dir path)
       (''.'' @ (if file_name path = [] then ''restart-job.json'' else file_name path)
         @ ''.tmp.'' @ show_nat pid @ ''-'' @ show_int nanos)"

text \<open>The content goes to a temporary file, which is synced and then renamed.\<close>

definition store_marker :: "string \<Rightarrow> string \<Rightarrow> string \<Rightarrow> unit io" where
  "store_marker path tmp_path content =
     bindIO (fs_create tmp_path) (\<lambda>_.
     bindIO (write_all tmp_path (as_bytes content)) (\<lambda>_.
     bindIO (write_all tmp_path (as_bytes [newline])) (\<lambda>_.
     bindIO sync_all (\<lambda>_.
     fs_rename tmp_path path))))"

definition write_restart_job_marker :: "agent_env \<Rightarrow> string \<Rightarrow> RestartJobMarker \<Rightarrow> (io_error + unit) agent" where
  "write_restart_job_marker env path marker =
     bindA (diskA (fs_create_dir_all (marker_dir path))) (\<lambda>d.
       case d of
         Inl e \<Rightarrow> returnA (Inl e)
       | Inr _ \<Rightarrow>
           bindA (utc_nanos env) (\<lambda>nanos.
           diskA (store_marker path (marker_tmp_path path (ag_pid env) nanos) (ag_marker_to_string env marker))))"

definition remove_restart_job_marker :: "string \<Rightarrow> (io_error + unit) agent" where
  "remove_restart_job_marker path =
     bindA (diskA (fs_remove path)) (\<lambda>r. returnA (case r of Inl (NotFound _) \<Rightarrow> Inr () | _ \<Rightarrow> r))"

definition as_i64 :: "json \<Rightarrow> int option" where
  "as_i64 v =
     (case v of
        JNumber (PosInt n) \<Rightarrow> if int n < 2 ^ 63 then Some (int n) else None
      | JNumber (NegInt i) \<Rightarrow> Some i
      | _ \<Rightarrow> None)"

definition restart_marker_state_from_raw :: "agent_env \<Rightarrow> string \<Rightarrow> string \<Rightarrow> RestartHeartbeatState option" where
  "restart_marker_state_from_raw env raw finished_at =
     (case ag_marker_from_str env raw of
        Inr marker \<Rightarrow> Some (terminal_restart_state (rm_job_id marker) ''succeeded'' None (Some (rm_started_at marker)) finished_at)
      | Inl marker_error \<Rightarrow>
          (case ag_from_str env raw of
             None \<Rightarrow> None
           | Some v \<Rightarrow>
               (case Option.bind (get v ''job_id'') as_i64 of
                  None \<Rightarrow> None
                | Some job_id \<Rightarrow>
                    Some (terminal_restart_state job_id ''failed'' (Some (''Failed to parse restart marker: '' @ marker_error))
                      (Option.bind (get v ''started_at'') as_str) finished_at))))"

definition maybe_report_restart_completion_marker ::
    "agent_env \<Rightarrow> string \<Rightarrow> (RestartHeartbeatState \<Rightarrow> unit agent) \<Rightarrow> RestartMarkerReportOutcome agent" where
  "maybe_report_restart_completion_marker env marker_path report =
     bindA (diskA (read_to_string marker_path)) (\<lambda>r.
       case r of
         Inl (NotFound _) \<Rightarrow> returnA Missing
       | Inl _ \<Rightarrow> returnA Pending
       | Inr raw \<Rightarrow>
           bindA (utc_now env) (\<lambda>finished_at.
             case restart_marker_state_from_raw env raw finished_at of
               None \<Rightarrow> bindA (remove_restart_job_marker marker_path) (\<lambda>_. returnA Missing)
             | Some state \<Rightarrow>
                 bindA (attemptA (report state)) (\<lambda>sent.
                   case sent of
                     Inl _ \<Rightarrow> returnA Pending
                   | Inr _ \<Rightarrow> bindA (remove_restart_job_marker marker_path) (\<lambda>_. returnA (Reported state)))))"

text \<open>A report whose success marks the job as handled.\<close>

definition report_final ::
    "(RestartHeartbeatState \<Rightarrow> unit agent) \<Rightarrow> RestartHeartbeatState \<Rightarrow> int \<Rightarrow> RestartJobMemory
       \<Rightarrow> (RestartProcessOutcome \<times> RestartJobMemory) agent" where
  "report_final report failed job_id mem =
     bindA (attemptA (report failed)) (\<lambda>sent. returnA (Continue,
       case sent of Inr _ \<Rightarrow> mem\<lparr>rh_handled_job_ids := insert job_id (rh_handled_job_ids mem)\<rparr> | Inl _ \<Rightarrow> mem))"

definition process_restart_job_command ::
    "agent_env \<Rightarrow> RestartJobCommand \<Rightarrow> string \<Rightarrow> RestartJobMemory \<Rightarrow> (RestartHeartbeatState \<Rightarrow> unit agent)
       \<Rightarrow> (RestartProcessOutcome \<times> RestartJobMemory) agent" where
  "process_restart_job_command env job marker_path mem report =
     (let job_id = rj_job_id job in
      if job_id \<in> rh_handled_job_ids mem then returnA (Continue, mem)
      else if rj_status job \<noteq> ''pending'' then returnA (Continue, mem)
      else bindA (utc_now env) (\<lambda>started_at.
        if rj_action job \<noteq> ''restart'' then
          report_final report (terminal_restart_state job_id ''failed''
            (Some (''Unsupported restart job action: '' @ rj_action job)) (Some started_at) started_at) job_id mem
        else bindA (attemptA (report (restarting_state job_id started_at))) (\<lambda>sent.
          case sent of
            Inl _ \<Rightarrow> returnA (Continue, mem)
          | Inr _ \<Rightarrow>
              bindA (write_restart_job_marker env marker_path \<lparr>rm_job_id = job_id, rm_started_at = started_at\<rparr>) (\<lambda>wr.
                case wr of
                  Inl e \<Rightarrow>
                    bindA (utc_now env) (\<lambda>failed_at.
                      report_final report (terminal_restart_state job_id ''failed''
                        (Some (''Failed to persist restart marker: '' @ ag_io_text env e)) (Some started_at) failed_at) job_id mem)
                | Inr _ \<Rightarrow>
                    returnA (ExitNonZero, mem\<lparr>rh_handled_job_ids := insert job_id (rh_handled_job_ids mem)\<rparr>)))))"

definition maybe_process_restart_job ::
    "agent_env \<Rightarrow> ServerConfig \<Rightarrow> string \<Rightarrow> RestartJobMemory \<Rightarrow> (RestartHeartbeatState \<Rightarrow> unit agent)
       \<Rightarrow> (RestartProcessOutcome \<times> RestartJobMemory) agent" where
  "maybe_process_restart_job env cfg marker_path mem report =
     bindA (attemptA (fetch_restart_job_command env cfg)) (\<lambda>r.
       case r of
         Inr (Some job) \<Rightarrow> process_restart_job_command env job marker_path mem report
       | _ \<Rightarrow> returnA (Continue, mem))"

section \<open>Shutdown jobs\<close>

definition maybe_process_shutdown_job ::
    "agent_env \<Rightarrow> ServerConfig \<Rightarrow> ShutdownJobMemory \<Rightarrow> (ShutdownProcessOutcome \<times> ShutdownJobMemory) agent" where
  "maybe_process_shutdown_job env cfg mem =
     bindA (attemptA (fetch_shutdown_job_command env cfg)) (\<lambda>r.
       case r of
         Inr (Some job) \<Rightarrow>
           (let marked = mem\<lparr>sh_handled_job_ids := insert (sj_job_id job) (sh_handled_job_ids mem)\<rparr> in
            if sj_job_id job \<in> sh_handled_job_ids mem \<or> sj_status job \<noteq> ''pending'' then returnA (KeepRunning, mem)
            else if sj_action job \<noteq> ''shutdown'' then returnA (KeepRunning, marked)
            else returnA (ExitZero, marked))
       | _ \<Rightarrow> returnA (KeepRunning, mem))"

section \<open>Firmware jobs\<close>

definition pick_firmware_updater_cmd :: "string option \<Rightarrow> string option \<Rightarrow> string" where
  "pick_firmware_updater_cmd runtime_override env_override =
     unwrap_or (or_else (nonblank runtime_override) (nonblank env_override)) DEFAULT_FIRMWARE_UPDATER_CMD"

definition firmware_updater_cmd :: "agent_env \<Rightarrow> overrides \<Rightarrow> string" where
  "firmware_updater_cmd env ov =
     pick_firmware_updater_cmd (runtime_var ov ''FIRMWARE_UPDATER_CMD'') (ag_env_var env ''FIRMWARE_UPDATER_CMD'')"

definition updater_args :: "FirmwareJobCommand \<Rightarrow> string + string list" where
  "updater_args job =
     (let start = (if fj_start_after_update job then [''--start''] else []) in
      if fj_action job = ''update'' then
        (case fj_target_version job of None \<Rightarrow> Inl ''Missing target version for update job'' | Some t \<Rightarrow> Inr (t # start))
      else if fj_action job = ''rollback'' then Inr (''--rollback'' # start)
      else Inl (''Unsupported firmware job action: '' @ fj_action job))"

definition run_command :: "agent_env \<Rightarrow> string \<Rightarrow> string list \<Rightarrow> exec_outcome agent" where
  "run_command env cmd args w =
     (let (r, d) = ag_exec env (length (aw_commands w)) cmd args (aw_disk w) in
      (Ok r, w\<lparr>aw_disk := d, aw_commands := aw_commands w @ [(cmd, args)]\<rparr>))"

definition output_detail :: "bytes \<Rightarrow> bytes \<Rightarrow> string" where
  "output_detail stdout stderr =
     (let e = trim (from_utf8_lossy stderr); out = trim (from_utf8_lossy stdout) in
      if e \<noteq> [] then e else if out \<noteq> [] then out else ''no output'')"

definition execute_firmware_job :: "agent_env \<Rightarrow> overrides \<Rightarrow> FirmwareJobCommand \<Rightarrow> unit agent" where
  "execute_firmware_job env ov job =
     (let updater_cmd = firmware_updater_cmd env ov in
      bindA (if CHR ''/'' \<in> set updater_cmd then path_exists updater_cmd else returnA True) (\<lambda>present.
      if \<not> present then
        failA (''Firmware updater not found at '' @ updater_cmd @ ''; set FIRMWARE_UPDATER_CMD to the installed updater path'')
      else
        (case updater_args job of
           Inl e \<Rightarrow> failA e
         | Inr args \<Rightarrow>
             bindA (run_command env updater_cmd args) (\<lambda>r.
               case r of
                 ExecTimedOut \<Rightarrow> failA ''Firmware updater timed out after 120 seconds''
               | ExecFailed e \<Rightarrow> failA (''Failed to execute firmware updater '' @ updater_cmd @ '': '' @ e)
               | ExecDone success status stdout stderr \<Rightarrow>
                   if success then returnA ()
                   else failA (''Firmware updater failed ('' @ status @ ''): '' @ output_detail stdout stderr)))))"

text \<open>
  The states reported on the way: a closure of the caller posts each one and swallows errors. The
  result is the new state and the memory.
\<close>

definition firmware_already_installed ::
    "agent_env \<Rightarrow> FirmwareJobCommand \<Rightarrow> string option \<Rightarrow> bool \<Rightarrow> FirmwareHeartbeatState \<Rightarrow> FirmwareHeartbeatState agent" where
  "firmware_already_installed env job installed can_rollback st =
     bindA (utc_now env) (\<lambda>now.
       returnA (st\<lparr>fw_job_id := Some (fj_job_id job), fw_current_version := or_else installed (fj_target_version job),
         fw_target_version := fj_target_version job, fw_status := Some ''succeeded'', fw_error := None,
         fw_can_rollback := Some can_rollback, fw_started_at := Some now, fw_finished_at := Some now\<rparr>))"

definition firmware_announce ::
    "agent_env \<Rightarrow> FirmwareJobCommand \<Rightarrow> (FirmwareHeartbeatState \<Rightarrow> unit agent) \<Rightarrow> FirmwareHeartbeatState
       \<Rightarrow> FirmwareHeartbeatState agent" where
  "firmware_announce env job report st =
     bindA (utc_now env) (\<lambda>now.
     let st = st\<lparr>fw_job_id := Some (fj_job_id job), fw_target_version := fj_target_version job,
               fw_status := Some (pending_firmware_status job), fw_error := None,
               fw_started_at := Some now, fw_finished_at := None\<rparr> in
     bindA (report st) (\<lambda>_.
     bindA (if fj_action job = ''update'' then report (st\<lparr>fw_status := Some ''downloading''\<rparr>) else returnA ()) (\<lambda>_.
     let st = st\<lparr>fw_status := Some (running_firmware_status job)\<rparr> in
     bindA (report st) (\<lambda>_. returnA st))))"

definition firmware_success ::
    "agent_env \<Rightarrow> overrides \<Rightarrow> FirmwareJobCommand \<Rightarrow> (FirmwareHeartbeatState \<Rightarrow> unit agent) \<Rightarrow> FirmwareHeartbeatState
       \<Rightarrow> FirmwareHeartbeatState agent" where
  "firmware_success env ov job report st =
     bindA (if fj_action job = ''update'' \<and> fj_start_after_update job
            then report (st\<lparr>fw_status := Some ''restarting''\<rparr>) else returnA ()) (\<lambda>_.
     bindA (utc_now env) (\<lambda>now.
     bindA (read_installed_firmware_version env ov) (\<lambda>v.
       returnA (st\<lparr>fw_status := Some (if fj_action job = ''rollback'' then ''rollback_succeeded'' else ''succeeded''),
         fw_error := None, fw_finished_at := Some now,
         fw_current_version := (if v = None \<and> fj_action job = ''update'' then fj_target_version job else v),
         fw_can_rollback := Some (fj_action job = ''update'')\<rparr>))))"

definition firmware_failure ::
    "agent_env \<Rightarrow> overrides \<Rightarrow> FirmwareJobCommand \<Rightarrow> string \<Rightarrow> FirmwareHeartbeatState \<Rightarrow> FirmwareHeartbeatState agent" where
  "firmware_failure env ov job e st =
     bindA (utc_now env) (\<lambda>now.
     bindA (read_installed_firmware_version env ov) (\<lambda>v.
       returnA (st\<lparr>fw_status := Some (if fj_action job = ''rollback'' then ''rollback_failed'' else ''failed''),
         fw_error := Some e, fw_finished_at := Some now, fw_current_version := v\<rparr>)))"

definition conclude_firmware_job ::
    "agent_env \<Rightarrow> overrides \<Rightarrow> FirmwareJobCommand \<Rightarrow> string option \<Rightarrow> bool \<Rightarrow> (FirmwareHeartbeatState \<Rightarrow> unit agent)
       \<Rightarrow> FirmwareHeartbeatState \<Rightarrow> FirmwareHeartbeatState agent" where
  "conclude_firmware_job env ov job installed can_rollback report st =
     (if fj_action job = ''update'' \<and> firmware_versions_match installed (fj_target_version job)
      then firmware_already_installed env job installed can_rollback st
      else bindA (firmware_announce env job report st) (\<lambda>st.
           bindA (attemptA (execute_firmware_job env ov job)) (\<lambda>r.
             case r of
               Inr _ \<Rightarrow> firmware_success env ov job report st
             | Inl e \<Rightarrow> firmware_failure env ov job e st)))"

definition process_firmware_job ::
    "agent_env \<Rightarrow> overrides \<Rightarrow> FirmwareJobCommand \<Rightarrow> FirmwareHeartbeatState \<Rightarrow> FirmwareJobMemory
       \<Rightarrow> (FirmwareHeartbeatState \<Rightarrow> unit agent) \<Rightarrow> (FirmwareHeartbeatState \<times> FirmwareJobMemory) agent" where
  "process_firmware_job env ov job st mem report =
     bindA (read_installed_firmware_version env ov) (\<lambda>installed.
     bindA (path_exists FIRMWARE_BACKUP_BINARY_PATH) (\<lambda>can_rollback.
       case duplicate_terminal_state mem (fj_job_id job) installed can_rollback of
         Some terminal_state \<Rightarrow> bindA (report terminal_state) (\<lambda>_. returnA (terminal_state, mem))
       | None \<Rightarrow>
           bindA (conclude_firmware_job env ov job installed can_rollback report st) (\<lambda>st.
           bindA (report st) (\<lambda>_. returnA (st, remember_terminal_state mem st)))))"

definition maybe_process_firmware_job ::
    "agent_env \<Rightarrow> overrides \<Rightarrow> ServerConfig \<Rightarrow> FirmwareHeartbeatState \<Rightarrow> FirmwareJobMemory
       \<Rightarrow> (FirmwareHeartbeatState \<Rightarrow> unit agent) \<Rightarrow> (FirmwareHeartbeatState \<times> FirmwareJobMemory) agent" where
  "maybe_process_firmware_job env ov cfg st mem report =
     bindA (attemptA (fetch_firmware_job_command env cfg)) (\<lambda>r.
       case r of
         Inr (Some job) \<Rightarrow> process_firmware_job env ov job st mem report
       | _ \<Rightarrow> returnA (st, mem))"

section \<open>The heartbeat\<close>

definition build_agent_heartbeat_payload ::
    "string \<Rightarrow> string \<Rightarrow> json option \<Rightarrow> json list \<Rightarrow> HeartbeatTelemetry \<Rightarrow> FirmwareHeartbeatState
       \<Rightarrow> RestartHeartbeatState option \<Rightarrow> json" where
  "build_agent_heartbeat_payload agent_id timestamp config_version cameras telemetry firmware restart = JObject
     ([(''agent_id'', JString agent_id), (''timestamp'', JString timestamp),
       (''config_version'', json_of_option (\<lambda>v. v) config_version),
       (''telemetry'', HeartbeatTelemetry_as_json telemetry), (''cameras'', JArray cameras)]
      @ (case FirmwareHeartbeatState_as_json firmware of Some v \<Rightarrow> [(''firmware'', v)] | None \<Rightarrow> [])
      @ (case Option.bind restart RestartHeartbeatState_as_json of Some v \<Rightarrow> [(''restart'', v)] | None \<Rightarrow> []))"

record CameraHeartbeatTarget =
  ct_camera_id :: string
  ct_rtsp_url :: string
  ct_config_version :: "json option"

text \<open>The last argument is the number of the connection attempt, the \<open>i64\<close> a truncated \<open>u128\<close>.\<close>

definition i64_of :: "nat \<Rightarrow> int" where
  "i64_of n = (let m = int n mod 2 ^ 64 in if m < 2 ^ 63 then m else m - 2 ^ 64)"

definition check_rtsp_reachability :: "agent_env \<Rightarrow> string \<Rightarrow> (bool \<times> int option \<times> string option) agent" where
  "check_rtsp_reachability env rtsp_url =
     (case ag_url_parse env rtsp_url of
        Inl e \<Rightarrow> returnA (False, None, Some (''Invalid RTSP URL: '' @ e))
      | Inr url \<Rightarrow>
          (case url_host_str url of
             None \<Rightarrow> returnA (False, None, Some ''RTSP URL missing host'')
           | Some host \<Rightarrow>
               bindA (use_source (\<lambda>n. ag_connect env n (host @ '':'' @ show_nat (unwrap_or (url_port url) 554)))) (\<lambda>c.
                 returnA (case c of
                   Connected ms \<Rightarrow> (True, Some (i64_of ms), None)
                 | ConnectFailed e \<Rightarrow> (False, None, Some e)
                 | ConnectTimedOut \<Rightarrow> (False, None, Some ''connect timeout'')))))"

section \<open>What calls leave unchanged\<close>

text \<open>
  A frame is a relation between the worlds before and after a call. The rules below hold for every
  frame; the calls that touch the world are shown to respect the frames of interest.
\<close>

definition keeps :: "(agent_world \<Rightarrow> agent_world \<Rightarrow> bool) \<Rightarrow> 'a agent \<Rightarrow> bool" where
  "keeps R m \<longleftrightarrow> (\<forall>w. R w (snd (m w)))"

named_theorems frame_intros \<open>calls that respect a frame\<close>

locale agent_frame =
  fixes R :: "agent_world \<Rightarrow> agent_world \<Rightarrow> bool"
  assumes frame_refl: "R w w"
    and frame_trans: "R a b \<Longrightarrow> R b c \<Longrightarrow> R a c"
begin

lemma keeps_return: "keeps R (returnA x)" "keeps R (failA e)"
  by (simp_all add: keeps_def frame_refl)

lemma keeps_bind: "keeps R m \<Longrightarrow> (\<And>x. keeps R (f x)) \<Longrightarrow> keeps R (bindA m f)"
  unfolding keeps_def bindA_def
  by (auto split: prod.splits rust.splits) (metis frame_trans snd_conv)+

lemma keeps_attempt: "keeps R m \<Longrightarrow> keeps R (attemptA m)"
  unfolding keeps_def attemptA_def by (auto split: prod.splits rust.splits) (metis snd_conv)+

lemma keeps_fallback: "(\<And>p. p \<in> set ps \<Longrightarrow> keeps R (f p)) \<Longrightarrow> keeps R (try_fallback_paths ps f)"
  by (induction ps) (auto intro!: keeps_return keeps_bind split: FallbackOutcome.splits)

end

text \<open>Nothing but requests to the server: every address starts with the configured one, and has its token.\<close>

definition to_server :: "ServerConfig \<Rightarrow> http_request \<Rightarrow> bool" where
  "to_server cfg r \<longleftrightarrow> hr_bearer r = sv_bearer_token cfg \<and> (\<exists>path. hr_url r = base_url_prefix cfg @ ''/api/'' @ path)"

definition talks :: "ServerConfig \<Rightarrow> agent_world \<Rightarrow> agent_world \<Rightarrow> bool" where
  "talks cfg w w' \<longleftrightarrow> (\<exists>rs. aw_requests w' = aw_requests w @ rs \<and> list_all (to_server cfg) rs)"

definition same_files :: "agent_world \<Rightarrow> agent_world \<Rightarrow> bool" where
  "same_files w w' \<longleftrightarrow> w_files (aw_disk w') = w_files (aw_disk w) \<and> aw_commands w' = aw_commands w"

interpretation talking: agent_frame "talks cfg" for cfg
proof unfold_locales
  show "talks cfg a c" if "talks cfg a b" "talks cfg b c" for a b c
    using that unfolding talks_def by (metis append.assoc list_all_append)
qed (simp add: talks_def)

interpretation unchanged: agent_frame same_files
  by unfold_locales (simp_all add: same_files_def)

lemmas frame_rules = talking.keeps_return talking.keeps_bind talking.keeps_attempt talking.keeps_fallback
  unchanged.keeps_return unchanged.keeps_bind unchanged.keeps_attempt unchanged.keeps_fallback

lemma keeps_send [frame_intros]: "to_server cfg r \<Longrightarrow> keeps (talks cfg) (http_send env r)" "keeps same_files (http_send env r)"
  by (auto simp: keeps_def http_send_def talks_def same_files_def Let_def split: http_answer.splits)

lemma keeps_clock [frame_intros]:
  "keeps (talks cfg) (utc_now env)" "keeps same_files (utc_now env)"
  "keeps (talks cfg) (utc_nanos env)" "keeps same_files (utc_nanos env)"
  "keeps (talks cfg) (use_source f)" "keeps same_files (use_source f)"
  by (simp_all add: keeps_def utc_now_def utc_nanos_def use_source_def talks_def same_files_def)

lemma keeps_disk [frame_intros]: "keeps (talks cfg) (diskA m)"
  by (auto simp: keeps_def diskA_def talks_def split: prod.splits rust.splits)

lemma keeps_disk_files: "(\<And>d. w_files (snd (m d)) = w_files d) \<Longrightarrow> keeps same_files (diskA m)"
  unfolding keeps_def diskA_def same_files_def by (auto split: prod.splits rust.splits) (metis snd_conv)+

lemma read_files: "w_files (snd (fs_metadata p d)) = w_files d" "w_files (snd (read_to_string p d)) = w_files d"
  by (auto simp: fs_metadata_def read_to_string_def bindIO_def next_fault_def split: list.splits option.splits prod.splits rust.splits)

lemma to_server_requests:
  "to_server cfg (post_request cfg payload (''/api/'' @ path))" "to_server cfg (get_request cfg (''/api/'' @ path))"
  by (simp_all add: to_server_def post_request_def get_request_def)

lemma api_requests:
  "p \<in> set heartbeat_paths \<union> set report_paths \<Longrightarrow> to_server cfg (post_request cfg payload p)"
  by (auto simp: heartbeat_paths_def report_paths_def to_server_def post_request_def)

lemma keeps_status [frame_intros]:
  "keeps (talks cfg) (error_for_status env status url)" "keeps same_files (error_for_status env status url)"
  by (simp_all add: error_for_status_def talking.keeps_return unchanged.keeps_return)

lemma keeps_attempt_post:
  "to_server cfg (post_request cfg payload p) \<Longrightarrow> keeps (talks cfg) (attempt_heartbeat env cfg payload p)"
  "to_server cfg (post_request cfg payload p) \<Longrightarrow> keeps (talks cfg) (attempt_report env cfg payload p)"
  "keeps same_files (attempt_heartbeat env cfg payload p)" "keeps same_files (attempt_report env cfg payload p)"
  unfolding attempt_heartbeat_def attempt_report_def
  by (auto intro!: frame_rules frame_intros split: prod.splits)

lemma keeps_post [frame_intros]:
  "keeps (talks cfg) (post_heartbeat env cfg payload)" "keeps same_files (post_heartbeat env cfg payload)"
  "keeps (talks cfg) (post_onvif_probe_report env cfg payload)" "keeps same_files (post_onvif_probe_report env cfg payload)"
  unfolding post_heartbeat_def post_onvif_probe_report_def
  by (auto intro!: frame_rules keeps_attempt_post intro: api_requests split: option.splits)

lemma keeps_attempt_fetch:
  "to_server cfg (get_request cfg p) \<Longrightarrow> keeps (talks cfg) (attempt_fetch env cfg decode p)"
  "keeps same_files (attempt_fetch env cfg decode p)"
  unfolding attempt_fetch_def
  by (auto intro!: frame_rules frame_intros split: prod.splits sum.splits)

lemma keeps_fetch [frame_intros]:
  "keeps (talks cfg) (fetch_restart_job_command env cfg)" "keeps same_files (fetch_restart_job_command env cfg)"
  "keeps (talks cfg) (fetch_shutdown_job_command env cfg)" "keeps same_files (fetch_shutdown_job_command env cfg)"
  "keeps (talks cfg) (fetch_onvif_probe_job_command env cfg)" "keeps same_files (fetch_onvif_probe_job_command env cfg)"
  unfolding fetch_restart_job_command_def fetch_shutdown_job_command_def fetch_onvif_probe_job_command_def fetch_job_def
  by (auto intro!: frame_rules keeps_attempt_fetch simp: to_server_def get_request_def split: FallbackOutcome.splits)

lemma keeps_fetch_firmware [frame_intros]:
  "keeps (talks cfg) (fetch_firmware_job_command env cfg)" "keeps same_files (fetch_firmware_job_command env cfg)"
proof -
  have talk: "(\<And>p. p \<in> set ps \<Longrightarrow> to_server cfg (get_request cfg p)) \<Longrightarrow> keeps (talks cfg) (fetch_firmware_from env cfg ps)"
    and same: "keeps same_files (fetch_firmware_from env cfg ps)" for ps
    by (induction ps) (auto intro!: frame_rules frame_intros split: prod.splits sum.splits)
  show "keeps (talks cfg) (fetch_firmware_job_command env cfg)"
    unfolding fetch_firmware_job_command_def by (rule talk) (auto simp: to_server_def get_request_def)
  show "keeps same_files (fetch_firmware_job_command env cfg)"
    unfolding fetch_firmware_job_command_def by (rule same)
qed

lemma keeps_reading [frame_intros]:
  "keeps same_files (path_exists p)" "keeps (talks cfg) (path_exists p)"
  "keeps same_files (read_installed_firmware_version env ov)" "keeps (talks cfg) (read_installed_firmware_version env ov)"
  unfolding path_exists_def read_installed_firmware_version_def read_installed_firmware_version_from_path_def
  by (intro frame_rules frame_intros keeps_disk_files read_files)+

lemma keeps_baseline [frame_intros]:
  "keeps same_files (baseline_firmware_state env ov)" "keeps (talks cfg) (baseline_firmware_state env ov)"
  unfolding baseline_firmware_state_def backup_binary_exists.simps
  by (auto intro!: frame_rules frame_intros)

lemma keeps_reachability [frame_intros]:
  "keeps same_files (check_rtsp_reachability env url)" "keeps (talks cfg) (check_rtsp_reachability env url)"
  unfolding check_rtsp_reachability_def
  by (auto intro!: frame_rules frame_intros split: sum.splits option.splits)

lemma keeps_command [frame_intros]: "keeps (talks cfg) (run_command env cmd args)"
  by (simp add: keeps_def run_command_def talks_def split: prod.splits)

text \<open>
  Restart and shutdown jobs respect every frame that does not look at the disk, and firmware jobs
  every frame that their basic calls respect.
\<close>

context agent_frame
begin

lemma jobs_keep:
  assumes "\<And>st. keeps R (report st)" "keeps R (fetch_restart_job_command env scfg)" "keeps R (fetch_shutdown_job_command env scfg)"
    and "keeps R (utc_now env)" "\<And>m :: unit io. keeps R (diskA m)" "\<And>m :: string io. keeps R (diskA m)"
    and "keeps R (utc_nanos env)"
  shows "keeps R (maybe_report_restart_completion_marker env path report)"
    "keeps R (maybe_process_restart_job env scfg path mem report)"
    "keeps R (maybe_process_shutdown_job env scfg smem)"
proof -
  note rules = keeps_return keeps_bind keeps_attempt assms
  have "keeps R (write_restart_job_marker env path marker)" "keeps R (remove_restart_job_marker path)" for path marker
    by (auto simp: write_restart_job_marker_def remove_restart_job_marker_def intro!: rules split: sum.splits)
  note rules = rules this
  show "keeps R (maybe_report_restart_completion_marker env path report)"
    unfolding maybe_report_restart_completion_marker_def
    by (auto intro!: rules split: sum.splits option.splits io_error.splits)
  show "keeps R (maybe_process_restart_job env scfg path mem report)"
    unfolding maybe_process_restart_job_def process_restart_job_command_def report_final_def Let_def
    by (auto intro!: rules split: sum.splits option.splits)
  show "keeps R (maybe_process_shutdown_job env scfg smem)"
    unfolding maybe_process_shutdown_job_def Let_def
    by (auto intro!: rules split: sum.splits option.splits)
qed

lemma firmware_keeps:
  assumes "\<And>st. keeps R (report st)" "keeps R (fetch_firmware_job_command env cfg)" "keeps R (utc_now env)"
    and "\<And>p. keeps R (path_exists p)" "keeps R (read_installed_firmware_version env ov)" "\<And>cmd args. keeps R (run_command env cmd args)"
  shows "keeps R (maybe_process_firmware_job env ov cfg st mem report)"
proof -
  note rules = keeps_return keeps_bind keeps_attempt assms
  have "keeps R (execute_firmware_job env ov job)" for job
    unfolding execute_firmware_job_def Let_def
    by (auto intro!: rules split: sum.splits exec_outcome.splits)
  moreover have "keeps R (firmware_already_installed env job i c st)" "keeps R (firmware_announce env job report st)"
    "keeps R (firmware_success env ov job report st)" "keeps R (firmware_failure env ov job e st)" for job i c e st
    unfolding firmware_already_installed_def firmware_announce_def firmware_success_def firmware_failure_def Let_def
    by (auto intro!: rules)
  ultimately have "keeps R (process_firmware_job env ov job st mem report)" for job
    unfolding process_firmware_job_def conclude_firmware_job_def
    by (auto intro!: rules split: option.splits sum.splits)
  then show ?thesis
    unfolding maybe_process_firmware_job_def
    by (auto intro!: rules split: option.splits sum.splits)
qed

end

lemma keeps_jobs:
  assumes "\<And>st. keeps (talks cfg) (report st)"
  shows "keeps (talks cfg) (maybe_report_restart_completion_marker env path report)"
    "keeps (talks cfg) (maybe_process_restart_job env cfg path mem report)"
    "keeps (talks cfg) (maybe_process_shutdown_job env cfg smem)"
  using talking.jobs_keep [where report = report and env = env and scfg = cfg, OF assms keeps_fetch(1,3) keeps_clock(1) keeps_disk keeps_disk keeps_clock(3)] by blast+

lemma keeps_firmware:
  assumes "\<And>st. keeps (talks cfg) (report st)"
  shows "keeps (talks cfg) (maybe_process_firmware_job env ov cfg st mem report)"
  by (intro talking.firmware_keeps frame_intros assms)

section \<open>The marker of a restart\<close>

text \<open>The content of the marker file, for calls that may change other files.\<close>

abbreviation marker_data :: "agent_world \<Rightarrow> bytes option" where
  "marker_data w \<equiv> file_data RESTART_JOB_MARKER_PATH (aw_disk w)"

definition marker_kept :: "agent_world \<Rightarrow> agent_world \<Rightarrow> bool" where
  "marker_kept w w' \<longleftrightarrow> marker_data w' = marker_data w"

interpretation marker: agent_frame marker_kept
  by unfold_locales (simp_all add: marker_kept_def)

lemma same_files_marker: "keeps same_files m \<Longrightarrow> keeps marker_kept m"
  by (auto simp: keeps_def same_files_def marker_kept_def file_data_def)

text \<open>The updater is expected not to touch the marker.\<close>

definition updater_spares_marker :: "agent_env \<Rightarrow> bool" where
  "updater_spares_marker env \<longleftrightarrow>
     (\<forall>n cmd args d. file_data RESTART_JOB_MARKER_PATH (snd (ag_exec env n cmd args d)) = file_data RESTART_JOB_MARKER_PATH d)"

lemma firmware_marker:
  assumes "updater_spares_marker env" "\<And>st. keeps same_files (report st)"
  shows "keeps marker_kept (maybe_process_firmware_job env ov cfg st mem report)"
proof -
  have run: "keeps marker_kept (run_command env cmd args)" for cmd args
    using assms(1) by (auto simp: keeps_def run_command_def marker_kept_def updater_spares_marker_def split: prod.splits) (metis snd_conv)
  show ?thesis
    by (rule marker.firmware_keeps) (auto intro: run same_files_marker frame_intros assms(2))
qed

lemma file_ends:
  assumes "p \<noteq> t"
  shows "ends (fs_create t) d (\<lambda>_ d'. file_data t d' = Some [] \<and> file_data p d' = file_data p d) (\<lambda>d'. file_data p d' = file_data p d)"
    "file_data t d = Some old \<Longrightarrow> ends (write_all t b) d (\<lambda>_ d'. file_data t d' = Some (old @ b) \<and> file_data p d' = file_data p d)
       (\<lambda>d'. file_data p d' = file_data p d)"
    "ends sync_all d (\<lambda>_ d'. w_files d' = w_files d) (\<lambda>d'. w_files d' = w_files d)"
    "file_data t d = Some x \<Longrightarrow> ends (fs_rename t p) d (\<lambda>_ d'. file_data p d' = Some x) (\<lambda>d'. file_data p d' = file_data p d)"
  using assms
  by (auto simp: ends_def fs_create_def write_all_def fs_append_def sync_all_def fs_rename_def bindIO_def next_fault_def Let_def
      put_file_def file_data_def AList.update_conv' split: list.splits option.splits)

lemma store_marker_ends:
  assumes "path \<noteq> tmp"
  shows "ends (store_marker path tmp content) d
    (\<lambda>_ d'. file_data path d' = Some (as_bytes (content @ [newline]))) (\<lambda>d'. file_data path d' = file_data path d)"
  unfolding store_marker_def ends_bind
proof (rule ends_mono [OF file_ends(1) [OF assms]])
  fix d1 :: world assume 1: "file_data tmp d1 = Some [] \<and> file_data path d1 = file_data path d"
  show "ends (write_all tmp (as_bytes content)) d1 (\<lambda>_ d2. ends (write_all tmp (as_bytes [newline])) d2 (\<lambda>_ d3.
      ends sync_all d3 (\<lambda>_ d4. ends (fs_rename tmp path) d4 (\<lambda>_ d'. file_data path d' = Some (as_bytes (content @ [newline])))
        (\<lambda>d'. file_data path d' = file_data path d)) (\<lambda>d'. file_data path d' = file_data path d))
        (\<lambda>d'. file_data path d' = file_data path d)) (\<lambda>d'. file_data path d' = file_data path d)"
  proof (rule ends_mono [OF file_ends(2) [OF assms, of d1 "[]"]])
    fix d2 :: world assume 2: "file_data tmp d2 = Some ([] @ as_bytes content) \<and> file_data path d2 = file_data path d1"
    show "ends (write_all tmp (as_bytes [newline])) d2 (\<lambda>_ d3.
      ends sync_all d3 (\<lambda>_ d4. ends (fs_rename tmp path) d4 (\<lambda>_ d'. file_data path d' = Some (as_bytes (content @ [newline])))
        (\<lambda>d'. file_data path d' = file_data path d)) (\<lambda>d'. file_data path d' = file_data path d))
        (\<lambda>d'. file_data path d' = file_data path d)"
    proof (rule ends_mono [OF file_ends(2) [OF assms, of d2 "as_bytes content"]])
      fix d3 :: world
      assume 3: "file_data tmp d3 = Some (as_bytes content @ as_bytes [newline]) \<and> file_data path d3 = file_data path d2"
      show "ends sync_all d3 (\<lambda>_ d4. ends (fs_rename tmp path) d4 (\<lambda>_ d'. file_data path d' = Some (as_bytes (content @ [newline])))
        (\<lambda>d'. file_data path d' = file_data path d)) (\<lambda>d'. file_data path d' = file_data path d)"
      proof (rule ends_mono [OF file_ends(3) [OF assms]])
        fix d4 :: world assume 4: "w_files d4 = w_files d3"
        then have "file_data tmp d4 = Some (as_bytes content @ as_bytes [newline])" "file_data path d4 = file_data path d"
          using 1 2 3 by (auto simp: file_data_def)
        then show "ends (fs_rename tmp path) d4 (\<lambda>_ d'. file_data path d' = Some (as_bytes (content @ [newline])))
            (\<lambda>d'. file_data path d' = file_data path d)"
          using file_ends(4) [OF assms, of d4] by simp
      qed (use 1 2 3 in \<open>auto simp: file_data_def\<close>)
    qed (use 1 2 in auto)
  qed (use 1 in auto)
qed auto

lemma bindA_Ok: "bindA m f w = (Ok y, w'') \<longleftrightarrow> (\<exists>x w'. m w = (Ok x, w') \<and> f x w' = (Ok y, w''))"
  by (auto simp: bindA_def split: prod.splits rust.splits)

lemma attemptA_Ok: "attemptA m w = (Ok r, w') \<longleftrightarrow> (case r of Inr x \<Rightarrow> m w = (Ok x, w') | Inl e \<Rightarrow> m w = (Err e, w'))"
  by (auto simp: attemptA_def split: prod.splits rust.splits sum.splits)

lemma keepsD: "keeps R m \<Longrightarrow> m w = (r, w') \<Longrightarrow> R w w'"
  by (metis keeps_def snd_conv)

lemma marker_tmp_other: "RESTART_JOB_MARKER_PATH \<noteq> marker_tmp_path RESTART_JOB_MARKER_PATH pid nanos"
proof -
  have "marker_dir RESTART_JOB_MARKER_PATH = ''/var/lib/sentinel_rtp_cam''" "file_name RESTART_JOB_MARKER_PATH = ''restart-job.json''"
    by code_simp+
  then show ?thesis by (simp add: marker_tmp_path_def join_path_def RESTART_JOB_MARKER_PATH_def)
qed

definition marker_bytes :: "agent_env \<Rightarrow> int \<Rightarrow> string \<Rightarrow> bytes" where
  "marker_bytes env job_id started_at =
     as_bytes (ag_marker_to_string env \<lparr>rm_job_id = job_id, rm_started_at = started_at\<rparr> @ [newline])"

lemma write_marker:
  assumes "write_restart_job_marker env RESTART_JOB_MARKER_PATH \<lparr>rm_job_id = j, rm_started_at = t\<rparr> w = (Ok r, w')"
  shows "case r of Inr _ \<Rightarrow> marker_data w' = Some (marker_bytes env j t) | Inl _ \<Rightarrow> marker_data w' = marker_data w"
proof -
  let ?m = "\<lparr>rm_job_id = j, rm_started_at = t\<rparr>"
  have st: "ends (store_marker RESTART_JOB_MARKER_PATH (marker_tmp_path RESTART_JOB_MARKER_PATH pid nanos) (ag_marker_to_string env ?m)) d
      (\<lambda>_ d'. file_data RESTART_JOB_MARKER_PATH d' = Some (marker_bytes env j t))
      (\<lambda>d'. file_data RESTART_JOB_MARKER_PATH d' = file_data RESTART_JOB_MARKER_PATH d)" for pid nanos d
    unfolding marker_bytes_def by (rule store_marker_ends [OF marker_tmp_other])
  have dir: "w_files (snd (fs_create_dir_all p d)) = w_files d" for p d
    by (auto simp: fs_create_dir_all_def bindIO_def next_fault_def split: list.splits option.splits)
  obtain d1 w1 where 1: "diskA (fs_create_dir_all (marker_dir RESTART_JOB_MARKER_PATH)) w = (Ok d1, w1)"
    using assms by (auto simp: write_restart_job_marker_def bindA_Ok)
  then have k: "marker_data w1 = marker_data w"
    using keepsD [OF same_files_marker [OF keeps_disk_files [OF dir]] 1] by (simp add: marker_kept_def)
  show ?thesis
  proof (cases d1)
    case (Inl e)
    with assms 1 k show ?thesis by (auto simp: write_restart_job_marker_def bindA_Ok)
  next
    case (Inr u)
    with assms 1 have "diskA (store_marker RESTART_JOB_MARKER_PATH
        (marker_tmp_path RESTART_JOB_MARKER_PATH (ag_pid env) (ag_nanos env (aw_clock w1))) (ag_marker_to_string env ?m))
        (w1\<lparr>aw_clock := aw_clock w1 + 1\<rparr>) = (Ok r, w')"
      by (auto simp: write_restart_job_marker_def utc_nanos_def bindA_Ok)
    with st [of "ag_pid env" "ag_nanos env (aw_clock w1)" "aw_disk w1"] k show ?thesis
      by (auto simp: diskA_def ends_def split: prod.splits rust.splits sum.splits)
  qed
qed

text \<open>Exiting for a restart: the job is new, and its marker is complete. The memory only grows.\<close>

lemma process_restart:
  assumes "process_restart_job_command env job RESTART_JOB_MARKER_PATH mem report w = (Ok (r, mem'), w')"
  shows "rh_handled_job_ids mem \<subseteq> rh_handled_job_ids mem'"
    and "r = ExitNonZero \<Longrightarrow> rj_job_id job \<notin> rh_handled_job_ids mem \<and> rj_status job = ''pending'' \<and> rj_action job = ''restart''
      \<and> (\<exists>t w1. report (restarting_state (rj_job_id job) t) w1 = (Ok (), snd (report (restarting_state (rj_job_id job) t) w1))
           \<and> marker_data w' = Some (marker_bytes env (rj_job_id job) t))"
proof -
  note eqs = process_restart_job_command_def Let_def report_final_def bindA_Ok attemptA_Ok split_sum_ex
  show "rh_handled_job_ids mem \<subseteq> rh_handled_job_ids mem'"
    using assms by (auto simp: eqs split: if_splits)
  assume r: "r = ExitNonZero"
  then show "rj_job_id job \<notin> rh_handled_job_ids mem \<and> rj_status job = ''pending'' \<and> rj_action job = ''restart''
      \<and> (\<exists>t w1. report (restarting_state (rj_job_id job) t) w1 = (Ok (), snd (report (restarting_state (rj_job_id job) t) w1))
           \<and> marker_data w' = Some (marker_bytes env (rj_job_id job) t))"
    using assms by (auto simp: eqs split: if_splits dest!: write_marker) (metis snd_conv)
qed

text \<open>A marker that can be decoded is reported or stays where it is.\<close>

lemma report_marker:
  assumes "maybe_report_restart_completion_marker env RESTART_JOB_MARKER_PATH report w = (Ok out, w')"
    and "marker_data w = Some raw" "\<And>st. keeps same_files (report st)"
    and "\<And>t. \<exists>st. restart_marker_state_from_raw env (to_str raw) t = Some st \<and> rs_job_id st = Some j"
  shows "(out = Pending \<and> marker_data w' = Some raw) \<or> (\<exists>st. out = Reported st \<and> rs_job_id st = Some j)"
proof -
  obtain r w1 where 1: "diskA (read_to_string RESTART_JOB_MARKER_PATH) w = (Ok r, w1)"
    using assms(1) by (auto simp: maybe_report_restart_completion_marker_def bindA_Ok)
  have k: "marker_data w1 = Some raw"
    using keepsD [OF same_files_marker [OF keeps_disk_files [OF read_files(2)]] 1] assms(2) by (simp add: marker_kept_def)
  have r: "r = Inr (to_str raw) \<or> r = Inl IoFailed \<or> (\<exists>m. r = Inl (OtherError m))"
    using 1 assms(2)
    by (auto simp: diskA_def read_to_string_def fs_metadata_def bindIO_def next_fault_def file_data_def
        split: list.splits option.splits prod.splits rust.splits if_splits)
  obtain st where st: "restart_marker_state_from_raw env (to_str raw) (ag_now env (aw_clock w1)) = Some st" "rs_job_id st = Some j"
    using assms(4) by blast
  have "marker_data w2 = Some raw" if "report st (w1\<lparr>aw_clock := Suc (aw_clock w1)\<rparr>) = (x, w2)" for x w2
    using keepsD [OF same_files_marker [OF assms(3)] that] k by (simp add: marker_kept_def)
  then show ?thesis
    using assms(1) 1 r k st
    by (auto simp: maybe_report_restart_completion_marker_def bindA_Ok utc_now_def attemptA_Ok split_sum_ex)
qed

section \<open>Firmware jobs and commands\<close>

definition same_commands :: "agent_world \<Rightarrow> agent_world \<Rightarrow> bool" where
  "same_commands w w' \<longleftrightarrow> aw_commands w' = aw_commands w"

interpretation commandless: agent_frame same_commands
  by unfold_locales (simp_all add: same_commands_def)

lemma same_files_commands: "keeps same_files m \<Longrightarrow> keeps same_commands m"
  by (auto simp: keeps_def same_files_def same_commands_def)

lemma disk_commands: "keeps same_commands (diskA m)"
  by (auto simp: keeps_def diskA_def same_commands_def split: prod.splits rust.splits)

lemma jobs_commands:
  assumes "\<And>st. keeps same_files (report st)"
  shows "keeps same_commands (maybe_report_restart_completion_marker env path report)"
    "keeps same_commands (maybe_process_restart_job env cfg path mem report)"
    "keeps same_commands (maybe_process_shutdown_job env cfg smem)"
  using commandless.jobs_keep [where report = report and env = env and scfg = cfg, OF same_files_commands [OF assms] same_files_commands [OF keeps_fetch(2)]
      same_files_commands [OF keeps_fetch(4)] same_files_commands [OF keeps_clock(2)] disk_commands disk_commands
      same_files_commands [OF keeps_clock(4)]] by blast+

text \<open>A job that was concluded last is only reported again; any other runs the updater at most once and is then remembered.\<close>

definition concluded :: "FirmwareJobMemory \<Rightarrow> int \<Rightarrow> bool" where
  "concluded mem j \<longleftrightarrow> (\<exists>st. fm_last_terminal_state mem = Some st \<and> fw_job_id st = Some j \<and> is_terminal st)"

definition one_command :: "agent_world \<Rightarrow> agent_world \<Rightarrow> bool" where
  "one_command w w' \<longleftrightarrow> length (aw_commands w') \<le> length (aw_commands w) + 1"

lemma one_command_bind:
  assumes "keeps R m" "\<And>x. keeps S (f x)" "\<And>a. one_command a a" "\<And>a b c. R a b \<Longrightarrow> S b c \<Longrightarrow> one_command a c"
    "\<And>a b. R a b \<Longrightarrow> one_command a b"
  shows "keeps one_command (bindA m f)"
  unfolding keeps_def
proof
  fix w
  obtain r w1 where m: "m w = (r, w1)" by fastforce
  then have "R w w1" using keepsD [OF assms(1)] by blast
  then show "one_command w (snd (bindA m f w))"
    using m assms(2,4,5) by (cases r) (auto simp: bindA_def keeps_def)
qed

lemma one_command_before: "keeps same_commands m \<Longrightarrow> (\<And>x. keeps one_command (f x)) \<Longrightarrow> keeps one_command (bindA m f)"
  by (rule one_command_bind [where R = same_commands and S = one_command]) (auto simp: one_command_def same_commands_def)

lemma one_command_after: "keeps one_command m \<Longrightarrow> (\<And>x. keeps same_commands (f x)) \<Longrightarrow> keeps one_command (bindA m f)"
  by (rule one_command_bind [where R = one_command and S = same_commands]) (auto simp: one_command_def same_commands_def)

lemma one_command_mono: "keeps same_commands m \<Longrightarrow> keeps one_command m"
  by (auto simp: keeps_def same_commands_def one_command_def)

lemma execute_one_command: "keeps one_command (attemptA (execute_firmware_job env ov job))"
proof -
  have run: "keeps one_command (run_command env cmd args)" for cmd args
    by (simp add: keeps_def run_command_def one_command_def split: prod.splits)
  have "keeps one_command (execute_firmware_job env ov job)"
    unfolding execute_firmware_job_def Let_def
    by (rule one_command_before)
       (auto intro!: one_command_after run commandless.keeps_return same_files_commands [OF keeps_reading(1)]
          one_command_mono [OF commandless.keeps_return(2)] split: sum.splits exec_outcome.splits)
  then show ?thesis
    unfolding keeps_def attemptA_def one_command_def by (auto split: prod.splits rust.splits) (metis snd_conv)+
qed

lemma firmware_parts_commands:
  assumes "\<And>st. keeps same_files (report st)"
  shows "keeps same_commands (firmware_already_installed env job i c st)" "keeps same_commands (firmware_announce env job report st)"
    "keeps same_commands (firmware_success env ov job report st)" "keeps same_commands (firmware_failure env ov job e st)"
  unfolding firmware_already_installed_def firmware_announce_def firmware_success_def firmware_failure_def Let_def
  by (rule same_files_commands, auto intro!: frame_rules frame_intros assms)+

lemma conclude_one_command:
  assumes "\<And>st. keeps same_files (report st)"
  shows "keeps one_command (conclude_firmware_job env ov job installed can_rollback report st)"
proof -
  note parts = firmware_parts_commands [OF assms]
  have "keeps one_command (bindA (attemptA (execute_firmware_job env ov job)) (\<lambda>r. case r of
      Inr _ \<Rightarrow> firmware_success env ov job report st | Inl e \<Rightarrow> firmware_failure env ov job e st))" for st
    by (rule one_command_after [OF execute_one_command]) (auto intro: parts split: sum.splits)
  then show ?thesis
    unfolding conclude_firmware_job_def by (simp add: one_command_before [OF parts(2)] one_command_mono [OF parts(1)])
qed

lemma process_firmware_commands:
  assumes "\<And>st. keeps same_files (report st)"
  shows "keeps one_command (process_firmware_job env ov job st mem report)"
    "concluded mem (fj_job_id job) \<Longrightarrow> keeps same_commands (process_firmware_job env ov job st mem report)"
proof -
  have rep: "keeps same_commands (bindA (report st) (\<lambda>_. returnA x))" for st and x :: 'x
    by (intro commandless.keeps_bind commandless.keeps_return same_files_commands [OF assms])
  note rd = same_files_commands [OF keeps_reading(1)] same_files_commands [OF keeps_reading(3)]
  have "keeps one_command (case d of Some st \<Rightarrow> bindA (report st) (\<lambda>_. returnA (st, mem))
     | None \<Rightarrow> bindA (conclude_firmware_job env ov job i c report st) (\<lambda>st. bindA (report st) (\<lambda>_. returnA (st, remember_terminal_state mem st))))"
    for d i c
    by (cases d) (simp_all add: one_command_mono [OF rep] one_command_after [OF conclude_one_command [OF assms] rep])
  then show "keeps one_command (process_firmware_job env ov job st mem report)"
    unfolding process_firmware_job_def by (intro one_command_before [OF rd(2)] one_command_before [OF rd(1)])
  show "keeps same_commands (process_firmware_job env ov job st mem report)" if "concluded mem (fj_job_id job)"
    using that unfolding process_firmware_job_def concluded_def
    by (intro commandless.keeps_bind rd) (auto simp: duplicate_terminal_state_def intro!: rep)
qed

lemma firmware_parts_state:
  "firmware_already_installed env job i c st w = (Ok st', w') \<Longrightarrow> is_terminal st' \<and> fw_job_id st' = Some (fj_job_id job)"
  "firmware_announce env job report st w = (Ok st', w') \<Longrightarrow> fw_job_id st' = Some (fj_job_id job)"
  "firmware_success env ov job report st w = (Ok st', w') \<Longrightarrow> is_terminal st' \<and> fw_job_id st' = fw_job_id st"
  "firmware_failure env ov job e st w = (Ok st', w') \<Longrightarrow> is_terminal st' \<and> fw_job_id st' = fw_job_id st"
  by (simp add: firmware_already_installed_def bindA_Ok is_terminal_def is_terminal_firmware_status_def, force)
     (simp add: firmware_announce_def bindA_Ok Let_def, force,
      simp add: firmware_success_def bindA_Ok is_terminal_def is_terminal_firmware_status_def, force,
      simp add: firmware_failure_def bindA_Ok is_terminal_def is_terminal_firmware_status_def, force)

lemma conclude_terminal:
  assumes "conclude_firmware_job env ov job installed can_rollback report st w = (Ok st', w')"
  shows "is_terminal st' \<and> fw_job_id st' = Some (fj_job_id job)"
proof (cases "fj_action job = ''update'' \<and> firmware_versions_match installed (fj_target_version job)")
  case True
  with assms show ?thesis using firmware_parts_state(1) by (simp add: conclude_firmware_job_def)
next
  case False
  then obtain st1 w1 w2 and r :: "string + unit" where "firmware_announce env job report st w = (Ok st1, w1)"
    "(case r of Inr _ \<Rightarrow> firmware_success env ov job report st1 | Inl e \<Rightarrow> firmware_failure env ov job e st1) w2 = (Ok st', w')"
    using assms unfolding conclude_firmware_job_def if_not_P [OF False] bindA_Ok by blast
  then show ?thesis using firmware_parts_state(2,3,4) by (cases r) auto
qed

lemma process_firmware_concludes:
  assumes "process_firmware_job env ov job st mem report w = (Ok (st', mem'), w')"
  shows "concluded mem' (fj_job_id job)" "is_terminal st'" "fw_job_id st' = Some (fj_job_id job)"
  using assms
  by (auto simp: process_firmware_job_def bindA_Ok concluded_def duplicate_terminal_state_def remember_terminal_state_def is_terminal_def
      dest!: conclude_terminal split: option.splits if_splits)

end
