(* ===== verification/Heartbeat.thy ===== *)
theory Heartbeat
  imports ServerClient
begin

text \<open>
  \<^verbatim>\<open>src/server/server_client.rs\<close>: the loop that posts heartbeats and serves the jobs of the server, the
  manager of ONVIF probes, and the tasks both start.

  One iteration of the loop is a sequence of phases, each of them a step of the state machine; the
  tasks it starts take their steps in between, in any order. The loop and the tasks share only the
  manager, which the loop uses in its first two phases, and the world. The configuration in effect
  and the list of cameras, which other tasks may change, come with the event that reads them.
\<close>

section \<open>The manager of ONVIF probes\<close>

record OnvifProbeSummary =
  ps_job_id :: "int option"
  ps_status :: string
  ps_error :: "string option"
  ps_started_at :: "string option"
  ps_finished_at :: "string option"
  ps_last_reported_at :: "string option"

definition OnvifProbeSummary_default :: OnvifProbeSummary where
  "OnvifProbeSummary_default =
     \<lparr>ps_job_id = None, ps_status = ''never_run'', ps_error = None, ps_started_at = None, ps_finished_at = None,
      ps_last_reported_at = None\<rparr>"

definition OnvifProbeSummary_as_json :: "OnvifProbeSummary \<Rightarrow> json" where
  "OnvifProbeSummary_as_json s = JObject
     [(''job_id'', json_of_option json_of_int (ps_job_id s)),
      (''status'', JString (ps_status s)),
      (''error'', json_of_option JString (ps_error s)),
      (''started_at'', json_of_option JString (ps_started_at s)),
      (''finished_at'', json_of_option JString (ps_finished_at s)),
      (''last_reported_at'', json_of_option JString (ps_last_reported_at s))]"

record OnvifProbeManager =
  pm_known_cameras :: "string set"
  pm_camera_configs :: "(string \<times> OnvifProbeCameraConfig) list"
  pm_summaries :: "(string \<times> OnvifProbeSummary) list"
  pm_in_flight :: "string set"
  pm_agent_id :: "string option"

definition OnvifProbeManager_new :: "string list \<Rightarrow> OnvifProbeCameraConfig list \<Rightarrow> string option \<Rightarrow> OnvifProbeManager" where
  "OnvifProbeManager_new known_camera_ids camera_configs agent_id =
     \<lparr>pm_known_cameras = set known_camera_ids,
      pm_camera_configs = fold (\<lambda>c m. AList.update (pc_camera_id c) c m) camera_configs [],
      pm_summaries = fold (\<lambda>c m. AList.update c OnvifProbeSummary_default m) known_camera_ids [],
      pm_in_flight = {}, pm_agent_id = agent_id\<rparr>"

definition summary_for :: "OnvifProbeManager \<Rightarrow> string \<Rightarrow> OnvifProbeSummary" where
  "summary_for m camera_id = unwrap_or (map_of (pm_summaries m) camera_id) OnvifProbeSummary_default"

definition put_summary :: "string \<Rightarrow> OnvifProbeSummary \<Rightarrow> OnvifProbeManager \<Rightarrow> OnvifProbeManager" where
  "put_summary camera_id s m =
     (let last_reported_at = Option.bind (map_of (pm_summaries m) camera_id) ps_last_reported_at in
      m\<lparr>pm_summaries := AList.update camera_id (s\<lparr>ps_last_reported_at := last_reported_at\<rparr>) (pm_summaries m)\<rparr>)"

definition set_running :: "string \<Rightarrow> int \<Rightarrow> string \<Rightarrow> OnvifProbeManager \<Rightarrow> OnvifProbeManager" where
  "set_running camera_id job_id started_at =
     put_summary camera_id \<lparr>ps_job_id = Some job_id, ps_status = ''running'', ps_error = None,
       ps_started_at = Some started_at, ps_finished_at = None, ps_last_reported_at = None\<rparr>"

definition set_finished ::
    "string \<Rightarrow> int \<Rightarrow> string \<Rightarrow> string option \<Rightarrow> string \<Rightarrow> string \<Rightarrow> OnvifProbeManager \<Rightarrow> OnvifProbeManager" where
  "set_finished camera_id job_id status error started_at finished_at =
     put_summary camera_id \<lparr>ps_job_id = Some job_id, ps_status = status, ps_error = error,
       ps_started_at = Some started_at, ps_finished_at = Some finished_at, ps_last_reported_at = None\<rparr>"

definition try_mark_in_flight :: "string \<Rightarrow> OnvifProbeManager \<Rightarrow> bool \<times> OnvifProbeManager" where
  "try_mark_in_flight camera_id m =
     (camera_id \<notin> pm_in_flight m, m\<lparr>pm_in_flight := insert camera_id (pm_in_flight m)\<rparr>)"

definition release_in_flight :: "string \<Rightarrow> OnvifProbeManager \<Rightarrow> OnvifProbeManager" where
  "release_in_flight camera_id m = m\<lparr>pm_in_flight := pm_in_flight m - {camera_id}\<rparr>"

definition mark_reported :: "string \<Rightarrow> string \<Rightarrow> OnvifProbeManager \<Rightarrow> OnvifProbeManager" where
  "mark_reported camera_id now m =
     (case map_of (pm_summaries m) camera_id of
        None \<Rightarrow> m
      | Some s \<Rightarrow> m\<lparr>pm_summaries := AList.update camera_id (s\<lparr>ps_last_reported_at := Some now\<rparr>) (pm_summaries m)\<rparr>)"

definition probe_payload ::
    "OnvifProbeManager \<Rightarrow> int \<Rightarrow> string \<Rightarrow> string \<Rightarrow> string \<Rightarrow> string \<Rightarrow> string option \<Rightarrow> json \<Rightarrow> json" where
  "probe_payload m job_id camera_id started_at finished_at status error report = JObject
     [(''job_id'', json_of_int job_id), (''camera_id'', JString camera_id),
      (''agent_id'', json_of_option JString (pm_agent_id m)), (''started_at'', JString started_at),
      (''finished_at'', JString finished_at), (''status'', JString status),
      (''error'', json_of_option JString error), (''report'', report)]"

section \<open>Tasks\<close>

text \<open>
  A task of the agent probes a camera, or posts a payload until it is accepted: \<open>attempt\<close> counts the
  calls made so far and \<open>backoff\<close> is the pause before the next. A report of a probe then marks the camera.
\<close>

datatype post_kind = HeartbeatPost | ProbeReport "string option"

datatype agent_task =
    Probing OnvifProbeJobCommand OnvifProbeCameraConfig string
  | Posting post_kind json nat duration
  | Delivered post_kind json
  | Died

definition post_payload :: "agent_env \<Rightarrow> ServerConfig \<Rightarrow> post_kind \<Rightarrow> json \<Rightarrow> unit agent" where
  "post_payload env cfg kind payload =
     (case kind of
        HeartbeatPost \<Rightarrow> post_heartbeat env cfg payload
      | ProbeReport _ \<Rightarrow> post_onvif_probe_report env cfg payload)"

definition retry_limit :: nat where
  "retry_limit = 4294967295"

text \<open>
  One round of \<open>retry_forever\<close>. The counter is a \<open>u32\<close>, and the multiplication of a duration
  panics when it overflows.
\<close>

definition retry_round :: "agent_env \<Rightarrow> ServerConfig \<Rightarrow> post_kind \<Rightarrow> json \<Rightarrow> nat \<Rightarrow> agent_world \<Rightarrow> agent_task \<times> agent_world" where
  "retry_round env cfg kind payload attempt w =
     (if attempt = retry_limit then (Died, w)
      else
        (case post_payload env cfg kind payload w of
           (Ok _, w') \<Rightarrow> (Delivered kind payload, w')
         | (Err _, w') \<Rightarrow>
             (let backoff = from_secs (sv_retry_interval_secs cfg) * min (attempt + 1) 10 in
              (if backoff \<le> duration_max then Posting kind payload (attempt + 1) backoff else Died, w'))
         | (Panic, w') \<Rightarrow> (Died, w')))"

definition finish_report :: "agent_env \<Rightarrow> post_kind \<Rightarrow> OnvifProbeManager \<Rightarrow> agent_world \<Rightarrow> OnvifProbeManager \<times> agent_world" where
  "finish_report env kind m w =
     (case kind of
        ProbeReport (Some camera_id) \<Rightarrow>
          (mark_reported camera_id (ag_now env (aw_clock w)) m, w\<lparr>aw_clock := aw_clock w + 1\<rparr>)
      | _ \<Rightarrow> (m, w))"

text \<open>The probe itself, and what it does to the manager; the report is then posted.\<close>

definition execute_probe_job ::
    "agent_env \<Rightarrow> OnvifProbeJobCommand \<Rightarrow> OnvifProbeCameraConfig \<Rightarrow> string \<Rightarrow> OnvifProbeManager \<Rightarrow> agent_world
       \<Rightarrow> agent_task \<times> OnvifProbeManager \<times> agent_world" where
  "execute_probe_job env job camera_config started_at m w =
     (let camera_id = pc_camera_id camera_config;
          outcome = ag_probe env (aw_uses w) camera_config;
          finished_at = ag_now env (aw_clock w);
          (status, error, report) = (case outcome of
             Inr report \<Rightarrow> (''succeeded'', None, report)
           | Inl e \<Rightarrow> (''failed'', Some e, JNull)) in
      (Posting (ProbeReport (Some camera_id))
         (probe_payload m (pj_job_id job) camera_id started_at finished_at status error report) 0 0,
       release_in_flight camera_id (set_finished camera_id (pj_job_id job) status error started_at finished_at m),
       w\<lparr>aw_uses := aw_uses w + 1, aw_clock := aw_clock w + 1\<rparr>))"

definition agent_task_step ::
    "agent_env \<Rightarrow> ServerConfig \<Rightarrow> agent_task \<Rightarrow> OnvifProbeManager \<Rightarrow> agent_world
       \<Rightarrow> agent_task \<times> OnvifProbeManager \<times> agent_world" where
  "agent_task_step env cfg t m w =
     (case t of
        Probing job camera_config started_at \<Rightarrow> execute_probe_job env job camera_config started_at m w
      | Posting kind payload attempt _ \<Rightarrow>
          (case retry_round env cfg kind payload attempt w of
             (Delivered k p, w') \<Rightarrow> (let (m', w'') = finish_report env kind m w' in (Delivered k p, m', w''))
           | (t', w') \<Rightarrow> (t', m, w'))
      | _ \<Rightarrow> (t, m, w))"

section \<open>Polling for probe jobs\<close>

definition fail_job_immediately ::
    "agent_env \<Rightarrow> OnvifProbeJobCommand \<Rightarrow> string \<Rightarrow> string option \<Rightarrow> OnvifProbeManager \<Rightarrow> agent_world
       \<Rightarrow> agent_task \<times> OnvifProbeManager \<times> agent_world" where
  "fail_job_immediately env job error summary_camera_id m w =
     (let started_at = ag_now env (aw_clock w);
          m' = (case summary_camera_id of
                  Some camera_id \<Rightarrow> set_finished camera_id (pj_job_id job) ''failed'' (Some error) started_at started_at m
                | None \<Rightarrow> m) in
      (Posting (ProbeReport summary_camera_id)
         (probe_payload m (pj_job_id job) (pj_camera_id job) started_at started_at ''failed'' (Some error) JNull) 0 0,
       m', w\<lparr>aw_clock := aw_clock w + 1\<rparr>))"

text \<open>What is done with a job: it starts exactly one task.\<close>

definition start_probe_job ::
    "agent_env \<Rightarrow> OnvifProbeJobCommand \<Rightarrow> OnvifProbeManager \<Rightarrow> agent_world \<Rightarrow> agent_task \<times> OnvifProbeManager \<times> agent_world" where
  "start_probe_job env job m w =
     (let camera_id = trim (pj_camera_id job); known = camera_id \<in> pm_known_cameras m in
      if pj_action job \<noteq> ''probe'' then
        fail_job_immediately env job (''Unsupported ONVIF probe action: '' @ pj_action job) None m w
      else if camera_id = [] then fail_job_immediately env job ''Missing camera_id'' None m w
      else
        (case map_of (pm_camera_configs m) camera_id of
           None \<Rightarrow>
             fail_job_immediately env job
               (if known then ''camera not configured for ONVIF'' else ''unknown camera_id: '' @ camera_id)
               (if known then Some camera_id else None) m w
         | Some camera_config \<Rightarrow>
             (let (fresh, m') = try_mark_in_flight camera_id m in
              if \<not> fresh then fail_job_immediately env job ''busy'' (Some camera_id) m' w
              else
                let started_at = ag_now env (aw_clock w) in
                (Probing job camera_config started_at, set_running camera_id (pj_job_id job) started_at m',
                 w\<lparr>aw_clock := aw_clock w + 1\<rparr>))))"

definition poll_for_jobs ::
    "agent_env \<Rightarrow> ServerConfig \<Rightarrow> OnvifProbeManager \<Rightarrow> agent_world \<Rightarrow> agent_task list \<times> OnvifProbeManager \<times> agent_world" where
  "poll_for_jobs env cfg m w =
     (case fetch_onvif_probe_job_command env cfg w of
        (Ok (Some job), w') \<Rightarrow> (let (t, m', w'') = start_probe_job env job m w' in ([t], m', w''))
      | (_, w') \<Rightarrow> ([], m, w'))"

section \<open>The loop\<close>

text \<open>What the reports of one iteration have in common.\<close>

record heartbeat_ctx =
  hc_config_version :: "json option"
  hc_cameras :: "json list"
  hc_telemetry :: HeartbeatTelemetry
  hc_firmware :: FirmwareHeartbeatState

text \<open>Where the loop is. A panic in it ends only its task; an exit ends the process.\<close>

datatype poster_phase =
    Sleeping
  | Collecting
  | MarkerPhase heartbeat_ctx
  | ShutdownPhase heartbeat_ctx RestartMarkerReportOutcome
  | RestartPhase heartbeat_ctx RestartMarkerReportOutcome
  | FirmwarePhase heartbeat_ctx "RestartHeartbeatState option"
  | Exited int
  | Panicked

record poster =
  po_phase :: poster_phase
  po_manager :: OnvifProbeManager
  po_tasks :: "agent_task list"
  po_sampler :: TelemetrySampler
  po_firmware_memory :: FirmwareJobMemory
  po_restart_memory :: RestartJobMemory
  po_shutdown_memory :: ShutdownJobMemory
  po_world :: agent_world

definition heartbeat_payload ::
    "string \<Rightarrow> heartbeat_ctx \<Rightarrow> FirmwareHeartbeatState \<Rightarrow> RestartHeartbeatState option \<Rightarrow> string \<Rightarrow> json" where
  "heartbeat_payload agent_id ctx firmware restart timestamp =
     build_agent_heartbeat_payload agent_id timestamp (hc_config_version ctx) (hc_cameras ctx) (hc_telemetry ctx) firmware restart"

definition report_heartbeat ::
    "agent_env \<Rightarrow> ServerConfig \<Rightarrow> string \<Rightarrow> heartbeat_ctx \<Rightarrow> FirmwareHeartbeatState \<Rightarrow> RestartHeartbeatState option \<Rightarrow> unit agent" where
  "report_heartbeat env cfg agent_id ctx firmware restart =
     bindA (utc_now env) (\<lambda>timestamp. post_heartbeat env cfg (heartbeat_payload agent_id ctx firmware restart timestamp))"

definition camera_json :: "OnvifProbeManager \<Rightarrow> CameraHeartbeatTarget \<Rightarrow> bool \<times> int option \<times> string option \<Rightarrow> json" where
  "camera_json m cam r = JObject
     [(''camera_id'', JString (ct_camera_id cam)),
      (''config_version'', json_of_option (\<lambda>v. v) (ct_config_version cam)),
      (''rtsp_ok'', JBool (fst r)),
      (''rtsp_latency_ms'', json_of_option json_of_int (fst (snd r))),
      (''rtsp_error'', json_of_option JString (snd (snd r))),
      (''onvif_probe'', OnvifProbeSummary_as_json (summary_for m (ct_camera_id cam)))]"

fun camera_status :: "agent_env \<Rightarrow> OnvifProbeManager \<Rightarrow> CameraHeartbeatTarget list \<Rightarrow> (bool \<times> json list) agent" where
  "camera_status env m [] = returnA (False, [])"
| "camera_status env m (cam # cams) =
     bindA (check_rtsp_reachability env (ct_rtsp_url cam)) (\<lambda>r.
     bindA (camera_status env m cams) (\<lambda>(impaired, js).
     returnA (\<not> fst r \<or> impaired, camera_json m cam r # js)))"

definition liftR :: "(unit, 'a) rust \<Rightarrow> 'a agent" where
  "liftR r w = (case r of Ok x \<Rightarrow> (Ok x, w) | Err _ \<Rightarrow> (Panic, w) | Panic \<Rightarrow> (Panic, w))"

definition collect_phase ::
    "agent_env \<Rightarrow> overrides \<Rightarrow> json option \<Rightarrow> CameraHeartbeatTarget list \<Rightarrow> OnvifProbeManager \<Rightarrow> TelemetrySampler
       \<Rightarrow> (heartbeat_ctx \<times> TelemetrySampler) agent" where
  "collect_phase env ov config_version cams m ts =
     bindA (camera_status env m cams) (\<lambda>(impaired, js).
     bindA (use_source (\<lambda>n. ag_proc env n ''/proc/stat'')) (\<lambda>stat.
     bindA (use_source (\<lambda>n. ag_proc env n ''/proc/meminfo'')) (\<lambda>meminfo.
     bindA (liftR (TelemetrySampler_sample stat meminfo (if impaired then Degraded else Operational) ts)) (\<lambda>(telemetry, ts).
     bindA (baseline_firmware_state env ov) (\<lambda>firmware.
     returnA (\<lparr>hc_config_version = config_version, hc_cameras = js, hc_telemetry = telemetry, hc_firmware = firmware\<rparr>, ts))))))"

definition restart_for_payload :: "RestartMarkerReportOutcome \<Rightarrow> RestartHeartbeatState option" where
  "restart_for_payload o' = (case o' of Reported st \<Rightarrow> Some st | _ \<Rightarrow> None)"

definition note_reported :: "RestartMarkerReportOutcome \<Rightarrow> RestartJobMemory \<Rightarrow> RestartJobMemory" where
  "note_reported o' mem =
     (case Option.bind (restart_for_payload o') rs_job_id of
        Some job_id \<Rightarrow> mem\<lparr>rh_handled_job_ids := insert job_id (rh_handled_job_ids mem)\<rparr>
      | None \<Rightarrow> mem)"

text \<open>A phase ends with a value, or the task of the loop panics.\<close>

definition run_phase :: "'a agent \<Rightarrow> ('a \<Rightarrow> poster \<Rightarrow> poster) \<Rightarrow> poster \<Rightarrow> poster" where
  "run_phase m f s =
     (case m (po_world s) of
        (Ok x, w) \<Rightarrow> f x (s\<lparr>po_world := w\<rparr>)
      | (_, w) \<Rightarrow> s\<lparr>po_phase := Panicked, po_world := w\<rparr>)"

definition poll_phase :: "agent_env \<Rightarrow> ServerConfig \<Rightarrow> poster \<Rightarrow> poster" where
  "poll_phase env cfg s =
     (let (ts, m, w) = poll_for_jobs env cfg (po_manager s) (po_world s) in
      s\<lparr>po_phase := Collecting, po_tasks := po_tasks s @ ts, po_manager := m, po_world := w\<rparr>)"

definition marker_phase :: "agent_env \<Rightarrow> ServerConfig \<Rightarrow> string \<Rightarrow> heartbeat_ctx \<Rightarrow> poster \<Rightarrow> poster" where
  "marker_phase env cfg agent_id ctx =
     run_phase (maybe_report_restart_completion_marker env RESTART_JOB_MARKER_PATH
         (\<lambda>restart. report_heartbeat env cfg agent_id ctx (hc_firmware ctx) (Some restart)))
       (\<lambda>o' s. s\<lparr>po_phase := ShutdownPhase ctx o', po_restart_memory := note_reported o' (po_restart_memory s)\<rparr>)"

definition shutdown_phase ::
    "agent_env \<Rightarrow> ServerConfig \<Rightarrow> string \<Rightarrow> heartbeat_ctx \<Rightarrow> RestartMarkerReportOutcome \<Rightarrow> poster \<Rightarrow> poster" where
  "shutdown_phase env cfg agent_id ctx o' s =
     run_phase
       (bindA (maybe_process_shutdown_job env cfg (po_shutdown_memory s)) (\<lambda>(r, mem).
          if r = ExitZero
          then bindA (attemptA (report_heartbeat env cfg agent_id ctx (hc_firmware ctx) (restart_for_payload o'))) (\<lambda>_. returnA (r, mem))
          else returnA (r, mem)))
       (\<lambda>(r, mem) s. s\<lparr>po_phase := (if r = ExitZero then Exited 0 else RestartPhase ctx o'), po_shutdown_memory := mem\<rparr>) s"

definition restart_phase ::
    "agent_env \<Rightarrow> ServerConfig \<Rightarrow> string \<Rightarrow> heartbeat_ctx \<Rightarrow> RestartMarkerReportOutcome \<Rightarrow> poster \<Rightarrow> poster" where
  "restart_phase env cfg agent_id ctx o' s =
     (if o' = Pending then s\<lparr>po_phase := FirmwarePhase ctx (restart_for_payload o')\<rparr>
      else run_phase (maybe_process_restart_job env cfg RESTART_JOB_MARKER_PATH (po_restart_memory s)
             (\<lambda>restart. report_heartbeat env cfg agent_id ctx (hc_firmware ctx) (Some restart)))
           (\<lambda>(r, mem) s. s\<lparr>po_phase := (if r = ExitNonZero then Exited (exit_code r) else FirmwarePhase ctx (restart_for_payload o')),
              po_restart_memory := mem\<rparr>) s)"

definition firmware_phase ::
    "agent_env \<Rightarrow> overrides \<Rightarrow> ServerConfig \<Rightarrow> string \<Rightarrow> heartbeat_ctx \<Rightarrow> RestartHeartbeatState option \<Rightarrow> poster \<Rightarrow> poster" where
  "firmware_phase env ov cfg agent_id ctx restart s =
     run_phase
       (bindA (maybe_process_firmware_job env ov cfg (hc_firmware ctx) (po_firmware_memory s)
          (\<lambda>firmware. bindA (attemptA (report_heartbeat env cfg agent_id ctx firmware restart)) (\<lambda>_. returnA ()))) (\<lambda>(firmware, mem).
        bindA (utc_now env) (\<lambda>timestamp. returnA (heartbeat_payload agent_id ctx firmware restart timestamp, mem))))
       (\<lambda>(payload, mem) s. s\<lparr>po_phase := Sleeping, po_firmware_memory := mem,
          po_tasks := po_tasks s @ [Posting HeartbeatPost payload 0 0]\<rparr>) s"

datatype agent_event = LoopStep "json option" "CameraHeartbeatTarget list" | TaskStep nat

definition loop_step ::
    "agent_env \<Rightarrow> overrides \<Rightarrow> ServerConfig \<Rightarrow> string \<Rightarrow> json option \<Rightarrow> CameraHeartbeatTarget list \<Rightarrow> poster \<Rightarrow> poster" where
  "loop_step env ov cfg agent_id config_version cams s =
     (case po_phase s of
        Sleeping \<Rightarrow> poll_phase env cfg s
      | Collecting \<Rightarrow>
          run_phase (collect_phase env ov config_version cams (po_manager s) (po_sampler s))
            (\<lambda>(ctx, ts) s. s\<lparr>po_phase := MarkerPhase ctx, po_sampler := ts\<rparr>) s
      | MarkerPhase ctx \<Rightarrow> marker_phase env cfg agent_id ctx s
      | ShutdownPhase ctx o' \<Rightarrow> shutdown_phase env cfg agent_id ctx o' s
      | RestartPhase ctx o' \<Rightarrow> restart_phase env cfg agent_id ctx o' s
      | FirmwarePhase ctx restart \<Rightarrow> firmware_phase env ov cfg agent_id ctx restart s
      | Exited _ \<Rightarrow> s
      | Panicked \<Rightarrow> s)"

definition is_exited :: "poster \<Rightarrow> bool" where
  "is_exited s = (case po_phase s of Exited _ \<Rightarrow> True | _ \<Rightarrow> False)"

definition poster_step :: "agent_env \<Rightarrow> overrides \<Rightarrow> ServerConfig \<Rightarrow> string \<Rightarrow> agent_event \<Rightarrow> poster \<Rightarrow> poster" where
  "poster_step env ov cfg agent_id ev s =
     (if is_exited s then s
      else
        (case ev of
           LoopStep config_version cams \<Rightarrow> loop_step env ov cfg agent_id config_version cams s
         | TaskStep i \<Rightarrow>
             if i < length (po_tasks s) then
               (let (t, m, w) = agent_task_step env cfg (po_tasks s ! i) (po_manager s) (po_world s) in
                s\<lparr>po_tasks := (po_tasks s)[i := t], po_manager := m, po_world := w\<rparr>)
             else s))"

text \<open>A process starts with an empty memory; only the disk is left from earlier ones.\<close>

definition poster_start :: "OnvifProbeManager \<Rightarrow> TelemetrySampler \<Rightarrow> agent_world \<Rightarrow> poster" where
  "poster_start m ts w =
     \<lparr>po_phase = Sleeping, po_manager = m, po_tasks = [], po_sampler = ts,
      po_firmware_memory = \<lparr>fm_last_terminal_state = None\<rparr>, po_restart_memory = \<lparr>rh_handled_job_ids = {}\<rparr>,
      po_shutdown_memory = \<lparr>sh_handled_job_ids = {}\<rparr>, po_world = w\<rparr>"

definition run_agent_heartbeat_poster ::
    "agent_env \<Rightarrow> overrides \<Rightarrow> ServerConfig \<Rightarrow> string \<Rightarrow> OnvifProbeManager \<Rightarrow> agent_world \<Rightarrow> agent_event list \<Rightarrow> poster" where
  "run_agent_heartbeat_poster env ov cfg agent_id m w evs =
     (case TelemetrySampler_new (ag_proc env (aw_uses w) ''/proc/stat'') of
        Ok ts \<Rightarrow> fold (poster_step env ov cfg agent_id) evs (poster_start m ts (w\<lparr>aw_uses := aw_uses w + 1\<rparr>))
      | _ \<Rightarrow> (poster_start m \<lparr>ts_last_cpu_sample = None\<rparr> (w\<lparr>aw_uses := aw_uses w + 1\<rparr>))\<lparr>po_phase := Panicked\<rparr>)"

section \<open>Only the server\<close>

lemma run_phase_keeps:
  "keeps R m \<Longrightarrow> (\<And>x s. po_world (f x s) = po_world s) \<Longrightarrow> R (po_world s) (po_world (run_phase m f s))"
  by (auto simp: run_phase_def keeps_def split: prod.splits rust.splits) (metis snd_conv)+

lemma report_keeps:
  "keeps (talks cfg) (report_heartbeat env cfg agent_id ctx fw restart)" "keeps same_files (report_heartbeat env cfg agent_id ctx fw restart)"
  unfolding report_heartbeat_def by (intro frame_rules frame_intros)+

lemma camera_status_keeps: "keeps (talks cfg) (camera_status env m cams)" "keeps same_files (camera_status env m cams)"
  by (induction cams) (auto intro!: frame_rules frame_intros)

lemma liftR_keeps: "keeps (talks cfg) (liftR r)" "keeps same_files (liftR r)"
  by (auto simp: keeps_def liftR_def talking.frame_refl unchanged.frame_refl split: rust.splits)

lemma collect_keeps:
  "keeps (talks cfg) (collect_phase env ov v cams m ts)" "keeps same_files (collect_phase env ov v cams m ts)"
  unfolding collect_phase_def
  by (intro frame_rules frame_intros camera_status_keeps liftR_keeps;
      auto intro!: frame_rules frame_intros liftR_keeps)+

lemma post_payload_keeps: "keeps (talks cfg) (post_payload env cfg kind payload)" "keeps same_files (post_payload env cfg kind payload)"
  unfolding post_payload_def by (auto intro!: frame_intros split: post_kind.splits)

text \<open>A step of a task makes one round of requests at most, and reads the clock.\<close>

lemma agent_task_step_world:
  assumes "\<And>w n. R w (w\<lparr>aw_clock := n\<rparr>)" "\<And>w n. R w (w\<lparr>aw_uses := n\<rparr>)" "agent_frame R"
    and "\<And>kind payload. keeps R (post_payload env cfg kind payload)"
  shows "R w (snd (snd (agent_task_step env cfg t m w)))"
proof -
  note tr = agent_frame.frame_trans [OF assms(3)] and refl = agent_frame.frame_refl [OF assms(3)]
  have retry: "R w (snd (retry_round env cfg kind payload n w))" for kind payload n
    using assms(4) [of kind payload] by (auto simp: retry_round_def keeps_def Let_def refl split: prod.splits rust.splits) (metis snd_conv)+
  have fin: "R w (snd (finish_report env kind m w))" for kind m w
    by (auto simp: finish_report_def assms(1) refl split: post_kind.splits option.splits)
  have probe: "R w (w\<lparr>aw_uses := n, aw_clock := k\<rparr>)" for n k w
    using tr [OF assms(2) [of w n] assms(1)] by simp
  show ?thesis
  proof (cases t)
    case (Posting kind payload n b)
    obtain t' w' where r: "retry_round env cfg kind payload n w = (t', w')" by fastforce
    then have "R w w'" using retry [of kind payload n] by simp
    then show ?thesis using r Posting tr [OF _ fin [of w' kind m]]
      by (auto simp: agent_task_step_def split: agent_task.splits prod.splits)
  qed (auto simp: agent_task_step_def execute_probe_job_def Let_def probe refl split: sum.splits prod.splits)
qed

lemma talks_counters: "talks cfg w (w\<lparr>aw_clock := n\<rparr>)" "talks cfg w (w\<lparr>aw_uses := n\<rparr>)"
  by (simp_all add: talks_def)

lemma start_probe_world: "snd (snd (start_probe_job env job m w)) = w\<lparr>aw_clock := aw_clock w + 1\<rparr>"
  by (simp add: start_probe_job_def fail_job_immediately_def Let_def try_mark_in_flight_def split: option.splits)

lemma poll_world:
  assumes "keeps R (fetch_onvif_probe_job_command env cfg)" "agent_frame R" "\<And>w n. R w (w\<lparr>aw_clock := n\<rparr>)"
  shows "R w (snd (snd (poll_for_jobs env cfg m w)))"
proof -
  obtain r w1 where f: "fetch_onvif_probe_job_command env cfg w = (r, w1)" by fastforce
  then have 1: "R w w1" using keepsD [OF assms(1)] by blast
  show ?thesis
    using f 1 start_probe_world [of env _ m w1] agent_frame.frame_trans [OF assms(2) 1 assms(3)]
    by (cases r) (auto simp: poll_for_jobs_def split: option.splits prod.splits, metis snd_conv)
qed

lemma loop_step_talks: "talks cfg (po_world s) (po_world (loop_step env ov cfg agent_id v cams s))"
proof -
  have rep: "keeps (talks cfg) (bindA (attemptA (report_heartbeat env cfg agent_id ctx fw restart)) (\<lambda>_. returnA x))"
    for ctx fw restart and x :: 'x
    by (intro frame_rules report_keeps)
  show ?thesis
  proof (cases "po_phase s")
    case Sleeping
    then show ?thesis using poll_world [OF keeps_fetch(5) talking.agent_frame_axioms talks_counters(1)]
      by (auto simp: loop_step_def poll_phase_def split: prod.splits) (metis snd_conv)
  next
    case Collecting
    then show ?thesis
      by (auto simp: loop_step_def intro!: run_phase_keeps [of "talks cfg"] collect_keeps split: prod.splits)
  next
    case (MarkerPhase ctx)
    then show ?thesis
      by (auto simp: loop_step_def marker_phase_def intro!: run_phase_keeps [of "talks cfg"] keeps_jobs report_keeps)
  next
    case (ShutdownPhase ctx o')
    then show ?thesis
      by (auto simp: loop_step_def shutdown_phase_def intro!: run_phase_keeps [of "talks cfg"] frame_rules keeps_jobs rep report_keeps
          split: prod.splits)
  next
    case (RestartPhase ctx o')
    then show ?thesis
      by (auto simp: loop_step_def restart_phase_def talking.frame_refl intro!: run_phase_keeps [of "talks cfg"] keeps_jobs report_keeps
          split: prod.splits)
  next
    case (FirmwarePhase ctx restart)
    then show ?thesis
      by (auto simp: loop_step_def firmware_phase_def intro!: run_phase_keeps [of "talks cfg"] frame_rules frame_intros keeps_firmware rep
          split: prod.splits)
  qed (simp_all add: loop_step_def talking.frame_refl)
qed

lemma poster_step_talks: "talks cfg (po_world s) (po_world (poster_step env ov cfg agent_id ev s))"
proof (cases ev)
  case (TaskStep i)
  have "talks cfg (po_world s) (snd (snd (agent_task_step env cfg (po_tasks s ! i) (po_manager s) (po_world s))))"
    by (rule agent_task_step_world [OF talks_counters talking.agent_frame_axioms post_payload_keeps(1)])
  then show ?thesis
    by (auto simp: poster_step_def TaskStep talking.frame_refl split: prod.splits)
qed (simp add: poster_step_def loop_step_talks talking.frame_refl)

interpretation traffic: machine "poster_step env ov cfg agent_id" "\<lambda>s. talks cfg w (po_world s)" for env ov cfg agent_id w
  by unfold_locales (rule talking.frame_trans [OF _ poster_step_talks])


section \<open>Restarts\<close>

text \<open>
  The restarts to protect from: jobs with the content of the marker they left. Each is either handled
  in this process or its marker is still there, and no restart job is taken while it is.
\<close>

abbreviation handled :: "poster \<Rightarrow> int set" where
  "handled s \<equiv> rh_handled_job_ids (po_restart_memory s)"

definition protected :: "(int \<times> bytes) set \<Rightarrow> poster \<Rightarrow> bool" where
  "protected J s \<longleftrightarrow> (\<forall>(j, raw) \<in> J. j \<in> handled s \<or> marker_data (po_world s) = Some raw)"

definition decodable :: "agent_env \<Rightarrow> (int \<times> bytes) set \<Rightarrow> bool" where
  "decodable env J \<longleftrightarrow>
     (\<forall>(j, raw) \<in> J. \<forall>t. \<exists>st. restart_marker_state_from_raw env (to_str raw) t = Some st \<and> rs_job_id st = Some j)"

definition restart_safe :: "agent_env \<Rightarrow> (int \<times> bytes) set \<Rightarrow> poster \<Rightarrow> bool" where
  "restart_safe env J s \<longleftrightarrow>
     (case po_phase s of
        Exited c \<Rightarrow> c = RESTART_EXIT_CODE \<longrightarrow> (\<exists>k t. k \<notin> fst ` J \<and> marker_data (po_world s) = Some (marker_bytes env k t))
      | Panicked \<Rightarrow> True
      | ShutdownPhase _ o' \<Rightarrow> protected J s \<and> (o' \<noteq> Pending \<longrightarrow> fst ` J \<subseteq> handled s)
      | RestartPhase _ o' \<Rightarrow> protected J s \<and> (o' \<noteq> Pending \<longrightarrow> fst ` J \<subseteq> handled s)
      | _ \<Rightarrow> protected J s)"

lemma protected_step:
  "protected J s \<Longrightarrow> handled s \<subseteq> handled s' \<Longrightarrow> marker_kept (po_world s) (po_world s') \<Longrightarrow> protected J s'"
  by (auto simp: protected_def marker_kept_def)

lemma run_phase_cases:
  obtains (ok) x w where "m (po_world s) = (Ok x, w)" "run_phase m f s = f x (s\<lparr>po_world := w\<rparr>)"
    | (panic) w where "run_phase m f s = s\<lparr>po_phase := Panicked, po_world := w\<rparr>"
  by (cases "m (po_world s)"; cases "fst (m (po_world s))") (auto simp: run_phase_def)

text \<open>A phase that leaves the marker alone.\<close>

lemma run_phase_protected:
  assumes "protected J s" "keeps marker_kept m" "\<And>x s. po_world (f x s) = po_world s" "\<And>x s. po_restart_memory (f x s) = po_restart_memory s"
  shows "po_phase (run_phase m f s) = Panicked \<or> protected J (run_phase m f s)"
proof (cases rule: run_phase_cases [of m s f])
  case (ok x w)
  then show ?thesis using keepsD [OF assms(2)] assms(1,3,4) by (auto intro: protected_step [OF assms(1)])
qed simp

lemma poll_protected: "protected J s \<Longrightarrow> protected J (poll_phase env cfg s)"
proof (erule protected_step)
  have "marker_kept w (snd (snd (poll_for_jobs env cfg m w)))" for m w
    by (rule poll_world [OF same_files_marker [OF keeps_fetch(6)] marker.agent_frame_axioms]) (simp add: marker_kept_def)
  then show "marker_kept (po_world s) (po_world (poll_phase env cfg s))"
    by (auto simp: poll_phase_def split: prod.splits) (metis snd_conv)
qed (auto simp: poll_phase_def split: prod.splits)

lemma marker_phase_safe:
  assumes "protected J s" "decodable env J"
  shows "restart_safe env J (marker_phase env cfg agent_id ctx s)"
proof -
  let ?report = "\<lambda>restart. report_heartbeat env cfg agent_id ctx (hc_firmware ctx) (Some restart)"
  let ?m = "maybe_report_restart_completion_marker env RESTART_JOB_MARKER_PATH ?report"
  let ?f = "\<lambda>o' s. s\<lparr>po_phase := ShutdownPhase ctx o', po_restart_memory := note_reported o' (po_restart_memory s)\<rparr>"
  show ?thesis
    unfolding marker_phase_def
  proof (cases rule: run_phase_cases [of ?m s ?f])
    case (ok out w)
    have "(out = Pending \<and> marker_data w = Some raw) \<or> (\<exists>st. out = Reported st \<and> rs_job_id st = Some j)"
      if "(j, raw) \<in> J" "j \<notin> handled s" for j raw
      by (rule report_marker [OF ok(1) _ report_keeps(2)]) (use that assms in \<open>auto simp: protected_def decodable_def\<close>)
    then have "\<forall>(j, raw) \<in> J. j \<in> rh_handled_job_ids (note_reported out (po_restart_memory s)) \<or> out = Pending \<and> marker_data w = Some raw"
      by (fastforce simp: note_reported_def restart_for_payload_def split: option.splits)
    with ok show "restart_safe env J (run_phase ?m ?f s)"
      by (auto simp: restart_safe_def protected_def)
  qed (simp add: restart_safe_def)
qed

lemma restart_phase_safe:
  assumes "protected J s" "o' \<noteq> Pending \<Longrightarrow> fst ` J \<subseteq> handled s"
  shows "restart_safe env J (restart_phase env cfg agent_id ctx o' s)"
proof (cases "o' = Pending")
  case True
  with assms show ?thesis by (simp add: restart_phase_def restart_safe_def protected_def)
next
  case False
  let ?report = "\<lambda>restart. report_heartbeat env cfg agent_id ctx (hc_firmware ctx) (Some restart)"
  let ?m = "maybe_process_restart_job env cfg RESTART_JOB_MARKER_PATH (po_restart_memory s) ?report"
  let ?f = "\<lambda>(r, mem) s. s\<lparr>po_phase := (if r = ExitNonZero then Exited (exit_code r) else FirmwarePhase ctx (restart_for_payload o')),
              po_restart_memory := mem\<rparr>"
  have J: "fst ` J \<subseteq> handled s" using assms(2) False by simp
  have "restart_safe env J (run_phase ?m ?f s)"
  proof (cases rule: run_phase_cases [of ?m s ?f])
    case (ok x w)
    obtain r mem where x: "x = (r, mem)" by fastforce
    consider (none) "r = Continue" "mem = po_restart_memory s"
      | (job) job w1 where "process_restart_job_command env job RESTART_JOB_MARKER_PATH (po_restart_memory s) ?report w1 = (Ok (r, mem), w)"
      using ok(1) x unfolding maybe_process_restart_job_def bindA_Ok by (fastforce split: sum.splits option.splits)
    then have "handled s \<subseteq> rh_handled_job_ids mem
      \<and> (r = ExitNonZero \<longrightarrow> (\<exists>k t. k \<notin> handled s \<and> marker_data w = Some (marker_bytes env k t)))"
    proof cases
      case job
      show ?thesis using process_restart [OF job] by blast
    qed auto
    note mem = this
    show ?thesis
    proof (cases r)
      case Continue
      with ok x mem J have "run_phase ?m ?f s = s\<lparr>po_world := w, po_phase := FirmwarePhase ctx (restart_for_payload o'),
          po_restart_memory := mem\<rparr>" "fst ` J \<subseteq> rh_handled_job_ids mem"
        by auto
      then show ?thesis by (auto simp: restart_safe_def protected_def)
    next
      case ExitNonZero
      with mem obtain k t where "k \<notin> handled s" "marker_data w = Some (marker_bytes env k t)" by blast
      with ok x J ExitNonZero show ?thesis by (auto simp: restart_safe_def)
    qed
  qed (simp add: restart_safe_def)
  with False show ?thesis by (simp add: restart_phase_def)
qed

lemma loop_step_safe:
  assumes safe: "restart_safe env J s" and "decodable env J" "updater_spares_marker env"
  shows "restart_safe env J (loop_step env ov cfg agent_id v cams s)"
proof -
  have quiet: "keeps marker_kept (bindA (attemptA (report_heartbeat env cfg agent_id ctx fw restart)) (\<lambda>_. returnA x))"
    for ctx fw restart and x :: 'x
    by (intro same_files_marker frame_rules report_keeps)
  show ?thesis
  proof (cases "po_phase s")
    case Sleeping
    with safe show ?thesis using poll_protected [of J s env cfg]
      by (auto simp: loop_step_def restart_safe_def poll_phase_def split: prod.splits)
  next
    case Collecting
    let ?f = "\<lambda>(ctx, ts) s. s\<lparr>po_phase := MarkerPhase ctx, po_sampler := ts\<rparr>"
    let ?m = "collect_phase env ov v cams (po_manager s) (po_sampler s)"
    have "po_phase (run_phase ?m ?f s) = Panicked \<or> protected J (run_phase ?m ?f s)"
      by (rule run_phase_protected) (use safe Collecting in \<open>auto simp: restart_safe_def same_files_marker [OF collect_keeps(2)]\<close>)
    moreover have "po_phase (run_phase ?m ?f s) = Panicked \<or> (\<exists>ctx. po_phase (run_phase ?m ?f s) = MarkerPhase ctx)"
      by (cases rule: run_phase_cases [of ?m s ?f]) (auto split: prod.splits)
    ultimately show ?thesis using Collecting by (auto simp: loop_step_def restart_safe_def)
  next
    case (MarkerPhase ctx)
    with safe assms(2) show ?thesis by (auto simp: loop_step_def restart_safe_def [of env J s] intro: marker_phase_safe)
  next
    case (ShutdownPhase ctx o')
    let ?m = "bindA (maybe_process_shutdown_job env cfg (po_shutdown_memory s)) (\<lambda>(r, mem).
        if r = ExitZero
        then bindA (attemptA (report_heartbeat env cfg agent_id ctx (hc_firmware ctx) (restart_for_payload o'))) (\<lambda>_. returnA (r, mem))
        else returnA (r, mem))"
    let ?f = "\<lambda>(r, mem) s. s\<lparr>po_phase := (if r = ExitZero then Exited 0 else RestartPhase ctx o'), po_shutdown_memory := mem\<rparr>"
    have shut: "keeps marker_kept (maybe_process_shutdown_job env cfg mem)" for mem
      unfolding maybe_process_shutdown_job_def Let_def
      by (auto intro!: same_files_marker frame_rules frame_intros split: sum.splits option.splits)
    have k: "keeps marker_kept ?m"
      by (intro marker.keeps_bind shut) (auto intro: quiet marker.keeps_return)
    have "po_phase (run_phase ?m ?f s) = Panicked \<or> protected J (run_phase ?m ?f s)"
      by (rule run_phase_protected [OF _ k]) (use safe ShutdownPhase in \<open>auto simp: restart_safe_def\<close>)
    moreover have "po_phase (run_phase ?m ?f s) \<in> {Panicked, Exited 0, RestartPhase ctx o'} \<and> handled (run_phase ?m ?f s) = handled s"
      by (cases rule: run_phase_cases [of ?m s ?f]) (auto split: prod.splits)
    ultimately show ?thesis using safe ShutdownPhase
      by (auto simp: loop_step_def shutdown_phase_def restart_safe_def RESTART_EXIT_CODE_def)
  next
    case (RestartPhase ctx o')
    with safe show ?thesis by (auto simp: loop_step_def restart_safe_def [of env J s] intro!: restart_phase_safe)
  next
    case (FirmwarePhase ctx restart)
    let ?m = "bindA (maybe_process_firmware_job env ov cfg (hc_firmware ctx) (po_firmware_memory s)
          (\<lambda>firmware. bindA (attemptA (report_heartbeat env cfg agent_id ctx firmware restart)) (\<lambda>_. returnA ()))) (\<lambda>(firmware, mem).
        bindA (utc_now env) (\<lambda>timestamp. returnA (heartbeat_payload agent_id ctx firmware restart timestamp, mem)))"
    let ?f = "\<lambda>(payload, mem) s. s\<lparr>po_phase := Sleeping, po_firmware_memory := mem,
          po_tasks := po_tasks s @ [Posting HeartbeatPost payload 0 0]\<rparr>"
    have "keeps same_files (bindA (attemptA (report_heartbeat env cfg agent_id ctx fw restart)) (\<lambda>_. returnA ()))" for fw
      by (intro frame_rules report_keeps)
    then have k: "keeps marker_kept ?m"
      by (intro marker.keeps_bind firmware_marker assms(3))
         (auto intro!: marker.keeps_bind same_files_marker [OF keeps_clock(2)] marker.keeps_return)
    have "po_phase (run_phase ?m ?f s) = Panicked \<or> protected J (run_phase ?m ?f s)"
      by (rule run_phase_protected [OF _ k]) (use safe FirmwarePhase in \<open>auto simp: restart_safe_def\<close>)
    moreover have "po_phase (run_phase ?m ?f s) \<in> {Panicked, Sleeping}"
      by (cases rule: run_phase_cases [of ?m s ?f]) (auto split: prod.splits)
    ultimately show ?thesis using FirmwarePhase
      by (auto simp: loop_step_def firmware_phase_def restart_safe_def)
  qed (use safe in \<open>auto simp: loop_step_def\<close>)
qed

lemma restart_safe_tasks:
  "restart_safe env J s \<Longrightarrow> marker_kept (po_world s) w \<Longrightarrow> restart_safe env J (s\<lparr>po_tasks := ts, po_manager := m, po_world := w\<rparr>)"
  by (auto simp: restart_safe_def protected_def marker_kept_def split: poster_phase.splits)

lemma poster_step_safe:
  assumes "restart_safe env J s" "decodable env J" "updater_spares_marker env"
  shows "restart_safe env J (poster_step env ov cfg agent_id ev s)"
proof (cases ev)
  case (TaskStep i)
  have "marker_kept (po_world s) (snd (snd (agent_task_step env cfg (po_tasks s ! i) (po_manager s) (po_world s))))"
    by (rule agent_task_step_world [OF _ _ marker.agent_frame_axioms same_files_marker [OF post_payload_keeps(2)]])
       (simp_all add: marker_kept_def)
  then show ?thesis using restart_safe_tasks [OF assms(1)] assms(1)
    by (auto simp: poster_step_def TaskStep split: prod.splits)
qed (use assms loop_step_safe in \<open>auto simp: poster_step_def\<close>)

interpretation restarts: machine "poster_step env ov cfg agent_id"
    "\<lambda>s. decodable env J \<and> updater_spares_marker env \<longrightarrow> restart_safe env J s" for env ov cfg agent_id J
  by unfold_locales (blast intro: poster_step_safe)

text \<open>A run starts from an empty memory, or its task ends at once.\<close>

lemma run_cases:
  obtains (run) ts where "run_agent_heartbeat_poster env ov cfg agent_id m w evs
      = fold (poster_step env ov cfg agent_id) evs (poster_start m ts (w\<lparr>aw_uses := aw_uses w + 1\<rparr>))"
    | (dead) ts where "run_agent_heartbeat_poster env ov cfg agent_id m w evs
      = (poster_start m ts (w\<lparr>aw_uses := aw_uses w + 1\<rparr>))\<lparr>po_phase := Panicked\<rparr>"
  by (cases "TelemetrySampler_new (ag_proc env (aw_uses w) ''/proc/stat'')") (simp_all add: run_agent_heartbeat_poster_def)

lemma run_restart_safe:
  assumes "decodable env J" "updater_spares_marker env" "\<forall>(j, raw) \<in> J. marker_data w = Some raw"
  shows "restart_safe env J (run_agent_heartbeat_poster env ov cfg agent_id m w evs)"
proof -
  have "restart_safe env J (poster_start m ts (w\<lparr>aw_uses := n\<rparr>))" for ts n
    using assms(3) by (simp add: restart_safe_def poster_start_def protected_def)
  then have "restart_safe env J (fold (poster_step env ov cfg agent_id) evs (poster_start m ts (w\<lparr>aw_uses := n\<rparr>)))" for ts n
    using restarts.run_inv [of env J _ ov cfg agent_id evs] assms(1,2) by blast
  moreover have "restart_safe env J (s\<lparr>po_phase := Panicked\<rparr>)" for s by (simp add: restart_safe_def)
  ultimately show ?thesis by (cases rule: run_cases [of env ov cfg agent_id m w evs]) simp_all
qed


definition sample_marker_text :: "RestartJobMarker \<Rightarrow> string" where
  "sample_marker_text x =
     (if rm_job_id x < 0 then CHR ''-'' else CHR ''+'') # replicate (nat \<bar>rm_job_id x\<bar>) (CHR ''1'') @ CHR '','' # rm_started_at x"

definition sample_marker_of :: "string \<Rightarrow> string + RestartJobMarker" where
  "sample_marker_of s =
     (case s of
        [] \<Rightarrow> Inl ''empty''
      | c # r \<Rightarrow>
          (let n = length (takeWhile (\<lambda>c. c = CHR ''1'') r) in
           Inr \<lparr>rm_job_id = (if c = CHR ''-'' then - int n else int n), rm_started_at = butlast (drop (n + 1) r)\<rparr>))"

lemma sample_marker: "sample_marker_of (sample_marker_text x @ [newline]) = Inr x"
proof -
  have "takeWhile (\<lambda>c. c = CHR ''1'') (replicate n (CHR ''1'') @ CHR '','' # r) = replicate n (CHR ''1'')" for n r
    by (induction n) simp_all
  then show ?thesis by (simp add: sample_marker_of_def sample_marker_text_def)
qed

definition sample_agent_env :: agent_env where
  "sample_agent_env =
     \<lparr>ag_answer = (\<lambda>reqs.
        if hr_method (last reqs) = POST then Response 200 (Inr [])
        else if hr_url (last reqs) = ''https://s/api/v1/agent/restart/job'' then Response 200 (Inr ''r'')
        else Response 404 (Inr [])),
      ag_status_text = (\<lambda>_. []), ag_status_error = (\<lambda>_ _. []), ag_io_text = (\<lambda>_. []), ag_now = (\<lambda>n. show_nat n),
      ag_nanos = int, ag_pid = 1, ag_env_var = (\<lambda>_. None), ag_exec = (\<lambda>_ _ _ d. (ExecDone True [] [] [], d)),
      ag_firmware_response = (\<lambda>_. Inr None),
      ag_restart_response = (\<lambda>_. Inr (Some \<lparr>rj_job_id = 7, rj_action = ''restart'', rj_status = ''pending''\<rparr>)),
      ag_shutdown_response = (\<lambda>_. Inr None), ag_probe_response = (\<lambda>_. Inr None),
      ag_marker_from_str = sample_marker_of, ag_marker_to_string = sample_marker_text, ag_from_str = (\<lambda>_. None),
      ag_url_parse = (\<lambda>_. Inl []), ag_connect = (\<lambda>_ _. ConnectTimedOut), ag_proc = (\<lambda>_ _. None), ag_probe = (\<lambda>_ _. Inl [])\<rparr>"

definition sample_server :: ServerConfig where
  "sample_server = \<lparr>sv_enabled = True, sv_base_url = ''https://s'', sv_bearer_token = ''t'', sv_retry_interval_secs = 5, sv_max_retries = 3\<rparr>"

definition sample_agent_world :: agent_world where
  "sample_agent_world = \<lparr>aw_disk = empty_world, aw_requests = [], aw_commands = [], aw_clock = 0, aw_uses = 0\<rparr>"

definition sample_run :: "nat \<Rightarrow> poster" where
  "sample_run n = run_agent_heartbeat_poster sample_agent_env [] sample_server ''a''
     (OnvifProbeManager_new [] [] None) sample_agent_world (replicate n (LoopStep None []))"

lemma sample_exit: "po_phase (sample_run 5) = Exited RESTART_EXIT_CODE"
  by code_simp


section \<open>Reporting a restart\<close>

text \<open>A server that accepts a heartbeat.\<close>

definition accepts_posts :: "agent_env \<Rightarrow> bool" where
  "accepts_posts env \<longleftrightarrow>
     (\<forall>reqs r. hr_method r = POST \<longrightarrow> (\<exists>status body. ag_answer env (reqs @ [r]) = Response status body \<and> status < 400))"

lemma post_heartbeat_accepted:
  assumes "accepts_posts env"
  shows "post_heartbeat env cfg payload w =
    (Ok (), w\<lparr>aw_requests := aw_requests w @ [post_request cfg payload ''/api/v1/heartbeat'']\<rparr>)"
proof -
  let ?r = "post_request cfg payload ''/api/v1/heartbeat''"
  have "hr_method ?r = POST" by (simp add: post_request_def)
  then obtain status body where a: "ag_answer env (aw_requests w @ [?r]) = Response status body" "status < 400"
    using assms unfolding accepts_posts_def by blast
  then have "\<not> is_auth_failure_status status" "status \<noteq> 404"
    by (auto simp: is_auth_failure_status_def)
  with a have "attempt_heartbeat env cfg payload ''/api/v1/heartbeat'' w = (Ok (FallbackSuccess ()), w\<lparr>aw_requests := aw_requests w @ [?r]\<rparr>)"
    by (simp add: attempt_heartbeat_def http_send_def bindA_def error_for_status_def)
  then show ?thesis by (simp add: post_heartbeat_def heartbeat_paths_def bindA_def)
qed


definition sample_second :: "nat \<Rightarrow> poster" where
  "sample_second n = run_agent_heartbeat_poster sample_agent_env [] sample_server ''a'' (OnvifProbeManager_new [] [] None)
     (sample_agent_world\<lparr>aw_disk := aw_disk (po_world (sample_run 5))\<rparr>) (replicate n (LoopStep None []))"

lemma sample_second_marker:
  "\<exists>ctx. po_phase (sample_second 2) = MarkerPhase ctx"
  "marker_data (po_world (sample_second 2)) = Some (marker_bytes sample_agent_env 7 ''0'')"
  "utf8_lossy (marker_bytes sample_agent_env 7 ''0'') = marker_bytes sample_agent_env 7 ''0''"
  "w_faults (aw_disk (po_world (sample_second 2))) = []"
proof -
  have "(case po_phase (sample_second 2) of MarkerPhase _ \<Rightarrow> True | _ \<Rightarrow> False) = True" by code_simp
  then show "\<exists>ctx. po_phase (sample_second 2) = MarkerPhase ctx" by (cases "po_phase (sample_second 2)") auto
qed code_simp+


section \<open>Firmware jobs run once\<close>

text \<open>
  The updater has not run, or it has run once and the job is remembered; a run that ended with the
  loop may be the one exception.
\<close>

definition ran_once :: "int \<Rightarrow> nat \<Rightarrow> poster \<Rightarrow> bool" where
  "ran_once j n s \<longleftrightarrow>
     length (aw_commands (po_world s)) \<le> n
     \<or> length (aw_commands (po_world s)) \<le> n + 1 \<and> (po_phase s = Panicked \<or> concluded (po_firmware_memory s) j)"

lemma ran_once_cong:
  "ran_once j n s \<Longrightarrow> same_commands (po_world s) (po_world s') \<Longrightarrow> po_phase s \<noteq> Panicked \<or> po_phase s' = Panicked
    \<Longrightarrow> po_firmware_memory s' = po_firmware_memory s \<Longrightarrow> ran_once j n s'"
  by (auto simp: ran_once_def same_commands_def)

lemma run_phase_ran_once:
  assumes "ran_once j n s" "po_phase s \<noteq> Panicked" "keeps same_commands m"
    and "\<And>x s. po_world (f x s) = po_world s" "\<And>x s. po_firmware_memory (f x s) = po_firmware_memory s"
  shows "ran_once j n (run_phase m f s)"
proof (cases rule: run_phase_cases [of m s f])
  case (ok x w)
  then show ?thesis using keepsD [OF assms(3) ok(1)] assms(2,4,5) by (auto intro!: ran_once_cong [OF assms(1)])
next
  case (panic w)
  have "same_commands (po_world s) (po_world (run_phase m f s))"
    by (rule run_phase_keeps [OF assms(3,4)])
  then show ?thesis using panic by (auto intro!: ran_once_cong [OF assms(1)])
qed

lemma fetch_firmware_decoded:
  assumes "fetch_firmware_job_command env cfg w = (Ok (Some job), w')"
  shows "\<exists>text. ag_firmware_response env text = Inr (Some job)"
proof -
  have "fetch_firmware_from env cfg ps w = (Ok (Some job), w') \<Longrightarrow> \<exists>text. ag_firmware_response env text = Inr (Some job)" for ps w
    by (induction ps arbitrary: w) (auto simp: bindA_Ok split: if_splits sum.splits)
  then show ?thesis using assms unfolding fetch_firmware_job_command_def by blast
qed

lemma firmware_phase_ran_once:
  assumes "ran_once j n s" "po_phase s \<noteq> Panicked"
    and jobs: "\<forall>text job. ag_firmware_response env text = Inr (Some job) \<longrightarrow> fj_job_id job = j"
  shows "ran_once j n (firmware_phase env ov cfg agent_id ctx restart s)"
proof -
  define report where "report = (\<lambda>firmware. bindA (attemptA (report_heartbeat env cfg agent_id ctx firmware restart)) (\<lambda>_. returnA ()))"
  have rep: "keeps same_files (report st)" for st
    unfolding report_def by (intro frame_rules report_keeps)
  define finish where "finish = (\<lambda>(firmware :: FirmwareHeartbeatState, mem :: FirmwareJobMemory). bindA (utc_now env) (\<lambda>timestamp.
      returnA (heartbeat_payload agent_id ctx firmware restart timestamp, mem)))"
  have fin: "keeps same_commands (finish x)" for x
    unfolding finish_def by (cases x) (auto intro!: same_files_commands frame_rules frame_intros)
  let ?m = "bindA (maybe_process_firmware_job env ov cfg (hc_firmware ctx) (po_firmware_memory s) report) finish"
  let ?f = "\<lambda>(payload, mem) s. s\<lparr>po_phase := Sleeping, po_firmware_memory := mem,
          po_tasks := po_tasks s @ [Posting HeartbeatPost payload 0 0]\<rparr>"
  obtain r w1 where 1: "attemptA (fetch_firmware_job_command env cfg) (po_world s) = (r, w1)" by fastforce
  have c1: "aw_commands w1 = aw_commands (po_world s)"
    using keepsD [OF same_files_commands [OF unchanged.keeps_attempt [OF keeps_fetch_firmware(2)]] 1] by (simp add: same_commands_def)
  have phase: "firmware_phase env ov cfg agent_id ctx restart s = run_phase ?m ?f s"
    by (simp add: firmware_phase_def report_def finish_def)
  show ?thesis
  proof (cases "\<exists>job. r = Ok (Inr (Some job))")
    case True
    then obtain job where r: "r = Ok (Inr (Some job))" by blast
    with 1 have "fj_job_id job = j" using jobs fetch_firmware_decoded [of env cfg "po_world s" job w1] by (auto simp: attemptA_Ok)
    let ?p = "bindA (process_firmware_job env ov job (hc_firmware ctx) (po_firmware_memory s) report) finish"
    have m: "?m (po_world s) = ?p w1"
      using 1 r by (simp add: maybe_process_firmware_job_def bindA_def)
    have one: "keeps one_command ?p" by (rule one_command_after [OF process_firmware_commands(1) [OF rep] fin])
    have none: "concluded (po_firmware_memory s) j \<Longrightarrow> keeps same_commands ?p"
      using commandless.keeps_bind [OF process_firmware_commands(2) [OF rep] fin] \<open>fj_job_id job = j\<close> by simp
    have conc: "concluded mem j" if "?p w1 = (Ok (payload, mem), w2)" for payload mem w2
      using that process_firmware_concludes(1) \<open>fj_job_id job = j\<close> by (auto simp: bindA_Ok finish_def)
    have "length (aw_commands (snd (?p w1))) \<le> n + 1"
    proof (cases "concluded (po_firmware_memory s) j")
      case True
      with none have "aw_commands (snd (?p w1)) = aw_commands w1" by (simp add: keeps_def same_commands_def)
      with assms(1) c1 show ?thesis by (auto simp: ran_once_def)
    next
      case False
      with assms(1,2) c1 have "length (aw_commands w1) \<le> n" by (auto simp: ran_once_def)
      with one show ?thesis unfolding keeps_def one_command_def by (meson add_le_mono1 le_trans)
    qed
    then show ?thesis
      unfolding phase run_phase_def m ran_once_def using conc by (auto split: prod.splits rust.splits)
  next
    case False
    have "?m (po_world s) = (case r of Ok _ \<Rightarrow> finish (hc_firmware ctx, po_firmware_memory s) w1 | Err e \<Rightarrow> (Err e, w1) | Panic \<Rightarrow> (Panic, w1))"
      using 1 False by (auto simp: maybe_process_firmware_job_def bindA_def split: rust.splits sum.splits option.splits)
    then have "aw_commands (po_world (run_phase ?m ?f s)) = aw_commands w1
        \<and> (po_phase (run_phase ?m ?f s) = Panicked \<or> po_firmware_memory (run_phase ?m ?f s) = po_firmware_memory s)"
      by (cases r) (auto simp: run_phase_def finish_def bindA_def utc_now_def)
    with assms(1,2) c1 show ?thesis by (auto simp: phase ran_once_def)
  qed
qed

lemma poster_step_ran_once:
  assumes "ran_once j n s" and jobs: "\<forall>text job. ag_firmware_response env text = Inr (Some job) \<longrightarrow> fj_job_id job = j"
  shows "ran_once j n (poster_step env ov cfg agent_id ev s)"
proof -
  have "ran_once j n (loop_step env ov cfg agent_id v cams s)" for v cams
  proof (cases "po_phase s")
    case Sleeping
    have "same_commands w (snd (snd (poll_for_jobs env cfg m w)))" for m w
      by (rule poll_world [OF same_files_commands [OF keeps_fetch(6)] commandless.agent_frame_axioms]) (simp add: same_commands_def)
    then have "same_commands (po_world s) (po_world (poll_phase env cfg s))"
      by (auto simp: poll_phase_def split: prod.splits) (metis snd_conv)
    with Sleeping show ?thesis
      by (auto simp: loop_step_def intro!: ran_once_cong [OF assms(1)]) (auto simp: poll_phase_def split: prod.splits)
  next
    case Collecting
    then show ?thesis
      by (auto simp: loop_step_def intro!: run_phase_ran_once [OF assms(1)] same_files_commands collect_keeps split: prod.splits)
  next
    case (MarkerPhase ctx)
    then show ?thesis
      by (auto simp: loop_step_def marker_phase_def intro!: run_phase_ran_once [OF assms(1)] jobs_commands report_keeps)
  next
    case (ShutdownPhase ctx o')
    then show ?thesis
      by (auto simp: loop_step_def shutdown_phase_def intro!: run_phase_ran_once [OF assms(1)] commandless.keeps_bind
          commandless.keeps_attempt commandless.keeps_return jobs_commands(3) [of "\<lambda>_. returnA ()"] unchanged.keeps_return same_files_commands [OF report_keeps(2)])
  next
    case (RestartPhase ctx o')
    then show ?thesis using assms(1)
      by (auto simp: loop_step_def restart_phase_def ran_once_cong [OF assms(1)] same_commands_def
          intro!: run_phase_ran_once [OF assms(1)] jobs_commands report_keeps)
  next
    case (FirmwarePhase ctx restart)
    then show ?thesis using firmware_phase_ran_once [OF assms(1) _ jobs] by (simp add: loop_step_def)
  qed (use assms(1) in \<open>simp_all add: loop_step_def\<close>)
  moreover have "ran_once j n (s\<lparr>po_tasks := ts, po_manager := m, po_world := w\<rparr>)" if "same_commands (po_world s) w" for ts m w
    using assms(1) that by (auto simp: ran_once_def same_commands_def)
  moreover have "same_commands w (snd (snd (agent_task_step env cfg t m w)))" for t m w
    by (rule agent_task_step_world [OF _ _ commandless.agent_frame_axioms same_files_commands [OF post_payload_keeps(2)]])
       (simp_all add: same_commands_def)
  ultimately show ?thesis
    using assms(1) by (cases ev) (auto simp: poster_step_def split: prod.splits, metis snd_conv)
qed

interpretation updates: machine "poster_step env ov cfg agent_id"
    "\<lambda>s. (\<forall>text job. ag_firmware_response env text = Inr (Some job) \<longrightarrow> fj_job_id job = j) \<longrightarrow> ran_once j n s" for env ov cfg agent_id j n
  by unfold_locales (blast intro: poster_step_ran_once)


definition sample_update_env :: agent_env where
  "sample_update_env = sample_agent_env\<lparr>
     ag_answer := (\<lambda>reqs.
       if hr_method (last reqs) = POST \<or> hr_url (last reqs) = ''https://s/api/agent/firmware/job'' then Response 200 (Inr [])
       else Response 404 (Inr [])),
     ag_firmware_response := (\<lambda>_. Inr (Some \<lparr>fj_job_id = 3, fj_action = ''update'', fj_target_version = Some ''2.0'',
       fj_status = ''pending'', fj_start_after_update = False\<rparr>))\<rparr>"

definition sample_update_world :: agent_world where
  "sample_update_world = sample_agent_world\<lparr>aw_disk := put_file DEFAULT_FIRMWARE_UPDATER_CMD [] empty_world\<rparr>"

definition sample_update :: "nat \<Rightarrow> poster" where
  "sample_update n = run_agent_heartbeat_poster sample_update_env [] sample_server ''a'' (OnvifProbeManager_new [] [] None)
     sample_update_world (replicate n (LoopStep None []))"


section \<open>Probes in flight\<close>

definition probing :: "agent_task list \<Rightarrow> string list" where
  "probing ts = concat (map (\<lambda>t. case t of Probing _ c _ \<Rightarrow> [pc_camera_id c] | _ \<Rightarrow> []) ts)"

lemma probing_simps [simp]:
  "probing [] = []" "probing (a @ b) = probing a @ probing b" "probing (Probing j c t # ts) = pc_camera_id c # probing ts"
  "probing (Posting k p n d # ts) = probing ts" "probing (Delivered k p # ts) = probing ts" "probing (Died # ts) = probing ts"
  by (simp_all add: probing_def)

definition configs_ok :: "OnvifProbeManager \<Rightarrow> bool" where
  "configs_ok m \<longleftrightarrow> (\<forall>k c. map_of (pm_camera_configs m) k = Some c \<longrightarrow> pc_camera_id c = k)"

definition flight_inv :: "string set \<Rightarrow> OnvifProbeManager \<Rightarrow> agent_task list \<Rightarrow> bool" where
  "flight_inv ids m ts \<longleftrightarrow> distinct (probing ts) \<and> pm_in_flight m = set (probing ts) \<and> configs_ok m
     \<and> dom (map_of (pm_camera_configs m)) = ids \<and> set (probing ts) \<subseteq> ids"

lemma manager_simps [simp]:
  "pm_in_flight (put_summary c x m) = pm_in_flight m" "pm_camera_configs (put_summary c x m) = pm_camera_configs m"
  "pm_in_flight (set_running c j t m) = pm_in_flight m" "pm_camera_configs (set_running c j t m) = pm_camera_configs m"
  "pm_in_flight (set_finished c j st e t f m) = pm_in_flight m" "pm_camera_configs (set_finished c j st e t f m) = pm_camera_configs m"
  "pm_in_flight (release_in_flight c m) = pm_in_flight m - {c}" "pm_camera_configs (release_in_flight c m) = pm_camera_configs m"
  "pm_in_flight (mark_reported c n m) = pm_in_flight m" "pm_camera_configs (mark_reported c n m) = pm_camera_configs m"
  by (simp_all add: put_summary_def set_running_def set_finished_def release_in_flight_def mark_reported_def Let_def split: option.splits)

lemma fail_job_flight:
  "fail_job_immediately env job e c m w = (t, m', w') \<Longrightarrow>
     probing [t] = [] \<and> pm_in_flight m' = pm_in_flight m \<and> pm_camera_configs m' = pm_camera_configs m"
  by (auto simp: fail_job_immediately_def Let_def split: option.splits)

lemma start_probe_flight:
  assumes "start_probe_job env job m w = (t, m', w')" "configs_ok m"
  shows "pm_camera_configs m' = pm_camera_configs m
    \<and> (probing [t] = [] \<and> pm_in_flight m' = pm_in_flight m
       \<or> (\<exists>c. probing [t] = [c] \<and> c \<notin> pm_in_flight m \<and> pm_in_flight m' = insert c (pm_in_flight m)
            \<and> c \<in> dom (map_of (pm_camera_configs m))))"
proof (cases "pj_action job = ''probe'' \<and> trim (pj_camera_id job) \<noteq> []
    \<and> map_of (pm_camera_configs m) (trim (pj_camera_id job)) \<noteq> None \<and> trim (pj_camera_id job) \<notin> pm_in_flight m")
  case True
  then obtain cc where "map_of (pm_camera_configs m) (trim (pj_camera_id job)) = Some cc" by auto
  moreover from this have "pc_camera_id cc = trim (pj_camera_id job)" using assms(2) by (simp add: configs_ok_def)
  ultimately show ?thesis
    using assms(1) True by (auto simp: start_probe_job_def try_mark_in_flight_def Let_def)
next
  case False
  have busy: "m\<lparr>pm_in_flight := insert c (pm_in_flight m)\<rparr> = m" if "c \<in> pm_in_flight m" for c
    using that by (simp add: insert_absorb)
  from False assms(1) obtain e c where "fail_job_immediately env job e c m w = (t, m', w')"
    by (auto simp: start_probe_job_def try_mark_in_flight_def Let_def busy split: if_splits option.splits)
  then show ?thesis using fail_job_flight by blast
qed

lemma task_step_flight:
  assumes "flight_inv ids m ts" "i < length ts" "agent_task_step env cfg (ts ! i) m w = (t', m', w')"
  shows "flight_inv ids m' (ts[i := t'])"
proof -
  let ?a = "take i ts" and ?b = "drop (Suc i) ts"
  have ts: "ts = ?a @ ts ! i # ?b" "ts[i := t'] = ?a @ t' # ?b"
    using assms(2) by (auto simp: id_take_nth_drop upd_conv_take_nth_drop)
  have p: "probing ts = probing ?a @ probing [ts ! i] @ probing ?b"
    by (subst ts(1)) (metis append_Cons append_Nil probing_simps(2))
  have p': "probing (ts[i := t']) = probing ?a @ probing [t'] @ probing ?b"
    by (subst ts(2)) (metis append_Cons append_Nil probing_simps(2))
  show ?thesis
  proof (cases "ts ! i")
    case (Probing job c st)
    then have "probing [t'] = []" "pm_in_flight m' = pm_in_flight m - {pc_camera_id c}" "pm_camera_configs m' = pm_camera_configs m"
      using assms(3) by (auto simp: agent_task_step_def execute_probe_job_def Let_def split: sum.splits)
    moreover have "probing [ts ! i] = [pc_camera_id c]" using Probing by simp
    ultimately show ?thesis using assms(1) p p' by (auto simp: flight_inv_def configs_ok_def)
  next
    case (Posting kind payload n b)
    then have "probing [t'] = [] \<and> pm_in_flight m' = pm_in_flight m \<and> pm_camera_configs m' = pm_camera_configs m"
      using assms(3) by (auto simp: agent_task_step_def retry_round_def finish_report_def Let_def
          split: prod.splits rust.splits post_kind.splits option.splits if_splits)
    moreover have "probing [ts ! i] = []" using Posting by simp
    ultimately show ?thesis using assms(1) p p' by (auto simp: flight_inv_def configs_ok_def)
  qed (use assms list_update_id [of ts i] in \<open>auto simp: agent_task_step_def\<close>)
qed

lemma run_phase_flight:
  assumes "flight_inv ids (po_manager s) (po_tasks s)"
    and "\<And>x s. po_manager (f x s) = po_manager s" "\<And>x s. probing (po_tasks (f x s)) = probing (po_tasks s)"
  shows "flight_inv ids (po_manager (run_phase m f s)) (po_tasks (run_phase m f s))"
  using assms by (cases rule: run_phase_cases [of m s f]) (auto simp: flight_inv_def)

lemma poster_step_flight:
  assumes inv: "flight_inv ids (po_manager s) (po_tasks s)"
  shows "flight_inv ids (po_manager (poster_step env ov cfg agent_id ev s)) (po_tasks (poster_step env ov cfg agent_id ev s))"
proof -
  have "flight_inv ids (po_manager (loop_step env ov cfg agent_id v cams s)) (po_tasks (loop_step env ov cfg agent_id v cams s))" for v cams
  proof (cases "po_phase s")
    case Sleeping
    obtain r w1 where f: "fetch_onvif_probe_job_command env cfg (po_world s) = (r, w1)" by fastforce
    show ?thesis
    proof (cases "\<exists>job. r = Ok (Some job)")
      case True
      then obtain job where r: "r = Ok (Some job)" by blast
      obtain t m' w' where st: "start_probe_job env job (po_manager s) w1 = (t, m', w')" by (metis prod_cases3)
      have "configs_ok (po_manager s)" using inv by (simp add: flight_inv_def)
      from start_probe_flight [OF st this] show ?thesis
        using inv Sleeping f r st by (auto simp: loop_step_def poll_phase_def poll_for_jobs_def flight_inv_def configs_ok_def)
    next
      case False
      then have "poll_for_jobs env cfg (po_manager s) (po_world s) = ([], po_manager s, w1)"
        using f by (auto simp: poll_for_jobs_def split: rust.splits option.splits)
      then show ?thesis using inv Sleeping by (simp add: loop_step_def poll_phase_def)
    qed
  next
    case (RestartPhase ctx o')
    then show ?thesis using inv by (auto simp: loop_step_def restart_phase_def intro!: run_phase_flight split: prod.splits)
  qed (use inv in \<open>auto simp: loop_step_def marker_phase_def shutdown_phase_def firmware_phase_def intro!: run_phase_flight split: prod.splits\<close>)
  then show ?thesis
    using inv task_step_flight [OF inv] by (cases ev) (auto simp: poster_step_def split: prod.splits)
qed

interpretation flights: machine "poster_step env ov cfg agent_id" "\<lambda>s. flight_inv ids (po_manager s) (po_tasks s)" for env ov cfg agent_id ids
  by unfold_locales (rule poster_step_flight)

lemma manager_new_flight: "flight_inv (pc_camera_id ` set configs) (OnvifProbeManager_new ids configs agent) []"
proof -
  let ?table = "\<lambda>cs. fold (\<lambda>c m. AList.update (pc_camera_id c) c m) cs"
  have keys: "\<forall>k c. map_of (?table cs m0) k = Some c \<longrightarrow> pc_camera_id c = k"
    if "\<forall>k c. map_of m0 k = Some c \<longrightarrow> pc_camera_id c = k" for cs m0
    using that
  proof (induction cs arbitrary: m0)
    case (Cons a cs)
    have "\<forall>k c. map_of (AList.update (pc_camera_id a) a m0) k = Some c \<longrightarrow> pc_camera_id c = k"
      unfolding AList.update_conv' fun_upd_apply using Cons.prems by (metis option.inject)
    from Cons.IH [OF this] show ?case unfolding fold.simps comp_apply .
  qed simp
  have doms: "dom (map_of (?table cs m0)) = dom (map_of m0) \<union> pc_camera_id ` set cs" for cs m0
    by (induction cs arbitrary: m0) (auto simp: AList.update_conv' split: if_splits)
  have table: "pm_camera_configs (OnvifProbeManager_new ids configs agent) = ?table configs []"
    "pm_in_flight (OnvifProbeManager_new ids configs agent) = {}"
    by (simp_all add: OnvifProbeManager_new_def)
  have "configs_ok (OnvifProbeManager_new ids configs agent)"
    unfolding configs_ok_def table by (rule keys) simp
  then show ?thesis using doms [of configs "[]"] by (simp add: flight_inv_def table)
qed


section \<open>Delivery of reports\<close>

definition post_paths :: "post_kind \<Rightarrow> string list" where
  "post_paths kind = (case kind of HeartbeatPost \<Rightarrow> heartbeat_paths | ProbeReport _ \<Rightarrow> report_paths)"

text \<open>Among the requests made there is one with the payload to which the server answered without an error.\<close>

definition server_accepted :: "agent_env \<Rightarrow> ServerConfig \<Rightarrow> http_request list \<Rightarrow> post_kind \<Rightarrow> json \<Rightarrow> bool" where
  "server_accepted env cfg reqs kind payload \<longleftrightarrow>
     (\<exists>before after path status body. reqs = before @ post_request cfg payload path # after \<and> path \<in> set (post_paths kind)
        \<and> ag_answer env (before @ [post_request cfg payload path]) = Response status body \<and> \<not> (400 \<le> status \<and> status < 600))"

lemma accepted_mono: "server_accepted env cfg reqs kind payload \<Longrightarrow> server_accepted env cfg (reqs @ rs) kind payload"
  unfolding server_accepted_def by (metis append.assoc append_Cons)

lemma send_Ok:
  "http_send env r w = (Ok (status, body), w') \<longleftrightarrow>
     ag_answer env (aw_requests w @ [r]) = Response status body \<and> w' = w\<lparr>aw_requests := aw_requests w @ [r]\<rparr>"
  by (auto simp: http_send_def Let_def split: http_answer.splits)

lemma post_payload_accepted:
  assumes "post_payload env cfg kind payload w = (Ok u, w')"
  shows "server_accepted env cfg (aw_requests w') kind payload"
proof -
  define attempt where "attempt = (case kind of HeartbeatPost \<Rightarrow> attempt_heartbeat env cfg payload | ProbeReport _ \<Rightarrow> attempt_report env cfg payload)"
  have one: "\<exists>status body. ag_answer env (aw_requests w @ [post_request cfg payload p]) = Response status body
      \<and> \<not> (400 \<le> status \<and> status < 600) \<and> aw_requests w' = aw_requests w @ [post_request cfg payload p]"
    if "attempt p w = (Ok (FallbackSuccess v), w')" for p w v
    using that by (auto simp: attempt_def attempt_heartbeat_def attempt_report_def bindA_Ok send_Ok error_for_status_def
        split: post_kind.splits if_splits)
  have "server_accepted env cfg (aw_requests w') kind payload"
    if "try_fallback_paths ps attempt w = (Ok (Some v), w')" "set ps \<subseteq> set (post_paths kind)" for ps v w
    using that
  proof (induction ps arbitrary: w)
    case (Cons p ps)
    then obtain r w1 where r: "attempt p w = (Ok r, w1)" and
      rest: "(case r of FallbackNotFound \<Rightarrow> try_fallback_paths ps attempt | FallbackSuccess v \<Rightarrow> returnA (Some v)) w1 = (Ok (Some v), w')"
      unfolding try_fallback_paths.simps bindA_Ok by blast
    show ?case
    proof (cases r)
      case FallbackNotFound
      then show ?thesis using rest Cons.IH [of w1] Cons.prems(2) by simp
    next
      case (FallbackSuccess v')
      then show ?thesis using one [of p w v'] r rest Cons.prems(2) unfolding server_accepted_def by fastforce
    qed
  qed simp
  then show ?thesis
    using assms
    by (cases kind) (auto simp: post_payload_def post_heartbeat_def post_onvif_probe_report_def attempt_def post_paths_def bindA_Ok split: option.splits)
qed

text \<open>Posting does not panic.\<close>

definition calm :: "'a agent \<Rightarrow> bool" where
  "calm m \<longleftrightarrow> (\<forall>w. fst (m w) \<noteq> Panic)"

lemma calm_rules:
  "calm (returnA x)" "calm (failA e)" "calm (http_send env r)" "calm m \<Longrightarrow> (\<And>x. calm (f x)) \<Longrightarrow> calm (bindA m f)"
  by (auto simp: calm_def http_send_def bindA_def Let_def split: http_answer.splits prod.splits rust.splits) (metis fst_conv)

lemma calm_pair [simp]: "calm (Pair (Ok x))" "calm (Pair (Err e))"
  by (simp_all add: calm_def)

lemma calm_post: "calm (post_payload env cfg kind payload)"
proof -
  have "calm (try_fallback_paths ps f)" if "\<And>p. calm (f p)" for ps and f :: "string \<Rightarrow> unit FallbackOutcome agent"
    by (induction ps) (simp add: calm_def, auto intro!: calm_rules that split: FallbackOutcome.splits)
  moreover have "calm (attempt_heartbeat env cfg payload p)" "calm (attempt_report env cfg payload p)" for p
    unfolding attempt_heartbeat_def attempt_report_def error_for_status_def by (auto intro!: calm_rules)
  ultimately show ?thesis
    unfolding post_payload_def post_heartbeat_def post_onvif_probe_report_def
    by (auto intro!: calm_rules split: post_kind.splits option.splits)
qed

definition task_fine :: "agent_env \<Rightarrow> ServerConfig \<Rightarrow> nat \<Rightarrow> http_request list \<Rightarrow> agent_task \<Rightarrow> bool" where
  "task_fine env cfg n reqs t \<longleftrightarrow>
     (case t of
        Probing _ _ _ \<Rightarrow> True
      | Posting _ _ attempt backoff \<Rightarrow> attempt \<le> n \<and> backoff = from_secs (sv_retry_interval_secs cfg) * min attempt 10
      | Delivered kind payload \<Rightarrow> server_accepted env cfg reqs kind payload
      | Died \<Rightarrow> False)"

lemma task_fine_mono: "task_fine env cfg n reqs t \<Longrightarrow> n \<le> k \<Longrightarrow> task_fine env cfg k (reqs @ rs) t"
  by (auto simp: task_fine_def accepted_mono split: agent_task.splits)

lemma backoff_fits: "s * 10 \<le> u64_max \<Longrightarrow> k \<le> 10 \<Longrightarrow> from_secs s * k \<le> duration_max"
proof -
  assume s: "s * 10 \<le> u64_max" and k: "k \<le> 10"
  have "from_secs s * k \<le> from_secs s * 10" using k by simp
  also have "\<dots> \<le> u64_max * 1000000000" using s by (simp add: from_secs_def)
  also have "\<dots> \<le> duration_max" by (simp add: duration_max_def u64_max_def)
  finally show ?thesis .
qed

lemma task_step_fine:
  assumes "task_fine env cfg n (aw_requests w) t" "n < retry_limit" "sv_retry_interval_secs cfg * 10 \<le> u64_max"
    and "agent_task_step env cfg t m w = (t', m', w')"
  shows "task_fine env cfg (n + 1) (aw_requests w') t'"
proof (cases t)
  case (Posting kind payload attempt backoff)
  obtain r w1 where p: "post_payload env cfg kind payload w = (r, w1)" by fastforce
  have "r \<noteq> Panic" using calm_post [of env cfg kind payload] p by (metis calm_def fst_conv)
  then consider (ok) u where "r = Ok u" | (err) e where "r = Err e" by (cases r) auto
  then show ?thesis
  proof cases
    case ok
    have "aw_requests w' = aw_requests w1" "t' = Delivered kind payload"
      using assms p Posting ok by (auto simp: agent_task_step_def retry_round_def task_fine_def finish_report_def split: post_kind.splits option.splits)
    then show ?thesis using post_payload_accepted [of env cfg kind payload w u w1] p ok by (simp add: task_fine_def)
  next
    case err
    have "from_secs (sv_retry_interval_secs cfg) * min (attempt + 1) 10 \<le> duration_max"
      using assms(3) by (intro backoff_fits) simp_all
    then show ?thesis
      using assms p Posting err by (auto simp: agent_task_step_def retry_round_def task_fine_def Let_def)
  qed
qed (use assms in \<open>auto simp: agent_task_step_def execute_probe_job_def task_fine_def Let_def split: sum.splits\<close>)

definition fresh_task :: "agent_task \<Rightarrow> bool" where
  "fresh_task t = (case t of Probing _ _ _ \<Rightarrow> True | Posting _ _ attempt backoff \<Rightarrow> attempt = 0 \<and> backoff = 0 | _ \<Rightarrow> False)"

lemma fresh_fine: "fresh_task t \<Longrightarrow> task_fine env cfg n reqs t"
  by (auto simp: fresh_task_def task_fine_def split: agent_task.splits)

lemma start_probe_fresh: "start_probe_job env job m w = (t, m', w') \<Longrightarrow> fresh_task t"
  by (auto simp: start_probe_job_def fail_job_immediately_def fresh_task_def try_mark_in_flight_def Let_def split: if_splits option.splits)

lemma loop_step_tasks:
  "\<exists>new. po_tasks (loop_step env ov cfg agent_id v cams s) = po_tasks s @ new \<and> list_all fresh_task new"
proof -
  have same: "\<exists>new. po_tasks (run_phase m f s) = po_tasks s @ new \<and> list_all fresh_task new"
    if "\<And>x s. \<exists>new. po_tasks (f x s) = po_tasks s @ new \<and> list_all fresh_task new" for m :: "'x agent" and f
  proof (cases rule: run_phase_cases [of m s f])
    case (ok x w)
    then show ?thesis using that [of x "s\<lparr>po_world := w\<rparr>"] by simp
  qed simp
  show ?thesis
  proof (cases "po_phase s")
    case Sleeping
    then show ?thesis
      by (auto simp: loop_step_def poll_phase_def poll_for_jobs_def dest: start_probe_fresh split: prod.splits rust.splits option.splits)
  next
    case (FirmwarePhase ctx restart)
    then show ?thesis
      unfolding loop_step_def firmware_phase_def by (auto intro!: same simp: fresh_task_def split: prod.splits)
  qed (auto simp: loop_step_def marker_phase_def shutdown_phase_def restart_phase_def intro!: same split: prod.splits)
qed

lemma poster_step_fine:
  assumes fine: "list_all (task_fine env cfg n (aw_requests (po_world s))) (po_tasks s)"
    and "n < retry_limit" "sv_retry_interval_secs cfg * 10 \<le> u64_max"
    and s'_def: "s' = poster_step env ov cfg agent_id ev s"
  shows "list_all (task_fine env cfg (n + 1) (aw_requests (po_world s'))) (po_tasks s')"
proof -
  obtain rs where rs: "aw_requests (po_world s') = aw_requests (po_world s) @ rs"
    using poster_step_talks [of cfg s env ov agent_id ev] by (auto simp: s'_def talks_def)
  have old: "list_all (task_fine env cfg (n + 1) (aw_requests (po_world s'))) (po_tasks s)"
    using fine task_fine_mono [of env cfg n "aw_requests (po_world s)" _ "n + 1" rs] by (auto simp: rs list_all_iff)
  consider (idle) "s' = s" | (loop) v cams where "s' = loop_step env ov cfg agent_id v cams s"
    | (task) i where "i < length (po_tasks s)" "\<not> is_exited s" "ev = TaskStep i"
  proof (cases "is_exited s")
    case True
    then show thesis using idle by (simp add: s'_def poster_step_def)
  next
    case False
    then show thesis
      using idle loop task by (cases ev; cases "\<exists>i. ev = TaskStep i \<and> i < length (po_tasks s)") (simp_all add: s'_def poster_step_def)
  qed
  then show ?thesis
  proof cases
    case (loop v cams)
    obtain new where "po_tasks s' = po_tasks s @ new" "list_all fresh_task new"
      using loop_step_tasks [of env ov cfg agent_id v cams s] loop by auto
    with old show ?thesis by (auto simp: list_all_iff fresh_fine)
  next
    case (task i)
    obtain t m w where t: "agent_task_step env cfg (po_tasks s ! i) (po_manager s) (po_world s) = (t, m, w)" by (metis prod_cases3)
    with task have s': "po_tasks s' = (po_tasks s)[i := t]" "po_world s' = w" by (simp_all add: s'_def poster_step_def)
    have "task_fine env cfg n (aw_requests (po_world s)) (po_tasks s ! i)" using fine task by (simp add: list_all_length)
    from task_step_fine [OF this assms(2,3) t] show ?thesis
      using old s' set_update_subset_insert [of "po_tasks s" i t] by (auto simp: list_all_iff)
  qed (use old in simp)
qed

lemma run_fine:
  assumes "list_all (task_fine env cfg n (aw_requests (po_world s))) (po_tasks s)"
    and "n + length evs \<le> retry_limit" "sv_retry_interval_secs cfg * 10 \<le> u64_max"
  shows "list_all (task_fine env cfg (n + length evs) (aw_requests (po_world (fold (poster_step env ov cfg agent_id) evs s))))
    (po_tasks (fold (poster_step env ov cfg agent_id) evs s))"
  using assms
proof (induction evs arbitrary: n s)
  case (Cons ev evs)
  have "n < retry_limit" using Cons.prems(2) by simp
  from Cons.IH [OF poster_step_fine [OF Cons.prems(1) this Cons.prems(3) refl, of ov agent_id ev]] Cons.prems show ?case by simp
qed simp

lemma report_accepted:
  assumes "accepts_posts env"
  shows "\<exists>w'. post_payload env cfg kind payload w = (Ok (), w')"
proof (cases kind)
  case (ProbeReport c)
  let ?r = "post_request cfg payload ''/api/agent/onvif/report''"
  have "hr_method ?r = POST" by (simp add: post_request_def)
  then obtain status body where "ag_answer env (aw_requests w @ [?r]) = Response status body" "status < 400"
    using assms unfolding accepts_posts_def by blast
  then show ?thesis
    using ProbeReport by (simp add: post_payload_def post_onvif_probe_report_def report_paths_def attempt_report_def http_send_def bindA_def
        error_for_status_def)
qed (simp add: post_payload_def post_heartbeat_accepted [OF assms])



end
