(* ===== verification/CameraSession.thy ===== *)
theory CameraSession
  imports Receivers Events Uplink Utils ServerClient
begin

text \<open>
  The camera half of the forwarding agent (\<^verbatim>\<open>src/bin/agent_forward.rs\<close>): the policy that calls a
  camera offline, one session with a camera (OPTIONS, DESCRIBE, SETUP, PLAY and the receive loop
  over UDP or TCP), and the supervisor that starts sessions again with a growing pause.

  A session does not touch the network of the server itself. What it does is the list of calls it
  makes on the uplink, as events of \<open>Uplink\<close>, and the list of activities it posts. Its input is what
  the camera does: the connection, and the arrivals of the receive loop, each with the time waited
  for it and the runtime variables at that moment (the main loop replaces them while sessions run).
  Log lines and the counters that only appear in them are left out. URL parsing, Base64 and the
  texts of library errors are parameters.
\<close>

section \<open>Runtime variables\<close>

text \<open>The \<open>runtime_var\<close> of the binary: a blank variable counts as missing.\<close>

definition agent_var :: "overrides \<Rightarrow> string \<Rightarrow> string option" where
  "agent_var ov name = nonblank (runtime_var ov name)"

section \<open>The offline policy\<close>

datatype OfflineTransition = Offline | Online

record OfflineTracker =
  ot_offline_timeout :: duration
  ot_retry_outage :: duration
  ot_retry_count :: usize
  ot_retry_window :: duration
  ot_outage_starts :: "instant list"
  ot_outage_started_at :: "instant option"
  ot_offline :: bool

definition OfflineTracker_new :: "duration \<Rightarrow> duration \<Rightarrow> usize \<Rightarrow> duration \<Rightarrow> OfflineTracker" where
  "OfflineTracker_new offline_timeout retry_outage retry_count retry_window =
     \<lparr>ot_offline_timeout = offline_timeout, ot_retry_outage = retry_outage, ot_retry_count = retry_count,
      ot_retry_window = retry_window, ot_outage_starts = [], ot_outage_started_at = None, ot_offline = False\<rparr>"

definition on_outage_started :: "instant \<Rightarrow> OfflineTracker \<Rightarrow> OfflineTracker" where
  "on_outage_started now t =
     (if ot_outage_started_at t = None then t\<lparr>ot_outage_started_at := Some now\<rparr> else t)"

text \<open>\<open>duration_since\<close> is zero for a later instant, as subtraction on \<open>nat\<close>.\<close>

definition prune :: "instant \<Rightarrow> OfflineTracker \<Rightarrow> OfflineTracker" where
  "prune now t = t\<lparr>ot_outage_starts := filter (\<lambda>started. now - started \<le> ot_retry_window t) (ot_outage_starts t)\<rparr>"

definition on_outage_recovered :: "instant \<Rightarrow> OfflineTracker \<Rightarrow> OfflineTransition option \<times> OfflineTracker" where
  "on_outage_recovered now t =
     (let t = (case ot_outage_started_at t of
                 None \<Rightarrow> t
               | Some started \<Rightarrow>
                   let t = t\<lparr>ot_outage_started_at := None\<rparr> in
                   if now - started \<ge> ot_retry_outage t
                   then t\<lparr>ot_outage_starts := ot_outage_starts t @ [started]\<rparr> else t);
          t = prune now t in
      if ot_offline t then (Some Online, t\<lparr>ot_offline := False\<rparr>) else (None, t))"

definition evaluate :: "instant \<Rightarrow> OfflineTracker \<Rightarrow> OfflineTransition option \<times> OfflineTracker" where
  "evaluate now t =
     (let t = prune now t;
          continuous = (case ot_outage_started_at t of
                          None \<Rightarrow> False | Some started \<Rightarrow> now - started \<ge> ot_offline_timeout t);
          burst = (length (ot_outage_starts t) \<ge> ot_retry_count t) in
      if (continuous \<or> burst) \<and> \<not> ot_offline t then (Some Offline, t\<lparr>ot_offline := True\<rparr>) else (None, t))"

definition as_secs :: "duration \<Rightarrow> nat" where
  "as_secs d = d div from_secs 1"

definition threshold_context :: "OfflineTracker \<Rightarrow> string" where
  "threshold_context t =
     ''timeout='' @ show_nat (as_secs (ot_offline_timeout t)) @ ''s, retry_outage=''
       @ show_nat (as_secs (ot_retry_outage t)) @ ''s, retry_count='' @ show_nat (ot_retry_count t)
       @ '', retry_window='' @ show_nat (as_secs (ot_retry_window t)) @ ''s''"

section \<open>Errors of a session\<close>

datatype session_error =
    UrlRejected string
  | UrlMissingHost
  | ConnectError string
  | RtspFailed rtsp_error
  | StatusFailed string nat
  | SdpRejected sdp_error
  | UnsupportedCodec string
  | TransportMissing
  | ChannelsMissing
  | SocketFailed string
  | ReceiveTimeout
  | NoRtpAtStartup

record session_env =
  se_url_parse :: "string \<Rightarrow> string + Url"
  se_b64enc :: "bytes \<Rightarrow> string"
  se_b64dec :: "string \<Rightarrow> bytes option"
  se_rtsp_text :: "rtsp_error \<Rightarrow> string"
  se_sdp_text :: "sdp_error \<Rightarrow> string"

fun session_error_text :: "session_env \<Rightarrow> session_error \<Rightarrow> string" where
  "session_error_text env (UrlRejected e) = e"
| "session_error_text env UrlMissingHost = ''RTSP URL missing host''"
| "session_error_text env (ConnectError e) = e"
| "session_error_text env (RtspFailed e) = se_rtsp_text env e"
| "session_error_text env (StatusFailed method status) = method @ '' failed: '' @ show_nat status"
| "session_error_text env (SdpRejected e) = se_sdp_text env e"
| "session_error_text env (UnsupportedCodec codec) = ''Unsupported codec advertised in SDP: '' @ codec"
| "session_error_text env TransportMissing = ''SETUP response missing Transport header''"
| "session_error_text env ChannelsMissing = ''SETUP response missing/invalid interleaved channels''"
| "session_error_text env (SocketFailed e) = e"
| "session_error_text env ReceiveTimeout = ''RTP receive timeout''"
| "session_error_text env NoRtpAtStartup = ''No RTP received within startup watchdog window''"

definition classify_camera_session_failure :: "session_env \<Rightarrow> session_error \<Rightarrow> string \<times> string" where
  "classify_camera_session_failure env error =
     (let lower = to_lowercase (session_error_text env error) in
      if contains lower ''timeout'' \<or> contains lower ''timed out''
      then (''timeout'', ''warn'') else (''connect_fail'', ''error''))"

text \<open>
  The request of the task that posts an activity. Its outcome is only logged. The URL of the server
  and the token are read when the activity is emitted.
\<close>

definition activity_payload :: "string \<Rightarrow> string \<Rightarrow> string \<Rightarrow> string \<Rightarrow> json" where
  "activity_payload camera_id event level message =
     JObject [(''events'', JArray [JObject
       [(''camera_id'', JString camera_id), (''source'', JString ''rtsp''), (''level'', JString level),
        (''event'', JString event), (''message'', JString message)]])]"

definition emit_agent_lifecycle_activity ::
    "overrides \<Rightarrow> CamConfig \<Rightarrow> string \<Rightarrow> string \<Rightarrow> string \<Rightarrow> http_request list" where
  "emit_agent_lifecycle_activity ov cam event level message =
     (case agent_var ov ''SERVER_BASE_URL'' of
        None \<Rightarrow> []
      | Some base_url \<Rightarrow>
          (case agent_var ov ''SERVER_BEARER_TOKEN'' of
             None \<Rightarrow> []
           | Some token \<Rightarrow>
               [\<lparr>hr_method = POST, hr_url = trim_end_matches (CHR ''/'') base_url @ ''/api/v1/agent/activity'',
                 hr_bearer = token, hr_json = Some (activity_payload (cc_camera_id cam) event level message)\<rparr>]))"

section \<open>Setting up a session\<close>

definition parse_rtsp_url :: "session_env \<Rightarrow> string \<Rightarrow> (session_error, string \<times> nat \<times> string) rust" where
  "parse_rtsp_url env rtsp_url =
     (case se_url_parse env rtsp_url of
        Inl e \<Rightarrow> Err (UrlRejected e)
      | Inr url \<Rightarrow>
          (case url_host_str url of
             None \<Rightarrow> Err UrlMissingHost
           | Some host \<Rightarrow> Ok (host, unwrap_or (url_port url) 554, url_path url)))"

definition authorization :: "session_env \<Rightarrow> CamConfig \<Rightarrow> (string \<times> string) list" where
  "authorization env cam =
     (case (cc_rtsp_user cam, cc_rtsp_pass cam) of
        (Some u, Some p) \<Rightarrow> [(''Authorization'', basic_auth_value (se_b64enc env) u p)]
      | _ \<Rightarrow> [])"

text \<open>A request that must be answered with 200 (\<open>rtsp_status_error\<close> otherwise).\<close>

definition rtsp_call ::
    "RtspClient \<Rightarrow> string \<Rightarrow> string \<Rightarrow> (string \<times> string) list \<Rightarrow> (session_error, RtspResponse \<times> RtspClient) rust" where
  "rtsp_call c method url headers =
     (case request c method url headers None of
        Ok (r, c) \<Rightarrow> if RtspResponse.rs_status r \<noteq> 200 then Err (StatusFailed method (RtspResponse.rs_status r)) else Ok (r, c)
      | Err e \<Rightarrow> Err (RtspFailed e)
      | Panic \<Rightarrow> Panic)"

definition describe_camera ::
    "session_env \<Rightarrow> CamConfig \<Rightarrow> RtspClient \<Rightarrow> (session_error, SdpVideoTrack \<times> RtspClient) rust" where
  "describe_camera env cam c =
     bindR (rtsp_call c ''OPTIONS'' (cc_rtsp_url cam) (authorization env cam)) (\<lambda>(r, c).
     bindR (rtsp_call c ''DESCRIBE'' (cc_rtsp_url cam)
       ((''Accept'', ''application/sdp'') # authorization env cam)) (\<lambda>(r, c).
     case parse_sdp_video_track (se_b64dec env) (from_utf8_lossy (RtspResponse.rs_body r)) of
       Ok track \<Rightarrow> Ok (track, c)
     | Err e \<Rightarrow> Err (SdpRejected e)
     | Panic \<Rightarrow> Panic))"

definition stream_of :: "CamConfig \<Rightarrow> u32" where
  "stream_of cam = of_nat (cc_stream_id cam)"

definition parameter_set_calls :: "CamConfig \<Rightarrow> SdpVideoTrack \<Rightarrow> uplink_event list" where
  "parameter_set_calls cam track =
     (case (sv_sprop_sps track, sv_sprop_pps track) of
        (Some sps, Some pps) \<Rightarrow> [SetParameterSets (stream_of cam) sps pps]
      | _ \<Rightarrow> [])"

definition check_codec :: "SdpVideoTrack \<Rightarrow> (session_error, unit) rust" where
  "check_codec track =
     (case sv_codec_name track of
        None \<Rightarrow> Ok ()
      | Some codec \<Rightarrow> if eq_ignore_ascii_case codec ''H264'' then Ok () else Err (UnsupportedCodec codec))"

definition play_camera ::
    "session_env \<Rightarrow> CamConfig \<Rightarrow> RtspClient \<Rightarrow> (session_error, RtspClient) rust" where
  "play_camera env cam c =
     bindR (rtsp_call c ''PLAY'' (cc_rtsp_url cam) ((''Range'', ''npt=0.000-'') # authorization env cam))
       (\<lambda>(r, c). Ok c)"

definition setup_udp ::
    "session_env \<Rightarrow> CamConfig \<Rightarrow> SdpVideoTrack \<Rightarrow> RtspClient \<Rightarrow> (session_error, RtspClient) rust" where
  "setup_udp env cam track c =
     bindR (rtsp_call c ''SETUP'' (setup_url (cc_rtsp_url cam) (sv_control track))
       ((''Transport'', ''RTP/AVP;unicast;client_port='' @ show_nat (cc_rtp_port cam) @ ''-''
           @ show_nat (cc_rtcp_port cam) @ '';mode=play'') # authorization env cam)) (\<lambda>(r, c).
     play_camera env cam (set_session_from c r))"

definition setup_tcp ::
    "session_env \<Rightarrow> CamConfig \<Rightarrow> SdpVideoTrack \<Rightarrow> RtspClient
       \<Rightarrow> (session_error, RtspClient \<times> byte \<times> byte) rust" where
  "setup_tcp env cam track c =
     bindR (rtsp_call c ''SETUP'' (setup_url (cc_rtsp_url cam) (sv_control track))
       ((''Transport'', ''RTP/AVP/TCP;unicast;interleaved=0-1;mode=play'') # authorization env cam)) (\<lambda>(r, c).
     case header_get (RtspResponse.rs_headers r) ''Transport'' of
       None \<Rightarrow> Err TransportMissing
     | Some negotiated_transport \<Rightarrow>
         (case parse_interleaved_channels negotiated_transport of
            None \<Rightarrow> Err ChannelsMissing
          | Some (rtp_channel, rtcp_channel) \<Rightarrow>
              bindR (play_camera env cam (set_session_from c r)) (\<lambda>c. Ok (c, rtp_channel, rtcp_channel))))"

section \<open>A session\<close>

text \<open>
  One turn of a receive loop: the time waited, the runtime variables at that moment, and what ended
  the wait, \<open>None\<close> for cancellation.
\<close>

record 'a arrival =
  ar_wait :: duration
  ar_ov :: overrides
  ar_what :: "'a option"

record session =
  sn_expected_seq :: "u16 option"
  sn_first_logged :: bool
  sn_offline_state :: bool
  sn_calls :: "uplink_event list"
  sn_posts :: "http_request list"

definition session_start :: "bool \<Rightarrow> session" where
  "session_start offline_state =
     \<lparr>sn_expected_seq = None, sn_first_logged = False, sn_offline_state = offline_state, sn_calls = [], sn_posts = []\<rparr>"

definition receive_limit :: "overrides \<Rightarrow> session \<Rightarrow> duration" where
  "receive_limit ov s =
     (if sn_first_logged s then from_secs (runtime_u64_nonzero ov ''CAMERA_OFFLINE_TIMEOUT_SECS'' 20) else from_secs 10)"

definition timeout_error :: "session \<Rightarrow> session_error" where
  "timeout_error s = (if sn_first_logged s then ReceiveTimeout else NoRtpAtStartup)"

text \<open>The first packet of a session: \<open>swap(false)\<close> on the shared flag tells whether the camera was offline.\<close>

definition note_first :: "overrides \<Rightarrow> CamConfig \<Rightarrow> session \<Rightarrow> session" where
  "note_first ov cam s =
     (if sn_first_logged s then s
      else s\<lparr>sn_first_logged := True, sn_offline_state := False,
             sn_posts := sn_posts s @
               (if sn_offline_state s
                then emit_agent_lifecycle_activity ov cam ''reconnect'' ''info''
                       ''Camera stream recovered and forwarding resumed''
                else [])\<rparr>)"

definition call :: "uplink_event \<Rightarrow> session \<Rightarrow> session" where
  "call c s = s\<lparr>sn_calls := sn_calls s @ [c]\<rparr>"

definition forward_packet :: "u32 \<Rightarrow> bytes \<Rightarrow> u16 \<Rightarrow> session \<Rightarrow> session" where
  "forward_packet sid b seq s =
     (let s' = s\<lparr>sn_expected_seq := Some (seq + 1)\<rparr> in
      case sn_expected_seq s of
        Some expected \<Rightarrow>
          if seq \<noteq> expected then call (SendGap sid (expected - 1) seq) s' else call (SendRtp sid b) s'
      | None \<Rightarrow> call (SendRtp sid b) s')"

definition session_on_datagram ::
    "overrides \<Rightarrow> CamConfig \<Rightarrow> bytes \<Rightarrow> session \<Rightarrow> (session_error, unit) rust option \<times> session" where
  "session_on_datagram ov cam d s =
     (let b = take 8192 d in
      case RtpPacket_parse b of
        Ok pkt \<Rightarrow> (None, forward_packet (stream_of cam) b (rp_sequence_number pkt) (note_first ov cam s))
      | Err _ \<Rightarrow> (None, s\<lparr>sn_expected_seq := None\<rparr>)
      | Panic \<Rightarrow> (Some Panic, s))"

fun udp_session :: "CamConfig \<Rightarrow> (string + bytes) arrival list \<Rightarrow> session \<Rightarrow> (session_error, unit) rust option \<times> session" where
  "udp_session cam [] s = (None, s)"
| "udp_session cam (a # as) s =
     (if ar_wait a > receive_limit (ar_ov a) s then (Some (Err (timeout_error s)), s)
      else case ar_what a of
             None \<Rightarrow> (Some (Ok ()), s)
           | Some (Inl e) \<Rightarrow> (Some (Err (SocketFailed e)), s)
           | Some (Inr d) \<Rightarrow>
               (case session_on_datagram (ar_ov a) cam d s of
                  (Some r, s) \<Rightarrow> (Some r, s)
                | (None, s) \<Rightarrow> udp_session cam as s))"

definition session_on_frame :: "overrides \<Rightarrow> CamConfig \<Rightarrow> InterleavedFrame \<Rightarrow> session \<Rightarrow> session" where
  "session_on_frame ov cam f s =
     (case f of
        Rtp b \<Rightarrow> call (SendRtp (stream_of cam) b) (note_first ov cam s)
      | Rtcp _ \<Rightarrow> s
      | Unknown _ _ \<Rightarrow> s)"

fun tcp_session ::
    "CamConfig \<Rightarrow> byte \<Rightarrow> byte \<Rightarrow> unit arrival list \<Rightarrow> RtspClient \<Rightarrow> session
       \<Rightarrow> (session_error, unit) rust option \<times> session" where
  "tcp_session cam rtp_channel rtcp_channel [] c s = (None, s)"
| "tcp_session cam rtp_channel rtcp_channel (a # as) c s =
     (if ar_wait a > receive_limit (ar_ov a) s then (Some (Err (timeout_error s)), s)
      else case ar_what a of
             None \<Rightarrow> (Some (Ok ()), s)
           | Some _ \<Rightarrow>
               (case read_interleaved_frame c rtp_channel rtcp_channel of
                  Ok (f, c) \<Rightarrow> tcp_session cam rtp_channel rtcp_channel as c (session_on_frame (ar_ov a) cam f s)
                | Err e \<Rightarrow> (Some (Err (RtspFailed e)), s)
                | Panic \<Rightarrow> (Some Panic, s)))"

text \<open>
  What the camera does during a session: how it answers the connection attempt, whether the port can
  be bound, and the arrivals of the loop. The result \<open>None\<close> is a session that is still waiting.
\<close>

record camera_behaviour =
  cb_connect :: "string \<Rightarrow> nat \<Rightarrow> string + RtspClient"
  cb_bind :: "string option"
  cb_datagrams :: "(string + bytes) arrival list"
  cb_frames :: "unit arrival list"

definition andThen ::
    "(session_error, 'a) rust \<Rightarrow> session \<Rightarrow> ('a \<Rightarrow> (session_error, unit) rust option \<times> session)
       \<Rightarrow> (session_error, unit) rust option \<times> session" where
  "andThen m s f = (case m of Ok x \<Rightarrow> f x | Err e \<Rightarrow> (Some (Err e), s) | Panic \<Rightarrow> (Some Panic, s))"

definition connect_camera :: "camera_behaviour \<Rightarrow> string \<Rightarrow> nat \<Rightarrow> (session_error, RtspClient) rust" where
  "connect_camera b host port =
     (case cb_connect b host port of Inl e \<Rightarrow> Err (ConnectError e) | Inr c \<Rightarrow> Ok c)"

definition bind_socket :: "camera_behaviour \<Rightarrow> (session_error, unit) rust" where
  "bind_socket b = (case cb_bind b of None \<Rightarrow> Ok () | Some e \<Rightarrow> Err (SocketFailed e))"

definition stream_camera ::
    "session_env \<Rightarrow> CamConfig \<Rightarrow> camera_behaviour \<Rightarrow> SdpVideoTrack \<Rightarrow> RtspClient \<Rightarrow> session
       \<Rightarrow> (session_error, unit) rust option \<times> session" where
  "stream_camera env cam b track c s =
     (if cc_transport cam = ''udp'' then
        andThen (setup_udp env cam track c) s (\<lambda>c.
        andThen (bind_socket b) s (\<lambda>_. udp_session cam (cb_datagrams b) s))
      else
        andThen (setup_tcp env cam track c) s (\<lambda>(c, rtp_channel, rtcp_channel).
        tcp_session cam rtp_channel rtcp_channel (cb_frames b) c s))"

definition run_camera_session ::
    "session_env \<Rightarrow> CamConfig \<Rightarrow> camera_behaviour \<Rightarrow> bool \<Rightarrow> (session_error, unit) rust option \<times> session" where
  "run_camera_session env cam b offline_state =
     (let s = session_start offline_state in
      andThen (parse_rtsp_url env (cc_rtsp_url cam)) s (\<lambda>(host, port, path).
      andThen (connect_camera b host port) s (\<lambda>c.
      andThen (describe_camera env cam c) s (\<lambda>(track, c).
      let s = s\<lparr>sn_calls := parameter_set_calls cam track\<rparr> in
      andThen (check_codec track) s (\<lambda>_. stream_camera env cam b track c s)))))"

section \<open>The supervisor\<close>

datatype supervisor_phase = Supervising | InSession | Returned | Aborted

record supervisor =
  su_tracker :: OfflineTracker
  su_backoff :: duration
  su_offline_state :: bool
  su_phase :: supervisor_phase
  su_calls :: "uplink_event list"
  su_posts :: "http_request list"

definition supervisor_start :: "OfflineTracker \<Rightarrow> supervisor" where
  "supervisor_start tracker =
     \<lparr>su_tracker = tracker, su_backoff = from_secs 1, su_offline_state = False, su_phase = Supervising,
      su_calls = [], su_posts = []\<rparr>"

text \<open>
  One turn of the loop: whether it finds itself cancelled, what the camera does in the session, and,
  when the session fails, the clock, the runtime variables and whether it is cancelled asleep.
\<close>

record 'b attempt =
  at_cancelled :: bool
  at_camera :: 'b
  at_now :: instant
  at_ov :: overrides
  at_cancelled_asleep :: bool

definition offline_message :: "session_env \<Rightarrow> OfflineTracker \<Rightarrow> session_error \<Rightarrow> string" where
  "offline_message env t e =
     ''Camera marked offline after outage policy threshold ('' @ threshold_context t @ '') | last error: ''
       @ session_error_text env e"

definition on_session_failed ::
    "session_env \<Rightarrow> CamConfig \<Rightarrow> overrides \<Rightarrow> instant \<Rightarrow> session_error \<Rightarrow> supervisor \<Rightarrow> supervisor" where
  "on_session_failed env cam ov now e u =
     (let (transition, t) = evaluate now (on_outage_started now (su_tracker u));
          u = u\<lparr>su_tracker := t\<rparr> in
      if transition = Some Offline then
        let (event, level) = classify_camera_session_failure env e in
        u\<lparr>su_offline_state := True,
          su_posts := su_posts u @ emit_agent_lifecycle_activity ov cam event level (offline_message env t e)\<rparr>
      else u)"

definition supervise ::
    "session_env \<Rightarrow> CamConfig \<Rightarrow> ('b \<Rightarrow> bool \<Rightarrow> (session_error, unit) rust option \<times> session)
       \<Rightarrow> 'b attempt \<Rightarrow> supervisor \<Rightarrow> supervisor" where
  "supervise env cam runner a u =
     (if su_phase u \<noteq> Supervising then u
      else if at_cancelled a then u\<lparr>su_phase := Returned\<rparr>
      else
        let (result, s) = runner (at_camera a) (su_offline_state u);
            u = u\<lparr>su_offline_state := sn_offline_state s, su_calls := su_calls u @ sn_calls s,
                  su_posts := su_posts u @ sn_posts s\<rparr> in
        case result of
          None \<Rightarrow> u\<lparr>su_phase := InSession\<rparr>
        | Some (Ok _) \<Rightarrow> u\<lparr>su_phase := Returned\<rparr>
        | Some Panic \<Rightarrow> u\<lparr>su_phase := Aborted\<rparr>
        | Some (Err e) \<Rightarrow>
            let u = on_session_failed env cam (at_ov a) (at_now a) e u in
            if at_cancelled_asleep a then u\<lparr>su_phase := Returned\<rparr>
            else u\<lparr>su_backoff := min (su_backoff u * 2) (from_secs 30)\<rparr>)"

definition run_camera_supervisor_with_runner ::
    "session_env \<Rightarrow> CamConfig \<Rightarrow> OfflineTracker \<Rightarrow> ('b \<Rightarrow> bool \<Rightarrow> (session_error, unit) rust option \<times> session)
       \<Rightarrow> 'b attempt list \<Rightarrow> supervisor" where
  "run_camera_supervisor_with_runner env cam tracker runner as =
     fold (supervise env cam runner) as (supervisor_start tracker)"

definition camera_tracker :: "overrides \<Rightarrow> OfflineTracker" where
  "camera_tracker ov =
     OfflineTracker_new
       (from_secs (runtime_u64_nonzero ov ''CAMERA_OFFLINE_TIMEOUT_SECS'' 20))
       (from_secs (runtime_u64_nonzero ov ''CAMERA_OFFLINE_RETRY_OUTAGE_SECS'' 5))
       (runtime_u64_nonzero ov ''CAMERA_OFFLINE_RETRY_COUNT'' 4)
       (from_secs (runtime_u64_nonzero ov ''CAMERA_OFFLINE_RETRY_WINDOW_SECS'' 120))"

definition run_camera_supervisor ::
    "session_env \<Rightarrow> overrides \<Rightarrow> CamConfig \<Rightarrow> camera_behaviour attempt list \<Rightarrow> supervisor" where
  "run_camera_supervisor env ov cam as =
     run_camera_supervisor_with_runner env cam (camera_tracker ov) (run_camera_session env cam) as"

section \<open>The offline policy over the history of a camera\<close>

text \<open>
  What the policy promises, without the pruned list: a camera is offline when it has been down for
  the whole timeout, or when enough long outages began within the window. The log keeps every outage
  that has ended, with both ends.
\<close>

datatype tracker_event = OutageStarted instant | OutageRecovered instant | Evaluated instant

fun event_time :: "tracker_event \<Rightarrow> instant" where
  "event_time (OutageStarted now) = now"
| "event_time (OutageRecovered now) = now"
| "event_time (Evaluated now) = now"

definition tracker_step :: "tracker_event \<Rightarrow> OfflineTracker \<Rightarrow> OfflineTransition option \<times> OfflineTracker" where
  "tracker_step ev t =
     (case ev of
        OutageStarted now \<Rightarrow> (None, on_outage_started now t)
      | OutageRecovered now \<Rightarrow> on_outage_recovered now t
      | Evaluated now \<Rightarrow> evaluate now t)"

record outage_log =
  ol_down :: "instant option"
  ol_past :: "(instant \<times> instant) list"
  ol_reported :: bool

definition long_outages :: "duration \<Rightarrow> outage_log \<Rightarrow> instant list" where
  "long_outages d l = map fst (filter (\<lambda>(a, b). b - a \<ge> d) (ol_past l))"

definition must_report :: "OfflineTracker \<Rightarrow> instant \<Rightarrow> outage_log \<Rightarrow> bool" where
  "must_report t now l \<longleftrightarrow>
     (\<exists>since. ol_down l = Some since \<and> now - since \<ge> ot_offline_timeout t)
     \<or> length (filter (\<lambda>a. now - a \<le> ot_retry_window t) (long_outages (ot_retry_outage t) l)) \<ge> ot_retry_count t"

definition log_step :: "OfflineTracker \<Rightarrow> tracker_event \<Rightarrow> outage_log \<Rightarrow> OfflineTransition option \<times> outage_log" where
  "log_step t ev l =
     (case ev of
        OutageStarted now \<Rightarrow> (None, if ol_down l = None then l\<lparr>ol_down := Some now\<rparr> else l)
      | OutageRecovered now \<Rightarrow>
          (if ol_reported l then Some Online else None,
           l\<lparr>ol_down := None,
             ol_past := ol_past l @ (case ol_down l of None \<Rightarrow> [] | Some since \<Rightarrow> [(since, now)]),
             ol_reported := False\<rparr>)
      | Evaluated now \<Rightarrow>
          if must_report t now l \<and> \<not> ol_reported l then (Some Offline, l\<lparr>ol_reported := True\<rparr>) else (None, l))"

fun outputs :: "('e \<Rightarrow> 's \<Rightarrow> 'o \<times> 's) \<Rightarrow> 'e list \<Rightarrow> 's \<Rightarrow> 'o list" where
  "outputs step [] s = []"
| "outputs step (e # es) s = (case step e s of (out, s') \<Rightarrow> out # outputs step es s')"

definition same_policy :: "OfflineTracker \<Rightarrow> OfflineTracker \<Rightarrow> bool" where
  "same_policy p t \<longleftrightarrow>
     ot_offline_timeout t = ot_offline_timeout p \<and> ot_retry_outage t = ot_retry_outage p
     \<and> ot_retry_count t = ot_retry_count p \<and> ot_retry_window t = ot_retry_window p"

definition tracks :: "OfflineTracker \<Rightarrow> instant \<Rightarrow> OfflineTracker \<Rightarrow> outage_log \<Rightarrow> bool" where
  "tracks p now t l \<longleftrightarrow>
     same_policy p t \<and> ot_outage_started_at t = ol_down l \<and> ot_offline t = ol_reported l
     \<and> (\<forall>now'\<ge>now. filter (\<lambda>a. now' - a \<le> ot_retry_window p) (ot_outage_starts t)
                 = filter (\<lambda>a. now' - a \<le> ot_retry_window p) (long_outages (ot_retry_outage p) l))"

lemma filter_window:
  assumes "(now::nat) \<le> now'"
  shows "filter (\<lambda>a. now - a \<le> w \<and> now' - a \<le> w) xs = filter (\<lambda>a. now' - a \<le> w) xs"
  using assms by (induction xs) auto

lemma tracks_prune: "tracks p now t l \<Longrightarrow> now \<le> now' \<Longrightarrow> tracks p now' (prune now' t) l"
  by (auto simp: tracks_def prune_def same_policy_def filter_window)

lemma tracks_later: "tracks p now t l \<Longrightarrow> now \<le> now' \<Longrightarrow> tracks p now' t l"
  by (auto simp: tracks_def)

lemma tracks_evaluate:
  assumes "tracks p now t l" "now \<le> now'"
  shows "fst (evaluate now' t) = fst (log_step p (Evaluated now') l)
    \<and> tracks p now' (snd (evaluate now' t)) (snd (log_step p (Evaluated now') l))"
proof -
  from tracks_prune [OF assms] have tr: "tracks p now' (prune now' t) l" .
  then have "ot_outage_starts (prune now' t)
      = filter (\<lambda>a. now' - a \<le> ot_retry_window p) (long_outages (ot_retry_outage p) l)"
    by (auto simp: tracks_def prune_def same_policy_def dest: spec [of _ now'])
  with tr have "must_report p now' l \<longleftrightarrow>
      (case ot_outage_started_at (prune now' t) of
         None \<Rightarrow> False | Some started \<Rightarrow> now' - started \<ge> ot_offline_timeout (prune now' t))
      \<or> length (ot_outage_starts (prune now' t)) \<ge> ot_retry_count (prune now' t)"
    by (simp add: must_report_def tracks_def same_policy_def split: option.splits)
  with tr show ?thesis
    by (auto simp: evaluate_def log_step_def Let_def tracks_def same_policy_def long_outages_def)
qed

definition outage_ended :: "instant \<Rightarrow> OfflineTracker \<Rightarrow> OfflineTracker" where
  "outage_ended now t =
     (case ot_outage_started_at t of
        None \<Rightarrow> t
      | Some started \<Rightarrow>
          if now - started \<ge> ot_retry_outage t
          then t\<lparr>ot_outage_started_at := None, ot_outage_starts := ot_outage_starts t @ [started]\<rparr>
          else t\<lparr>ot_outage_started_at := None\<rparr>)"

lemma recovered_eq:
  "on_outage_recovered now t =
     (if ot_offline t then Some Online else None, (prune now (outage_ended now t))\<lparr>ot_offline := False\<rparr>)"
  by (cases t) (auto simp: on_outage_recovered_def outage_ended_def prune_def Let_def split: option.splits)

lemma tracks_ended:
  assumes "tracks p now t l" "now \<le> now'"
  shows "tracks p now' (outage_ended now' t)
    (l\<lparr>ol_down := None, ol_past := ol_past l @ (case ol_down l of None \<Rightarrow> [] | Some since \<Rightarrow> [(since, now')])\<rparr>)"
proof (cases "ol_down l")
  case None
  with tracks_later [OF assms] show ?thesis by (simp add: tracks_def outage_ended_def long_outages_def)
next
  case (Some since)
  with tracks_later [OF assms] show ?thesis
    by (simp add: tracks_def same_policy_def outage_ended_def long_outages_def)
qed

lemma tracks_reported: "tracks p now t l \<Longrightarrow> tracks p now (t\<lparr>ot_offline := b\<rparr>) (l\<lparr>ol_reported := b\<rparr>)"
  by (simp add: tracks_def same_policy_def long_outages_def)

lemma tracks_recovered:
  assumes tr: "tracks p now t l" and later: "now \<le> now'"
  shows "fst (on_outage_recovered now' t) = fst (log_step p (OutageRecovered now') l)
    \<and> tracks p now' (snd (on_outage_recovered now' t)) (snd (log_step p (OutageRecovered now') l))"
proof -
  from tr have "ot_offline t = ol_reported l" by (simp add: tracks_def)
  with tracks_reported [OF tracks_prune [OF tracks_ended [OF tr later] order_refl], of False]
  show ?thesis by (simp add: recovered_eq log_step_def)
qed

lemma tracks_step:
  assumes "tracks p now t l" "now \<le> event_time ev"
  shows "fst (tracker_step ev t) = fst (log_step p ev l)
    \<and> tracks p (event_time ev) (snd (tracker_step ev t)) (snd (log_step p ev l))"
proof (cases ev)
  case (OutageStarted now')
  with tracks_later [OF assms] show ?thesis
    by (auto simp: tracker_step_def log_step_def on_outage_started_def tracks_def same_policy_def long_outages_def)
next
  case (OutageRecovered now')
  with tracks_recovered [OF assms(1)] assms(2) show ?thesis by (simp add: tracker_step_def)
next
  case (Evaluated now')
  with tracks_evaluate [OF assms(1)] assms(2) show ?thesis by (simp add: tracker_step_def)
qed

lemma tracks_outputs:
  "tracks p now t l \<Longrightarrow> sorted (now # map event_time evs) \<Longrightarrow>
     outputs tracker_step evs t = outputs (log_step p) evs l"
proof (induction evs arbitrary: now t l)
  case (Cons ev evs)
  from Cons.prems(2) have le: "now \<le> event_time ev" and later: "sorted (event_time ev # map event_time evs)"
    by simp_all
  from tracks_step [OF Cons.prems(1) le] Cons.IH [OF _ later] show ?case by (simp add: case_prod_beta)
qed simp

lemma tracks_new:
  "tracks (OfflineTracker_new a b c d) 0 (OfflineTracker_new a b c d) \<lparr>ol_down = None, ol_past = [], ol_reported = False\<rparr>"
  by (simp add: tracks_def same_policy_def OfflineTracker_new_def long_outages_def)

section \<open>How a session ends\<close>

lemma rtsp_call_no_panic [simp]: "rtsp_call c verb url headers \<noteq> Panic"
  using request_no_panic [of verb c verb url headers None]
  by (auto simp: rtsp_call_def expect_200_def split: rust.splits if_splits)

lemma parse_sdp_no_panic [simp]:
  "parse_sdp_video_track b64 (from_utf8_lossy (RtspResponse.rs_body (r::RtspResponse))) \<noteq> Panic"
  using parse_track_no_panic [of b64 r] by (auto simp: parse_track_def split: rust.splits)

lemma session_setup_no_panic [simp]:
  "parse_rtsp_url env url \<noteq> Panic" "connect_camera b host port \<noteq> Panic" "describe_camera env cam c \<noteq> Panic"
  "check_codec track \<noteq> Panic" "setup_udp env cam track c \<noteq> Panic" "setup_tcp env cam track c \<noteq> Panic"
  "bind_socket b \<noteq> Panic"
  by (auto simp: parse_rtsp_url_def connect_camera_def describe_camera_def check_codec_def setup_udp_def
      setup_tcp_def play_camera_def bind_socket_def bindR_eq_Panic_iff
      split: option.splits sum.splits rust.splits)

lemma andThen_rule:
  assumes "m \<noteq> Panic" "\<And>e. P (Some (Err e), s)" "\<And>x. P (f x)"
  shows "P (andThen m s f)"
  using assms by (cases m) (simp_all add: andThen_def)

text \<open>
  A session is refused before it streams, with at most the parameter sets announced, or it is the
  receive loop of its transport.
\<close>

definition streaming :: "CamConfig \<Rightarrow> SdpVideoTrack \<Rightarrow> bool \<Rightarrow> session" where
  "streaming cam track off = (session_start off)\<lparr>sn_calls := parameter_set_calls cam track\<rparr>"

definition refused :: "CamConfig \<Rightarrow> bool \<Rightarrow> (session_error, unit) rust option \<times> session \<Rightarrow> bool" where
  "refused cam off out \<longleftrightarrow>
     (\<exists>e. fst out = Some (Err e)) \<and> (snd out = session_start off \<or> (\<exists>track. snd out = streaming cam track off))"

definition session_outcome :: "CamConfig \<Rightarrow> camera_behaviour \<Rightarrow> bool \<Rightarrow> (session_error, unit) rust option \<times> session \<Rightarrow> bool" where
  "session_outcome cam b off out \<longleftrightarrow>
     refused cam off out
     \<or> (\<exists>track. if cc_transport cam = ''udp''
          then out = udp_session cam (cb_datagrams b) (streaming cam track off)
          else \<exists>c p q. out = tcp_session cam p q (cb_frames b) c (streaming cam track off))"

lemma refused_outcome:
  "session_outcome cam b off (Some (Err e), session_start off)"
  "session_outcome cam b off (Some (Err e), streaming cam track off)"
  by (auto simp: session_outcome_def refused_def)

lemmas outcome_rule = session_setup_no_panic [THEN andThen_rule [where P = "session_outcome cam b off" for cam b off]]

lemma stream_camera_outcome: "session_outcome cam b off (stream_camera env cam b track c (streaming cam track off))"
proof (cases "cc_transport cam = ''udp''")
  case True
  then show ?thesis
    unfolding stream_camera_def
    by (auto intro!: outcome_rule refused_outcome) (auto simp: session_outcome_def)
next
  case False
  then show ?thesis
    unfolding stream_camera_def
    by (auto intro!: outcome_rule refused_outcome) (auto simp: session_outcome_def)
qed

lemma run_camera_session_outcome: "session_outcome cam b off (run_camera_session env cam b off)"
  unfolding run_camera_session_def Let_def streaming_def [symmetric]
  by (intro outcome_rule refused_outcome)
     (auto split: prod.splits intro!: outcome_rule refused_outcome stream_camera_outcome)

text \<open>The one activity a session may post: the camera was offline and is not any more.\<close>

definition recovers :: "session \<Rightarrow> session \<Rightarrow> bool" where
  "recovers s s' \<longleftrightarrow>
     (if sn_offline_state s \<and> \<not> sn_offline_state s'
      then \<exists>p. sn_posts s' = sn_posts s @ p \<and> length p \<le> 1
      else sn_posts s' = sn_posts s \<and> sn_offline_state s' = sn_offline_state s)"

lemma recovers_refl [simp]: "recovers s s"
  by (simp add: recovers_def)

lemma recovers_trans: "recovers s t \<Longrightarrow> recovers t u \<Longrightarrow> recovers s u"
  by (auto simp: recovers_def split: if_splits)

lemma emit_at_most_one: "length (emit_agent_lifecycle_activity ov cam event level message) \<le> 1"
  by (simp add: emit_agent_lifecycle_activity_def split: option.splits)

lemma recovers_simps [simp]:
  "recovers s (call c t) = recovers s t" "recovers s (t\<lparr>sn_expected_seq := e\<rparr>) = recovers s t"
  "recovers s (forward_packet sid b seq t) = recovers s t"
  by (auto simp: recovers_def call_def forward_packet_def Let_def split: option.splits)

lemma note_first_recovers [simp]: "recovers s (note_first ov cam s)"
  using emit_at_most_one by (auto simp: recovers_def note_first_def simp del: One_nat_def)

definition cancelled_in :: "'a arrival list \<Rightarrow> bool" where
  "cancelled_in as \<longleftrightarrow> list_ex (\<lambda>a. ar_what a = None) as"

definition ends_well :: "bool \<Rightarrow> session \<Rightarrow> (session_error, unit) rust option \<times> session \<Rightarrow> bool" where
  "ends_well cancelled s out \<longleftrightarrow>
     fst out \<noteq> Some Panic \<and> (fst out = Some (Ok ()) \<longrightarrow> cancelled) \<and> recovers s (snd out)"

lemma ends_well_later:
  "ends_well cancelled t out \<Longrightarrow> recovers s t \<Longrightarrow> (cancelled \<Longrightarrow> cancelled') \<Longrightarrow> ends_well cancelled' s out"
  by (auto simp: ends_well_def intro: recovers_trans)

lemma ends_well_stop [simp]:
  "ends_well cancelled s (Some (Err e), s)" "ends_well True s (Some (Ok ()), s)" "ends_well cancelled s (None, s)"
  by (simp_all add: ends_well_def)

lemma udp_session_ends: "ends_well (cancelled_in as) s (udp_session cam as s)"
proof (induction as arbitrary: s)
  case (Cons a as)
  have later: "recovers s t \<Longrightarrow> ends_well (cancelled_in (a # as)) s (udp_session cam as t)" for t
    by (rule ends_well_later [OF Cons.IH]) (simp_all add: cancelled_in_def)
  show ?case
  proof (cases "ar_what a")
    case (Some x)
    then show ?thesis
    proof (cases x)
      case (Inr d)
      with Some later parse_no_panic [of "take 8192 d"] show ?thesis
        by (cases "RtpPacket_parse (take 8192 d)") (simp_all add: session_on_datagram_def Let_def)
    qed simp
  qed (simp add: cancelled_in_def)
qed simp

lemma session_on_frame_recovers [simp]: "recovers s (session_on_frame ov cam f s)"
  by (simp add: session_on_frame_def split: InterleavedFrame.splits)

lemma tcp_session_ends: "ends_well (cancelled_in as) s (tcp_session cam p q as c s)"
proof (induction as arbitrary: c s)
  case (Cons a as)
  have later: "recovers s t \<Longrightarrow> ends_well (cancelled_in (a # as)) s (tcp_session cam p q as c' t)" for c' t
    by (rule ends_well_later [OF Cons.IH]) (simp_all add: cancelled_in_def)
  show ?case
  proof (cases "ar_what a")
    case (Some x)
    with later read_interleaved_no_panic [of c p q] show ?thesis
      by (cases "read_interleaved_frame c p q") (simp_all add: case_prod_beta)
  qed (simp add: cancelled_in_def)
qed simp

definition session_cancelled :: "camera_behaviour \<Rightarrow> bool" where
  "session_cancelled b \<longleftrightarrow> cancelled_in (cb_datagrams b) \<or> cancelled_in (cb_frames b)"

lemma run_camera_session_ends:
  "ends_well (session_cancelled b) (session_start off) (run_camera_session env cam b off)"
proof -
  have start: "recovers (session_start off) (streaming cam track off)" for track
    by (simp add: recovers_def streaming_def session_start_def)
  have udp: "ends_well (session_cancelled b) (session_start off) (udp_session cam (cb_datagrams b) (streaming cam track off))" for track
    by (rule ends_well_later [OF udp_session_ends start]) (simp add: session_cancelled_def)
  have tcp: "ends_well (session_cancelled b) (session_start off) (tcp_session cam p q (cb_frames b) c (streaming cam track off))" for p q c track
    by (rule ends_well_later [OF tcp_session_ends start]) (simp add: session_cancelled_def)
  have "refused cam off out \<Longrightarrow> ends_well (session_cancelled b) (session_start off) out" for out
    using start by (cases out) (auto simp: refused_def ends_well_def)
  with udp tcp run_camera_session_outcome [of cam b off env] show ?thesis
    by (auto simp: session_outcome_def split: if_splits)
qed

section \<open>The supervisor over any runner of sessions\<close>

definition undisturbed :: "('b \<Rightarrow> bool) \<Rightarrow> 'b attempt \<Rightarrow> bool" where
  "undisturbed cancels a \<longleftrightarrow> \<not> at_cancelled a \<and> \<not> cancels (at_camera a) \<and> \<not> at_cancelled_asleep a"

definition still_waiting :: "('b \<Rightarrow> bool \<Rightarrow> (session_error, unit) rust option \<times> session) \<Rightarrow> 'b attempt \<Rightarrow> bool" where
  "still_waiting runner a \<longleftrightarrow> fst (runner (at_camera a) False) = None \<or> fst (runner (at_camera a) True) = None"

text \<open>
  The tracker says whether an activity has been posted for an outage, the shared flag whether the
  camera has not come back since.
\<close>

definition posts_inv :: "supervisor \<Rightarrow> bool" where
  "posts_inv u \<longleftrightarrow>
     (if ot_offline (su_tracker u) then length (su_posts u) \<le> (if su_offline_state u then 1 else 2)
      else su_posts u = [] \<and> \<not> su_offline_state u)"

definition continuous :: "OfflineTracker \<Rightarrow> instant \<Rightarrow> instant list \<Rightarrow> bool" where
  "continuous t t0 nows \<longleftrightarrow> list_ex (\<lambda>now. now - t0 \<ge> ot_offline_timeout t) nows"

definition never_recovers :: "OfflineTracker \<Rightarrow> instant list \<Rightarrow> OfflineTracker \<Rightarrow> bool" where
  "never_recovers p nows t \<longleftrightarrow>
     same_policy p t \<and> ot_outage_starts t = []
     \<and> (case nows of [] \<Rightarrow> ot_outage_started_at t = None \<and> \<not> ot_offline t
        | t0 # _ \<Rightarrow> ot_outage_started_at t = Some t0 \<and> ot_offline t = continuous p t0 nows)"

lemma never_recovers_failed:
  assumes "never_recovers p nows t" "ot_retry_count p > 0"
  shows "never_recovers p (nows @ [now]) (snd (evaluate now (on_outage_started now t)))"
  using assms
  by (cases nows) (auto simp: never_recovers_def evaluate_def on_outage_started_def prune_def Let_def
      same_policy_def continuous_def)

lemma failed_backoff [simp]:
  "su_backoff (on_session_failed env cam ov now e u) = su_backoff u"
  "su_phase (on_session_failed env cam ov now e u) = su_phase u"
  "su_calls (on_session_failed env cam ov now e u) = su_calls u"
  by (simp_all add: on_session_failed_def Let_def split: prod.splits)

lemma failed_tracker [simp]:
  "su_tracker (on_session_failed env cam ov now e u) = snd (evaluate now (on_outage_started now (su_tracker u)))"
  by (simp add: on_session_failed_def Let_def split: prod.splits)

lemma supervise_calls:
  "su_calls (supervise env cam runner a u) = su_calls u @
     (if su_phase u = Supervising \<and> \<not> at_cancelled a then sn_calls (snd (runner (at_camera a) (su_offline_state u))) else [])"
  by (simp add: supervise_def Let_def split: prod.splits option.splits rust.splits)

lemma evaluate_cases:
  "evaluate now (on_outage_started now t) = (r, t') \<Longrightarrow>
     (r = None \<and> ot_offline t' = ot_offline t) \<or> (r = Some Offline \<and> \<not> ot_offline t \<and> ot_offline t')"
  by (auto simp: evaluate_def on_outage_started_def prune_def Let_def split: if_splits)

lemma failed_posts: "posts_inv u \<Longrightarrow> posts_inv (on_session_failed env cam ov now e u)"
  using emit_at_most_one
  by (auto simp: on_session_failed_def posts_inv_def Let_def simp del: One_nat_def split: prod.splits if_splits
      dest!: evaluate_cases)

lemma posts_inv_simps [simp]:
  "posts_inv (u\<lparr>su_phase := p\<rparr>) = posts_inv u" "posts_inv (u\<lparr>su_backoff := d\<rparr>) = posts_inv u"
  by (simp_all add: posts_inv_def)

text \<open>
  What the supervisor relies on: a session does not panic, it returns without an error only when it
  is cancelled, and it clears the shared offline flag at most once, with one activity.
\<close>

locale session_runner =
  fixes runner :: "'b \<Rightarrow> bool \<Rightarrow> (session_error, unit) rust option \<times> session"
    and cancels :: "'b \<Rightarrow> bool"
  assumes ends: "ends_well (cancels b) (session_start off) (runner b off)"
begin

lemma runner_facts:
  assumes "runner b off = (r, s)"
  shows "r \<noteq> Some Panic" "r = Some (Ok x) \<Longrightarrow> cancels b"
    "if off \<and> \<not> sn_offline_state s then length (sn_posts s) \<le> 1 else sn_posts s = [] \<and> sn_offline_state s = off"
  using ends [of b off] assms by (auto simp: ends_well_def recovers_def session_start_def split: if_splits)

lemma supervise_undisturbed:
  assumes "undisturbed cancels a" "su_phase u = Supervising"
  shows "(su_phase (supervise env cam runner a u) = Supervising
            \<and> su_backoff (supervise env cam runner a u) = min (su_backoff u * 2) (from_secs 30))
    \<or> (su_phase (supervise env cam runner a u) = InSession \<and> still_waiting runner a)"
proof (cases "runner (at_camera a) (su_offline_state u)")
  case (Pair r s)
  then have "r = None \<Longrightarrow> still_waiting runner a" by (cases "su_offline_state u") (auto simp: still_waiting_def)
  with Pair assms runner_facts(1,2) [OF Pair] show ?thesis
    by (auto simp: supervise_def undisturbed_def Let_def split: option.splits rust.splits)
qed

lemma supervise_stays: "su_phase u \<noteq> Supervising \<Longrightarrow> supervise env cam runner a u = u"
  by (simp add: supervise_def)

lemma supervise_all_stays: "su_phase u \<noteq> Supervising \<Longrightarrow> fold (supervise env cam runner) as u = u"
  by (induction as) (simp_all add: supervise_stays)

lemma backoff_doubles: "min (min (2 ^ n * k) m * 2) m = min (2 ^ Suc n * k) (m::nat)"
  by (simp add: min_def)

lemma persists:
  "list_all (undisturbed cancels) as \<Longrightarrow> su_phase u = Supervising \<Longrightarrow> su_backoff u = min (2 ^ n * from_secs 1) (from_secs 30) \<Longrightarrow>
     (su_phase (fold (supervise env cam runner) as u) = Supervising
        \<and> su_backoff (fold (supervise env cam runner) as u) = min (2 ^ (n + length as) * from_secs 1) (from_secs 30))
     \<or> (su_phase (fold (supervise env cam runner) as u) = InSession \<and> list_ex (still_waiting runner) as)"
proof (induction as arbitrary: u n)
  case (Cons a as)
  from Cons.prems supervise_undisturbed [of a u env cam] consider
      (again) "su_phase (supervise env cam runner a u) = Supervising"
        "su_backoff (supervise env cam runner a u) = min (2 ^ Suc n * from_secs 1) (from_secs 30)"
    | (waits) "su_phase (supervise env cam runner a u) = InSession" "still_waiting runner a"
    by (auto simp: backoff_doubles simp del: power_Suc)
  then show ?case
  proof cases
    case again
    with Cons.IH [OF _ again(1), of "Suc n"] Cons.prems(1) show ?thesis by auto
  next
    case waits
    then show ?thesis by (simp add: supervise_all_stays)
  qed
qed simp

lemma supervise_posts: "posts_inv u \<Longrightarrow> posts_inv (supervise env cam runner a u)"
proof -
  assume inv: "posts_inv u"
  obtain r s where run: "runner (at_camera a) (su_offline_state u) = (r, s)" by fastforce
  have "posts_inv (u\<lparr>su_offline_state := sn_offline_state s, su_calls := calls, su_posts := su_posts u @ sn_posts s\<rparr>)" for calls
    using inv runner_facts(3) [OF run] by (auto simp: posts_inv_def split: if_splits)
  with inv run show ?thesis
    by (auto simp: supervise_def Let_def failed_posts split: option.splits rust.splits)
qed

lemma run_posts: "posts_inv u \<Longrightarrow> posts_inv (fold (supervise env cam runner) as u)"
  by (induction as arbitrary: u) (simp_all add: supervise_posts)

lemma supervise_failing:
  assumes "undisturbed cancels a" "\<not> still_waiting runner a" "su_phase u = Supervising"
  shows "su_phase (supervise env cam runner a u) = Supervising
    \<and> su_tracker (supervise env cam runner a u) = snd (evaluate (at_now a) (on_outage_started (at_now a) (su_tracker u)))"
proof -
  obtain r s where run: "runner (at_camera a) (su_offline_state u) = (r, s)" by fastforce
  with assms(2) have "r \<noteq> None" by (cases "su_offline_state u") (auto simp: still_waiting_def)
  with run assms(1,3) runner_facts(1,2) [OF run] show ?thesis
    by (auto simp: supervise_def undisturbed_def Let_def split: option.splits rust.splits)
qed

lemma run_failing:
  assumes "ot_retry_count p > 0"
  shows "list_all (undisturbed cancels) as \<Longrightarrow> \<not> list_ex (still_waiting runner) as \<Longrightarrow> su_phase u = Supervising \<Longrightarrow>
     never_recovers p nows (su_tracker u) \<Longrightarrow>
     never_recovers p (nows @ map at_now as) (su_tracker (fold (supervise env cam runner) as u))"
proof (induction as arbitrary: u nows)
  case (Cons a as)
  from Cons.prems supervise_failing [of a u env cam] have
    "su_phase (supervise env cam runner a u) = Supervising"
    "never_recovers p (nows @ [at_now a]) (su_tracker (supervise env cam runner a u))"
    by (simp_all add: never_recovers_failed [OF _ assms])
  with Cons.IH [of _ "nows @ [at_now a]"] Cons.prems show ?case by simp
qed simp

end

interpretation camera_sessions: session_runner "run_camera_session env cam" session_cancelled for env cam
  by unfold_locales (rule run_camera_session_ends)

section \<open>What a session forwards\<close>

definition on_time :: "'a arrival \<Rightarrow> bool" where
  "on_time a \<longleftrightarrow>
     ar_wait a \<le> from_secs 10 \<and> ar_wait a \<le> from_secs (runtime_u64_nonzero (ar_ov a) ''CAMERA_OFFLINE_TIMEOUT_SECS'' 20)"

lemma on_time_limit [simp]: "on_time a \<Longrightarrow> \<not> receive_limit (ar_ov a) s < ar_wait a"
  by (auto simp: on_time_def receive_limit_def)

definition packet_seq :: "bytes \<Rightarrow> u16 option" where
  "packet_seq d = (case RtpPacket_parse (take 8192 d) of Ok pkt \<Rightarrow> Some (rp_sequence_number pkt) | _ \<Rightarrow> None)"

text \<open>The calls for one datagram, given the sequence number of the datagram before it, if that was a packet.\<close>

definition report :: "u32 \<Rightarrow> u16 option \<Rightarrow> bytes \<Rightarrow> uplink_event list" where
  "report sid before d =
     (case packet_seq d of
        None \<Rightarrow> []
      | Some seq \<Rightarrow>
          (case before of
             None \<Rightarrow> [SendRtp sid (take 8192 d)]
           | Some q \<Rightarrow> if seq = q + 1 then [SendRtp sid (take 8192 d)] else [SendGap sid q seq]))"

lemma note_first_simps [simp]:
  "sn_calls (note_first ov cam s) = sn_calls s" "sn_expected_seq (note_first ov cam s) = sn_expected_seq s"
  by (simp_all add: note_first_def)

lemma session_on_datagram_report:
  assumes "sn_expected_seq s = map_option (\<lambda>q. q + 1) before"
  shows "\<exists>s'. session_on_datagram ov cam d s = (None, s')
    \<and> sn_calls s' = sn_calls s @ report (stream_of cam) before d
    \<and> sn_expected_seq s' = map_option (\<lambda>q. q + 1) (packet_seq d)"
  using assms parse_no_panic [of "take 8192 d"]
  by (cases "RtpPacket_parse (take 8192 d)"; cases before)
     (auto simp: session_on_datagram_def packet_seq_def report_def forward_packet_def call_def Let_def)

lemma udp_session_reports:
  "list_all on_time as \<Longrightarrow> map ar_what as = map (Some \<circ> Inr) ds \<Longrightarrow>
     sn_expected_seq s = map_option (\<lambda>q. q + 1) before \<Longrightarrow>
     \<exists>s'. udp_session cam as s = (None, s')
       \<and> sn_calls s' = sn_calls s @ concat (map2 (report (stream_of cam)) (before # map packet_seq ds) ds)"
proof (induction as arbitrary: ds s before)
  case (Cons a as)
  then obtain d ds' where d: "ds = d # ds'" "ar_what a = Some (Inr d)" "map ar_what as = map (Some \<circ> Inr) ds'"
    by (cases ds) auto
  from session_on_datagram_report [OF Cons.prems(3), of "ar_ov a" cam d]
  obtain s' where s': "session_on_datagram (ar_ov a) cam d s = (None, s')"
    "sn_calls s' = sn_calls s @ report (stream_of cam) before d"
    "sn_expected_seq s' = map_option (\<lambda>q. q + 1) (packet_seq d)" by blast
  with Cons.IH [OF _ d(3) s'(3)] Cons.prems(1) d show ?case by auto
qed simp

text \<open>Without junk, one call per datagram, which depends on the datagram before it.\<close>

lemma concat_singles:
  "length ys \<le> length xs \<Longrightarrow> (\<And>i. i < length ys \<Longrightarrow> f (xs ! i) (ys ! i) = [g i]) \<Longrightarrow>
     concat (map2 f xs ys) = map g [0..<length ys]"
proof (induction ys arbitrary: xs g)
  case (Cons y ys)
  then obtain x xs' where xs: "xs = x # xs'" by (cases xs) auto
  have "concat (map2 f xs' ys) = map (g \<circ> Suc) [0..<length ys]"
    by (rule Cons.IH) (use Cons.prems(1) Cons.prems(2) [of "Suc _"] xs in auto)
  with Cons.prems(2) [of 0] xs show ?case by (simp add: map_upt_Suc comp_def del: upt_Suc)
qed simp

definition announced :: "u32 \<Rightarrow> bytes list \<Rightarrow> nat \<Rightarrow> uplink_event" where
  "announced sid ds i =
     (if i = 0 \<or> packet_seq (ds ! i) = map_option (\<lambda>q. q + 1) (packet_seq (ds ! (i - 1)))
      then SendRtp sid (take 8192 (ds ! i))
      else SendGap sid (the (packet_seq (ds ! (i - 1)))) (the (packet_seq (ds ! i))))"

lemma reports_announced:
  assumes "\<forall>d\<in>set ds. packet_seq d \<noteq> None"
  shows "concat (map2 (report sid) (None # map packet_seq ds) ds) = map (announced sid ds) [0..<length ds]"
proof -
  have "report sid ((None # map packet_seq ds) ! i) (ds ! i) = [announced sid ds i]" if "i < length ds" for i
  proof -
    from that assms obtain seq where seq: "packet_seq (ds ! i) = Some seq" by (metis not_None_eq nth_mem)
    show ?thesis
    proof (cases i)
      case 0
      with seq that show ?thesis by (simp add: report_def announced_def)
    next
      case (Suc j)
      with that assms obtain q where "packet_seq (ds ! j) = Some q" by (metis Suc_lessD not_None_eq nth_mem)
      with seq Suc that show ?thesis by (simp add: report_def announced_def)
    qed
  qed
  then show ?thesis by (simp add: concat_singles)
qed

lemma tcp_session_forwards:
  "list_all (\<lambda>a. on_time a \<and> ar_what a \<noteq> None) as \<Longrightarrow> length as = length fs \<Longrightarrow>
     pending c = concat (map (\<lambda>(ch, p). interleaved_encode ch p) fs) \<Longrightarrow> \<forall>(ch, p) \<in> set fs. length p < 65536 \<Longrightarrow>
     \<exists>s'. tcp_session cam rtp rtcp as c s = (None, s')
       \<and> sn_calls s' = sn_calls s @ map (\<lambda>(ch, p). SendRtp (stream_of cam) p) (filter (\<lambda>(ch, p). ch = rtp) fs)"
proof (induction as arbitrary: fs c s)
  case (Cons a as)
  then obtain ch p fs' where f: "fs = (ch, p) # fs'" by (cases fs) auto
  with Cons.prems(3,4) obtain c' where c': "read_interleaved_frame c rtp rtcp = Ok (classify_frame rtp rtcp ch p, c')"
    "pending c' = concat (map (\<lambda>(ch, p). interleaved_encode ch p) fs')"
    using read_interleaved_frame_encoded [of c ch p] by fastforce
  have calls: "sn_calls (session_on_frame ov cam (classify_frame rtp rtcp ch p) s)
      = sn_calls s @ (if ch = rtp then [SendRtp (stream_of cam) p] else [])" for ov
    by (simp add: session_on_frame_def classify_frame_def call_def)
  from Cons.IH [OF _ _ c'(2), of "session_on_frame (ar_ov a) cam (classify_frame rtp rtcp ch p) s"] Cons.prems f c'(1) calls
  show ?case by (auto split: if_splits)
qed simp

section \<open>A sample camera\<close>

definition sample_cam :: CamConfig where
  "sample_cam =
     \<lparr>cc_name = ''cam1'', cc_rtsp_url = ''u'', cc_rtsp_user = None, cc_rtsp_pass = None, cc_stream_id = 7,
      cc_transport = ''udp'', cc_rtp_port = 4, cc_rtcp_port = 5, cc_camera_id = ''cam-1'',
      cc_agent_id = ''agent'', cc_agent_token = ''t''\<rparr>"

definition sample_url_parse :: "string \<Rightarrow> string + Url" where
  "sample_url_parse s =
     Inr \<lparr>url_scheme = ''rtsp'', url_host = Some (Domain ''c''), url_host_str = Some ''c'', url_port = None,
          url_port_or_known_default = None, url_path = ''/s'', url_text = s\<rparr>"

definition sample_session_env :: session_env where
  "sample_session_env =
     \<lparr>se_url_parse = sample_url_parse, se_b64enc = (\<lambda>_. []), se_b64dec = (\<lambda>_. None),
      se_rtsp_text = (\<lambda>_. ''rtsp''), se_sdp_text = (\<lambda>_. ''sdp'')\<rparr>"

definition sample_arrival :: "duration \<Rightarrow> 'a option \<Rightarrow> 'a arrival" where
  "sample_arrival wait what = \<lparr>ar_wait = wait, ar_ov = [], ar_what = what\<rparr>"

definition camera_packet :: "u16 \<Rightarrow> bytes" where
  "camera_packet seq = rtp_encode False 96 seq 90 7 [] None [0x65, 1] 0"

text \<open>The shortest answers a session accepts.\<close>

definition sample_answers :: RtspClient where
  "sample_answers =
     (let ok = as_bytes (''R 200'' @ crlf @ crlf) in
      RtspClient_connect
        [ok, as_bytes (''R 200'' @ crlf @ ''Content-Length:25'' @ crlf @ crlf @ ''m=video 0 A 9'' @ [CHR 0x0A] @ ''a=control:t''),
         ok, ok] False)"

text \<open>A camera that answers, sends the given packets and then falls silent for a minute.\<close>

definition sample_stream :: "u16 list \<Rightarrow> camera_behaviour" where
  "sample_stream seqs =
     \<lparr>cb_connect = (\<lambda>host port. Inr sample_answers), cb_bind = None,
      cb_datagrams = map (\<lambda>n. sample_arrival 0 (Some (Inr (camera_packet n)))) seqs @ [sample_arrival (from_secs 60) (Some (Inl ''late''))],
      cb_frames = []\<rparr>"

definition sample_playing :: "u16 list \<Rightarrow> camera_behaviour" where
  "sample_playing seqs = sample_stream seqs\<lparr>cb_datagrams := butlast (cb_datagrams (sample_stream seqs))\<rparr>"

definition sample_refusing :: camera_behaviour where
  "sample_refusing = sample_stream []\<lparr>cb_connect := \<lambda>host port. Inl ''refused'', cb_datagrams := []\<rparr>"

definition sample_attempt :: "camera_behaviour \<Rightarrow> nat \<Rightarrow> camera_behaviour attempt" where
  "sample_attempt b secs =
     \<lparr>at_cancelled = False, at_camera = b, at_now = from_secs secs,
      at_ov = [(''SERVER_BASE_URL'', ''https://s''), (''SERVER_BEARER_TOKEN'', ''t'')], at_cancelled_asleep = False\<rparr>"

lemma camera_packet_seq [simp]: "packet_seq (camera_packet n) = Some n"
  by (simp add: packet_seq_def camera_packet_def length_rtp_encode_plain parse_encode ext_fits_def)

lemma sample_playing_arrivals:
  "map ar_what (cb_datagrams (sample_playing seqs)) = map (Some \<circ> Inr) (map camera_packet seqs)"
  "list_all on_time (cb_datagrams (sample_playing seqs))"
  by (simp_all add: sample_playing_def sample_stream_def sample_arrival_def on_time_def list_all_iff)

lemma sample_cam_fields [simp]: "cc_stream_id sample_cam = 7" "cc_transport sample_cam = ''udp''"
  by (simp_all add: sample_cam_def)

lemma sample_negotiation:
  "case describe_camera sample_session_env sample_cam sample_answers of
     Ok (track, c) \<Rightarrow> check_codec track = Ok () \<and> parameter_set_calls sample_cam track = []
       \<and> (case setup_udp sample_session_env sample_cam track c of Ok _ \<Rightarrow> True | _ \<Rightarrow> False)
   | _ \<Rightarrow> False"
  by code_simp

lemma sample_played_session:
  assumes "cb_connect b = (\<lambda>host port. Inr sample_answers)" "cb_bind b = None"
  shows "run_camera_session sample_session_env sample_cam b off = udp_session sample_cam (cb_datagrams b) (session_start off)"
  using sample_negotiation assms
  by (auto simp: run_camera_session_def stream_camera_def andThen_def parse_rtsp_url_def connect_camera_def bind_socket_def
      sample_session_env_def sample_url_parse_def sample_cam_def session_start_def Let_def split: rust.splits)

lemma sample_datagram:
  "session_on_datagram ov cam (camera_packet n) s
     = (None, forward_packet (stream_of cam) (camera_packet n) n (note_first ov cam s))"
  by (simp add: session_on_datagram_def camera_packet_def length_rtp_encode_plain parse_encode ext_fits_def)

lemmas session_run = sample_played_session sample_datagram sample_playing_def sample_stream_def sample_arrival_def
  forward_packet_def call_def note_first_def session_start_def receive_limit_def from_secs_def stream_of_def timeout_error_def

section \<open>Properties\<close>





text \<open>
  The watchdog of the TCP loop watches for frames, not for RTP: a camera that sends anything but
  RTP often enough keeps a session open for as long as it likes, and nothing is forwarded.
\<close>

theorem rtcp_defeats_watchdog:
  assumes "list_all (\<lambda>a. on_time a \<and> ar_what a \<noteq> None) as" "length as = length fs"
    and "pending c = concat (map (\<lambda>(ch, p). interleaved_encode ch p) fs)"
    and "\<forall>(ch, p) \<in> set fs. length p < 65536 \<and> ch \<noteq> rtp"
  shows "\<exists>s'. tcp_session cam rtp rtcp as c s = (None, s') \<and> sn_calls s' = sn_calls s"
  using tcp_session_forwards [OF assms(1-3), of cam rtp rtcp s] assms(4)
  by (fastforce simp: filter_empty_conv)

text \<open>
  C15. The supervisor does not give up. Without cancellation it never returns and never panics, whatever
  the camera does: it is in a session that still waits, or it tries again, after a pause that doubles
  from one second to thirty.
\<close>

theorem supervisor_persists:
  assumes "list_all (undisturbed session_cancelled) as"
  shows "(su_phase (run_camera_supervisor env ov cam as) = Supervising
      \<and> su_backoff (run_camera_supervisor env ov cam as) = min (2 ^ length as * from_secs 1) (from_secs 30))
    \<or> (su_phase (run_camera_supervisor env ov cam as) = InSession \<and> list_ex (still_waiting (run_camera_session env cam)) as)"
  using camera_sessions.persists [OF assms, of "supervisor_start (camera_tracker ov)" 0 env cam env cam]
  by (simp add: run_camera_supervisor_def run_camera_supervisor_with_runner_def supervisor_start_def from_secs_def)

theorem supervisor_persists_witness:
  "su_phase (run_camera_supervisor sample_session_env [] sample_cam (map (sample_attempt sample_refusing) [1, 3, 7])) = Supervising
   \<and> su_backoff (run_camera_supervisor sample_session_env [] sample_cam (map (sample_attempt sample_refusing) [1, 3, 7]))
     = from_secs 8"
proof -
  have "fst (run_camera_session sample_session_env sample_cam sample_refusing off) \<noteq> None" for off
    by (simp add: run_camera_session_def andThen_def parse_rtsp_url_def connect_camera_def sample_session_env_def
        sample_url_parse_def sample_refusing_def Let_def)
  then have "\<not> list_ex (still_waiting (run_camera_session sample_session_env sample_cam)) (map (sample_attempt sample_refusing) [1, 3, 7])"
    by (simp add: still_waiting_def sample_attempt_def)
  moreover have "list_all (undisturbed session_cancelled) (map (sample_attempt sample_refusing) [1, 3, 7])"
    by (simp add: undisturbed_def sample_attempt_def session_cancelled_def cancelled_in_def sample_refusing_def sample_stream_def)
  from supervisor_persists [OF this, of sample_session_env "[]" sample_cam] calculation
  show ?thesis by (simp add: from_secs_def)
qed

text \<open>
  The supervisor posts at most two activities in its life, one when the camera goes offline and one
  when it comes back: the tracker is never told of a recovery, so no later outage is reported.
\<close>

theorem supervisor_posts_twice_at_most:
  "length (su_posts (run_camera_supervisor env ov cam as)) \<le> 2"
proof -
  have "posts_inv (supervisor_start (camera_tracker ov))"
    by (simp add: posts_inv_def supervisor_start_def camera_tracker_def OfflineTracker_new_def)
  from camera_sessions.run_posts [OF this, of env cam env cam as] show ?thesis
    by (auto simp: posts_inv_def run_camera_supervisor_def run_camera_supervisor_with_runner_def split: if_splits)
qed

text \<open>
  For the same reason the timeout of an outage is counted from the first failure of all. When every
  attempt fails in the end, the camera is marked offline as soon as one fails the timeout after the
  first, whatever the sessions forwarded in between.
\<close>

theorem outage_counts_from_first_failure:
  assumes "list_all (undisturbed session_cancelled) (a # as)"
    and "\<not> list_ex (still_waiting (run_camera_session env cam)) (a # as)"
  shows "ot_offline (su_tracker (run_camera_supervisor env ov cam (a # as))) \<longleftrightarrow>
    list_ex (\<lambda>x. at_now x - at_now a \<ge> from_secs (runtime_u64_nonzero ov ''CAMERA_OFFLINE_TIMEOUT_SECS'' 20)) (a # as)"
proof -
  let ?p = "camera_tracker ov"
  have pos: "ot_retry_count ?p > 0"
    by (auto simp: camera_tracker_def OfflineTracker_new_def runtime_u64_nonzero_def split: option.splits)
  have "never_recovers ?p [] (su_tracker (supervisor_start ?p))"
    by (simp add: never_recovers_def same_policy_def supervisor_start_def camera_tracker_def OfflineTracker_new_def)
  from camera_sessions.run_failing [OF pos assms _ this, of env cam] have
    "never_recovers ?p (map at_now (a # as)) (su_tracker (run_camera_supervisor env ov cam (a # as)))"
    by (simp add: supervisor_start_def run_camera_supervisor_def run_camera_supervisor_with_runner_def)
  then show ?thesis
    by (simp add: never_recovers_def continuous_def list_ex_iff camera_tracker_def OfflineTracker_new_def)
qed

theorem outage_counts_from_first_failure_witness:
  "let as = [sample_attempt sample_refusing 1, sample_attempt (sample_stream [1, 2]) 3600];
       u = run_camera_supervisor sample_session_env [] sample_cam as in
   ot_offline (su_tracker u) \<and> su_calls u = [SendRtp 7 (camera_packet 1), SendRtp 7 (camera_packet 2)]"
proof -
  let ?as = "[sample_attempt sample_refusing 1, sample_attempt (sample_stream [1, 2]) 3600]"
  have refused: "run_camera_session sample_session_env sample_cam sample_refusing off
      = (Some (Err (ConnectError ''refused'')), session_start off)" for off
    by (simp add: run_camera_session_def andThen_def parse_rtsp_url_def connect_camera_def sample_session_env_def
        sample_url_parse_def sample_refusing_def Let_def)
  have streamed: "fst (run_camera_session sample_session_env sample_cam (sample_stream [1, 2]) off) = Some (Err ReceiveTimeout)"
    "sn_calls (snd (run_camera_session sample_session_env sample_cam (sample_stream [1, 2]) off))
      = [SendRtp 7 (camera_packet 1), SendRtp 7 (camera_packet 2)]" for off
    by (simp_all add: session_run runtime_u64_nonzero_def runtime_var_def)
  have all: "list_all (undisturbed session_cancelled) ?as"
    by (simp add: undisturbed_def sample_attempt_def session_cancelled_def cancelled_in_def
        sample_refusing_def sample_stream_def sample_arrival_def)
  have "\<not> list_ex (still_waiting (run_camera_session sample_session_env sample_cam)) ?as"
    by (simp add: still_waiting_def refused streamed sample_attempt_def)
  from outage_counts_from_first_failure [OF all this, of "[]"]
  have "ot_offline (su_tracker (run_camera_supervisor sample_session_env [] sample_cam ?as))"
    by (simp add: sample_attempt_def from_secs_def runtime_u64_nonzero_def runtime_var_def)
  moreover have "su_calls (run_camera_supervisor sample_session_env [] sample_cam ?as)
      = [SendRtp 7 (camera_packet 1), SendRtp 7 (camera_packet 2)]"
    using streamed
    by (simp add: run_camera_supervisor_def run_camera_supervisor_with_runner_def supervise_calls)
       (simp add: supervise_def sample_attempt_def supervisor_start_def refused session_start_def)
  ultimately show ?thesis by simp
qed

text \<open>
  C18. The offline tracker implements its policy. For calls in the order of the clock, its answers are
  those of a log that keeps every outage with both ends: forgetting the outages that left the window
  changes no answer.
\<close>

theorem tracker_refines_policy:
  assumes "sorted (map event_time evs)"
  shows "outputs tracker_step evs (OfflineTracker_new a b c d)
    = outputs (log_step (OfflineTracker_new a b c d)) evs \<lparr>ol_down = None, ol_past = [], ol_reported = False\<rparr>"
  using tracks_outputs [OF tracks_new] assms by simp

theorem tracker_refines_policy_witness:
  "outputs tracker_step [OutageStarted 1, OutageRecovered 7, OutageStarted 8, Evaluated 9, OutageRecovered 20, Evaluated 21]
     (OfflineTracker_new 100 5 2 22)
   = [None, None, None, None, None, Some Offline]
   \<and> outputs (log_step (OfflineTracker_new 100 5 2 22))
       [OutageStarted 1, OutageRecovered 7, OutageStarted 8, Evaluated 9, OutageRecovered 20, Evaluated 21]
       \<lparr>ol_down = None, ol_past = [], ol_reported = False\<rparr>
     = [None, None, None, None, None, Some Offline]"
proof -
  let ?evs = "[OutageStarted 1, OutageRecovered 7, OutageStarted 8, Evaluated 9, OutageRecovered 20, Evaluated 21]"
  have "outputs tracker_step ?evs (OfflineTracker_new 100 5 2 22) = [None, None, None, None, None, Some Offline]"
    by code_simp
  with tracker_refines_policy [of ?evs 100 5 2 22] show ?thesis by simp
qed

end
