(* ===== verification/OnvifProbe.thy ===== *)
theory OnvifProbe
  imports Soap ServerClient
begin

text \<open>
  \<^verbatim>\<open>src/onvif/onvif_probe.rs\<close>: the cameras to probe, and the probe that asks a camera for its device
  information, services and capabilities, and then every service it has for what it offers. The
  readers of the answers are folds of one step over the XML events. The requests are those of
  \<open>Soap\<close>; reading and writing floating point numbers are parameters.

  The report, rendered by \<open>OnvifProbeReport_as_json\<close>, is what the parameter \<open>ag_probe\<close> of \<open>ServerClient\<close>
  stands for (\<open>probe_outcome\<close>).
\<close>

section \<open>Cameras\<close>

datatype probe_config_error = MissingUser nat | MissingPass nat | MissingOnvifUser | MissingOnvifPass

definition probe_port :: "string option \<Rightarrow> nat" where
  "probe_port v = unwrap_or (Option.bind v (parse_uint 65535)) 2020"

definition probe_service_url :: "string \<Rightarrow> nat \<Rightarrow> string" where
  "probe_service_url host port = ''http://'' @ host @ '':'' @ show_nat port @ ''/onvif/service''"

definition load_probe_camera :: "overrides \<Rightarrow> nat \<Rightarrow> (probe_config_error, OnvifProbeCameraConfig option) rust" where
  "load_probe_camera ov i =
     (let var = (\<lambda>k. runtime_var ov (''CAM'' @ show_nat i @ ''_ONVIF_'' @ k)) in
      case nonblank (var ''HOST'') of
        None \<Rightarrow> Ok None
      | Some host \<Rightarrow>
          (case var ''USER'' of
             None \<Rightarrow> Err (MissingUser i)
           | Some username \<Rightarrow>
               (case var ''PASS'' of
                  None \<Rightarrow> Err (MissingPass i)
                | Some password \<Rightarrow>
                    Ok (Some \<lparr>pc_camera_id = unwrap_or (runtime_var ov (''CAM'' @ show_nat i @ ''_CAMERA_ID'')) (''cam-'' @ show_nat i),
                      pc_service_url = probe_service_url host (probe_port (var ''PORT'')),
                      pc_username = username, pc_password = password\<rparr>))))"

fun load_probe_slots :: "overrides \<Rightarrow> nat list \<Rightarrow> (probe_config_error, OnvifProbeCameraConfig list) rust" where
  "load_probe_slots ov [] = Ok []"
| "load_probe_slots ov (i # is) =
     bindR (load_probe_camera ov i) (\<lambda>c.
     bindR (load_probe_slots ov is) (\<lambda>cs. Ok (case c of None \<Rightarrow> cs | Some c \<Rightarrow> c # cs)))"

definition load_onvif_probe_cameras_from_env :: "overrides \<Rightarrow> (probe_config_error, OnvifProbeCameraConfig list) rust" where
  "load_onvif_probe_cameras_from_env ov =
     bindR (load_probe_slots ov [1, 2, 3, 4]) (\<lambda>cams.
     if cams \<noteq> [] then Ok cams
     else case nonblank (runtime_var ov ''ONVIF_HOST'') of
            None \<Rightarrow> Ok []
          | Some host \<Rightarrow>
              (case runtime_var ov ''ONVIF_USER'' of
                 None \<Rightarrow> Err MissingOnvifUser
               | Some username \<Rightarrow>
                   (case runtime_var ov ''ONVIF_PASS'' of
                      None \<Rightarrow> Err MissingOnvifPass
                    | Some password \<Rightarrow>
                        Ok [\<lparr>pc_camera_id = unwrap_or (or_else (runtime_var ov ''CAMERA_ID'') (runtime_var ov ''CAM1_CAMERA_ID''))
                               ''unknown-camera'',
                             pc_service_url = probe_service_url host (probe_port (runtime_var ov ''ONVIF_PORT'')),
                             pc_username = username, pc_password = password\<rparr>])))"

section \<open>The report\<close>

record OnvifDeviceInfo =
  di_manufacturer :: "string option"
  di_model :: "string option"
  di_firmware_version :: "string option"
  di_serial_number :: "string option"
  di_hardware_id :: "string option"

record OnvifServiceInfo =
  si_service :: string
  si_namespace :: string
  si_xaddr :: "string option"
  si_capabilities_present :: bool

record OnvifCapabilitiesSummary =
  ca_media :: bool
  ca_events :: bool
  ca_ptz :: bool
  ca_imaging :: bool
  ca_device_io :: bool
  ca_analytics :: bool

record OnvifMediaProfile =
  mp_token :: "string option"
  mp_name :: "string option"
  mp_video_source_token :: "string option"
  mp_video_encoder_token :: "string option"

record OnvifVideoEncoderConfiguration =
  ve_token :: "string option"
  ve_name :: "string option"
  ve_encoding :: "string option"
  ve_width :: "nat option"
  ve_height :: "nat option"
  ve_quality :: "string option"
  ve_frame_rate_limit :: "nat option"
  ve_bitrate_limit :: "nat option"

record OnvifMediaSummary =
  ms_profiles :: "OnvifMediaProfile list"
  ms_encoder_configurations :: "OnvifVideoEncoderConfiguration list"

record OnvifEventsSummary =
  es_fixed_topic_set :: "bool option"
  es_topic_namespace_locations :: "string list"
  es_topic_expression_dialects :: "string list"
  es_message_content_filter_dialects :: "string list"

record OnvifPtzSummary =
  ps_node_count :: usize
  ps_configuration_count :: usize

record OnvifMotionRegionSummary =
  mr_supported :: bool
  mr_probe_failed :: "bool option"
  mr_reason :: "string option"
  mr_target_kind :: "string option"
  mr_target_name :: "string option"
  mr_target_type :: "string option"
  mr_point_count :: "usize option"

record OnvifServiceError =
  oe_service :: string
  oe_operation :: string
  oe_error :: string

record OnvifProbeReport =
  pr_device :: OnvifDeviceInfo
  pr_services :: "OnvifServiceInfo list"
  pr_capabilities :: OnvifCapabilitiesSummary
  pr_media :: "OnvifMediaSummary option"
  pr_events :: "OnvifEventsSummary option"
  pr_ptz :: "OnvifPtzSummary option"
  pr_motion_region :: "OnvifMotionRegionSummary option"
  pr_service_errors :: "OnvifServiceError list"

record probe_env =
  po_soap :: soap_env
  po_parse_f64 :: "string \<Rightarrow> string option"
  po_json_f64 :: "string \<Rightarrow> json"

section \<open>Reading answers\<close>

definition attr_value :: "(bytes \<times> string option) list \<Rightarrow> string \<Rightarrow> string option" where
  "attr_value attributes wanted_local =
     find_map (\<lambda>(key, v). if local_name key = wanted_local then v else None) attributes"

definition push_unique :: "string \<Rightarrow> string list \<Rightarrow> string list" where
  "push_unique v out = (if v \<noteq> [] \<and> v \<notin> set out then out @ [v] else out)"

definition parse_device_information :: "soap_env \<Rightarrow> string \<Rightarrow> OnvifDeviceInfo" where
  "parse_device_information env xml =
     \<lparr>di_manufacturer = extract_first_text env xml ''Manufacturer'', di_model = extract_first_text env xml ''Model'',
      di_firmware_version = extract_first_text env xml ''FirmwareVersion'',
      di_serial_number = extract_first_text env xml ''SerialNumber'', di_hardware_id = extract_first_text env xml ''HardwareId''\<rparr>"

definition service_key_from_namespace :: "string \<Rightarrow> string" where
  "service_key_from_namespace namespace =
     (let lower = to_lowercase namespace in
      if contains lower ''/device/wsdl'' then ''device''
      else if contains lower ''/media/wsdl'' then ''media''
      else if contains lower ''/events/wsdl'' then ''events''
      else if contains lower ''/ptz/wsdl'' then ''ptz''
      else if contains lower ''/imaging/wsdl'' then ''imaging''
      else if contains lower ''/deviceio/wsdl'' then ''device_io''
      else if contains lower ''/analytics/wsdl'' then ''analytics''
      else namespace)"

record service_reader =
  sr_services :: "OnvifServiceInfo list"
  sr_current :: "OnvifServiceInfo option"
  sr_pending :: "string option"

definition OnvifServiceInfo_default :: OnvifServiceInfo where
  "OnvifServiceInfo_default = \<lparr>si_service = [], si_namespace = [], si_xaddr = None, si_capabilities_present = False\<rparr>"

definition mark_capabilities :: "service_reader \<Rightarrow> service_reader" where
  "mark_capabilities r = r\<lparr>sr_current := map_option (\<lambda>s. s\<lparr>si_capabilities_present := True\<rparr>) (sr_current r)\<rparr>"

definition services_step :: "xml_event \<Rightarrow> service_reader \<Rightarrow> service_reader" where
  "services_step ev r =
     (case ev of
        XStart name _ \<Rightarrow>
          (let n = local_name name in
           if n = ''Service'' then r\<lparr>sr_current := Some OnvifServiceInfo_default, sr_pending := None\<rparr>
           else if sr_current r \<noteq> None then
             (if n = ''Namespace'' \<or> n = ''XAddr'' then r\<lparr>sr_pending := Some n\<rparr>
              else if n = ''Capabilities'' then mark_capabilities r else r)
           else r)
      | XEmpty name _ \<Rightarrow> if sr_current r \<noteq> None \<and> local_name name = ''Capabilities'' then mark_capabilities r else r
      | XText t \<Rightarrow>
          (case (sr_current r, sr_pending r, t) of
             (Some s, Some pending, Some v) \<Rightarrow>
               if pending = ''Namespace''
               then r\<lparr>sr_current := Some (s\<lparr>si_namespace := v, si_service := service_key_from_namespace v\<rparr>)\<rparr>
               else if pending = ''XAddr'' \<and> trim v \<noteq> [] then r\<lparr>sr_current := Some (s\<lparr>si_xaddr := Some (trim v)\<rparr>)\<rparr>
               else r
           | _ \<Rightarrow> r)
      | XEnd name \<Rightarrow>
          (let r = (if local_name name = ''Service''
                    then (case sr_current r of
                            None \<Rightarrow> r
                          | Some s \<Rightarrow> r\<lparr>sr_services := sr_services r @ [s], sr_current := None\<rparr>)
                    else r) in
           r\<lparr>sr_pending := None\<rparr>)
      | XOther \<Rightarrow> r)"

definition parse_services :: "soap_env \<Rightarrow> string \<Rightarrow> OnvifServiceInfo list" where
  "parse_services env xml =
     sr_services (fold services_step (so_events env xml) \<lparr>sr_services = [], sr_current = None, sr_pending = None\<rparr>)"

definition collect_service_xaddrs :: "OnvifServiceInfo list \<Rightarrow> string \<Rightarrow> (string \<times> string) list" where
  "collect_service_xaddrs services fallback_device_service =
     fold (\<lambda>s. AList.update (si_service s) (unwrap_or (si_xaddr s) fallback_device_service)) services []"

definition capabilities_step :: "xml_event \<Rightarrow> OnvifCapabilitiesSummary \<Rightarrow> OnvifCapabilitiesSummary" where
  "capabilities_step ev c =
     (let found = (\<lambda>name.
        let n = local_name name in
        if n = ''Media'' then c\<lparr>ca_media := True\<rparr> else if n = ''Events'' then c\<lparr>ca_events := True\<rparr>
        else if n = ''PTZ'' then c\<lparr>ca_ptz := True\<rparr> else if n = ''Imaging'' then c\<lparr>ca_imaging := True\<rparr>
        else if n = ''DeviceIO'' then c\<lparr>ca_device_io := True\<rparr>
        else if n = ''Analytics'' \<or> n = ''AnalyticsDevice'' then c\<lparr>ca_analytics := True\<rparr> else c) in
      case ev of XStart name _ \<Rightarrow> found name | XEmpty name _ \<Rightarrow> found name | _ \<Rightarrow> c)"

definition parse_capabilities :: "soap_env \<Rightarrow> string \<Rightarrow> OnvifCapabilitiesSummary" where
  "parse_capabilities env xml =
     fold capabilities_step (so_events env xml)
       \<lparr>ca_media = False, ca_events = False, ca_ptz = False, ca_imaging = False, ca_device_io = False, ca_analytics = False\<rparr>"

record profile_reader =
  pf_profiles :: "OnvifMediaProfile list"
  pf_current :: "OnvifMediaProfile option"
  pf_pending :: bool

definition profile_token :: "string \<Rightarrow> (bytes \<times> string option) list \<Rightarrow> profile_reader \<Rightarrow> profile_reader" where
  "profile_token n attributes r =
     (if n = ''VideoSourceConfiguration''
      then r\<lparr>pf_current := map_option (\<lambda>p. p\<lparr>mp_video_source_token := attr_value attributes ''token''\<rparr>) (pf_current r)\<rparr>
      else if n = ''VideoEncoderConfiguration''
      then r\<lparr>pf_current := map_option (\<lambda>p. p\<lparr>mp_video_encoder_token := attr_value attributes ''token''\<rparr>) (pf_current r)\<rparr>
      else r)"

definition profiles_step :: "xml_event \<Rightarrow> profile_reader \<Rightarrow> profile_reader" where
  "profiles_step ev r =
     (case ev of
        XStart name attributes \<Rightarrow>
          (let n = local_name name in
           if n = ''Profiles''
           then r\<lparr>pf_current := Some \<lparr>mp_token = attr_value attributes ''token'', mp_name = None,
                    mp_video_source_token = None, mp_video_encoder_token = None\<rparr>\<rparr>
           else if n = ''Name'' \<and> pf_current r \<noteq> None then r\<lparr>pf_pending := True\<rparr>
           else profile_token n attributes r)
      | XEmpty name attributes \<Rightarrow> profile_token (local_name name) attributes r
      | XText t \<Rightarrow>
          (case (pf_current r, t) of
             (Some p, Some v) \<Rightarrow> if pf_pending r then r\<lparr>pf_current := Some (p\<lparr>mp_name := Some v\<rparr>)\<rparr> else r
           | _ \<Rightarrow> r)
      | XEnd name \<Rightarrow>
          (let r = (if local_name name = ''Profiles''
                    then (case pf_current r of
                            None \<Rightarrow> r
                          | Some p \<Rightarrow> r\<lparr>pf_profiles := pf_profiles r @ [p], pf_current := None\<rparr>)
                    else r) in
           r\<lparr>pf_pending := False\<rparr>)
      | XOther \<Rightarrow> r)"

definition parse_profiles :: "soap_env \<Rightarrow> string \<Rightarrow> OnvifMediaProfile list" where
  "parse_profiles env xml =
     pf_profiles (fold profiles_step (so_events env xml) \<lparr>pf_profiles = [], pf_current = None, pf_pending = False\<rparr>)"

definition encoder_field :: "probe_env \<Rightarrow> string \<Rightarrow> string \<Rightarrow> OnvifVideoEncoderConfiguration \<Rightarrow> OnvifVideoEncoderConfiguration" where
  "encoder_field env wanted v c =
     (if wanted = ''Name'' then c\<lparr>ve_name := Some v\<rparr>
      else if wanted = ''Encoding'' then c\<lparr>ve_encoding := Some v\<rparr>
      else if wanted = ''Quality'' then c\<lparr>ve_quality := po_parse_f64 env v\<rparr>
      else if wanted = ''Width'' then c\<lparr>ve_width := parse_uint 4294967295 v\<rparr>
      else if wanted = ''Height'' then c\<lparr>ve_height := parse_uint 4294967295 v\<rparr>
      else if wanted = ''FrameRateLimit'' then c\<lparr>ve_frame_rate_limit := parse_uint 4294967295 v\<rparr>
      else if wanted = ''BitrateLimit'' then c\<lparr>ve_bitrate_limit := parse_uint 4294967295 v\<rparr>
      else c)"

record encoder_reader =
  er_configs :: "OnvifVideoEncoderConfiguration list"
  er_current :: "OnvifVideoEncoderConfiguration option"
  er_pending :: "string option"

definition encoder_element :: "string \<Rightarrow> bool" where
  "encoder_element n \<longleftrightarrow> n = ''Configurations'' \<or> n = ''VideoEncoderConfiguration''"

definition encoders_step :: "probe_env \<Rightarrow> xml_event \<Rightarrow> encoder_reader \<Rightarrow> encoder_reader" where
  "encoders_step env ev r =
     (case ev of
        XStart name attributes \<Rightarrow>
          (let n = local_name name in
           if encoder_element n
           then r\<lparr>er_current := Some \<lparr>ve_token = attr_value attributes ''token'', ve_name = None, ve_encoding = None,
                    ve_width = None, ve_height = None, ve_quality = None, ve_frame_rate_limit = None, ve_bitrate_limit = None\<rparr>\<rparr>
           else if er_current r \<noteq> None
             \<and> n \<in> set [''Name'', ''Encoding'', ''Quality'', ''Width'', ''Height'', ''FrameRateLimit'', ''BitrateLimit'']
           then r\<lparr>er_pending := Some n\<rparr> else r)
      | XText t \<Rightarrow>
          (case (er_current r, er_pending r, t) of
             (Some c, Some wanted, Some v) \<Rightarrow> r\<lparr>er_current := Some (encoder_field env wanted v c)\<rparr>
           | _ \<Rightarrow> r)
      | XEnd name \<Rightarrow>
          (let r = (if encoder_element (local_name name)
                    then (case er_current r of
                            None \<Rightarrow> r
                          | Some c \<Rightarrow> r\<lparr>er_configs := er_configs r @ [c], er_current := None\<rparr>)
                    else r) in
           r\<lparr>er_pending := None\<rparr>)
      | _ \<Rightarrow> r)"

definition parse_video_encoder_configurations :: "probe_env \<Rightarrow> string \<Rightarrow> OnvifVideoEncoderConfiguration list" where
  "parse_video_encoder_configurations env xml =
     er_configs (fold (encoders_step env) (so_events (po_soap env) xml) \<lparr>er_configs = [], er_current = None, er_pending = None\<rparr>)"

definition collect_step :: "string list \<Rightarrow> xml_event \<Rightarrow> bool \<times> string list \<Rightarrow> bool \<times> string list" where
  "collect_step locals ev = (\<lambda>(current_match, out).
     case ev of
       XStart name _ \<Rightarrow> (local_name name \<in> set locals, out)
     | XText (Some v) \<Rightarrow> (current_match, if current_match then push_unique (trim v) out else out)
     | XEnd _ \<Rightarrow> (False, out)
     | _ \<Rightarrow> (current_match, out))"

definition collect_texts :: "soap_env \<Rightarrow> string \<Rightarrow> string list \<Rightarrow> string list" where
  "collect_texts env xml locals = snd (fold (collect_step locals) (so_events env xml) (False, []))"

definition count_elements :: "soap_env \<Rightarrow> string \<Rightarrow> string list \<Rightarrow> usize" where
  "count_elements env xml locals =
     length (filter (\<lambda>ev. case ev of XStart name _ \<Rightarrow> local_name name \<in> set locals
                                   | XEmpty name _ \<Rightarrow> local_name name \<in> set locals | _ \<Rightarrow> False) (so_events env xml))"

definition parse_event_properties :: "soap_env \<Rightarrow> string \<Rightarrow> OnvifEventsSummary" where
  "parse_event_properties env xml =
     \<lparr>es_fixed_topic_set = map_option (\<lambda>v. eq_ignore_ascii_case v ''true'' \<or> v = ''1'') (extract_first_text env xml ''FixedTopicSet''),
      es_topic_namespace_locations = collect_texts env xml [''TopicNamespaceLocation''],
      es_topic_expression_dialects = collect_texts env xml [''TopicExpressionDialect''],
      es_message_content_filter_dialects = collect_texts env xml [''MessageContentFilterDialect'']\<rparr>"

definition analytics_token :: "xml_event \<Rightarrow> string option" where
  "analytics_token ev =
     (let token = (\<lambda>name attributes.
        if local_name name = ''VideoAnalyticsConfiguration'' then nonblank (attr_value attributes ''token'') else None) in
      case ev of XStart name attributes \<Rightarrow> token name attributes | XEmpty name attributes \<Rightarrow> token name attributes | _ \<Rightarrow> None)"

definition probe_video_analytics_config_token :: "soap_env \<Rightarrow> string \<Rightarrow> string option" where
  "probe_video_analytics_config_token env xml = find_map analytics_token (so_events env xml)"

record rule_reader =
  rr_in_rule :: bool
  rr_target_name :: "string option"
  rr_target_type :: "string option"
  rr_point_count :: usize

definition rule_outside :: rule_reader where
  "rule_outside = \<lparr>rr_in_rule = False, rr_target_name = None, rr_target_type = None, rr_point_count = 0\<rparr>"

definition count_point :: "bytes \<Rightarrow> rule_reader \<Rightarrow> rule_reader" where
  "count_point name r =
     (if local_name name = ''Point'' \<and> rr_in_rule r then r\<lparr>rr_point_count := rr_point_count r + 1\<rparr> else r)"

definition rule_start :: "bytes \<Rightarrow> (bytes \<times> string option) list \<Rightarrow> rule_reader \<Rightarrow> rule_reader" where
  "rule_start name attributes r =
     (if local_name name = ''Rule''
      then (if (case attr_value attributes ''Type'' of None \<Rightarrow> False | Some t \<Rightarrow> contains (to_lowercase t) ''motionregion'')
            then \<lparr>rr_in_rule = True, rr_target_name = attr_value attributes ''Name'',
                  rr_target_type = attr_value attributes ''Type'', rr_point_count = 0\<rparr>
            else r\<lparr>rr_in_rule := False\<rparr>)
      else count_point name r)"

definition region_target :: "rule_reader \<Rightarrow> OnvifMotionRegionSummary" where
  "region_target r =
     \<lparr>mr_supported = True, mr_probe_failed = None, mr_reason = None, mr_target_kind = Some ''rule'',
      mr_target_name = rr_target_name r, mr_target_type = rr_target_type r, mr_point_count = Some (rr_point_count r)\<rparr>"

fun find_rule_target :: "rule_reader \<Rightarrow> xml_event list \<Rightarrow> OnvifMotionRegionSummary option" where
  "find_rule_target r [] = None"
| "find_rule_target r (ev # evs) =
     (case ev of
        XStart name attributes \<Rightarrow> find_rule_target (rule_start name attributes r) evs
      | XEmpty name _ \<Rightarrow> find_rule_target (count_point name r) evs
      | XEnd name \<Rightarrow>
          if local_name name = ''Rule'' \<and> rr_in_rule r
          then (if rr_point_count r > 0 then Some (region_target r) else find_rule_target rule_outside evs)
          else find_rule_target r evs
      | _ \<Rightarrow> find_rule_target r evs)"

definition parse_motion_region_rule_target :: "soap_env \<Rightarrow> string \<Rightarrow> OnvifMotionRegionSummary option" where
  "parse_motion_region_rule_target env xml = find_rule_target rule_outside (so_events env xml)"

section \<open>Asking the camera\<close>

definition DEVICE_NAMESPACE :: string where
  "DEVICE_NAMESPACE = ''http://www.onvif.org/ver10/device/wsdl''"

definition MEDIA_NAMESPACE :: string where
  "MEDIA_NAMESPACE = ''http://www.onvif.org/ver10/media/wsdl''"

definition EVENTS_NAMESPACE :: string where
  "EVENTS_NAMESPACE = ''http://www.onvif.org/ver10/events/wsdl''"

definition PTZ_NAMESPACE :: string where
  "PTZ_NAMESPACE = ''http://www.onvif.org/ver20/ptz/wsdl''"

definition ANALYTICS_NAMESPACE :: string where
  "ANALYTICS_NAMESPACE = ''http://www.onvif.org/ver20/analytics/wsdl''"

definition probe_namespaces :: "(string \<times> string) list" where
  "probe_namespaces = soap_namespaces @
     [(''tds'', DEVICE_NAMESPACE), (''trt'', MEDIA_NAMESPACE), (''tev'', EVENTS_NAMESPACE), (''tptz'', PTZ_NAMESPACE),
      (''tt'', ''http://www.onvif.org/ver10/schema'')]"

definition probe_envelope :: "string \<Rightarrow> string \<Rightarrow> string \<Rightarrow> string \<Rightarrow> string" where
  "probe_envelope to action security body =
     join_lines (envelope_open probe_namespaces action to
       @ [''    '' @ security, ''  </SOAP-ENV:Header>'', ''  <SOAP-ENV:Body>'', ''    '' @ body,
          ''  </SOAP-ENV:Body>'', ''</SOAP-ENV:Envelope>''])"

definition probe_action :: "string \<Rightarrow> string \<Rightarrow> string" where
  "probe_action namespace operation = namespace @ ''/'' @ operation"

definition call_operation ::
    "soap_env \<Rightarrow> OnvifProbeCameraConfig \<Rightarrow> string \<Rightarrow> string \<Rightarrow> string \<Rightarrow> string \<Rightarrow> string soap" where
  "call_operation env cam service_url namespace operation body =
     (let action = probe_action namespace operation in
      with_security env (pc_username cam) (pc_password cam) (\<lambda>security.
        soap_post env service_url action (probe_envelope service_url action security body)))"

text \<open>The errors recorded so far go along with the requests sent.\<close>

type_synonym 'a probe_run = "OnvifServiceError list \<Rightarrow> soap_world \<Rightarrow> 'a \<times> OnvifServiceError list \<times> soap_world"

definition returnP :: "'a \<Rightarrow> 'a probe_run" where
  "returnP x es w = (x, es, w)"

definition bindP :: "'a probe_run \<Rightarrow> ('a \<Rightarrow> 'b probe_run) \<Rightarrow> 'b probe_run" where
  "bindP a f es w = (case a es w of (x, es', w') \<Rightarrow> f x es' w')"

definition capture_optional :: "string \<Rightarrow> string \<Rightarrow> string soap \<Rightarrow> string option probe_run" where
  "capture_optional service operation request es w =
     (case request w of
        (Inr xml, w') \<Rightarrow> (Some xml, es, w')
      | (Inl e, w') \<Rightarrow> (None, es @ [\<lparr>oe_service = service, oe_operation = operation, oe_error = error_text e\<rparr>], w'))"

definition OnvifMotionRegionSummary_default :: OnvifMotionRegionSummary where
  "OnvifMotionRegionSummary_default =
     \<lparr>mr_supported = False, mr_probe_failed = None, mr_reason = None, mr_target_kind = None, mr_target_name = None,
      mr_target_type = None, mr_point_count = None\<rparr>"

definition region_probe_failed :: "string \<Rightarrow> OnvifMotionRegionSummary" where
  "region_probe_failed reason = OnvifMotionRegionSummary_default\<lparr>mr_probe_failed := Some True, mr_reason := Some reason\<rparr>"

definition region_unsupported :: "string \<Rightarrow> OnvifMotionRegionSummary" where
  "region_unsupported reason = OnvifMotionRegionSummary_default\<lparr>mr_reason := Some reason\<rparr>"

definition get_rules_body :: "string \<Rightarrow> string" where
  "get_rules_body config_token =
     ''<tan:GetRules><tan:ConfigurationToken>'' @ xml_escape config_token @ ''</tan:ConfigurationToken></tan:GetRules>''"

definition probe_motion_region_support ::
    "soap_env \<Rightarrow> OnvifProbeCameraConfig \<Rightarrow> string \<Rightarrow> string \<Rightarrow> OnvifMotionRegionSummary probe_run" where
  "probe_motion_region_support env cam media_url analytics_url =
     bindP (capture_optional ''media'' ''GetProfiles''
              (call_operation env cam media_url MEDIA_NAMESPACE ''GetProfiles'' ''<trt:GetProfiles/>'')) (\<lambda>profiles_xml.
     case profiles_xml of
       None \<Rightarrow> returnP (region_probe_failed ''Failed to load ONVIF media profiles for motion region probing'')
     | Some profiles_xml \<Rightarrow>
         (case probe_video_analytics_config_token env profiles_xml of
            None \<Rightarrow> returnP (region_unsupported
              ''Camera exposes ONVIF media profiles but no VideoAnalyticsConfiguration token was found'')
          | Some config_token \<Rightarrow>
              bindP (capture_optional ''analytics'' ''GetRules''
                       (call_operation env cam analytics_url ANALYTICS_NAMESPACE ''GetRules'' (get_rules_body config_token))) (\<lambda>rules_xml.
              case rules_xml of
                None \<Rightarrow> returnP (region_probe_failed ''Failed to load ONVIF analytics rules for motion region probing'')
              | Some rules_xml \<Rightarrow> returnP (unwrap_or (parse_motion_region_rule_target env rules_xml)
                  (region_unsupported
                    ''Camera exposes ONVIF analytics config but no writable motion region polygon rule was found'')))))"

definition probe_media :: "probe_env \<Rightarrow> OnvifProbeCameraConfig \<Rightarrow> string \<Rightarrow> OnvifMediaSummary option probe_run" where
  "probe_media env cam media_url =
     bindP (capture_optional ''media'' ''GetProfiles''
              (call_operation (po_soap env) cam media_url MEDIA_NAMESPACE ''GetProfiles'' ''<trt:GetProfiles/>'')) (\<lambda>profiles_xml.
     bindP (capture_optional ''media'' ''GetVideoEncoderConfigurations''
              (call_operation (po_soap env) cam media_url MEDIA_NAMESPACE ''GetVideoEncoderConfigurations''
                 ''<trt:GetVideoEncoderConfigurations/>'')) (\<lambda>encoders_xml.
     returnP
       (if profiles_xml \<noteq> None \<or> encoders_xml \<noteq> None
        then Some \<lparr>ms_profiles = unwrap_or (map_option (parse_profiles (po_soap env)) profiles_xml) [],
                   ms_encoder_configurations = unwrap_or (map_option (parse_video_encoder_configurations env) encoders_xml) []\<rparr>
        else None)))"

definition probe_events :: "probe_env \<Rightarrow> OnvifProbeCameraConfig \<Rightarrow> string \<Rightarrow> OnvifEventsSummary option probe_run" where
  "probe_events env cam events_url =
     bindP (capture_optional ''events'' ''GetEventProperties''
              (call_operation (po_soap env) cam events_url EVENTS_NAMESPACE ''GetEventProperties'' ''<tev:GetEventProperties/>''))
       (\<lambda>events_xml. returnP (map_option (parse_event_properties (po_soap env)) events_xml))"

definition probe_ptz :: "probe_env \<Rightarrow> OnvifProbeCameraConfig \<Rightarrow> string \<Rightarrow> OnvifPtzSummary option probe_run" where
  "probe_ptz env cam ptz_url =
     bindP (capture_optional ''ptz'' ''GetNodes''
              (call_operation (po_soap env) cam ptz_url PTZ_NAMESPACE ''GetNodes'' ''<tptz:GetNodes/>'')) (\<lambda>nodes_xml.
     bindP (capture_optional ''ptz'' ''GetConfigurations''
              (call_operation (po_soap env) cam ptz_url PTZ_NAMESPACE ''GetConfigurations'' ''<tptz:GetConfigurations/>'')) (\<lambda>configs_xml.
     returnP
       (if nodes_xml \<noteq> None \<or> configs_xml \<noteq> None
        then Some \<lparr>ps_node_count =
                     unwrap_or (map_option (\<lambda>xml. count_elements (po_soap env) xml [''PTZNode'']) nodes_xml) 0,
                   ps_configuration_count =
                     unwrap_or (map_option (\<lambda>xml. count_elements (po_soap env) xml [''PTZConfiguration'', ''Configurations''])
                       configs_xml) 0\<rparr>
        else None)))"

text \<open>A part of the report is asked for when the capabilities or the services name it.\<close>

definition when_offered :: "bool \<Rightarrow> 'a option probe_run \<Rightarrow> 'a option probe_run" where
  "when_offered offered p = (if offered then p else returnP None)"

definition probe_services ::
    "probe_env \<Rightarrow> OnvifProbeCameraConfig \<Rightarrow> OnvifDeviceInfo \<Rightarrow> OnvifServiceInfo list \<Rightarrow> OnvifCapabilitiesSummary
       \<Rightarrow> OnvifProbeReport soap" where
  "probe_services env cam device services capabilities w =
     (let xaddrs = collect_service_xaddrs services (pc_service_url cam);
          offers = (\<lambda>s. map_of xaddrs s \<noteq> None);
          url = (\<lambda>s. unwrap_or (map_of xaddrs s) (pc_service_url cam));
          ((media, events, ptz, motion_region), service_errors, w') =
            bindP (when_offered (ca_media capabilities \<or> offers ''media'') (probe_media env cam (url ''media''))) (\<lambda>media.
            bindP (when_offered (ca_events capabilities \<or> offers ''events'') (probe_events env cam (url ''events''))) (\<lambda>events.
            bindP (when_offered (ca_ptz capabilities \<or> offers ''ptz'') (probe_ptz env cam (url ''ptz''))) (\<lambda>ptz.
            bindP (when_offered (ca_analytics capabilities \<or> offers ''analytics'')
                    (bindP (probe_motion_region_support (po_soap env) cam (url ''media'') (url ''analytics'')) (\<lambda>s. returnP (Some s))))
              (\<lambda>motion_region. returnP (media, events, ptz, motion_region))))) [] w in
      (Inr \<lparr>pr_device = device, pr_services = services, pr_capabilities = capabilities, pr_media = media, pr_events = events,
            pr_ptz = ptz, pr_motion_region = motion_region, pr_service_errors = service_errors\<rparr>, w'))"

definition run_onvif_capability_probe :: "probe_env \<Rightarrow> OnvifProbeCameraConfig \<Rightarrow> OnvifProbeReport soap" where
  "run_onvif_capability_probe env cam =
     (let device = (\<lambda>operation. call_operation (po_soap env) cam (pc_service_url cam) DEVICE_NAMESPACE operation) in
      bindS (device ''GetDeviceInformation'' ''<tds:GetDeviceInformation/>'') (\<lambda>device_xml.
      bindS (device ''GetServices''
               ''<tds:GetServices><tds:IncludeCapability>true</tds:IncludeCapability></tds:GetServices>'') (\<lambda>services_xml.
      bindS (device ''GetCapabilities''
               ''<tds:GetCapabilities><tds:Category>All</tds:Category></tds:GetCapabilities>'') (\<lambda>capabilities_xml.
      probe_services env cam (parse_device_information (po_soap env) device_xml) (parse_services (po_soap env) services_xml)
        (parse_capabilities (po_soap env) capabilities_xml)))))"

section \<open>The report as JSON\<close>

definition json_opt :: "('a \<Rightarrow> json) \<Rightarrow> 'a option \<Rightarrow> json" where
  "json_opt f v = (case v of None \<Rightarrow> JNull | Some x \<Rightarrow> f x)"

definition json_nat :: "nat \<Rightarrow> json" where
  "json_nat n = JNumber (PosInt n)"

text \<open>\<open>skip_serializing_if\<close>: the field is left out.\<close>

definition json_present :: "string \<Rightarrow> ('a \<Rightarrow> json) \<Rightarrow> 'a option \<Rightarrow> (string \<times> json) list" where
  "json_present key f v = (case v of None \<Rightarrow> [] | Some x \<Rightarrow> [(key, f x)])"

definition OnvifDeviceInfo_json :: "OnvifDeviceInfo \<Rightarrow> json" where
  "OnvifDeviceInfo_json d = JObject
     [(''manufacturer'', json_opt JString (di_manufacturer d)), (''model'', json_opt JString (di_model d)),
      (''firmware_version'', json_opt JString (di_firmware_version d)),
      (''serial_number'', json_opt JString (di_serial_number d)), (''hardware_id'', json_opt JString (di_hardware_id d))]"

definition OnvifServiceInfo_json :: "OnvifServiceInfo \<Rightarrow> json" where
  "OnvifServiceInfo_json s = JObject
     [(''service'', JString (si_service s)), (''namespace'', JString (si_namespace s)),
      (''xaddr'', json_opt JString (si_xaddr s)), (''capabilities_present'', JBool (si_capabilities_present s))]"

definition OnvifCapabilitiesSummary_json :: "OnvifCapabilitiesSummary \<Rightarrow> json" where
  "OnvifCapabilitiesSummary_json c = JObject
     [(''media'', JBool (ca_media c)), (''events'', JBool (ca_events c)), (''ptz'', JBool (ca_ptz c)),
      (''imaging'', JBool (ca_imaging c)), (''device_io'', JBool (ca_device_io c)), (''analytics'', JBool (ca_analytics c))]"

definition OnvifMediaProfile_json :: "OnvifMediaProfile \<Rightarrow> json" where
  "OnvifMediaProfile_json p = JObject
     [(''token'', json_opt JString (mp_token p)), (''name'', json_opt JString (mp_name p)),
      (''video_source_token'', json_opt JString (mp_video_source_token p)),
      (''video_encoder_token'', json_opt JString (mp_video_encoder_token p))]"

definition OnvifVideoEncoderConfiguration_json :: "probe_env \<Rightarrow> OnvifVideoEncoderConfiguration \<Rightarrow> json" where
  "OnvifVideoEncoderConfiguration_json env c = JObject
     [(''token'', json_opt JString (ve_token c)), (''name'', json_opt JString (ve_name c)),
      (''encoding'', json_opt JString (ve_encoding c)), (''width'', json_opt json_nat (ve_width c)),
      (''height'', json_opt json_nat (ve_height c)), (''quality'', json_opt (po_json_f64 env) (ve_quality c)),
      (''frame_rate_limit'', json_opt json_nat (ve_frame_rate_limit c)),
      (''bitrate_limit'', json_opt json_nat (ve_bitrate_limit c))]"

definition OnvifMediaSummary_json :: "probe_env \<Rightarrow> OnvifMediaSummary \<Rightarrow> json" where
  "OnvifMediaSummary_json env m = JObject
     [(''profiles'', JArray (map OnvifMediaProfile_json (ms_profiles m))),
      (''encoder_configurations'', JArray (map (OnvifVideoEncoderConfiguration_json env) (ms_encoder_configurations m)))]"

definition OnvifEventsSummary_json :: "OnvifEventsSummary \<Rightarrow> json" where
  "OnvifEventsSummary_json e = JObject
     [(''fixed_topic_set'', json_opt JBool (es_fixed_topic_set e)),
      (''topic_namespace_locations'', JArray (map JString (es_topic_namespace_locations e))),
      (''topic_expression_dialects'', JArray (map JString (es_topic_expression_dialects e))),
      (''message_content_filter_dialects'', JArray (map JString (es_message_content_filter_dialects e)))]"

definition OnvifPtzSummary_json :: "OnvifPtzSummary \<Rightarrow> json" where
  "OnvifPtzSummary_json p = JObject
     [(''node_count'', json_nat (ps_node_count p)), (''configuration_count'', json_nat (ps_configuration_count p))]"

definition OnvifMotionRegionSummary_json :: "OnvifMotionRegionSummary \<Rightarrow> json" where
  "OnvifMotionRegionSummary_json m = JObject
     ((''supported'', JBool (mr_supported m)) # json_present ''probe_failed'' JBool (mr_probe_failed m)
      @ json_present ''reason'' JString (mr_reason m) @ json_present ''target_kind'' JString (mr_target_kind m)
      @ json_present ''target_name'' JString (mr_target_name m) @ json_present ''target_type'' JString (mr_target_type m)
      @ json_present ''point_count'' json_nat (mr_point_count m))"

definition OnvifServiceError_json :: "OnvifServiceError \<Rightarrow> json" where
  "OnvifServiceError_json e = JObject
     [(''service'', JString (oe_service e)), (''operation'', JString (oe_operation e)), (''error'', JString (oe_error e))]"

definition OnvifProbeReport_json :: "probe_env \<Rightarrow> OnvifProbeReport \<Rightarrow> json" where
  "OnvifProbeReport_json env r = JObject
     [(''device'', OnvifDeviceInfo_json (pr_device r)),
      (''services'', JArray (map OnvifServiceInfo_json (pr_services r))),
      (''capabilities'', OnvifCapabilitiesSummary_json (pr_capabilities r)),
      (''media'', json_opt (OnvifMediaSummary_json env) (pr_media r)),
      (''events'', json_opt OnvifEventsSummary_json (pr_events r)),
      (''ptz'', json_opt OnvifPtzSummary_json (pr_ptz r)),
      (''motion_region'', json_opt OnvifMotionRegionSummary_json (pr_motion_region r)),
      (''service_errors'', JArray (map OnvifServiceError_json (pr_service_errors r)))]"

text \<open>What the manager of \<open>Heartbeat\<close> gets to see of a probe.\<close>

definition probe_outcome :: "probe_env \<Rightarrow> OnvifProbeCameraConfig \<Rightarrow> soap_world \<Rightarrow> string + json" where
  "probe_outcome env cam w =
     (case fst (run_onvif_capability_probe env cam w) of
        Inl e \<Rightarrow> Inl (error_text e) | Inr r \<Rightarrow> Inr (OnvifProbeReport_json env r))"

section \<open>Every failed request is in the report\<close>

text \<open>
  The reference reads the traffic: the \<open>SOAPAction\<close> of every request that got no answer or an
  answer that is not a success, in the order sent.
\<close>

definition request_failed :: "soap_env \<Rightarrow> soap_request list \<Rightarrow> bool" where
  "request_failed env sent =
     (case so_answer env sent of SendFailed _ \<Rightarrow> True | Answered status _ \<Rightarrow> \<not> is_success status)"

definition request_action :: "soap_request \<Rightarrow> string option" where
  "request_action q = map_of (sq_headers q) ''SOAPAction''"

definition failed_actions :: "soap_env \<Rightarrow> soap_request list \<Rightarrow> string option list" where
  "failed_actions env sent =
     map (\<lambda>k. request_action (sent ! k)) (filter (\<lambda>k. request_failed env (take (Suc k) sent)) [0..<length sent])"

definition service_namespace :: "string \<Rightarrow> string" where
  "service_namespace service =
     (if service = ''media'' then MEDIA_NAMESPACE else if service = ''events'' then EVENTS_NAMESPACE
      else if service = ''ptz'' then PTZ_NAMESPACE else ANALYTICS_NAMESPACE)"

definition error_action :: "OnvifServiceError \<Rightarrow> string option" where
  "error_action e = Some (quoted (probe_action (service_namespace (oe_service e)) (oe_operation e)))"

lemma failed_actions_snoc:
  "failed_actions env (sent @ [q]) =
     failed_actions env sent @ (if request_failed env (sent @ [q]) then [request_action q] else [])"
proof -
  have "filter (\<lambda>k. request_failed env (take (Suc k) (sent @ [q]))) [0..<length sent]
      = filter (\<lambda>k. request_failed env (take (Suc k) sent)) [0..<length sent]"
    by (rule filter_cong) auto
  then show ?thesis
    by (simp add: failed_actions_def nth_append)
qed

lemma call_operation_traffic:
  assumes "call_operation env cam url ns op body w = (r, w')"
  shows "failed_actions env (sw_sent w') = failed_actions env (sw_sent w) @
           (case r of Inr _ \<Rightarrow> [] | Inl _ \<Rightarrow> [Some (quoted (probe_action ns op))])"
  using assms
  by (auto simp: call_operation_def with_security_def soap_post_def bindS_def send_def Let_def failed_actions_snoc
      request_failed_def request_action_def soap_headers_def split: soap_answer.splits if_splits sum.splits)

text \<open>What a part of the probe keeps: the failures of its requests are the errors it adds.\<close>

definition accounts :: "soap_env \<Rightarrow> 'a probe_run \<Rightarrow> bool" where
  "accounts env p \<longleftrightarrow>
     (\<forall>es w x es' w'. p es w = (x, es', w') \<longrightarrow>
        (\<exists>new. es' = es @ new \<and> failed_actions env (sw_sent w') = failed_actions env (sw_sent w) @ map error_action new))"

named_theorems accounts_intros

lemma accounts_returnP [accounts_intros]: "accounts env (returnP x)"
  by (auto simp: accounts_def returnP_def)

lemma accounts_bindP [accounts_intros]:
  assumes "accounts env p" "\<And>x. accounts env (f x)"
  shows "accounts env (bindP p f)"
  unfolding accounts_def
proof (intro allI impI)
  fix es w y es2 w2
  assume run: "bindP p f es w = (y, es2, w2)"
  obtain x es1 w1 where p: "p es w = (x, es1, w1)" by (cases "p es w") auto
  with run have f: "f x es1 w1 = (y, es2, w2)" by (simp add: bindP_def)
  from assms(1) p obtain a where "es1 = es @ a"
    "failed_actions env (sw_sent w1) = failed_actions env (sw_sent w) @ map error_action a"
    unfolding accounts_def by blast
  moreover from assms(2) f obtain b where "es2 = es1 @ b"
    "failed_actions env (sw_sent w2) = failed_actions env (sw_sent w1) @ map error_action b"
    unfolding accounts_def by blast
  ultimately show "\<exists>new. es2 = es @ new \<and>
      failed_actions env (sw_sent w2) = failed_actions env (sw_sent w) @ map error_action new"
    by (intro exI [of _ "a @ b"]) simp
qed

lemma accounts_capture [accounts_intros]:
  assumes "service_namespace service = ns"
  shows "accounts env (capture_optional service op (call_operation env cam url ns op body))"
  unfolding accounts_def
proof (intro allI impI)
  fix es w x es' w'
  assume run: "capture_optional service op (call_operation env cam url ns op body) es w = (x, es', w')"
  obtain r w1 where call: "call_operation env cam url ns op body w = (r, w1)" by fastforce
  from call_operation_traffic [OF call] run call assms
  show "\<exists>new. es' = es @ new \<and> failed_actions env (sw_sent w') = failed_actions env (sw_sent w) @ map error_action new"
    by (auto simp: capture_optional_def error_action_def split: sum.splits)
qed

lemma accounts_when_offered [accounts_intros]: "accounts env p \<Longrightarrow> accounts env (when_offered b p)"
  by (simp add: when_offered_def accounts_returnP)

lemma accounts_option [accounts_intros]:
  "accounts env a \<Longrightarrow> (\<And>x. accounts env (b x)) \<Longrightarrow> accounts env (case v of None \<Rightarrow> a | Some x \<Rightarrow> b x)"
  by (cases v) simp_all

lemma service_namespaces [simp]:
  "service_namespace ''media'' = MEDIA_NAMESPACE" "service_namespace ''events'' = EVENTS_NAMESPACE"
  "service_namespace ''ptz'' = PTZ_NAMESPACE" "service_namespace ''analytics'' = ANALYTICS_NAMESPACE"
  by (simp_all add: service_namespace_def)

lemma parts_account [accounts_intros]:
  "accounts (po_soap env) (probe_media env cam url)"
  "accounts (po_soap env) (probe_events env cam url)"
  "accounts (po_soap env) (probe_ptz env cam url)"
  "accounts senv (probe_motion_region_support senv cam url url')"
  unfolding probe_media_def probe_events_def probe_ptz_def probe_motion_region_support_def
  by (intro accounts_intros service_namespaces)+

lemma probe_services_accounts:
  assumes "probe_services env cam device services capabilities w = (r, w')"
  shows "\<exists>report. r = Inr report \<and>
           failed_actions (po_soap env) (sw_sent w') =
           failed_actions (po_soap env) (sw_sent w) @ map error_action (pr_service_errors report)"
proof -
  have "accounts (po_soap env)
     (bindP (when_offered a (probe_media env cam u1)) (\<lambda>media.
      bindP (when_offered b (probe_events env cam u2)) (\<lambda>events.
      bindP (when_offered c (probe_ptz env cam u3)) (\<lambda>ptz.
      bindP (when_offered d (bindP (probe_motion_region_support (po_soap env) cam u1 u4) (\<lambda>s. returnP (Some s))))
        (\<lambda>motion_region. returnP (media, events, ptz, motion_region))))))" for a b c d u1 u2 u3 u4
    by (intro accounts_intros)
  from this [unfolded accounts_def, rule_format] assms show ?thesis
    by (fastforce simp: probe_services_def Let_def split: prod.splits)
qed

text \<open>The same for what follows a request to the device service that has to succeed.\<close>

definition traces :: "probe_env \<Rightarrow> string list \<Rightarrow> soap_world \<Rightarrow> (soap_error + OnvifProbeReport) \<times> soap_world \<Rightarrow> bool" where
  "traces env ops w result \<longleftrightarrow>
     (let new = (\<lambda>w' l. failed_actions (po_soap env) (sw_sent w') = failed_actions (po_soap env) (sw_sent w) @ l) in
      case result of
        (Inr report, w') \<Rightarrow> new w' (map error_action (pr_service_errors report))
      | (Inl _, w') \<Rightarrow> (\<exists>op. op \<in> set ops \<and> new w' [Some (quoted (probe_action DEVICE_NAMESPACE op))]))"

lemma traces_services: "traces env [] w (probe_services env cam device services capabilities w)"
  by (cases "probe_services env cam device services capabilities w")
    (auto simp: traces_def Let_def dest: probe_services_accounts)

lemma traces_device:
  assumes "\<And>xml w. traces env ops w (f xml w)"
  shows "traces env (op # ops) w (bindS (call_operation (po_soap env) cam url DEVICE_NAMESPACE op body) f w)"
proof -
  obtain r w1 where call: "call_operation (po_soap env) cam url DEVICE_NAMESPACE op body w = (r, w1)" by fastforce
  show ?thesis
  proof (cases r)
    case (Inl e)
    with call_operation_traffic [OF call] call show ?thesis by (auto simp: traces_def bindS_def)
  next
    case (Inr xml)
    with call_operation_traffic [OF call] call assms [of w1 xml] show ?thesis
      by (auto simp: traces_def bindS_def Let_def split: prod.splits sum.splits)
  qed
qed

lemma probe_traces:
  "traces env [''GetDeviceInformation'', ''GetServices'', ''GetCapabilities''] w (run_onvif_capability_probe env cam w)"
  unfolding run_onvif_capability_probe_def Let_def by (intro traces_device traces_services)

section \<open>Services\<close>

text \<open>The elements of one entry of a \<^verbatim>\<open>GetServicesResponse\<close>, for a name space prefix.\<close>

definition tag :: "bytes \<Rightarrow> string \<Rightarrow> bytes" where
  "tag p n = p @ byte_colon # as_bytes n"

definition text_element :: "bytes \<Rightarrow> string \<Rightarrow> string \<Rightarrow> xml_event list" where
  "text_element p n v = [XStart (tag p n) [], XText (Some v), XEnd (tag p n)]"

definition describe_service :: "bytes \<Rightarrow> OnvifServiceInfo \<Rightarrow> xml_event list" where
  "describe_service p s =
     XStart (tag p ''Service'') [] # text_element p ''Namespace'' (si_namespace s)
     @ (case si_xaddr s of None \<Rightarrow> [] | Some x \<Rightarrow> text_element p ''XAddr'' x)
     @ (if si_capabilities_present s then [XEmpty (tag p ''Capabilities'') []] else [])
     @ [XEnd (tag p ''Service'')]"

definition service_described :: "OnvifServiceInfo \<Rightarrow> bool" where
  "service_described s \<longleftrightarrow>
     si_service s = service_key_from_namespace (si_namespace s)
     \<and> (case si_xaddr s of None \<Rightarrow> True | Some x \<Rightarrow> x \<noteq> [] \<and> trim x = x)"

definition no_service :: "xml_event \<Rightarrow> bool" where
  "no_service ev \<longleftrightarrow> (case ev of XStart n _ \<Rightarrow> local_name n \<noteq> ''Service'' | _ \<Rightarrow> True)"

lemma local_name_tag: "byte_colon \<notin> set (as_bytes n) \<Longrightarrow> local_name (tag p n) = local_name (as_bytes n)"
  by (auto simp: local_name_def tag_def takeWhile_append takeWhile_eq_all_conv [THEN iffD2])

lemma tag_names [simp]:
  "local_name (tag p ''Service'') = ''Service''" "local_name (tag p ''Namespace'') = ''Namespace''"
  "local_name (tag p ''XAddr'') = ''XAddr''" "local_name (tag p ''Capabilities'') = ''Capabilities''"
  "local_name (tag p ''Profiles'') = ''Profiles''" "local_name (tag p ''Name'') = ''Name''"
  "local_name (tag p ''VideoSourceConfiguration'') = ''VideoSourceConfiguration''"
  by (subst local_name_tag, code_simp, code_simp)+

lemma services_idle:
  "\<forall>ev\<in>set evs. no_service ev \<Longrightarrow>
   fold services_step evs \<lparr>sr_services = ss, sr_current = None, sr_pending = None\<rparr>
     = \<lparr>sr_services = ss, sr_current = None, sr_pending = None\<rparr>"
  by (induction evs) (auto simp: services_step_def no_service_def Let_def split: xml_event.splits)

lemma services_entry:
  "service_described s \<Longrightarrow>
   fold services_step (describe_service p s) \<lparr>sr_services = ss, sr_current = None, sr_pending = None\<rparr>
     = \<lparr>sr_services = ss @ [s], sr_current = None, sr_pending = None\<rparr>"
  by (cases s; cases "si_xaddr s")
    (auto simp: describe_service_def service_described_def text_element_def services_step_def Let_def
      mark_capabilities_def OnvifServiceInfo_default_def)

lemma services_entries:
  "\<forall>s\<in>set ss. service_described s \<Longrightarrow>
   fold services_step (concat (map (describe_service p) ss)) \<lparr>sr_services = ss0, sr_current = None, sr_pending = None\<rparr>
     = \<lparr>sr_services = ss0 @ ss, sr_current = None, sr_pending = None\<rparr>"
  by (induction ss arbitrary: ss0) (simp_all add: services_entry)

lemma xaddrs_lookup:
  "map_of (collect_service_xaddrs ss fallback) k =
     map_option (\<lambda>s. unwrap_or (si_xaddr s) fallback) (find (\<lambda>s. si_service s = k) (rev ss))"
  unfolding collect_service_xaddrs_def
  by (induction ss rule: rev_induct) (auto simp: AList.update_conv')


section \<open>Motion regions\<close>

definition motion_rule_type :: "string \<Rightarrow> bool" where
  "motion_rule_type t = contains (to_lowercase t) ''motionregion''"

definition region_summary_ok :: "OnvifMotionRegionSummary \<Rightarrow> bool" where
  "region_summary_ok m \<longleftrightarrow>
     (if mr_supported m
      then (case (mr_target_type m, mr_point_count m) of (Some t, Some n) \<Rightarrow> motion_rule_type t \<and> 0 < n | _ \<Rightarrow> False)
        \<and> mr_reason m = None \<and> mr_probe_failed m = None
      else mr_reason m \<noteq> None \<and> mr_target_type m = None \<and> mr_point_count m = None)"

definition rule_typed :: "rule_reader \<Rightarrow> bool" where
  "rule_typed r \<longleftrightarrow> rr_in_rule r \<longrightarrow> (case rr_target_type r of Some t \<Rightarrow> motion_rule_type t | None \<Rightarrow> False)"

lemma rule_typed_steps [simp]:
  "rule_typed rule_outside"
  "rule_typed r \<Longrightarrow> rule_typed (count_point name r)"
  "rule_typed r \<Longrightarrow> rule_typed (rule_start name attributes r)"
  by (auto simp: rule_typed_def rule_outside_def count_point_def rule_start_def motion_rule_type_def split: option.splits)

lemma region_target_ok: "rule_typed r \<Longrightarrow> rr_in_rule r \<Longrightarrow> 0 < rr_point_count r \<Longrightarrow> region_summary_ok (region_target r)"
  by (auto simp: region_summary_ok_def region_target_def rule_typed_def split: option.splits)

lemma find_rule_target_ok: "rule_typed r \<Longrightarrow> find_rule_target r evs = Some m \<Longrightarrow> region_summary_ok m"
  by (induction r evs rule: find_rule_target.induct) (auto simp: region_target_ok split: xml_event.splits if_splits)

lemma find_rule_target_failed: "find_rule_target r evs = Some m \<Longrightarrow> mr_probe_failed m = None"
  by (induction r evs rule: find_rule_target.induct) (auto simp: region_target_def split: xml_event.splits if_splits)

lemma region_answers_ok [simp]:
  "region_summary_ok (region_probe_failed reason)" "region_summary_ok (region_unsupported reason)"
  "mr_probe_failed (region_unsupported reason) = None"
  by (simp_all add: region_summary_ok_def region_probe_failed_def region_unsupported_def OnvifMotionRegionSummary_default_def)

lemma region_probe_ok:
  assumes "probe_motion_region_support env cam u v es w = (m, es', w')"
  shows "region_summary_ok m \<and> (mr_probe_failed m = None \<or> es' \<noteq> [])"
proof -
  have target: "region_summary_ok t \<and> mr_probe_failed t = None" if "parse_motion_region_rule_target env xml = Some t" for xml t
    using that unfolding parse_motion_region_rule_target_def
    by (blast intro: find_rule_target_ok find_rule_target_failed rule_typed_steps)
  show ?thesis
    using assms
    by (auto simp: probe_motion_region_support_def bindP_def returnP_def capture_optional_def unwrap_or_def
        split: prod.splits sum.splits option.splits dest: target)
qed

lemma last_part:
  "bindP p1 (\<lambda>a. bindP p2 (\<lambda>b. bindP p3 (\<lambda>c.
     bindP (when_offered offered (bindP q (\<lambda>s. returnP (Some s)))) (\<lambda>m. returnP (a, b, c, m))))) es w
     = ((a, b, c, Some m), es', w') \<Longrightarrow> \<exists>es1 w1 w2. q es1 w1 = (m, es', w2)"
  by (auto simp: bindP_def returnP_def when_offered_def split: prod.splits if_splits)

lemma services_region:
  assumes "probe_services env cam device services capabilities w = (Inr report, w')" "pr_motion_region report = Some m"
  shows "\<exists>u v es w1 w2. probe_motion_region_support (po_soap env) cam u v es w1 = (m, pr_service_errors report, w2)"
  using assms
  by (auto simp: probe_services_def Let_def split: prod.splits dest!: last_part; blast)

lemma bindS_answer: "bindS a f w = (Inr y, w') \<Longrightarrow> \<exists>x w1. f x w1 = (Inr y, w')"
  by (auto simp: bindS_def split: prod.splits sum.splits)

lemma reported_region:
  assumes "run_onvif_capability_probe env cam w = (Inr report, w')" "pr_motion_region report = Some m"
  shows "\<exists>u v es w1 w2. probe_motion_region_support (po_soap env) cam u v es w1 = (m, pr_service_errors report, w2)"
  using assms unfolding run_onvif_capability_probe_def Let_def
  by (auto dest!: bindS_answer intro: services_region)

section \<open>Theorems and examples\<close>

text \<open>
  A camera for examples: it answers every request, the third with the analytics capability, the
  fourth with a profile, and the fifth with one rule.
\<close>

definition sample_probe_events :: "string \<Rightarrow> xml_event list" where
  "sample_probe_events t =
     (if length t = 3 then [XEmpty (as_bytes ''tt:Analytics'') []]
      else if length t = 4 then [XEmpty (as_bytes ''tt:VideoAnalyticsConfiguration'') [(as_bytes ''token'', Some ''v'')]]
      else if length t = 5
      then [XStart (as_bytes ''tan:Rule'') [(as_bytes ''Name'', Some ''r''), (as_bytes ''Type'', Some ''tt:MotionRegionDetector'')],
            XEmpty (as_bytes ''tt:Point'') [], XEnd (as_bytes ''tan:Rule'')]
      else [])"

definition sample_probe_env :: probe_env where
  "sample_probe_env =
     \<lparr>po_soap = \<lparr>so_sha1 = id, so_base64 = (\<lambda>_. []), so_nonce = (\<lambda>_. []), so_created = (\<lambda>_. []), so_status_text = (\<lambda>_. []),
        so_answer = (\<lambda>sent. Answered 200 (Inr (replicate (length sent) CHR ''x''))), so_events = sample_probe_events,
        so_parse = (\<lambda>_. Inl [])\<rparr>,
      po_parse_f64 = Some, po_json_f64 = JString\<rparr>"

definition sample_probe_camera :: OnvifProbeCameraConfig where
  "sample_probe_camera = \<lparr>pc_camera_id = ''front'', pc_service_url = ''http://c'', pc_username = ''u'', pc_password = ''p''\<rparr>"

definition sample_rule_target :: OnvifMotionRegionSummary where
  "sample_rule_target = \<lparr>mr_supported = True, mr_probe_failed = None, mr_reason = None, mr_target_kind = Some ''rule'',
     mr_target_name = Some ''r'', mr_target_type = Some ''tt:MotionRegionDetector'', mr_point_count = Some 1\<rparr>"

lemma sample_probe_names:
  "local_name (as_bytes ''tt:Analytics'') = ''Analytics''"
  "local_name (as_bytes ''tt:VideoAnalyticsConfiguration'') = ''VideoAnalyticsConfiguration''"
  "local_name (as_bytes ''token'') = ''token''" "local_name (as_bytes ''tan:Rule'') = ''Rule''"
  "local_name (as_bytes ''Type'') = ''Type''" "local_name (as_bytes ''Name'') = ''Name''"
  "local_name (as_bytes ''tt:Point'') = ''Point''" "trim ''v'' = ''v''"
  by code_simp+

lemma sample_rule_type: "contains (to_lowercase ''tt:MotionRegionDetector'') ''motionregion''"
  by code_simp

lemma sample_call:
  "call_operation (po_soap sample_probe_env) cam url ns op body w =
     (Inr (replicate (Suc (length (sw_sent w))) CHR ''x''),
      w\<lparr>sw_sent := sw_sent w @ [\<lparr>sq_url = url, sq_headers = soap_headers (probe_action ns op),
         sq_body = probe_envelope url (probe_action ns op)
           (wsse_header (po_soap sample_probe_env) (length (sw_sent w)) (pc_username cam) (pc_password cam)) body\<rparr>]\<rparr>)"
  by (simp add: call_operation_def with_security_def soap_post_def send_def bindS_def Let_def is_success_def sample_probe_env_def)

lemma sample_probe_answers:
  "parse_services (po_soap sample_probe_env) [CHR ''x'', CHR ''x''] = []"
  "parse_capabilities (po_soap sample_probe_env) ''xxx'' =
     \<lparr>ca_media = False, ca_events = False, ca_ptz = False, ca_imaging = False, ca_device_io = False, ca_analytics = True\<rparr>"
  "probe_video_analytics_config_token (po_soap sample_probe_env) ''xxxx'' = Some ''v''"
  "parse_motion_region_rule_target (po_soap sample_probe_env) ''xxxxx'' = Some sample_rule_target"
  by (simp_all add: sample_probe_env_def parse_services_def parse_capabilities_def probe_video_analytics_config_token_def
      parse_motion_region_rule_target_def sample_probe_events_def capabilities_step_def analytics_token_def sample_probe_names
      attr_value_def nonblank_def rule_start_def rule_outside_def count_point_def region_target_def sample_rule_type sample_rule_target_def
      Let_def)

lemma sample_probe_run:
  "\<exists>report w'. run_onvif_capability_probe sample_probe_env sample_probe_camera \<lparr>sw_sent = [], sw_slept = 0\<rparr> = (Inr report, w')
     \<and> pr_motion_region report = Some sample_rule_target"
  by (simp add: run_onvif_capability_probe_def bindS_def Let_def sample_call sample_probe_answers probe_services_def bindP_def returnP_def
      when_offered_def collect_service_xaddrs_def probe_motion_region_support_def capture_optional_def unwrap_or_def)

text \<open>
  A report that says motion regions are supported rests on a rule: one whose type names motion
  regions and that has at least one point. Otherwise the report gives the reason, and a region probe
  marked as failed comes with an error among the service errors.
\<close>

theorem region_summary_sound:
  assumes "run_onvif_capability_probe env cam w = (Inr report, w')" and "pr_motion_region report = Some m"
  shows "region_summary_ok m \<and> (mr_probe_failed m = None \<or> 0 < length (pr_service_errors report))"
  using reported_region [OF assms] region_probe_ok by fastforce

theorem region_summary_sound_witness:
  "\<exists>report w'. run_onvif_capability_probe sample_probe_env sample_probe_camera \<lparr>sw_sent = [], sw_slept = 0\<rparr> = (Inr report, w')
     \<and> pr_motion_region report = Some sample_rule_target \<and> region_summary_ok sample_rule_target"
  using sample_probe_run region_summary_sound by blast

text \<open>
  Two media services, the older first: the newer one's address is the one asked.
\<close>

definition sample_service :: "string \<Rightarrow> string \<Rightarrow> OnvifServiceInfo" where
  "sample_service namespace xaddr =
     \<lparr>si_service = ''media'', si_namespace = namespace, si_xaddr = Some xaddr, si_capabilities_present = False\<rparr>"

definition sample_services :: "OnvifServiceInfo list" where
  "sample_services = [sample_service MEDIA_NAMESPACE ''a'', sample_service ''http://www.onvif.org/ver20/media/wsdl'' ''b'']"

lemma sample_services_described: "list_all service_described sample_services"
proof -
  have "service_key_from_namespace MEDIA_NAMESPACE = ''media''"
    "service_key_from_namespace ''http://www.onvif.org/ver20/media/wsdl'' = ''media''" "trim ''a'' = ''a''" "trim ''b'' = ''b''"
    by code_simp+
  then show ?thesis by (simp add: sample_services_def sample_service_def service_described_def)
qed

definition sample_listing :: soap_env where
  "sample_listing = (po_soap sample_probe_env)\<lparr>so_events := (\<lambda>_. concat (map (describe_service []) sample_services))\<rparr>"


text \<open>
  The name of a profile that has a video source configuration is the name of that configuration:
  every nested name is taken, and the last one stays.
\<close>

theorem nested_name_replaces_profile_name:
  "pf_profiles (fold profiles_step
     ([XStart (tag p ''Profiles'') []] @ text_element p ''Name'' profile_name
      @ [XStart (tag p ''VideoSourceConfiguration'') []] @ text_element p ''Name'' source_name
      @ [XEnd (tag p ''VideoSourceConfiguration''), XEnd (tag p ''Profiles'')])
     \<lparr>pf_profiles = [], pf_current = None, pf_pending = False\<rparr>)
   = [\<lparr>mp_token = None, mp_name = Some source_name, mp_video_source_token = None, mp_video_encoder_token = None\<rparr>]"
  by (simp add: profiles_step_def text_element_def profile_token_def attr_value_def Let_def)

text \<open>
  The request for the analytics rules uses the prefix \<^verbatim>\<open>tan\<close>, which the envelope does not declare.
\<close>

theorem rules_prefix_undeclared:
  "take 5 (get_rules_body config_token) = ''<tan:'' \<and> map_of probe_namespaces ''tan'' = None"
  by (simp add: get_rules_body_def probe_namespaces_def soap_namespaces_def)

end
