(* ===== verification/AgentForward.thy ===== *)
theory AgentForward
  imports CameraSession Heartbeat OnvifProbe
begin

text \<open>
  The forwarding agent around its camera sessions (\<^verbatim>\<open>src/bin/agent_forward.rs\<close>): the configuration
  it runs with, what a runtime consists of, the pull of the configuration from the server, and the
  main loop that keeps one runtime in line with the configuration.

  A runtime is a set of tasks. The model keeps every task ever spawned with its arguments and
  whether it still runs; a handle is its number. The tasks themselves are the subject of the other
  theories (\<open>Heartbeat\<close>, \<open>Uplink\<close>, \<open>CameraSession\<close>, \<open>Events\<close> and the ONVIF theories). The HTTP client is a
  function of the requests made so far, the order in which a \<open>HashMap\<close> yields its entries a
  parameter. Log lines, and the time of the last of them, are left out.
\<close>

section \<open>Settings\<close>

definition DEFAULT_SERVER_CONFIG_PATH :: string where
  "DEFAULT_SERVER_CONFIG_PATH = ''/etc/sentinel_rtp_cam/server.json''"

definition DEFAULT_CAMERA_CONFIG_PATH :: string where
  "DEFAULT_CAMERA_CONFIG_PATH = ''/etc/sentinel_rtp_cam/camera.json''"

definition parse_i64 :: "string \<Rightarrow> int option" where
  "parse_i64 s =
     (case s of
        CHR ''-'' # ds \<Rightarrow>
          if ds \<noteq> [] \<and> hd ds = CHR ''+'' then None else map_option (\<lambda>n. - int n) (parse_uint 9223372036854775808 ds)
      | _ \<Rightarrow> map_option int (parse_uint 9223372036854775807 s))"

definition runtime_i64 :: "overrides \<Rightarrow> string \<Rightarrow> int option" where
  "runtime_i64 ov name = Option.bind (agent_var ov name) parse_i64"

definition config_pull_interval_secs :: "overrides \<Rightarrow> u64" where
  "config_pull_interval_secs ov = runtime_u64_nonzero ov ''CONFIG_PULL_INTERVAL_SECS'' 30"

definition env_u64 :: "overrides \<Rightarrow> string \<Rightarrow> u64 option" where
  "env_u64 ov key = Option.bind (runtime_var ov key) (parse_uint u64_max)"

definition load_uplink_ingest_config_from_env :: "overrides \<Rightarrow> HelloIngestConfig option" where
  "load_uplink_ingest_config_from_env ov =
     (let ingest =
        \<lparr>hi_clip_pre_secs = env_u64 ov ''CLIP_PRE_SECS'', hi_clip_post_secs = env_u64 ov ''CLIP_POST_SECS'',
         hi_clip_ring_secs = env_u64 ov ''CLIP_RING_SECS'', hi_clip_stale_part_secs = env_u64 ov ''CLIP_STALE_PART_SECS'',
         hi_clip_max_secs = env_u64 ov ''CLIP_MAX_SECS'', hi_clip_write_timeout_ms = env_u64 ov ''CLIP_WRITE_TIMEOUT_MS'',
         hi_clip_write_retry_count = env_u64 ov ''CLIP_WRITE_RETRY_COUNT'',
         hi_clip_write_retry_backoff_ms = env_u64 ov ''CLIP_WRITE_RETRY_BACKOFF_MS''\<rparr> in
      if HelloIngestConfig_is_empty ingest then None else Some ingest)"

definition config_version_value :: "json \<Rightarrow> json option" where
  "config_version_value v = (case get v ''config_version'' of Some w \<Rightarrow> if w = JNull then None else Some w | None \<Rightarrow> None)"

definition config_camera_id :: "json \<Rightarrow> string option" where
  "config_camera_id v = nonblank (Option.bind (or_else (get v ''camera_id'') (get v ''id'')) as_str)"

text \<open>Collecting into a \<open>HashMap\<close>: the last entry for an id wins.\<close>

definition camera_versions :: "json \<Rightarrow> (string \<times> json option) list" where
  "camera_versions config_value =
     rev (List.map_filter (\<lambda>camera. map_option (\<lambda>i. (i, config_version_value camera)) (config_camera_id camera))
       (unwrap_or (Option.bind (get config_value ''cameras'') as_array) []))"

definition build_camera_heartbeat_targets :: "CamConfig list \<Rightarrow> json \<Rightarrow> CameraHeartbeatTarget list" where
  "build_camera_heartbeat_targets cams config_value =
     map (\<lambda>cam. \<lparr>ct_camera_id = cc_camera_id cam, ct_rtsp_url = cc_rtsp_url cam,
       ct_config_version = unwrap_or (map_of (camera_versions config_value) (cc_camera_id cam)) None\<rparr>) cams"

section \<open>What should run\<close>

record DesiredRuntime =
  dr_server_addr :: string
  dr_cams :: "CamConfig list"
  dr_config_value :: json

definition desired_runtime_from_config :: "overrides \<Rightarrow> json \<Rightarrow> (agent_error, DesiredRuntime option) rust" where
  "desired_runtime_from_config ov config_value =
     (case agent_var ov ''SERVER_ADDR'' of
        None \<Rightarrow> Ok None
      | Some server_addr \<Rightarrow>
          bindR (load_cameras_from_env (runtime_var ov)) (\<lambda>cams.
          Ok (if cams = [] then None
              else Some \<lparr>dr_server_addr = server_addr, dr_cams = cams, dr_config_value = config_value\<rparr>)))"

text \<open>Equality of JSON values: the entries of an object have no order.\<close>

fun json_eq :: "json \<Rightarrow> json \<Rightarrow> bool" where
  "json_eq (JObject m) w =
     (case w of
        JObject m' \<Rightarrow>
          length m = length m'
          \<and> list_all (\<lambda>(k, v). case map_of m' k of None \<Rightarrow> False | Some v' \<Rightarrow> json_eq v v') m
      | _ \<Rightarrow> False)"
| "json_eq (JArray xs) w = (case w of JArray ys \<Rightarrow> list_all2 json_eq xs ys | _ \<Rightarrow> False)"
| "json_eq v w = (v = w)"

section \<open>A runtime\<close>

text \<open>The tasks of a runtime, with what they are started with.\<close>

datatype agent_job =
    HeartbeatJob ServerConfig string "json option" "CameraHeartbeatTarget list" OnvifProbeManager
  | UplinkJob string uplink_config
  | CameraJob CamConfig
  | MotionJob "(string \<times> nat) list" int
  | MotionPollerJob
  | NightVisionJob
  | MotionRegionJob

record forward_env =
  fe_config :: config_env
  fe_get :: "(string \<times> string \<times> string option) list \<Rightarrow> http_answer"
  fe_status_text :: "nat \<Rightarrow> string"
  fe_io_text :: "io_error \<Rightarrow> string"
  fe_hash_order :: "(string \<times> nat) list \<Rightarrow> (string \<times> nat) list"

datatype start_error = BadServerConfig Config.config_error | NoCamerasConfigured | MultipleAgentTokens

definition runtime_agent_id :: "DesiredRuntime \<Rightarrow> string" where
  "runtime_agent_id d = (case dr_cams d of [] \<Rightarrow> ''agent-1'' | cam # _ \<Rightarrow> cc_agent_id cam)"

definition runtime_probe_manager :: "overrides \<Rightarrow> DesiredRuntime \<Rightarrow> OnvifProbeManager" where
  "runtime_probe_manager ov d =
     OnvifProbeManager_new (map cc_camera_id (dr_cams d))
       (case load_onvif_probe_cameras_from_env ov of Ok cameras \<Rightarrow> cameras | _ \<Rightarrow> [])
       (Some (runtime_agent_id d))"

definition heartbeat_jobs :: "forward_env \<Rightarrow> overrides \<Rightarrow> DesiredRuntime \<Rightarrow> (start_error, agent_job list) rust" where
  "heartbeat_jobs env ov d =
     (if agent_var ov ''SERVER_BASE_URL'' \<noteq> None \<and> agent_var ov ''SERVER_BEARER_TOKEN'' \<noteq> None then
        (case from_env (fe_config env) ov of
           Ok cfg \<Rightarrow>
             Ok [HeartbeatJob (ag_server cfg) (runtime_agent_id d) (config_version_value (dr_config_value d))
                   (build_camera_heartbeat_targets (dr_cams d) (dr_config_value d)) (runtime_probe_manager ov d)]
         | Err e \<Rightarrow> Err (BadServerConfig e)
         | Panic \<Rightarrow> Panic)
      else Ok [])"

definition shared_token :: "CamConfig list \<Rightarrow> (start_error, string) rust" where
  "shared_token cams =
     (case cams of
        [] \<Rightarrow> Err NoCamerasConfigured
      | cam # _ \<Rightarrow>
          if list_ex (\<lambda>c. cc_agent_token c \<noteq> cc_agent_token cam) cams then Err MultipleAgentTokens
          else Ok (cc_agent_token cam))"

definition runtime_uplink_config :: "forward_env \<Rightarrow> overrides \<Rightarrow> DesiredRuntime \<Rightarrow> string \<Rightarrow> uplink_config" where
  "runtime_uplink_config env ov d agent_token =
     (let (stream_map, camera_to_stream) = build_stream_maps (dr_cams d) in
      \<lparr>uc_token = agent_token, uc_agent_id = runtime_agent_id d,
       uc_stream_map = map (\<lambda>(sid, name). (of_nat sid, name)) stream_map,
       uc_stream_camera_map =
         fold (\<lambda>(camera_id, sid). AList.update (of_nat sid) camera_id) (fe_hash_order env camera_to_stream) [],
       uc_stream_ingest = load_uplink_ingest_config_from_env ov\<rparr>)"

text \<open>\<open>chrono::Duration::seconds\<close> panics beyond \<open>i64::MAX\<close> milliseconds.\<close>

definition motion_merge_window :: "overrides \<Rightarrow> ('e, int) rust" where
  "motion_merge_window ov =
     (let secs = max (unwrap_or (or_else (runtime_i64 ov ''MOTION_MERGE_SECS'') (runtime_i64 ov ''CLIP_POST_SECS'')) 0) 0 in
      if secs > 9223372036854775 then Panic else Ok (secs * 1000000000))"

text \<open>
  \<open>start_runtime\<close>: its result and the tasks it spawns on the way. A task is spawned as soon as it is
  built, so one that was built before an early return runs on without a handle.
\<close>

definition start_runtime ::
    "forward_env \<Rightarrow> overrides \<Rightarrow> DesiredRuntime \<Rightarrow> (start_error, unit) rust \<times> agent_job list" where
  "start_runtime env ov d =
     (case heartbeat_jobs env ov d of
        Err e \<Rightarrow> (Err e, [])
      | Panic \<Rightarrow> (Panic, [])
      | Ok heartbeat \<Rightarrow>
          (case shared_token (dr_cams d) of
             Err e \<Rightarrow> (Err e, heartbeat)
           | Panic \<Rightarrow> (Panic, heartbeat)
           | Ok agent_token \<Rightarrow>
               let streaming = heartbeat @ UplinkJob (dr_server_addr d) (runtime_uplink_config env ov d agent_token)
                     # map CameraJob (dr_cams d) in
               (case motion_merge_window ov of
                  Ok window \<Rightarrow>
                    (Ok (), streaming @ [MotionJob (snd (build_stream_maps (dr_cams d))) window,
                              MotionPollerJob, NightVisionJob, MotionRegionJob])
                | Err e \<Rightarrow> (Err e, streaming)
                | Panic \<Rightarrow> (Panic, streaming))))"

section \<open>The main loop\<close>

record AgentRuntime =
  ru_config_value :: json
  ru_tasks :: "nat list"

text \<open>The state of the process: the tasks with whether they run, and the runtime that is current.\<close>

record agent_main =
  am_disk :: world
  am_ov :: overrides
  am_requests :: "(string \<times> string \<times> string option) list"
  am_last_pull :: int
  am_jobs :: "(agent_job \<times> bool) list"
  am_runtime :: "AgentRuntime option"

type_synonym 'a main = "agent_main \<Rightarrow> (string, 'a) rust \<times> agent_main"

definition returnM :: "'a \<Rightarrow> 'a main" where
  "returnM x m = (Ok x, m)"

definition failM :: "string \<Rightarrow> 'a main" where
  "failM e m = (Err e, m)"

definition bindM :: "'a main \<Rightarrow> ('a \<Rightarrow> 'b main) \<Rightarrow> 'b main" where
  "bindM p f m =
     (case p m of (Ok x, m) \<Rightarrow> f x m | (Err e, m) \<Rightarrow> (Err e, m) | (Panic, m) \<Rightarrow> (Panic, m))"

definition attemptM :: "'a main \<Rightarrow> (string + 'a) main" where
  "attemptM p m =
     (case p m of (Ok x, m) \<Rightarrow> (Ok (Inr x), m) | (Err e, m) \<Rightarrow> (Ok (Inl e), m) | (Panic, m) \<Rightarrow> (Panic, m))"

definition liftM :: "('e, 'a) rust \<Rightarrow> ('e + 'a) main" where
  "liftM r m = (case r of Ok x \<Rightarrow> Ok (Inr x) | Err e \<Rightarrow> Ok (Inl e) | Panic \<Rightarrow> Panic, m)"

definition diskM :: "forward_env \<Rightarrow> 'a io \<Rightarrow> 'a main" where
  "diskM env p m =
     (case p (am_disk m) of
        (Ok x, d) \<Rightarrow> (Ok x, m\<lparr>am_disk := d\<rparr>)
      | (Err e, d) \<Rightarrow> (Err (fe_io_text env e), m\<lparr>am_disk := d\<rparr>)
      | (Panic, d) \<Rightarrow> (Panic, m\<lparr>am_disk := d\<rparr>))"

definition readM :: "(agent_main \<Rightarrow> 'a) \<Rightarrow> 'a main" where
  "readM f m = (Ok (f m), m)"

definition updateM :: "(agent_main \<Rightarrow> agent_main) \<Rightarrow> unit main" where
  "updateM f m = (Ok (), f m)"

definition getM :: "forward_env \<Rightarrow> string \<Rightarrow> string \<Rightarrow> string option \<Rightarrow> (nat \<times> (string + string)) main" where
  "getM env url bearer camera_id m =
     (let m = m\<lparr>am_requests := am_requests m @ [(url, bearer, camera_id)]\<rparr> in
      case fe_get env (am_requests m) of
        NoResponse e \<Rightarrow> (Err e, m)
      | Response status body \<Rightarrow> (Ok (status, body), m))"

definition should_retry_config_pull_with_hint :: "nat \<Rightarrow> bool" where
  "should_retry_config_pull_with_hint status \<longleftrightarrow> status = 400 \<or> status = 404"

definition without_server :: "json \<Rightarrow> json" where
  "without_server v = (case v of JObject m \<Rightarrow> JObject (AList.delete ''server'' m) | _ \<Rightarrow> v)"

definition config_pull_answer ::
    "forward_env \<Rightarrow> string \<Rightarrow> string \<Rightarrow> string option \<Rightarrow> (nat \<times> (string + string)) main" where
  "config_pull_answer env url bearer_token camera_hint =
     bindM (getM env url bearer_token None) (\<lambda>(status, body).
       if camera_hint \<noteq> None \<and> should_retry_config_pull_with_hint status
       then getM env url bearer_token camera_hint else returnM (status, body))"

definition try_pull_remote_config ::
    "forward_env \<Rightarrow> string \<Rightarrow> string \<Rightarrow> string option \<Rightarrow> string \<Rightarrow> bool main" where
  "try_pull_remote_config env base_url bearer_token camera_hint camera_path =
     bindM (config_pull_answer env (trim_end_matches (CHR ''/'') base_url @ ''/api/v1/config'') bearer_token camera_hint)
       (\<lambda>(status, body).
     if \<not> (200 \<le> status \<and> status \<le> 299) then
       if is_auth_failure_status status
       then failM (''AGENT_AUTH_FAILED: config pull rejected with '' @ fe_status_text env status
              @ ''. Update local server.json token and retry.'')
       else returnM False
     else
       case body of
         Inl e \<Rightarrow> failM e
       | Inr raw \<Rightarrow>
           (case ce_from_str (fe_config env) raw of
              None \<Rightarrow> failM ''error decoding response body''
            | Some payload \<Rightarrow>
                (case get payload ''config'' of
                   None \<Rightarrow> returnM False
                 | Some config \<Rightarrow>
                     bindM (diskM env (merge_remote_camera_json (fe_config env) camera_path (without_server config)))
                       (\<lambda>_. returnM True))))"

definition ok_or :: "'a \<Rightarrow> string + 'a \<Rightarrow> 'a" where
  "ok_or d r = (case r of Inl _ \<Rightarrow> d | Inr x \<Rightarrow> x)"

definition load_server_value :: "forward_env \<Rightarrow> json main" where
  "load_server_value env =
     bindM (readM am_ov) (\<lambda>ov.
     bindM (attemptM (diskM env (load_server_json (fe_config env) ov DEFAULT_SERVER_CONFIG_PATH))) (\<lambda>r.
     returnM (ok_or (JObject []) r)))"

definition load_camera_value :: "forward_env \<Rightarrow> (string + json) main" where
  "load_camera_value env = attemptM (diskM env (load_camera_json (fe_config env) DEFAULT_CAMERA_CONFIG_PATH))"

text \<open>The merged configuration, or \<open>d\<close> when the address of the server is not acceptable.\<close>

definition merged_config :: "forward_env \<Rightarrow> json \<Rightarrow> json \<Rightarrow> json \<Rightarrow> json main" where
  "merged_config env camera_value server_value d =
     bindM (readM am_ov) (\<lambda>ov.
     bindM (liftM (merge_server_camera_configs (fe_config env) ov camera_value server_value)) (\<lambda>r.
     returnM (case r of Inl _ \<Rightarrow> d | Inr v \<Rightarrow> v)))"

definition apply_runtime_overrides :: "forward_env \<Rightarrow> json \<Rightarrow> unit main" where
  "apply_runtime_overrides env config_value =
     updateM (\<lambda>m. m\<lparr>am_ov := install_runtime_overrides (fe_config env) config_value\<rparr>)"

text \<open>From a camera file to what should run: merge, install the variables, read them.\<close>

definition desired_from :: "forward_env \<Rightarrow> json \<Rightarrow> json \<Rightarrow> (DesiredRuntime option) main" where
  "desired_from env camera_value server_value =
     bindM (merged_config env camera_value server_value camera_value) (\<lambda>config_value.
     bindM (apply_runtime_overrides env config_value) (\<lambda>_.
     bindM (readM am_ov) (\<lambda>ov.
     bindM (liftM (desired_runtime_from_config ov config_value)) (\<lambda>r.
     returnM (case r of Inl _ \<Rightarrow> None | Inr d \<Rightarrow> d)))))"

definition pull_due :: "agent_main \<Rightarrow> bool" where
  "pull_due m \<longleftrightarrow> int (w_now (am_disk m)) - am_last_pull m > int (from_secs (config_pull_interval_secs (am_ov m)))"

definition pull_config :: "forward_env \<Rightarrow> json \<Rightarrow> DesiredRuntime option \<Rightarrow> (DesiredRuntime option) main" where
  "pull_config env server_value desired =
     bindM (readM am_ov) (\<lambda>ov.
     case (agent_var ov ''SERVER_BASE_URL'', agent_var ov ''SERVER_BEARER_TOKEN'') of
       (Some base_url, Some token) \<Rightarrow>
         bindM (attemptM (try_pull_remote_config env base_url token
             (or_else (agent_var ov ''CAMERA_ID'') (agent_var ov ''CAM1_CAMERA_ID'')) DEFAULT_CAMERA_CONFIG_PATH)) (\<lambda>r.
         if r = Inr True then
           bindM (load_camera_value env) (\<lambda>c.
           case c of Inl _ \<Rightarrow> returnM desired | Inr camera_value \<Rightarrow> desired_from env camera_value server_value)
         else returnM desired)
     | _ \<Rightarrow> returnM desired)"

definition stop_runtime :: "AgentRuntime option \<Rightarrow> agent_main \<Rightarrow> agent_main" where
  "stop_runtime r m =
     (case r of
        None \<Rightarrow> m
      | Some r \<Rightarrow> m\<lparr>am_jobs := map (\<lambda>(i, job, running). (job, running \<and> i \<notin> set (ru_tasks r))) (enumerate 0 (am_jobs m))\<rparr>)"

definition spawn_jobs :: "agent_job list \<Rightarrow> agent_main \<Rightarrow> agent_main" where
  "spawn_jobs jobs m = m\<lparr>am_jobs := am_jobs m @ map (\<lambda>j. (j, True)) jobs\<rparr>"

definition needs_restart :: "AgentRuntime option \<Rightarrow> DesiredRuntime \<Rightarrow> bool" where
  "needs_restart r d = (case r of None \<Rightarrow> True | Some r \<Rightarrow> \<not> json_eq (ru_config_value r) (dr_config_value d))"

text \<open>
  The new runtime is started before the old one is stopped. When the start fails the old one goes
  on, and so does what the failed start has spawned.
\<close>

definition reconcile :: "forward_env \<Rightarrow> DesiredRuntime option \<Rightarrow> unit main" where
  "reconcile env desired m =
     (case desired of
        None \<Rightarrow> (Ok (), (stop_runtime (am_runtime m) m)\<lparr>am_runtime := None\<rparr>)
      | Some d \<Rightarrow>
          if \<not> needs_restart (am_runtime m) d then (Ok (), m)
          else
            let (r, jobs) = start_runtime env (am_ov m) d; first = length (am_jobs m); m' = spawn_jobs jobs m in
            case r of
              Ok _ \<Rightarrow>
                (Ok (), (stop_runtime (am_runtime m) m')
                  \<lparr>am_runtime := Some \<lparr>ru_config_value = dr_config_value d, ru_tasks = [first..<first + length jobs]\<rparr>\<rparr>)
            | Err _ \<Rightarrow> (Ok (), m')
            | Panic \<Rightarrow> (Panic, m'))"

definition main_iteration :: "forward_env \<Rightarrow> unit main" where
  "main_iteration env =
     bindM (load_server_value env) (\<lambda>server_value.
     bindM (load_camera_value env) (\<lambda>c.
     bindM (desired_from env (ok_or (JObject []) c) server_value) (\<lambda>desired.
     bindM (readM pull_due) (\<lambda>due.
     bindM (if due then
              bindM (pull_config env server_value desired) (\<lambda>desired.
              bindM (updateM (\<lambda>m. m\<lparr>am_last_pull := int (w_now (am_disk m))\<rparr>)) (\<lambda>_. returnM desired))
            else returnM desired) (\<lambda>desired.
     reconcile env desired)))))"

text \<open>
  Before the loop: both files are read and their variables installed. On an address that is not
  acceptable nothing is kept here, where the loop keeps the camera file.
\<close>

definition main_prologue :: "forward_env \<Rightarrow> unit main" where
  "main_prologue env =
     bindM (load_server_value env) (\<lambda>server_value.
     bindM (load_camera_value env) (\<lambda>c.
     bindM (merged_config env (ok_or (JObject []) c) server_value (JObject [])) (apply_runtime_overrides env)))"

definition main_start :: "world \<Rightarrow> agent_main" where
  "main_start w =
     \<lparr>am_disk = w, am_ov = [], am_requests = [], am_last_pull = int (w_now w) - int (from_secs 120), am_jobs = [],
      am_runtime = None\<rparr>"

text \<open>
  The loop: before each turn, other processes may have changed the disk, and time has passed. It
  ends on a panic or, after the last turn, when the user interrupts it.
\<close>

fun main_loop :: "forward_env \<Rightarrow> (world \<Rightarrow> world) list \<Rightarrow> unit main" where
  "main_loop env [] m = (Ok (), m)"
| "main_loop env (f # fs) m = bindM (main_iteration env) (\<lambda>_. main_loop env fs) (m\<lparr>am_disk := f (am_disk m)\<rparr>)"

definition agent_forward_main :: "forward_env \<Rightarrow> world \<Rightarrow> (world \<Rightarrow> world) list \<Rightarrow> (string, unit) rust \<times> agent_main" where
  "agent_forward_main env w fs = bindM (main_prologue env) (\<lambda>_. main_loop env fs) (main_start w)"

text \<open>The interrupt stops the runtime.\<close>

definition agent_interrupted :: "agent_main \<Rightarrow> agent_main" where
  "agent_interrupted m = (stop_runtime (am_runtime m) m)\<lparr>am_runtime := None\<rparr>"

section \<open>Programs of the main loop that keep something\<close>

definition keepsM :: "(agent_main \<Rightarrow> agent_main \<Rightarrow> bool) \<Rightarrow> 'a main \<Rightarrow> bool" where
  "keepsM R p \<longleftrightarrow> (\<forall>m. R m (snd (p m)))"

lemma keepsMD: "keepsM R p \<Longrightarrow> p m = (r, m') \<Longrightarrow> R m m'"
  by (auto simp: keepsM_def) (metis snd_conv)

lemma main_run [simp]:
  "returnM x m = (Ok x, m)" "failM e m = (Err e, m)" "readM f m = (Ok (f m), m)" "updateM g m = (Ok (), g m)"
  by (simp_all add: returnM_def failM_def readM_def updateM_def)

lemma liftM_state [simp]: "snd (liftM r m) = m"
  by (simp add: liftM_def)

locale main_frame =
  fixes R :: "agent_main \<Rightarrow> agent_main \<Rightarrow> bool"
  assumes refl: "R m m" and trans: "R a b \<Longrightarrow> R b c \<Longrightarrow> R a c"
begin

lemma keeps_pure: "keepsM R (returnM x)" "keepsM R (failM e)" "keepsM R (readM f)" "keepsM R (liftM r)"
  by (simp_all add: keepsM_def refl)

lemma keeps_bind: "keepsM R p \<Longrightarrow> (\<And>x. keepsM R (f x)) \<Longrightarrow> keepsM R (bindM p f)"
  unfolding keepsM_def bindM_def by (auto split: prod.splits rust.splits) (metis snd_conv trans)+

lemma keeps_attempt: "keepsM R p \<Longrightarrow> keepsM R (attemptM p)"
  unfolding keepsM_def attemptM_def by (auto split: prod.splits rust.splits) (metis snd_conv)+

lemma keeps_update: "(\<And>m. R m (f m)) \<Longrightarrow> keepsM R (updateM f)"
  by (simp add: keepsM_def)

text \<open>Everything an iteration does before the runtime is touched, given what disk, requests and clock keep.\<close>

lemma keeps_before_reconcile:
  assumes update: "\<And>m ov. R m (m\<lparr>am_ov := ov\<rparr>)" "\<And>m t. R m (m\<lparr>am_last_pull := t\<rparr>)" "\<And>url tok hint. keepsM R (getM env url tok hint)"
    and disk: "\<And>ov. keepsM R (diskM env (load_server_json (fe_config env) ov DEFAULT_SERVER_CONFIG_PATH))"
      "keepsM R (diskM env (load_camera_json (fe_config env) DEFAULT_CAMERA_CONFIG_PATH))"
      "\<And>v. keepsM R (diskM env (merge_remote_camera_json (fe_config env) DEFAULT_CAMERA_CONFIG_PATH (without_server v)))"
  shows "keepsM R (load_server_value env)" "keepsM R (load_camera_value env)" "keepsM R (merged_config env a b d)"
    "keepsM R (apply_runtime_overrides env v)" "keepsM R (desired_from env a b)" "keepsM R (pull_config env b desired)"
proof -
  note rules = keeps_bind keeps_pure keeps_attempt keeps_update update disk
  show 1: "keepsM R (load_server_value env)" unfolding load_server_value_def by (intro rules)
  show 2: "keepsM R (load_camera_value env)" unfolding load_camera_value_def by (intro rules)
  show 3: "keepsM R (merged_config env a b d)" for a b d unfolding merged_config_def by (intro rules)
  show 4: "keepsM R (apply_runtime_overrides env v)" for v unfolding apply_runtime_overrides_def by (intro rules)
  show 5: "keepsM R (desired_from env a b)" for a b unfolding desired_from_def by (intro rules 3 4)
  have 6: "keepsM R (try_pull_remote_config env base tok hint DEFAULT_CAMERA_CONFIG_PATH)" for base tok hint
    unfolding try_pull_remote_config_def config_pull_answer_def
    by (auto intro!: rules split: sum.splits option.splits prod.splits)
  show "keepsM R (pull_config env b desired)"
    unfolding pull_config_def by (auto intro!: rules 2 5 6 split: option.splits sum.splits)
qed

end

definition same_jobs :: "agent_main \<Rightarrow> agent_main \<Rightarrow> bool" where
  "same_jobs m m' \<longleftrightarrow> am_jobs m' = am_jobs m \<and> am_runtime m' = am_runtime m"

interpretation jobs_frame: main_frame same_jobs
  by unfold_locales (simp_all add: same_jobs_def)

lemma disk_same_jobs: "keepsM same_jobs (diskM env p)" "keepsM same_jobs (getM env url tok hint)"
  by (simp_all add: keepsM_def same_jobs_def diskM_def getM_def Let_def split: prod.splits rust.splits http_answer.splits)

lemmas before_reconcile_jobs =
  jobs_frame.keeps_before_reconcile [where env = env for env, OF _ _ disk_same_jobs(2) disk_same_jobs(1) disk_same_jobs(1) disk_same_jobs(1)]

lemma iteration_splits:
  assumes "main_iteration env m = (Ok (), m')"
  obtains m1 desired where "same_jobs m m1" "reconcile env desired m1 = (Ok (), m')"
proof -
  have jobs: "keepsM same_jobs (load_server_value env)" "keepsM same_jobs (load_camera_value env)"
    "keepsM same_jobs (desired_from env a b)" "keepsM same_jobs (pull_config env b d)" for a b d
    by (rule before_reconcile_jobs; simp add: same_jobs_def)+
  define early where "early =
     bindM (load_server_value env) (\<lambda>server_value.
     bindM (load_camera_value env) (\<lambda>c.
     bindM (desired_from env (ok_or (JObject []) c) server_value) (\<lambda>desired.
     bindM (readM pull_due) (\<lambda>due.
     if due then
       bindM (pull_config env server_value desired) (\<lambda>desired.
       bindM (updateM (\<lambda>m. m\<lparr>am_last_pull := int (w_now (am_disk m))\<rparr>)) (\<lambda>_. returnM desired))
     else returnM desired))))"
  have "keepsM same_jobs early"
    unfolding early_def
    by (auto intro!: jobs_frame.keeps_bind jobs_frame.keeps_pure jobs_frame.keeps_update jobs simp: same_jobs_def)
  moreover have "main_iteration env m = bindM early (reconcile env) m"
    by (auto simp: main_iteration_def early_def bindM_def fun_eq_iff split: prod.splits rust.splits)
  with assms obtain desired m1 where "early m = (Ok desired, m1)" "reconcile env desired m1 = (Ok (), m')"
    by (auto simp: bindM_def split: prod.splits rust.splits)
  ultimately show thesis using that by (auto dest: keepsMD)
qed

section \<open>One runtime at a time\<close>

fun is_heartbeat :: "agent_job \<Rightarrow> bool" where
  "is_heartbeat (HeartbeatJob _ _ _ _ _) = True"
| "is_heartbeat _ = False"

definition running_jobs :: "agent_main \<Rightarrow> agent_job list" where
  "running_jobs m = map fst (filter snd (am_jobs m))"

definition streaming_jobs :: "agent_main \<Rightarrow> agent_job list" where
  "streaming_jobs m = filter (\<lambda>j. \<not> is_heartbeat j) (running_jobs m)"

text \<open>A task that has been stopped, or the heartbeat of a start that failed.\<close>

definition left_over :: "agent_job \<times> bool \<Rightarrow> bool" where
  "left_over j \<longleftrightarrow> (snd j \<longrightarrow> is_heartbeat (fst j))"

definition owns :: "forward_env \<Rightarrow> AgentRuntime \<Rightarrow> agent_job list \<Rightarrow> bool" where
  "owns env r jobs \<longleftrightarrow> (\<exists>ov d. start_runtime env ov d = (Ok (), jobs) \<and> ru_config_value r = dr_config_value d)"

definition one_runtime :: "forward_env \<Rightarrow> agent_main \<Rightarrow> bool" where
  "one_runtime env m \<longleftrightarrow>
     (case am_runtime m of
        None \<Rightarrow> list_all left_over (am_jobs m)
      | Some r \<Rightarrow>
          \<exists>pre cur post. am_jobs m = pre @ map (\<lambda>j. (j, True)) cur @ post
            \<and> ru_tasks r = [length pre..<length pre + length cur]
            \<and> list_all left_over pre \<and> list_all left_over post \<and> owns env r cur)"

lemma one_runtime_same: "same_jobs m m' \<Longrightarrow> one_runtime env m \<Longrightarrow> one_runtime env m'"
  by (cases "am_runtime m") (simp_all add: same_jobs_def one_runtime_def)

lemma one_runtime_SomeI:
  "am_runtime m = Some r \<Longrightarrow> am_jobs m = pre @ map (\<lambda>j. (j, True)) cur @ post \<Longrightarrow>
     ru_tasks r = [length pre..<length pre + length cur] \<Longrightarrow> list_all left_over pre \<Longrightarrow> list_all left_over post \<Longrightarrow>
     owns env r cur \<Longrightarrow> one_runtime env m"
  by (auto simp: one_runtime_def)

lemma one_runtime_SomeE:
  assumes "one_runtime env m" "am_runtime m = Some r"
  obtains pre cur post where "am_jobs m = pre @ map (\<lambda>j. (j, True)) cur @ post"
    "ru_tasks r = [length pre..<length pre + length cur]" "list_all left_over pre" "list_all left_over post" "owns env r cur"
  using assms by (auto simp: one_runtime_def)

lemma start_failed_jobs: "start_runtime env ov d = (Err e, jobs) \<Longrightarrow> list_all is_heartbeat jobs"
  by (auto simp: start_runtime_def heartbeat_jobs_def motion_merge_window_def Let_def
      split: rust.splits if_splits)

lemma stopped_jobs:
  "map (\<lambda>(i, job, running). (job, running \<and> i \<notin> set [length pre..<length pre + length cur]))
       (enumerate 0 (pre @ map (\<lambda>j. (j, True)) cur @ post))
   = pre @ map (\<lambda>j. (j, False)) cur @ post"
  by (rule nth_equalityI) (auto simp: nth_enumerate_eq nth_append split: prod.splits)

lemma stop_left_over:
  assumes "one_runtime env m"
  shows "list_all left_over (am_jobs (stop_runtime (am_runtime m) m))"
proof (cases "am_runtime m")
  case None
  with assms show ?thesis by (simp add: one_runtime_def stop_runtime_def)
next
  case (Some r)
  with assms obtain pre cur post where "am_jobs m = pre @ map (\<lambda>j. (j, True)) cur @ post"
    "ru_tasks r = [length pre..<length pre + length cur]" "list_all left_over pre" "list_all left_over post"
    by (rule one_runtime_SomeE)
  with Some stopped_jobs [of pre cur post] show ?thesis
    by (auto simp: stop_runtime_def left_over_def list_all_iff simp del: set_upt)
qed

lemma stop_runtime_runtime [simp]: "am_runtime (stop_runtime r m) = am_runtime m"
  by (simp add: stop_runtime_def split: option.splits)

lemma stopped_app:
  assumes "one_runtime env m" "am_runtime m = Some r"
  shows "am_jobs (stop_runtime (Some r) (spawn_jobs jobs m))
    = am_jobs (stop_runtime (Some r) m) @ map (\<lambda>j. (j, True)) jobs"
proof -
  from assms obtain pre cur post where *: "am_jobs m = pre @ map (\<lambda>j. (j, True)) cur @ post"
    "ru_tasks r = [length pre..<length pre + length cur]" by (auto simp: one_runtime_def)
  then show ?thesis
    using stopped_jobs [of pre cur "post @ map (\<lambda>j. (j, True)) jobs"] stopped_jobs [of pre cur post]
    by (simp add: stop_runtime_def spawn_jobs_def del: set_upt)
qed

lemma reconcile_one_runtime:
  assumes inv: "one_runtime env m" and run: "reconcile env desired m = (Ok (), m')"
  shows "one_runtime env m'"
proof (cases desired)
  case None
  with run stop_left_over [OF inv] show ?thesis by (auto simp: reconcile_def one_runtime_def)
next
  case (Some d)
  show ?thesis
  proof (cases "needs_restart (am_runtime m) d")
    case True
    obtain r jobs where start: "start_runtime env (am_ov m) d = (r, jobs)" by fastforce
    show ?thesis
    proof (cases r)
      case (Ok x)
      have "am_jobs (stop_runtime (am_runtime m) (spawn_jobs jobs m))
          = am_jobs (stop_runtime (am_runtime m) m) @ map (\<lambda>j. (j, True)) jobs"
        using stopped_app [OF inv] by (cases "am_runtime m") (simp_all add: stop_runtime_def spawn_jobs_def)
      moreover have "length (am_jobs (stop_runtime (am_runtime m) m)) = length (am_jobs m)"
        by (simp add: stop_runtime_def split: option.splits)
      ultimately show ?thesis
        using True Some run start Ok stop_left_over [OF inv]
        by (intro one_runtime_SomeI [of _ "\<lparr>ru_config_value = dr_config_value d,
              ru_tasks = [length (am_jobs m)..<length (am_jobs m) + length jobs]\<rparr>"
              "am_jobs (stop_runtime (am_runtime m) m)" jobs "[]"])
           (auto simp: reconcile_def owns_def Let_def)
    next
      case (Err e)
      from start_failed_jobs [of env "am_ov m" d e jobs] start Err
      have failed: "list_all left_over (map (\<lambda>j. (j, True)) jobs)" by (simp add: list_all_iff left_over_def)
      from True Some run start Err have m': "m' = spawn_jobs jobs m" by (simp add: reconcile_def)
      show ?thesis
      proof (cases "am_runtime m")
        case None
        with failed m' inv show ?thesis by (simp add: one_runtime_def spawn_jobs_def)
      next
        case (Some r')
        with inv obtain pre cur post where "am_jobs m = pre @ map (\<lambda>j. (j, True)) cur @ post"
          "ru_tasks r' = [length pre..<length pre + length cur]" "list_all left_over pre" "list_all left_over post" "owns env r' cur"
          by (rule one_runtime_SomeE)
        with Some failed m' show ?thesis
          by (intro one_runtime_SomeI [of _ r' pre cur "post @ map (\<lambda>j. (j, True)) jobs"]) (simp_all add: spawn_jobs_def)
      qed
    qed (use True Some run start in \<open>simp add: reconcile_def\<close>)
  qed (use Some run inv in \<open>simp add: reconcile_def\<close>)
qed

lemma iteration_one_runtime:
  assumes "one_runtime env m" "main_iteration env m = (Ok (), m')"
  shows "one_runtime env m'"
proof -
  obtain m1 desired where "same_jobs m m1" "reconcile env desired m1 = (Ok (), m')"
    using assms(2) by (rule iteration_splits)
  with assms(1) show ?thesis by (blast intro: one_runtime_same reconcile_one_runtime)
qed

lemma loop_one_runtime:
  "one_runtime env m \<Longrightarrow> main_loop env fs m = (Ok (), m') \<Longrightarrow> one_runtime env m'"
proof (induction fs arbitrary: m)
  case (Cons f fs)
  let ?m = "m\<lparr>am_disk := f (am_disk m)\<rparr>"
  from Cons.prems(2) obtain m1 where "main_iteration env ?m = (Ok (), m1)" "main_loop env fs m1 = (Ok (), m')"
    by (auto simp: bindM_def split: prod.splits rust.splits)
  moreover have "one_runtime env ?m" by (rule one_runtime_same [OF _ Cons.prems(1)]) (simp add: same_jobs_def)
  ultimately show ?case using Cons.IH iteration_one_runtime by blast
qed simp

lemma agent_one_runtime:
  assumes "agent_forward_main env w fs = (Ok (), m)"
  shows "one_runtime env m"
proof -
  have "keepsM same_jobs (main_prologue env)"
    unfolding main_prologue_def
    by (auto intro!: jobs_frame.keeps_bind before_reconcile_jobs simp: same_jobs_def)
  from assms obtain m1 where m1: "main_prologue env (main_start w) = (Ok (), m1)" "main_loop env fs m1 = (Ok (), m)"
    by (auto simp: agent_forward_main_def bindM_def split: prod.splits rust.splits)
  with \<open>keepsM _ _\<close> have "one_runtime env m1"
    by (auto dest!: keepsMD simp: same_jobs_def one_runtime_def main_start_def)
  from this m1(2) show ?thesis by (rule loop_one_runtime)
qed

lemma left_over_streaming: "list_all left_over js \<Longrightarrow> filter (\<lambda>j. \<not> is_heartbeat j) (map fst (filter snd js)) = []"
  by (auto simp: list_all_iff left_over_def filter_empty_conv)

lemma streaming_of_started:
  assumes "start_runtime env ov d = (Ok (), jobs)"
  shows "\<exists>token window. filter (\<lambda>j. \<not> is_heartbeat j) jobs
      = UplinkJob (dr_server_addr d) (runtime_uplink_config env ov d token) # map CameraJob (dr_cams d)
        @ [MotionJob (snd (build_stream_maps (dr_cams d))) window, MotionPollerJob, NightVisionJob, MotionRegionJob]
    \<and> dr_cams d \<noteq> [] \<and> list_all (\<lambda>cam. cc_agent_token cam = token) (dr_cams d)"
  using assms
  by (auto simp: start_runtime_def heartbeat_jobs_def shared_token_def Let_def filter_map comp_def list_ex_iff list_all_iff
      split: rust.splits if_splits list.splits)

text \<open>A configuration that has not changed keeps the runtime.\<close>

lemma json_eq_refl: "json_ok v \<Longrightarrow> json_eq v v"
proof (induction v)
  case (JArray xs)
  then show ?case by (simp add: list_all_iff list.rel_refl_strong)
next
  case (JObject m)
  have "case map_of m k of None \<Rightarrow> False | Some v' \<Rightarrow> json_eq v v'" if kv: "(k, v) \<in> set m" for k v
  proof -
    from JObject.prems kv have "map_of m k = Some v" by simp
    moreover from JObject.prems kv have "json_ok v" by (auto simp: list_all_iff)
    moreover have "json_ok v \<Longrightarrow> json_eq v v" by (rule JObject.IH [OF kv]) simp_all
    ultimately show ?thesis by simp
  qed
  then show ?case by (auto simp: list_all_iff)
qed simp_all

lemma unchanged_config_keeps_runtime:
  assumes "am_runtime m = Some r" "json_ok (dr_config_value d)" "ru_config_value r = dr_config_value d"
  shows "reconcile env (Some d) m = (Ok (), m)"
  using assms by (simp add: reconcile_def needs_restart_def json_eq_refl)

section \<open>What the agent writes\<close>

text \<open>
  Without I/O faults: the server file is left as it is, and the camera file either stays or becomes
  the text of a value with the same \<open>server\<close> entry.
\<close>

definition server_kept :: "agent_main \<Rightarrow> agent_main \<Rightarrow> bool" where
  "server_kept m m' \<longleftrightarrow>
     (w_faults (am_disk m) = [] \<longrightarrow>
        w_faults (am_disk m') = []
        \<and> (\<forall>d. file_data DEFAULT_SERVER_CONFIG_PATH (am_disk m) = Some d \<longrightarrow>
                file_data DEFAULT_SERVER_CONFIG_PATH (am_disk m') = Some d))"

interpretation server_frame: main_frame server_kept
  by unfold_locales (auto simp: server_kept_def)

lemma disk_server_kept:
  assumes "\<And>w. w_faults w = [] \<Longrightarrow> w_faults (snd (p w)) = []
    \<and> (\<forall>d. file_data DEFAULT_SERVER_CONFIG_PATH w = Some d \<longrightarrow> file_data DEFAULT_SERVER_CONFIG_PATH (snd (p w)) = Some d)"
  shows "keepsM server_kept (diskM env p)"
  unfolding keepsM_def
proof
  fix m :: agent_main
  obtain r w where "p (am_disk m) = (r, w)" by fastforce
  with assms [of "am_disk m"] show "server_kept m (snd (diskM env p m))"
    by (cases r) (simp_all add: server_kept_def diskM_def)
qed

lemma paths_differ: "DEFAULT_SERVER_CONFIG_PATH \<noteq> DEFAULT_CAMERA_CONFIG_PATH"
  by (simp add: DEFAULT_SERVER_CONFIG_PATH_def DEFAULT_CAMERA_CONFIG_PATH_def)

lemma faultless_calls:
  assumes "w_faults w = []"
  shows "fs_metadata path w = (case map_of (w_files w) path of None \<Rightarrow> (Err (NotFound path), w) | Some x \<Rightarrow> (Ok x, w))"
    "write_json_file env path v w = (Ok (), put_file path (pretty_or_empty env v) w)"
  using assms by (simp_all add: fs_metadata_def write_json_file_def fs_create_dir_all_def fs_write_def bindIO_Ok)

lemma read_to_string_world: "w_faults w = [] \<Longrightarrow> snd (read_to_string path w) = w"
  by (simp add: read_to_string_def bindIO_cases faultless_calls split: option.splits)

lemma load_existing:
  assumes "w_faults w = []" "map_of (w_files w) path = Some f"
  shows "load_json_value_with_default env path d w
    = (case read_to_string path w of
         (Ok raw, w) \<Rightarrow> (Ok (unwrap_or (ce_from_str env raw) (JObject [])), w) | (Err e, w) \<Rightarrow> (Err e, w) | (Panic, w) \<Rightarrow> (Panic, w))"
  using assms
  by (cases "read_to_string path w")
     (simp add: load_json_value_with_default_def bindIO_cases attemptIO_def faultless_calls Let_def split: rust.splits)

lemma load_missing:
  assumes "w_faults w = []" "map_of (w_files w) path = None"
  shows "snd (load_json_value_with_default env path d w) = put_file path (pretty_or_empty env d) w"
proof -
  let ?w = "put_file path (pretty_or_empty env d) w"
  obtain r w' where "read_to_string path ?w = (r, w')" by fastforce
  moreover from this read_to_string_world [of ?w path] assms(1) have "w' = ?w" by simp
  ultimately show ?thesis
    using assms by (cases r) (simp_all add: load_json_value_with_default_def bindIO_cases attemptIO_def faultless_calls Let_def)
qed

lemma load_world:
  assumes "w_faults w = []"
  shows "snd (load_json_value_with_default env path d w) = w
    \<or> (file_data path w = None \<and> snd (load_json_value_with_default env path d w) = put_file path (pretty_or_empty env d) w)"
proof (cases "map_of (w_files w) path")
  case (Some f)
  obtain r w' where "read_to_string path w = (r, w')" by fastforce
  with load_existing [OF assms Some] read_to_string_world [OF assms, of path] show ?thesis by (cases r) simp_all
qed (use load_missing [OF assms] in \<open>simp add: file_data_def\<close>)

lemma load_server_kept:
  "keepsM server_kept (diskM env (load_server_json (fe_config env) ov DEFAULT_SERVER_CONFIG_PATH))"
proof (rule disk_server_kept)
  fix w :: world
  assume f: "w_faults w = []"
  have "snd (load_server_json (fe_config env) ov DEFAULT_SERVER_CONFIG_PATH w)
      = snd (load_json_value_with_default (fe_config env) DEFAULT_SERVER_CONFIG_PATH default_server_json w)"
    by (simp add: load_server_json_def bindIO_cases split: prod.splits rust.splits)
  with load_world [OF f, of "fe_config env" DEFAULT_SERVER_CONFIG_PATH default_server_json] f
  show "w_faults (snd (load_server_json (fe_config env) ov DEFAULT_SERVER_CONFIG_PATH w)) = []
    \<and> (\<forall>d. file_data DEFAULT_SERVER_CONFIG_PATH w = Some d \<longrightarrow>
        file_data DEFAULT_SERVER_CONFIG_PATH (snd (load_server_json (fe_config env) ov DEFAULT_SERVER_CONFIG_PATH w)) = Some d)"
    by auto
qed

lemma load_camera_kept:
  "keepsM server_kept (diskM env (load_camera_json (fe_config env) DEFAULT_CAMERA_CONFIG_PATH))"
  using load_world [of _ "fe_config env" DEFAULT_CAMERA_CONFIG_PATH default_camera_json] paths_differ
  by (intro disk_server_kept) (auto simp: load_camera_json_def, metis put_file_simps(1), metis put_file_simps(5))

text \<open>What a pull writes over the camera file.\<close>

definition pulled_over :: "json \<Rightarrow> json \<Rightarrow> json" where
  "pulled_over current update =
     (if has_canonical_cameras update
      then merge_value (strip_top_level_legacy_camera_fields current) (strip_top_level_legacy_camera_fields update)
      else merge_value current update)"

lemma merge_remote_result:
  assumes "w_faults w = []" "load_json_value_with_default env path default_camera_json w = (Ok v, w1)"
  shows "merge_remote_camera_json env path u w = (Ok (), put_file path (pretty_or_empty env (pulled_over v u)) w1)"
proof -
  have "w_faults w1 = []" using load_world [OF assms(1), of env path default_camera_json] assms by auto
  with assms(2) show ?thesis
    by (simp add: merge_remote_camera_json_def bindIO_cases faultless_calls pulled_over_def Let_def)
qed

lemma merge_remote_world:
  assumes "w_faults w = []"
  shows "snd (merge_remote_camera_json env path u w) = snd (load_json_value_with_default env path default_camera_json w)
    \<or> (\<exists>v. snd (merge_remote_camera_json env path u w)
         = put_file path (pretty_or_empty env (pulled_over v u)) (snd (load_json_value_with_default env path default_camera_json w)))"
proof (cases "load_json_value_with_default env path default_camera_json w")
  case (Pair r w1)
  with merge_remote_result [OF assms, of env path _ w1 u] show ?thesis
    by (cases r) (auto simp: merge_remote_camera_json_def bindIO_cases)
qed

lemma merge_remote_kept:
  "keepsM server_kept (diskM env (merge_remote_camera_json (fe_config env) DEFAULT_CAMERA_CONFIG_PATH u))"
proof (rule disk_server_kept)
  fix w :: world
  assume f: "w_faults w = []"
  from load_world [OF f, of "fe_config env" DEFAULT_CAMERA_CONFIG_PATH default_camera_json] paths_differ f
  have l: "w_faults (snd (load_json_value_with_default (fe_config env) DEFAULT_CAMERA_CONFIG_PATH default_camera_json w)) = []"
    "file_data DEFAULT_SERVER_CONFIG_PATH (snd (load_json_value_with_default (fe_config env) DEFAULT_CAMERA_CONFIG_PATH default_camera_json w))
      = file_data DEFAULT_SERVER_CONFIG_PATH w" by auto
  with merge_remote_world [OF f, of "fe_config env" DEFAULT_CAMERA_CONFIG_PATH u] paths_differ
  show "w_faults (snd (merge_remote_camera_json (fe_config env) DEFAULT_CAMERA_CONFIG_PATH u w)) = []
    \<and> (\<forall>d. file_data DEFAULT_SERVER_CONFIG_PATH w = Some d \<longrightarrow>
        file_data DEFAULT_SERVER_CONFIG_PATH (snd (merge_remote_camera_json (fe_config env) DEFAULT_CAMERA_CONFIG_PATH u w)) = Some d)"
    by auto
qed

lemma strip_keeps_server: "get (strip_top_level_legacy_camera_fields v) ''server'' = get v ''server''"
proof (cases v)
  case (JObject m)
  have "to_lowercase ''server'' \<notin> set legacy_keys" by code_simp
  then have "map_of (filter (\<lambda>(key, _). to_lowercase key \<notin> set legacy_keys) m) ''server'' = map_of m ''server''"
    by (induction m) auto
  with JObject show ?thesis by (simp add: strip_top_level_legacy_camera_fields_def get_def)
qed (simp_all add: strip_top_level_legacy_camera_fields_def)

lemma json_ok_without_server: "json_ok v \<Longrightarrow> json_ok (without_server v)"
  by (cases v) (auto simp: without_server_def list_all_iff AList.delete_eq distinct_map_filter)

lemma json_ok_strip: "json_ok v \<Longrightarrow> json_ok (strip_top_level_legacy_camera_fields v)"
  by (cases v) (auto simp: strip_top_level_legacy_camera_fields_def list_all_iff distinct_map_filter)

lemma merge_keeps_server:
  assumes "json_ok u" "get u ''server'' = None" "u = JObject us"
  shows "get (merge_value v u) ''server'' = get v ''server''"
  using merge_unmentioned [OF assms(1), of "[''server'']" v] assms(2,3) by (simp add: get_def split: option.splits)

lemma pulled_over_server:
  assumes "json_ok (JObject us)"
  shows "get (pulled_over v (without_server (JObject us))) ''server'' = get v ''server''"
proof -
  let ?u = "without_server (JObject us)"
  have u: "json_ok ?u" "get ?u ''server'' = None" "\<exists>us. ?u = JObject us"
    using json_ok_without_server [OF assms] by (auto simp: without_server_def get_def AList.delete_conv)
  let ?s = "strip_top_level_legacy_camera_fields ?u"
  from u have s: "json_ok ?s" "get ?s ''server'' = None" "\<exists>us. ?s = JObject us"
    by (auto simp: json_ok_strip strip_keeps_server, simp add: strip_top_level_legacy_camera_fields_def)
  from u s have "get (merge_value x ?u) ''server'' = get x ''server''" "get (merge_value x ?s) ''server'' = get x ''server''" for x
    by (blast intro: merge_keeps_server)+
  then show ?thesis by (simp add: pulled_over_def strip_keeps_server)
qed

lemma getM_disk: "am_disk (snd (getM env url tok hint m)) = am_disk m"
  by (simp add: getM_def Let_def split: http_answer.splits)

lemma pull_answer_disk: "config_pull_answer env url tok hint m = (r, m1) \<Longrightarrow> am_disk m1 = am_disk m"
  using getM_disk [of env url tok None m] getM_disk [of env url tok hint]
  by (auto simp: config_pull_answer_def bindM_def split: prod.splits rust.splits if_splits) (metis snd_conv)+

definition answers_objects :: "forward_env \<Rightarrow> bool" where
  "answers_objects env \<longleftrightarrow>
     (\<forall>raw payload c. ce_from_str (fe_config env) raw = Some payload \<and> get payload ''config'' = Some c \<longrightarrow>
        json_ok c \<and> (\<exists>us. c = JObject us))"

lemma merge_remote_camera_file:
  assumes "w_faults w = []" "map_of (w_files w) path = Some f" "json_ok (JObject us)"
  shows "let w' = snd (merge_remote_camera_json env path (without_server (JObject us)) w) in
    w' = w \<or> (\<exists>v'. w' = put_file path (pretty_or_empty env v') w
      \<and> get v' ''server'' = get (unwrap_or (ce_from_str env (to_str (f_data f))) (JObject [])) ''server'')"
proof -
  obtain r w1 where rd: "read_to_string path w = (r, w1)" by fastforce
  with read_to_string_world [OF assms(1), of path] have w1: "w1 = w" by simp
  show ?thesis
  proof (cases r)
    case (Ok raw)
    with rd w1 assms(1,2) have raw: "raw = to_str (f_data f)"
      by (auto simp: read_to_string_def bindIO_cases faultless_calls split: if_splits)
    from merge_remote_result [OF assms(1), of env path _ w "without_server (JObject us)"]
      load_existing [OF assms(1,2), of env default_camera_json] rd Ok w1 raw pulled_over_server [OF assms(3)]
    show ?thesis by (auto simp: Let_def)
  qed (use load_existing [OF assms(1,2), of env default_camera_json] rd w1 in
        \<open>simp_all add: merge_remote_camera_json_def bindIO_cases\<close>)
qed

section \<open>The cameras of a runtime\<close>

definition camera_in_range :: "CamConfig \<Rightarrow> bool" where
  "camera_in_range cam \<longleftrightarrow>
     cc_stream_id cam \<le> u32_max \<and> cc_rtp_port cam < u16_max \<and> cc_rtcp_port cam \<le> u16_max
     \<and> unat (stream_of cam) = cc_stream_id cam \<and> to_lowercase (cc_transport cam) = cc_transport cam"

lemma ascii_lower_idem: "ascii_lower (ascii_lower c) = ascii_lower c"
  by (auto simp: ascii_lower_def Let_def)

lemma loaded_port:
  "unwrap_or (Option.bind v (parse_uint 65535)) d \<le> 65535" if "d \<le> 65535"
  using that by (cases "Option.bind v (parse_uint 65535)") (auto simp: unwrap_or_def bind_eq_Some_conv dest: parse_uint_bound)

lemma load_camera_in_range:
  assumes "load_camera var i = Ok (Some cam)"
  shows "camera_in_range cam \<and> cc_name cam = ''cam'' @ show_nat i"
proof -
  have word: "unat (of_nat n :: u32) = n" if "n \<le> 4294967295" for n using that by (simp add: unat_of_nat)
  from assms show ?thesis
    by (auto simp: load_camera_def Let_def camera_in_range_def u32_max_def u16_max_def stream_of_def to_lowercase_def
        ascii_lower_idem word dest!: parse_uint_bound split: option.splits if_splits intro!: loaded_port)
qed

lemma load_cameras_in_range:
  "load_cameras var is = Ok cams \<Longrightarrow> length cams \<le> length is \<and> list_all camera_in_range cams
     \<and> (\<exists>js. subseq js is \<and> map cc_name cams = map (\<lambda>i. ''cam'' @ show_nat i) js)"
proof (induction "is" arbitrary: cams)
  case (Cons i "is")
  from Cons.prems obtain c cs where c: "load_camera var i = Ok c" "load_cameras var is = Ok cs"
    "cams = (case c of None \<Rightarrow> cs | Some c \<Rightarrow> c # cs)" by (auto simp: bindR_eq_Ok_iff)
  from Cons.IH [OF c(2)] obtain js where js: "length cs \<le> length is" "list_all camera_in_range cs" "subseq js is"
    "map cc_name cs = map (\<lambda>i. ''cam'' @ show_nat i) js" by blast
  show ?case
  proof (cases c)
    case None
    with c js show ?thesis by (auto intro: exI [of _ js])
  next
    case (Some cam)
    with c js load_camera_in_range [of var i cam] show ?thesis by (auto intro!: exI [of _ "i # js"])
  qed
qed simp

section \<open>A sample agent\<close>

definition sample_server_value :: json where
  "sample_server_value = JObject [(''server'', JObject [(''bearer_token'', JString ''t'')])]"

definition sample_camera_value :: json where
  "sample_camera_value =
     JObject [(''forward_agent'', JObject [(''server_addr'', JString ''s'')]),
       (''cameras'', JArray [JObject [(''id'', JString ''c''),
          (''rtsp'', JObject [(''url'', JString ''u''), (''stream_id'', JNumber (PosInt 7))])]])]"

definition sample_from_str :: "string \<Rightarrow> json option" where
  "sample_from_str raw =
     (if raw = ''s'' then Some sample_server_value else if raw = ''c'' then Some sample_camera_value
      else if raw = ''p'' then Some (JObject [(''config'', JObject [(''server'', JNull), (''logging'', JNull)])]) else None)"

definition sample_forward_env :: forward_env where
  "sample_forward_env =
     \<lparr>fe_config = sample_config_env\<lparr>ce_from_str := sample_from_str, ce_to_string_pretty := \<lambda>_. Some ''c''\<rparr>,
      fe_get = (\<lambda>_. Response 200 (Inr ''p'')), fe_status_text = (\<lambda>_. ''status''), fe_io_text = (\<lambda>_. ''io''), fe_hash_order = id\<rparr>"

definition sample_disk :: world where
  "sample_disk =
     put_file DEFAULT_SERVER_CONFIG_PATH (as_bytes ''s'') (put_file DEFAULT_CAMERA_CONFIG_PATH (as_bytes ''c'') empty_world)"

definition sample_merged :: json where
  "sample_merged =
     (case sample_camera_value of
        JObject m \<Rightarrow> JObject (AList.update ''server'' (JObject [(''bearer_token'', JString ''t'')]) m) | v \<Rightarrow> v)"

definition sample_ov :: overrides where
  "sample_ov = install_runtime_overrides (fe_config sample_forward_env) sample_merged"

lemma sample_no_base_url: "agent_var sample_ov ''SERVER_BASE_URL'' = None"
  by code_simp

lemma sample_desired:
  obtains d jobs where "desired_runtime_from_config sample_ov sample_merged = Ok (Some d)" "map cc_stream_id (dr_cams d) = [7]"
    "start_runtime sample_forward_env sample_ov d = (Ok (), jobs)" "length jobs = 6"
proof -
  have "case desired_runtime_from_config sample_ov sample_merged of
      Ok (Some d) \<Rightarrow> map cc_stream_id (dr_cams d) = [7]
        \<and> fst (start_runtime sample_forward_env sample_ov d) = Ok ()
        \<and> length (snd (start_runtime sample_forward_env sample_ov d)) = 6
    | _ \<Rightarrow> False"
    by code_simp
  with that show thesis by (auto split: rust.splits option.splits simp: prod_eq_iff)
qed

lemma sample_files:
  "w_faults sample_disk = []"
  "map_of (w_files sample_disk) DEFAULT_SERVER_CONFIG_PATH = Some \<lparr>f_data = as_bytes ''s'', f_mtime = w_utc sample_disk\<rparr>"
  "map_of (w_files sample_disk) DEFAULT_CAMERA_CONFIG_PATH = Some \<lparr>f_data = as_bytes ''c'', f_mtime = w_utc sample_disk\<rparr>"
  "utf8_lossy (as_bytes ''s'') = as_bytes ''s''" "utf8_lossy (as_bytes ''c'') = as_bytes ''c''"
  "to_str (as_bytes ''s'') = ''s''" "to_str (as_bytes ''c'') = ''c''"
  by code_simp+

lemma sample_loads:
  assumes "am_disk m = sample_disk"
  shows "load_server_value sample_forward_env m = (Ok sample_server_value, m)"
    "load_camera_value sample_forward_env m = (Ok (Inr sample_camera_value), m)"
  using assms sample_files
  by (simp_all add: load_server_value_def load_camera_value_def bindM_def attemptM_def diskM_def load_server_json_def
      load_camera_json_def bindIO_cases load_existing read_to_string_def faultless_calls sample_forward_env_def
      sample_from_str_def validate_server_base_url_in_config_value_def sample_server_value_def get_def get_str_def
      nonblank_def ok_or_def unwrap_or_def)

lemma sample_merges:
  "merge_server_camera_configs (fe_config sample_forward_env) ov sample_camera_value sample_server_value = Ok sample_merged"
  by (simp add: merge_server_camera_configs_def validate_server_base_url_in_config_value_def sample_server_value_def
      sample_merged_def get_def get_str_def nonblank_def sample_camera_value_def)

lemma sample_prologue:
  "main_prologue sample_forward_env (main_start sample_disk) = (Ok (), (main_start sample_disk)\<lparr>am_ov := sample_ov\<rparr>)"
  by (simp add: main_prologue_def bindM_def sample_loads main_start_def merged_config_def liftM_def sample_merges
      apply_runtime_overrides_def ok_or_def sample_ov_def)

lemma sample_turn:
  assumes "am_disk m = sample_disk" "am_ov m = sample_ov" "am_runtime m = None" "am_jobs m = []"
  shows "\<exists>r m'. main_iteration sample_forward_env m = (Ok (), m') \<and> am_runtime m' = Some r \<and> length (running_jobs m') = 6"
proof -
  obtain d jobs where d: "desired_runtime_from_config sample_ov sample_merged = Ok (Some d)"
    "start_runtime sample_forward_env sample_ov d = (Ok (), jobs)" "length jobs = 6" by (rule sample_desired)
  have same: "m\<lparr>am_ov := sample_ov\<rparr> = m" using assms(2) by simp
  have "desired_from sample_forward_env sample_camera_value sample_server_value m = (Ok (Some d), m)"
    using d same by (simp add: desired_from_def merged_config_def bindM_def liftM_def sample_merges apply_runtime_overrides_def
        sample_ov_def [symmetric] assms)
  moreover have "pull_config sample_forward_env v desired m = (Ok desired, m)" for v desired
    using assms by (simp add: pull_config_def bindM_def sample_no_base_url)
  ultimately show ?thesis
    using assms d
    by (simp add: main_iteration_def bindM_def sample_loads ok_or_def reconcile_def needs_restart_def stop_runtime_def
        spawn_jobs_def running_jobs_def comp_def)
qed

section \<open>Properties\<close>






definition sample_mixed_runtime :: DesiredRuntime where
  "sample_mixed_runtime =
     \<lparr>dr_server_addr = ''s'', dr_cams = [sample_cam, sample_cam\<lparr>cc_agent_token := ''other''\<rparr>], dr_config_value = JNull\<rparr>"

definition sample_online :: agent_main where
  "sample_online = (main_start sample_disk)\<lparr>am_ov := [(''SERVER_BASE_URL'', ''https://s''), (''SERVER_BEARER_TOKEN'', ''t'')]\<rparr>"


text \<open>
  C26. The runtime is well typed. A configuration that gives a runtime gives between one and four
  cameras, with names of distinct slots, stream ids that fit the \<open>u32\<close> of the protocol, ports that
  fit \<open>u16\<close> with room for RTCP, and a transport in lower case.
\<close>

theorem desired_runtime_typed:
  assumes "desired_runtime_from_config ov v = Ok (Some d)"
  shows "dr_cams d \<noteq> [] \<and> length (dr_cams d) \<le> 4 \<and> list_all camera_in_range (dr_cams d)
    \<and> (\<exists>js. subseq js [1, 2, 3, 4] \<and> map cc_name (dr_cams d) = map (\<lambda>i. ''cam'' @ show_nat i) js)
    \<and> dr_config_value d = v \<and> agent_var ov ''SERVER_ADDR'' = Some (dr_server_addr d)"
proof -
  from assms obtain cams where cams: "load_cameras (runtime_var ov) [1, 2, 3, 4] = Ok cams" "cams \<noteq> []" "dr_cams d = cams"
    "dr_config_value d = v" "agent_var ov ''SERVER_ADDR'' = Some (dr_server_addr d)"
    by (auto simp: desired_runtime_from_config_def load_cameras_from_env_def bindR_eq_Ok_iff split: option.splits if_splits)
  with load_cameras_in_range [OF cams(1)] show ?thesis by auto
qed

theorem desired_runtime_typed_witness:
  "\<exists>d. desired_runtime_from_config sample_ov sample_merged = Ok (Some d) \<and> map cc_stream_id (dr_cams d) = [7]
    \<and> length (dr_cams d) \<le> 4 \<and> list_all camera_in_range (dr_cams d)"
proof -
  obtain d where d: "desired_runtime_from_config sample_ov sample_merged = Ok (Some d)" "map cc_stream_id (dr_cams d) = [7]"
    by (rule sample_desired)
  with desired_runtime_typed [OF d(1)] show ?thesis by (intro exI [of _ d]) simp
qed

text \<open>The agent never writes the server file once it is there, whatever it pulls.\<close>

theorem agent_keeps_server_file:
  assumes "w_faults (am_disk m) = []" "file_data DEFAULT_SERVER_CONFIG_PATH (am_disk m) = Some d"
  shows "file_data DEFAULT_SERVER_CONFIG_PATH (am_disk (snd (main_iteration env m))) = Some d"
proof -
  have get: "keepsM server_kept (getM env url tok hint)" for url tok hint
    using getM_disk by (simp add: keepsM_def server_kept_def)
  note steps = server_frame.keeps_before_reconcile [OF _ _ get load_server_kept load_camera_kept merge_remote_kept]
  have early: "keepsM server_kept (load_server_value env)" "keepsM server_kept (load_camera_value env)"
    "keepsM server_kept (desired_from env a b)" "keepsM server_kept (pull_config env b x)" for a b x
    by (rule steps; simp add: server_kept_def)+
  have "keepsM server_kept (reconcile env x)" for x
    by (auto simp: keepsM_def server_kept_def reconcile_def stop_runtime_def spawn_jobs_def Let_def
        split: option.splits prod.splits rust.splits)
  then have "keepsM server_kept (main_iteration env)"
    unfolding main_iteration_def
    by (auto intro!: server_frame.keeps_bind server_frame.keeps_pure server_frame.keeps_update early simp: server_kept_def)
  with assms show ?thesis by (auto simp: keepsM_def server_kept_def)
qed

theorem agent_keeps_server_file_witness:
  "file_data DEFAULT_SERVER_CONFIG_PATH (am_disk (snd (main_iteration sample_forward_env (main_start sample_disk)))) = Some (as_bytes ''s'')"
  by (rule agent_keeps_server_file) (use sample_files in \<open>simp_all add: main_start_def file_data_def\<close>)

section \<open>Probing a camera for the server\<close>

text \<open>
  C28. The report of a probe job accounts for every request to the camera that failed. Run with the probe
  of \<open>OnvifProbe\<close>, the job posts one report for its camera. It says \<^verbatim>\<open>succeeded\<close> when the device
  service answered, and its service errors, read as SOAP actions, are then the requests that failed, in
  the order sent. It says \<^verbatim>\<open>failed\<close>, with the error and no report, when one of the three requests to
  the device service failed, and that is then the only request that did.
\<close>

theorem probe_job_reports_failures:
  "\<exists>payload. fst (execute_probe_job (env\<lparr>ag_probe := \<lambda>_ c. probe_outcome penv c w\<rparr>) job cam started_at m aw)
       = Posting (ProbeReport (Some (pc_camera_id cam))) payload 0 0
     \<and> (let failed = (\<lambda>w. failed_actions (po_soap penv) (sw_sent w)) in
        case run_onvif_capability_probe penv cam w of
          (Inr rep, w') \<Rightarrow>
            get payload ''status'' = Some (JString ''succeeded'')
            \<and> Option.bind (get payload ''report'') (\<lambda>r. get r ''service_errors'')
                = Some (JArray (map OnvifServiceError_json (pr_service_errors rep)))
            \<and> failed w' = failed w @ map error_action (pr_service_errors rep)
        | (Inl e, w') \<Rightarrow>
            get payload ''status'' = Some (JString ''failed'') \<and> get payload ''error'' = Some (JString (error_text e))
            \<and> get payload ''report'' = Some JNull
            \<and> (\<exists>op. op \<in> set [''GetDeviceInformation'', ''GetServices'', ''GetCapabilities'']
                 \<and> failed w' = failed w @ [Some (quoted (probe_action DEVICE_NAMESPACE op))]))"
proof -
  obtain r w' where run: "run_onvif_capability_probe penv cam w = (r, w')" by fastforce
  from probe_traces [of penv w cam] show ?thesis
    by (cases r)
      (simp_all add: run traces_def Let_def execute_probe_job_def probe_outcome_def probe_payload_def get_def
        json_of_option_def OnvifProbeReport_json_def)
qed

end
