(* ===== verification/Spec2Isabelle.thy ===== *)
theory Spec2Isabelle
  imports Prelude Proto Rtp H264 Text Sdp Rtsp Receivers Events Storage Clip ClipRecorder MpegTs Pipeline LiveV2 Uplink Utils Config
    Soap OnvifMotion OnvifRegion OnvifNight Ingest ServerClient Heartbeat CameraSession OnvifProbe AgentForward
begin

text \<open>
  A verification library for the Sentinel video receiver (\<^verbatim>\<open>src/sentinel_rtp_cam/src\<close>): an agent
  that pulls H.264 over RTSP from cameras, records clips around motion events and forwards RTP to
  an ingest server, and the server that turns the forwarded packets into clips and live segments.
  File names below are relative to that directory.

  \<^bold>\<open>How the parts interact.\<close> A receiver (\<^verbatim>\<open>rtsp/\<close>) negotiates a session and reads RTP packets,
  interleaved on the RTSP connection or from a UDP socket. \<^verbatim>\<open>core/rtp.rs\<close> parses them,
  \<^verbatim>\<open>core/h264_depacketize.rs\<close> rebuilds NAL units and \<^verbatim>\<open>core/h264_sync.rs\<close> holds them back until a
  decoder can start. The clip recorder (\<^verbatim>\<open>core/clip_recorder.rs\<close>) consumes NAL units and motion
  states from \<^verbatim>\<open>event/event_bus.rs\<close> and writes files through \<^verbatim>\<open>core/clip_writer.rs\<close>. Motion events come
  from a poller of each camera (\<^verbatim>\<open>onvif/onvif_motion.rs\<close>). On the server, \<^verbatim>\<open>bin/server_ingest.rs\<close>
  keeps one pipeline for each stream:
  the messages of \<^verbatim>\<open>proto.rs\<close> and \<^verbatim>\<open>agent_uplink.rs\<close> reach \<^verbatim>\<open>server_pipeline.rs\<close> (clips) and
  \<^verbatim>\<open>live/v2.rs\<close> (HLS), which run the same depacketizer and gate. The agent itself is
  \<^verbatim>\<open>bin/agent_forward.rs\<close>: it loads and pulls its configuration, starts and stops a runtime, and in the
  runtime a supervisor restarts the session of each camera, whose packets go to the uplink.

  \<^bold>\<open>Theories.\<close>

  \<^item> \<open>Prelude\<close>: machine integers, the result type \<open>rust\<close> (\<open>Ok\<close>, \<open>Err\<close>, \<open>Panic\<close>), byte order,
    saturating arithmetic, time in nanoseconds, and the lemmas the components share.
  \<^item> \<open>Proto\<close> (\<^verbatim>\<open>proto.rs\<close>, the record framing of \<^verbatim>\<open>agent_uplink.rs\<close>): message framing; what is
    written is read back, also from a stream of messages, and truncation is an error.
  \<^item> \<open>Rtp\<close> (\<^verbatim>\<open>core/rtp.rs\<close>, \<^verbatim>\<open>core/rtp_refactored.rs\<close>): both parsers byte for byte; they agree, they
    do not panic on any input, and a serialized packet is parsed back.
  \<^item> \<open>H264\<close> (\<^verbatim>\<open>core/h264_depacketize.rs\<close>, \<^verbatim>\<open>core/h264_sync.rs\<close>, \<^verbatim>\<open>core/video.rs\<close>): reassembly of single
    NAL units, STAP-A and FU-A, and the gate; the locale of the depacketizer contract is what the
    receivers and pipelines rely on.
  \<^item> \<open>Text\<close>, \<open>Sdp\<close>, \<open>Rtsp\<close> (\<^verbatim>\<open>core/sdp.rs\<close>, \<^verbatim>\<open>rtsp/rtsp.rs\<close>, \<^verbatim>\<open>rtsp/interleaved.rs\<close>): the string functions of
    the standard library the code uses, the SDP video track, requests, responses read from a
    connection that delivers arbitrary chunks, and interleaved frames.
  \<^item> \<open>Receivers\<close> (\<^verbatim>\<open>rtsp/rtsp_receiver_tcp.rs\<close>, \<^verbatim>\<open>rtsp/rtsp_receiver_udp.rs\<close>): handshakes, receive
    loops, source validation and watchdog; what a receiver emits is decodable from its start and
    after every loss.
  \<^item> \<open>Events\<close> (\<^verbatim>\<open>event/event_bus.rs\<close>, \<^verbatim>\<open>motion_event_latch.rs\<close>, \<^verbatim>\<open>forward_agent.rs\<close>, the motion task of
    \<^verbatim>\<open>bin/agent_forward.rs\<close>): the bus, motion states, and the latch that gives one motion period
    one event id, refined from a two-phase specification.
  \<^item> \<open>Storage\<close>: files as an association list, a schedule of faults consumed by the calls, clocks,
    \<open>BufWriter\<close>, the event loop, and a small Hoare logic: \<open>ensures\<close> (the call succeeds with) and
    \<open>ends\<close> (success and failure post-conditions, no panic). The locale \<open>reliable_loop\<close> is the
    contract between handlers and the loop that runs them.
  \<^item> \<open>Clip\<close>, \<open>ClipRecorder\<close> (\<^verbatim>\<open>core/clip_writer.rs\<close>, \<^verbatim>\<open>core/clip_recorder.rs\<close>): batched writing that
    loses nothing, the recorder state machine, its timing, and retention.
  \<^item> \<open>Pipeline\<close> (\<^verbatim>\<open>server_pipeline.rs\<close>): access units, the ring of recent units, clips with retry,
    the health file; a clip holds parameter sets, the ring from its last IDR and every later unit.
  \<^item> \<open>MpegTs\<close>, \<open>LiveV2\<close> (\<^verbatim>\<open>live/v2.rs\<close>): the transport stream writer against a demultiplexer, atomic
    publication, segments, playlist, session pointer and retention; the published playlist names
    only files that exist, for every schedule of faults.
  \<^item> \<open>Uplink\<close> (\<^verbatim>\<open>agent_uplink.rs\<close>): payloads, the greeting, and the connection task as a state machine
    over its channels; what is written is what was queued, in order, and a restart of the server
    is survived.
  \<^item> \<open>Utils\<close> (\<^verbatim>\<open>utils/retry_helper.rs\<close>, \<^verbatim>\<open>utils/disk_cleanup.rs\<close>): retry with back-off, and the removal of
    the oldest clips until enough space is free.
  \<^item> \<open>Config\<close> (\<^verbatim>\<open>config/agent_config.rs\<close>): JSON values and their merge, files with defaults, validation
    of the server address, and the table of runtime variables; cameras do not mix.
  \<^item> \<open>Soap\<close>, \<open>OnvifMotion\<close> (\<^verbatim>\<open>onvif/onvif_motion.rs\<close>): escaping, WS-Security header and envelopes, SOAP
    exchanges as a state monad over the requests sent, subscriptions with retry, and the polling
    loop of a camera; every end of motion carries the id of the motion it ends.
  \<^item> \<open>OnvifRegion\<close>, \<open>OnvifNight\<close> (\<^verbatim>\<open>onvif/onvif_motion_region.rs\<close>, \<^verbatim>\<open>onvif/onvif_night_vision.rs\<close>): service
    discovery, the search for and rewriting of a polygon in the XML tree the camera sent, the
    imaging settings, and the synchronisation of all cameras; a success means that the
    camera's own rule came back with exactly its polygon replaced, and was accepted.
  \<^item> \<open>Ingest\<close> (\<^verbatim>\<open>bin/server_ingest.rs\<close>): the greeting, the token, dispatch to pipelines, and the steps
    of connections and pipeline tasks in every interleaving; what is sent for one stream reaches
    the pipeline of that stream, in order.
  \<^item> \<open>ServerClient\<close>, \<open>Heartbeat\<close> (\<^verbatim>\<open>server/server_client.rs\<close>): telemetry, HTTP requests with fallback paths,
    restart, shutdown and firmware jobs, the manager of ONVIF probes, and the heartbeat loop as phases
    between which the tasks it started take steps. The locale \<open>agent_frame\<close> gives the rules for what calls
    leave unchanged; its interpretations show that a restart and an update are not repeated, that
    reports are kept until the server accepts them, and that only the server is spoken to.
  \<^item> \<open>CameraSession\<close> (\<^verbatim>\<open>bin/agent_forward.rs\<close>, \<^verbatim>\<open>forward_agent.rs\<close>): a session with a camera over UDP or TCP, the
    supervisor that restarts it with growing pauses, and the offline tracker. The locale
    \<open>session_runner\<close> is what the supervisor needs of a session; the tracker refines a log of outages.
    Sessions lose nothing silently, and the supervisor never gives up.
  \<^item> \<open>OnvifProbe\<close> (\<^verbatim>\<open>onvif/onvif_probe.rs\<close>): the cameras to probe, the readers of the answers as folds over
    XML events, the requests in order with the errors they leave, and the report as JSON. The failures
    on the wire are the errors of the report, the services listed are read back, and a region is
    called supported only for a rule with points.
  \<^item> \<open>AgentForward\<close> (\<^verbatim>\<open>bin/agent_forward.rs\<close>): settings, the runtime a configuration asks for, starting and
    stopping its tasks, the pull of a remote configuration, and the main loop as a state monad over
    disk, tasks and clock. The locale \<open>main_frame\<close> gives the rules for what a turn of the loop keeps;
    its interpretations show that one runtime runs at a time and that a pull cannot change the server.

  \<^bold>\<open>Conventions.\<close> A Rust \<open>Result\<close> is a value of \<open>rust\<close>; \<open>Panic\<close> is a third outcome, and theorems
  that a routine returns exclude it. Counters that saturate do so in the model; \<open>usize\<close> and \<open>u64\<close>
  values are naturals, sequence numbers, time stamps and bytes are words that wrap. A \<open>select!\<close>
  loop is a fold over the sequence of events it handles, each with the times it reads; theorems
  quantify over all sequences, so over all interleavings. Every recursion terminates, so no fuel
  is needed. Disk errors are a list of faults, one for each file system call; theorems quantify
  over all lists, or assume the empty one where the claim is about a working disk.

  \<^bold>\<open>Parameters.\<close> Base64, SHA-1, JSON, XML text (its events, its tree and writing a tree), the answers
  of an HTTP server, the firmware updater, time formatting, random ids, DNS, environment variables and the decimal
  rendering of floats are arguments of the definitions that use them.

  \<^bold>\<open>Not modelled.\<close> The event logger, which only prints; the tools \<^verbatim>\<open>bin/dummy_server.rs\<close> and
  \<^verbatim>\<open>bin/onvif_motion_pull.rs\<close>, and the sample agent for TLS, which are programs for manual tests; and
  building an HTTP client, which is taken to succeed. Logging has no effect on the model, and
  directories are not part of the storage.
\<close>

end
